(* ===== verification/Prelude.thy ===== *)
theory Prelude
  imports Main "HOL-Library.List_Lexorder" "HOL-Library.Char_ord" "HOL-Library.Multiset"
    "HOL-Library.Sublist"
begin

text \<open>
  Shared vocabulary of the development: the model of the JavaScript values and standard-library
  operations that the packages use (strings, stable sorting, insertion-ordered maps and sets,
  fallible results) and the generic lemmas about them.

  A string is a list of 8-bit characters, read as the UTF-8 bytes of the JavaScript string.
  The byte order agrees with the UTF-16 order the source compares with, except between characters
  outside the Basic Multilingual Plane and the range U+E000..U+FFFF.
  Letter-case conversion is modelled for ASCII letters.
\<close>

named_theorems js_defs \<open>definitions of the standard-library operations\<close>
named_theorems result_simps \<open>rules for the result type\<close>

section \<open>Results\<close>

text \<open>
  A computation that may throw returns \<open>'e + 'a\<close>: \<open>Inl\<close> is the thrown error,
  \<open>Inr\<close> the value.
\<close>

definition bind_result :: "'e + 'a \<Rightarrow> ('a \<Rightarrow> 'e + 'b) \<Rightarrow> 'e + 'b" where
  "bind_result r f = (case r of Inl e \<Rightarrow> Inl e | Inr a \<Rightarrow> f a)"

lemma bind_result_simps [simp, result_simps]:
  "bind_result (Inl e) f = Inl e"
  "bind_result (Inr a) f = f a"
  by (simp_all add: bind_result_def)

lemma bind_result_Inr_iff [result_simps]:
  "bind_result r f = Inr b \<longleftrightarrow> (\<exists>a. r = Inr a \<and> f a = Inr b)"
  by (cases r) auto

lemma bind_result_Inl_iff [result_simps]:
  "bind_result r f = Inl e \<longleftrightarrow> r = Inl e \<or> (\<exists>a. r = Inr a \<and> f a = Inl e)"
  by (cases r) auto

text \<open>The first error of a list of results, or all their values.\<close>

fun collect :: "('e + 'a) list \<Rightarrow> 'e + 'a list" where
  "collect [] = Inr []"
| "collect (r # rs) = bind_result r (\<lambda>a. bind_result (collect rs) (\<lambda>as. Inr (a # as)))"

lemma collect_Inr_iff: "collect rs = Inr as \<longleftrightarrow> rs = map Inr as"
  by (induction rs arbitrary: as) (auto simp: bind_result_Inr_iff map_eq_Cons_conv Cons_eq_map_conv)

lemma collect_map_Inr [simp]: "collect (map (\<lambda>x. Inr (f x)) xs) = Inr (map f xs)"
  by (induction xs) auto

text \<open>A loop whose body updates a state and may throw.\<close>

fun foldM :: "('a \<Rightarrow> 's \<Rightarrow> 'e + 's) \<Rightarrow> 'a list \<Rightarrow> 's \<Rightarrow> 'e + 's" where
  "foldM f [] s = Inr s"
| "foldM f (x # xs) s = bind_result (f x s) (foldM f xs)"

lemma foldM_append: "foldM f (xs @ ys) s = bind_result (foldM f xs s) (foldM f ys)"
proof (induction xs arbitrary: s)
  case Nil
  show ?case by simp
next
  case (Cons x xs)
  then show ?case by (cases "f x s") simp_all
qed

lemma foldM_invariant:
  "foldM f xs s = Inr t \<Longrightarrow> P s \<Longrightarrow> (\<And>x s s'. x \<in> set xs \<Longrightarrow> P s \<Longrightarrow> f x s = Inr s' \<Longrightarrow> P s') \<Longrightarrow> P t"
proof (induction xs arbitrary: s)
  case Nil
  then show ?case by simp
next
  case (Cons x xs)
  from Cons.prems(1) obtain u where u: "f x s = Inr u" "foldM f xs u = Inr t"
    by (cases "f x s") auto
  show ?case
  proof (rule Cons.IH [OF u(2)])
    show "P u" using Cons.prems(2,3) u(1) by (meson list.set_intros(1))
  qed (use Cons.prems(3) in auto)
qed

definition is_ok :: "'e + 'a \<Rightarrow> bool" where
  "is_ok r = (case r of Inl _ \<Rightarrow> False | Inr _ \<Rightarrow> True)"

lemma is_ok_simps [simp]: "is_ok (Inr a)" "\<not> is_ok (Inl e)"
  by (simp_all add: is_ok_def)

lemma collect_map_Inr_id [simp]: "collect (map Inr xs) = Inr xs"
  using collect_map_Inr [of "\<lambda>x. x" xs] by simp

lemma map_Inr_all_ok: "map f xs = map Inr ys \<Longrightarrow> x \<in> set xs \<Longrightarrow> is_ok (f x)"
  by (induction xs arbitrary: ys) (auto simp: Cons_eq_map_conv)

section \<open>Options\<close>

text \<open>\<open>a ?? b\<close>\<close>

definition coalesce :: "'a option \<Rightarrow> 'a \<Rightarrow> 'a" where
  "coalesce x d = (case x of None \<Rightarrow> d | Some a \<Rightarrow> a)"

lemma coalesce_simps [simp]: "coalesce None d = d" "coalesce (Some a) d = a"
  by (simp_all add: coalesce_def)

text \<open>\<open>a ?? b\<close> where \<open>b\<close> may be undefined again.\<close>

definition or_else :: "'a option \<Rightarrow> 'a option \<Rightarrow> 'a option" where
  "or_else x y = (case x of None \<Rightarrow> y | Some a \<Rightarrow> Some a)"

lemma or_else_simps [simp]: "or_else None y = y" "or_else (Some a) y = Some a"
  by (simp_all add: or_else_def)

lemma or_else_None_iff: "or_else x y = None \<longleftrightarrow> x = None \<and> y = None"
  by (cases x) auto

text \<open>An optional string is truthy when it is present and not empty.\<close>

definition truthy :: "string option \<Rightarrow> bool" where
  "truthy x = (case x of None \<Rightarrow> False | Some s \<Rightarrow> s \<noteq> [])"

lemma truthy_simps [simp]: "\<not> truthy None" "truthy (Some s) \<longleftrightarrow> s \<noteq> []"
  by (simp_all add: truthy_def)

section \<open>Strings\<close>

definition starts_with :: "string \<Rightarrow> string \<Rightarrow> bool" where
  "starts_with s p \<longleftrightarrow> take (length p) s = p"

lemma starts_with_append [simp]: "starts_with (p @ s) p"
  by (simp add: starts_with_def)

lemma starts_with_iff: "starts_with s p \<longleftrightarrow> (\<exists>r. s = p @ r)"
  unfolding starts_with_def by (metis append_take_drop_id append_eq_conv_conj)

text \<open>\<open>indexOf\<close> of one character.\<close>

fun index_of :: "char \<Rightarrow> string \<Rightarrow> nat option" where
  "index_of c [] = None"
| "index_of c (x # xs) = (if x = c then Some 0 else map_option Suc (index_of c xs))"

lemma index_of_None: "index_of c s = None \<longleftrightarrow> c \<notin> set s"
  by (induction s) auto

lemma index_of_append: "c \<notin> set a \<Longrightarrow> index_of c (a @ c # b) = Some (length a)"
  by (induction a) auto

lemma index_of_Some: "index_of c s = Some i \<Longrightarrow> s = take i s @ c # drop (Suc i) s \<and> c \<notin> set (take i s)"
  by (induction s arbitrary: i) (auto split: if_splits)

text \<open>The part after the last occurrence of a character; the whole string if there is none.\<close>

definition after_last :: "char \<Rightarrow> string \<Rightarrow> string" where
  "after_last c s = rev (takeWhile (\<lambda>x. x \<noteq> c) (rev s))"

lemma after_last_notin: "c \<notin> set s \<Longrightarrow> after_last c s = s"
  unfolding after_last_def by (subst takeWhile_eq_all_conv [THEN iffD2]) auto

lemma after_last_append: "c \<notin> set b \<Longrightarrow> after_last c (a @ c # b) = b"
  by (simp add: after_last_def) (subst takeWhile_append2; auto)

lemma after_last_no_sep: "c \<notin> set (after_last c s)"
  by (auto simp: after_last_def dest: set_takeWhileD)

lemma after_last_idem [simp]: "after_last c (after_last c s) = after_last c s"
  by (rule after_last_notin) (rule after_last_no_sep)

text \<open>\<open>split\<close> at one character.\<close>

fun split_on :: "char \<Rightarrow> string \<Rightarrow> string list" where
  "split_on c [] = [[]]"
| "split_on c (x # xs) =
     (if x = c then [] # split_on c xs
      else (case split_on c xs of [] \<Rightarrow> [[x]] | y # ys \<Rightarrow> (x # y) # ys))"

lemma split_on_ne [simp]: "split_on c s \<noteq> []"
  by (induction s) (auto split: list.splits)

lemma split_on_notin: "c \<notin> set s \<Longrightarrow> split_on c s = [s]"
  by (induction s) auto

lemma split_on_append: "c \<notin> set a \<Longrightarrow> split_on c (a @ c # b) = a # split_on c b"
  by (induction a) auto

lemma hd_split_on: "hd (split_on c s) = takeWhile (\<lambda>x. x \<noteq> c) s"
proof (induction s)
  case Nil
  show ?case by simp
next
  case (Cons x xs)
  then show ?case by (cases "split_on c xs") auto
qed

text \<open>\<open>join\<close>.\<close>

fun join :: "string \<Rightarrow> string list \<Rightarrow> string" where
  "join sep [] = []"
| "join sep [x] = x"
| "join sep (x # y # ys) = x @ sep @ join sep (y # ys)"

lemma split_on_join: "ls \<noteq> [] \<Longrightarrow> list_all (\<lambda>l. c \<notin> set l) ls \<Longrightarrow> split_on c (join [c] ls) = ls"
  by (induction "[c]" ls rule: join.induct) (auto simp: split_on_append split_on_notin)

lemma join_split_on: "join [c] (split_on c s) = s"
proof (induction s)
  case Nil
  show ?case by simp
next
  case (Cons x xs)
  obtain y ys where "split_on c xs = y # ys" by (cases "split_on c xs") auto
  with Cons.IH show ?case by (cases ys) auto
qed

text \<open>\<open>toLowerCase\<close> and \<open>toUpperCase\<close> on ASCII letters.\<close>

definition lower_char :: "char \<Rightarrow> char" where
  "lower_char c = (let n = of_char c :: nat in if 65 \<le> n \<and> n \<le> 90 then char_of (n + 32) else c)"

definition upper_char :: "char \<Rightarrow> char" where
  "upper_char c = (let n = of_char c :: nat in if 97 \<le> n \<and> n \<le> 122 then char_of (n - 32) else c)"

definition to_lower :: "string \<Rightarrow> string" where
  "to_lower s = map lower_char s"

lemma lower_char_idem [simp]: "lower_char (lower_char c) = lower_char c"
  by (auto simp: lower_char_def Let_def)

lemma to_lower_idem [simp]: "to_lower (to_lower s) = to_lower s"
  by (simp add: to_lower_def)

definition is_digit :: "char \<Rightarrow> bool" where
  "is_digit c = (let n = of_char c :: nat in 48 \<le> n \<and> n \<le> 57)"

definition is_lower :: "char \<Rightarrow> bool" where
  "is_lower c = (let n = of_char c :: nat in 97 \<le> n \<and> n \<le> 122)"

definition is_upper :: "char \<Rightarrow> bool" where
  "is_upper c = (let n = of_char c :: nat in 65 \<le> n \<and> n \<le> 90)"

text \<open>Substring search, as \<open>includes\<close> and as an unanchored literal in a regular expression.\<close>

fun contains_str :: "string \<Rightarrow> string \<Rightarrow> bool" where
  "contains_str [] p = (p = [])"
| "contains_str (x # xs) p = (starts_with (x # xs) p \<or> contains_str xs p)"

lemma contains_str_iff: "contains_str s p \<longleftrightarrow> (\<exists>a b. s = a @ p @ b)"
proof (induction s)
  case Nil
  show ?case by simp
next
  case (Cons x xs)
  show ?case
    by (auto simp: starts_with_iff Cons.IH Cons_eq_append_conv)
qed

subsection \<open>Decimal numerals\<close>

fun show_nat :: "nat \<Rightarrow> string" where
  "show_nat n = (if n < 10 then [char_of (48 + n)] else show_nat (n div 10) @ [char_of (48 + n mod 10)])"

declare show_nat.simps [simp del]

definition show_int :: "int \<Rightarrow> string" where
  "show_int i = (if i < 0 then CHR ''-'' # show_nat (nat (- i)) else show_nat (nat i))"

fun read_nat :: "nat \<Rightarrow> string \<Rightarrow> nat" where
  "read_nat acc [] = acc"
| "read_nat acc (c # cs) = read_nat (10 * acc + (of_char c - 48)) cs"

lemma read_nat_append: "read_nat acc (xs @ ys) = read_nat (read_nat acc xs) ys"
  by (induction xs arbitrary: acc) auto

lemma read_show_nat [simp]: "read_nat 0 (show_nat n) = n"
proof (induction n rule: show_nat.induct)
  case (1 n)
  show ?case
  proof (cases "n < 10")
    case True
    then show ?thesis by (subst show_nat.simps) (simp add: of_char_of)
  next
    case False
    with 1 show ?thesis by (subst show_nat.simps) (simp add: of_char_of read_nat_append)
  qed
qed

lemma show_nat_inj: "show_nat m = show_nat n \<Longrightarrow> m = n"
  by (metis read_show_nat)

lemma show_nat_digits: "list_all is_digit (show_nat n)"
proof (induction n rule: show_nat.induct)
  case (1 n)
  show ?case
  proof (cases "n < 10")
    case True
    then show ?thesis by (subst show_nat.simps) (simp add: is_digit_def of_char_of)
  next
    case False
    then have "n mod 10 \<le> 9" by simp
    with False 1 show ?thesis by (subst show_nat.simps) (simp add: is_digit_def [of "char_of _"] of_char_of)
  qed
qed

lemma show_nat_ne [simp]: "show_nat n \<noteq> []"
  by (subst show_nat.simps) simp

section \<open>Sorting\<close>

text \<open>
  \<open>Array.prototype.sort\<close> is stable, and so is \<open>sort_key\<close>. The source sorts strings by
  the default comparator, or records by a comparator on one string key.
\<close>

lemma sort_key_unique:
  assumes "mset xs = mset ys" and "inj_on f (set xs)"
  shows "sort_key f xs = sort_key f ys"
proof -
  have s: "set xs = set ys" using assms(1) by (rule mset_eq_setD)
  have "map f (sort_key f xs) = map f (sort_key f ys)"
    by (rule properties_for_sort [symmetric, THEN trans [OF _ properties_for_sort], of _ "map f xs"])
       (simp_all add: assms(1))
  moreover have "inj_on f (set (sort_key f xs) \<union> set (sort_key f ys))"
    using assms(2) s by simp
  ultimately show ?thesis by (rule map_inj_on)
qed

lemma mset_concat_map: "mset (concat (map f xs)) = (\<Sum>x\<in>#mset xs. mset (f x))"
  by (induction xs) simp_all

lemma mset_concat_map_cong: "mset xs = mset ys \<Longrightarrow> mset (concat (map f xs)) = mset (concat (map f ys))"
  by (simp only: mset_concat_map)

lemma distinct_of_map: "distinct (map f xs) \<Longrightarrow> distinct xs"
  by (simp add: distinct_map)

lemma sort_unique: "mset xs = mset ys \<Longrightarrow> sort xs = sort (ys :: 'a :: linorder list)"
  by (rule sort_key_unique) auto

lemma sort_sorted_id: "sorted (map f xs) \<Longrightarrow> sort_key f xs = xs"
  by (simp add: sort_key_id_if_sorted)

lemma sort_key_idem [simp]: "sort_key f (sort_key f xs) = sort_key f xs"
  by (rule sort_sorted_id) simp

lemma filter_sort_key: "filter P (sort_key f xs) = sort_key f (filter P xs)"
  by (rule filter_sort)

section \<open>Insertion-ordered sets\<close>

text \<open>A \<open>Set\<close> is the duplicate-free list of its elements in insertion order.\<close>

definition set_add :: "'a \<Rightarrow> 'a list \<Rightarrow> 'a list" where
  "set_add x xs = (if x \<in> set xs then xs else xs @ [x])"

definition set_add_all :: "'a list \<Rightarrow> 'a list \<Rightarrow> 'a list" where
  "set_add_all xs s = fold set_add xs s"

text \<open>\<open>new Set(xs)\<close>\<close>

definition set_of :: "'a list \<Rightarrow> 'a list" where
  "set_of xs = set_add_all xs []"

lemma set_set_add [simp]: "set (set_add x xs) = insert x (set xs)"
  by (auto simp: set_add_def)

lemma distinct_set_add [simp]: "distinct (set_add x xs) = distinct xs"
  by (auto simp: set_add_def)

lemma set_add_all_simps [simp]:
  "set_add_all [] s = s" "set_add_all (x # xs) s = set_add_all xs (set_add x s)"
  by (simp_all add: set_add_all_def)

lemma set_add_all_append: "set_add_all (xs @ ys) s = set_add_all ys (set_add_all xs s)"
  by (simp add: set_add_all_def)

lemma set_set_add_all [simp]: "set (set_add_all xs s) = set xs \<union> set s"
  by (induction xs arbitrary: s) auto

lemma distinct_set_add_all [simp]: "distinct (set_add_all xs s) = distinct s"
  by (induction xs arbitrary: s) auto

lemma set_set_of [simp]: "set (set_of xs) = set xs"
  by (simp add: set_of_def)

lemma distinct_set_of [simp]: "distinct (set_of xs)"
  by (simp add: set_of_def)

lemma mset_set_of_cong: "set xs = set ys \<Longrightarrow> mset (set_of xs) = mset (set_of ys)"
  by (simp add: set_eq_iff_mset_eq_distinct [symmetric])

lemma sort_set_of_cong: "set xs = set ys \<Longrightarrow> sort (set_of xs) = sort (set_of ys :: 'a :: linorder list)"
  by (intro sort_unique mset_set_of_cong)

lemma length_set_of: "length (set_of xs) = card (set xs)"
  by (metis distinct_card distinct_set_of set_set_of)

section \<open>Insertion-ordered maps\<close>

text \<open>
  A \<open>Map\<close> is an association list in insertion order; \<open>set\<close> of a known key keeps
  its place.
\<close>

fun map_put :: "'k \<Rightarrow> 'v \<Rightarrow> ('k \<times> 'v) list \<Rightarrow> ('k \<times> 'v) list" where
  "map_put k v [] = [(k, v)]"
| "map_put k v ((a, b) # ps) = (if a = k then (a, v) # ps else (a, b) # map_put k v ps)"

definition map_del :: "'k \<Rightarrow> ('k \<times> 'v) list \<Rightarrow> ('k \<times> 'v) list" where
  "map_del k ps = filter (\<lambda>p. fst p \<noteq> k) ps"

text \<open>The interface the clients of a keyed store rely on.\<close>

locale keyed_store =
  fixes empty :: 's
    and put :: "'k \<Rightarrow> 'v \<Rightarrow> 's \<Rightarrow> 's"
    and get :: "'s \<Rightarrow> 'k \<Rightarrow> 'v option"
    and keys :: "'s \<Rightarrow> 'k list"
  assumes get_empty: "get empty k = None"
    and get_put: "get (put k v s) k' = (if k' = k then Some v else get s k')"
    and keys_empty: "keys empty = []"
    and keys_put: "keys (put k v s) = set_add k (keys s)"
    and get_None: "get s k = None \<longleftrightarrow> k \<notin> set (keys s)"
begin

lemma get_put_same: "get (put k v s) k = Some v"
  by (simp add: get_put)

lemma get_put_other: "k' \<noteq> k \<Longrightarrow> get (put k v s) k' = get s k'"
  by (simp add: get_put)

lemma distinct_keys_put: "distinct (keys s) \<Longrightarrow> distinct (keys (put k v s))"
  by (simp add: keys_put)

lemma put_put_other: "k \<noteq> k' \<Longrightarrow> get (put k v (put k' v' s)) = get (put k' v' (put k v s))"
  by (auto simp: get_put)

lemma keys_put_all: "keys (fold (\<lambda>p. put (fst p) (snd p)) ps s) = set_add_all (map fst ps) (keys s)"
  by (induction ps arbitrary: s) (auto simp: keys_put)

lemma get_put_all:
  "get (fold (\<lambda>p. put (fst p) (snd p)) ps s) k =
    (case map_of (rev ps) k of None \<Rightarrow> get s k | Some v \<Rightarrow> Some v)"
  by (induction ps arbitrary: s) (auto simp: get_put map_add_def split: option.splits)

end

lemma map_of_map_put: "map_of (map_put k v ps) k' = (if k' = k then Some v else map_of ps k')"
  by (induction k v ps rule: map_put.induct) auto

lemma keys_map_put: "map fst (map_put k v ps) = set_add k (map fst ps)"
  by (induction k v ps rule: map_put.induct) (auto simp: set_add_def)

lemma map_of_None_keys: "map_of ps k = None \<longleftrightarrow> k \<notin> set (map fst ps)"
  by (induction ps) auto

interpretation js_map: keyed_store "[]" map_put map_of "map fst"
  by unfold_locales (simp_all only: map_of_map_put keys_map_put map_of_None_keys map_of.simps list.map)

lemma map_of_map_del: "map_of (map_del k ps) k' = (if k' = k then None else map_of ps k')"
  by (induction ps) (auto simp: map_del_def)

lemma distinct_map_del: "distinct (map fst ps) \<Longrightarrow> distinct (map fst (map_del k ps))"
  by (induction ps) (auto simp: map_del_def)

lemma map_put_ne [simp]: "map_put k v ps \<noteq> []"
  by (cases "(k, v, ps)" rule: map_put.cases) auto

text \<open>\<open>new Map(entries)\<close>\<close>

definition entries_map :: "('k \<times> 'v) list \<Rightarrow> ('k \<times> 'v) list" where
  "entries_map ps = fold (\<lambda>p. map_put (fst p) (snd p)) ps []"

lemma map_put_new: "k \<notin> fst ` set ps \<Longrightarrow> map_put k v ps = ps @ [(k, v)]"
  by (induction k v ps rule: map_put.induct) auto

lemma fold_map_put_new:
  "distinct (map fst ps) \<Longrightarrow> fst ` set ps \<inter> fst ` set qs = {} \<Longrightarrow>
     fold (\<lambda>p. map_put (fst p) (snd p)) ps qs = qs @ ps"
  by (induction ps arbitrary: qs) (auto simp: map_put_new)

lemma entries_map_distinct: "distinct (map fst ps) \<Longrightarrow> entries_map ps = ps"
  by (simp add: entries_map_def fold_map_put_new)

text \<open>\<open>const list = m.get(k) ?? []; list.push(x); m.set(k, list)\<close>\<close>

definition multi_add :: "'k \<Rightarrow> 'v \<Rightarrow> ('k \<times> 'v list) list \<Rightarrow> ('k \<times> 'v list) list" where
  "multi_add k x m = map_put k (coalesce (map_of m k) [] @ [x]) m"

definition multi_of :: "('k \<times> 'v) list \<Rightarrow> ('k \<times> 'v list) list" where
  "multi_of ps = fold (\<lambda>p. multi_add (fst p) (snd p)) ps []"

lemma multi_add_all_get:
  "map_of (fold (\<lambda>p. multi_add (fst p) (snd p)) ps m) k =
    (if k \<in> fst ` set ps \<or> map_of m k \<noteq> None
     then Some (coalesce (map_of m k) [] @ map snd (filter (\<lambda>p. fst p = k) ps)) else None)"
  by (induction ps arbitrary: m) (auto simp: multi_add_def map_of_map_put)

lemma multi_add_all_keys:
  "map fst (fold (\<lambda>p. multi_add (fst p) (snd p)) ps m) = set_add_all (map fst ps) (map fst m)"
  by (induction ps arbitrary: m) (auto simp: multi_add_def keys_map_put)

lemma multi_of_get:
  "map_of (multi_of ps) k =
    (if k \<in> fst ` set ps then Some (map snd (filter (\<lambda>p. fst p = k) ps)) else None)"
  by (simp add: multi_of_def multi_add_all_get)

lemma multi_of_keys: "map fst (multi_of ps) = set_of (map fst ps)"
  by (simp add: multi_of_def multi_add_all_keys set_of_def)

lemma multi_of_distinct [simp]: "distinct (map fst (multi_of ps))"
  by (simp add: multi_of_keys)

lemma multi_of_mem:
  "(k, vs) \<in> set (multi_of ps) \<longleftrightarrow> k \<in> fst ` set ps \<and> vs = map snd (filter (\<lambda>p. fst p = k) ps)"
proof -
  have "(k, vs) \<in> set (multi_of ps) \<longleftrightarrow> map_of (multi_of ps) k = Some vs"
    by (simp add: map_of_eq_Some_iff)
  then show ?thesis by (auto simp: multi_of_get)
qed

end
