(* ===== verification/Json.thy ===== *)
theory Json
  imports Prelude
begin

text \<open>
  JavaScript values as the packages exchange them: JSON documents, plus the values an
  \<open>unknown\<close> argument may hold beside JSON (\<open>undefined\<close>, non-finite numbers,
  functions and symbols). Finite numbers are modelled as integers. An object is the list of its
  own properties in enumeration order, array-index keys first.
  \<open>JSON.stringify\<close> is modelled in its compact and in its two-space form; the compact form is
  shown to be injective, which is what the digests of the packages rest on.
\<close>

section \<open>Values\<close>

datatype jv =
    JNull
  | JUndefined
  | JBool bool
  | JNum int
  | JNonFinite string
  | JStr string
  | JArr "jv list"
  | JObj "(string \<times> jv) list"
  | JOpaque string

text \<open>The value of a property, \<open>undefined\<close> for a missing one or a non-object.\<close>

definition jget :: "string \<Rightarrow> jv \<Rightarrow> jv" where
  "jget k v = (case v of JObj kvs \<Rightarrow> coalesce (map_of kvs k) JUndefined | _ \<Rightarrow> JUndefined)"

definition jstr :: "jv \<Rightarrow> string option" where
  "jstr v = (case v of JStr s \<Rightarrow> Some s | _ \<Rightarrow> None)"

definition is_absent :: "jv \<Rightarrow> bool" where
  "is_absent v = (case v of JUndefined \<Rightarrow> True | JOpaque _ \<Rightarrow> True | _ \<Rightarrow> False)"

text \<open>Truthiness of a value.\<close>

definition jtruthy :: "jv \<Rightarrow> bool" where
  "jtruthy v = (case v of JNull \<Rightarrow> False | JUndefined \<Rightarrow> False | JBool b \<Rightarrow> b | JNum n \<Rightarrow> n \<noteq> 0
     | JNonFinite s \<Rightarrow> s \<noteq> ''NaN'' | JStr s \<Rightarrow> s \<noteq> [] | _ \<Rightarrow> True)"

section \<open>Own-property order\<close>

text \<open>
  Array-index keys come first, in numeric order, whatever the order of insertion; the other keys
  follow in insertion order.
\<close>

definition array_index :: "string \<Rightarrow> nat option" where
  "array_index k =
     (if list_all is_digit k \<and> show_nat (read_nat 0 k) = k \<and> read_nat 0 k < 4294967295
      then Some (read_nat 0 k) else None)"

definition own_order :: "(string \<times> 'a) list \<Rightarrow> (string \<times> 'a) list" where
  "own_order kvs =
     sort_key (\<lambda>p. coalesce (array_index (fst p)) 0) (filter (\<lambda>p. array_index (fst p) \<noteq> None) kvs)
     @ filter (\<lambda>p. array_index (fst p) = None) kvs"

lemma mset_own_order [simp]: "mset (own_order kvs) = mset kvs"
proof -
  have "mset (own_order kvs) =
      mset (filter (\<lambda>p. array_index (fst p) \<noteq> None) kvs) + mset (filter (\<lambda>p. \<not> array_index (fst p) \<noteq> None) kvs)"
    by (simp add: own_order_def)
  then show ?thesis by (simp only: mset_filter multiset_partition [symmetric])
qed

lemma set_own_order [simp]: "set (own_order kvs) = set kvs"
  by (metis mset_own_order set_mset_mset)

text \<open>
  Assignment to a property of an object literal. Assigning \<open>__proto__\<close> sets the prototype
  (or does nothing) and never creates an own property.
\<close>

definition obj_assign :: "string \<Rightarrow> 'a \<Rightarrow> (string \<times> 'a) list \<Rightarrow> (string \<times> 'a) list" where
  "obj_assign k v kvs = (if k = ''__proto__'' then kvs else own_order (map_put k v kvs))"

definition obj_assign_all :: "(string \<times> 'a) list \<Rightarrow> (string \<times> 'a) list \<Rightarrow> (string \<times> 'a) list" where
  "obj_assign_all ps kvs = fold (\<lambda>p. obj_assign (fst p) (snd p)) ps kvs"

lemma mset_map_put_new: "k \<notin> fst ` set ps \<Longrightarrow> mset (map_put k v ps) = add_mset (k, v) (mset ps)"
  by (induction k v ps rule: map_put.induct) auto

lemma fst_set_own_order: "fst ` set (own_order kvs) = fst ` set kvs"
  by simp

lemma mset_obj_assign_all:
  assumes "distinct (map fst ps)" and "fst ` set ps \<inter> fst ` set kvs = {}"
  shows "mset (obj_assign_all ps kvs) = mset (filter (\<lambda>p. fst p \<noteq> ''__proto__'') ps) + mset kvs"
  using assms
proof (induction ps arbitrary: kvs)
  case Nil
  show ?case by (simp add: obj_assign_all_def)
next
  case (Cons p ps)
  let ?kvs = "obj_assign (fst p) (snd p) kvs"
  have new: "mset ?kvs = (if fst p = ''__proto__'' then mset kvs else add_mset p (mset kvs))"
    using Cons.prems by (auto simp: obj_assign_def mset_map_put_new)
  have "set ?kvs \<subseteq> insert p (set kvs)"
    using new by (metis set_mset_mset set_mset_add_mset_insert subset_insertI subset_refl)
  then have "fst ` set ?kvs \<subseteq> insert (fst p) (fst ` set kvs)" by auto
  moreover have "fst p \<notin> fst ` set ps" "fst ` set ps \<inter> fst ` set kvs = {}"
    using Cons.prems by auto
  moreover have "P \<inter> A = {}" if "A \<subseteq> insert a K" "a \<notin> P" "P \<inter> K = {}" for A K P :: "string set" and a
    using that by blast
  ultimately have "fst ` set ps \<inter> fst ` set ?kvs = {}" by metis
  with Cons have "mset (obj_assign_all ps ?kvs) = mset (filter (\<lambda>p. fst p \<noteq> ''__proto__'') ps) + mset ?kvs"
    by simp
  then show ?case by (simp add: obj_assign_all_def new)
qed

lemma map_of_perm:
  assumes "distinct (map fst ps)" "mset ps = mset qs"
  shows "map_of ps = map_of qs"
proof -
  have "distinct (map fst qs)" using assms mset_eq_imp_distinct_iff [of "map fst ps" "map fst qs"] by simp
  with assms show ?thesis using mset_eq_setD [OF assms(2)] by (simp add: map_of_inject_set)
qed

lemma map_of_own_order: "distinct (map fst ps) \<Longrightarrow> map_of (own_order ps) = map_of ps"
  by (rule sym, rule map_of_perm) simp_all

lemma distinct_own_order: "distinct (map fst (own_order ps)) = distinct (map fst ps)"
  using mset_eq_imp_distinct_iff [of "map fst (own_order ps)" "map fst ps"] by simp

lemma obj_assign_all_get:
  assumes "distinct (map fst ps)"
  shows "map_of (obj_assign_all ps []) k = (if k = ''__proto__'' then None else map_of ps k)"
proof -
  let ?qs = "filter (\<lambda>p. fst p \<noteq> ''__proto__'') ps"
  have m: "mset (obj_assign_all ps []) = mset ?qs"
    using mset_obj_assign_all [OF assms, of "[]"] by simp
  have "distinct (map fst ?qs)" using assms by (rule distinct_map_filter)
  then have "map_of (obj_assign_all ps []) = map_of ?qs"
    using map_of_perm [OF _ m [symmetric]] by simp
  moreover have "map_of ?qs k = (if k = ''__proto__'' then None else map_of ps k)"
    by (induction ps) auto
  ultimately show ?thesis by simp
qed

section \<open>\<open>JSON.stringify\<close>\<close>

definition hex_digit :: "nat \<Rightarrow> char" where
  "hex_digit k = char_of (if k < 10 then 48 + k else 87 + k)"

text \<open>The escape of one character of a string.\<close>

definition esc_char :: "char \<Rightarrow> string" where
  "esc_char c =
     (let n = of_char c :: nat
      in if c = CHR 0x22 then [CHR 0x5C, CHR 0x22]
         else if c = CHR 0x5C then [CHR 0x5C, CHR 0x5C]
         else if n = 8 then [CHR 0x5C, CHR ''b'']
         else if n = 9 then [CHR 0x5C, CHR ''t'']
         else if n = 10 then [CHR 0x5C, CHR ''n'']
         else if n = 12 then [CHR 0x5C, CHR ''f'']
         else if n = 13 then [CHR 0x5C, CHR ''r'']
         else if n < 32 then [CHR 0x5C, CHR ''u'', CHR ''0'', CHR ''0'', hex_digit (n div 16), hex_digit (n mod 16)]
         else [c])"

definition quote :: "string \<Rightarrow> string" where
  "quote s = [CHR 0x22] @ concat (map esc_char s) @ [CHR 0x22]"

fun stringify :: "jv \<Rightarrow> string"
  and stringify_items :: "jv list \<Rightarrow> string list"
  and stringify_fields :: "(string \<times> jv) list \<Rightarrow> string list" where
  "stringify JNull = ''null''"
| "stringify JUndefined = ''undefined''"
| "stringify (JBool b) = (if b then ''true'' else ''false'')"
| "stringify (JNum n) = show_int n"
| "stringify (JNonFinite _) = ''null''"
| "stringify (JStr s) = quote s"
| "stringify (JArr xs) = ''['' @ join '','' (stringify_items xs) @ '']''"
| "stringify (JObj kvs) = ''{'' @ join '','' (stringify_fields kvs) @ ''}''"
| "stringify (JOpaque _) = ''undefined''"
| "stringify_items [] = []"
| "stringify_items (x # xs) = (if is_absent x then ''null'' else stringify x) # stringify_items xs"
| "stringify_fields [] = []"
| "stringify_fields ((k, v) # kvs) =
     (if is_absent v then stringify_fields kvs
      else (quote k @ '':'' @ stringify v) # stringify_fields kvs)"

text \<open>\<open>JSON.stringify(v, null, 2)\<close>, at an indentation of \<open>i\<close> levels.\<close>

definition newline :: string where
  "newline = [CHR 0x0A]"

definition indent :: "nat \<Rightarrow> string" where
  "indent i = concat (replicate i ''  '')"

definition bracketed :: "nat \<Rightarrow> string \<Rightarrow> string \<Rightarrow> string list \<Rightarrow> string" where
  "bracketed i l r xs =
     (if xs = [] then l @ r
      else l @ newline @ join ('','' @ newline) (map (\<lambda>x. indent (Suc i) @ x) xs)
        @ newline @ indent i @ r)"

fun pretty :: "nat \<Rightarrow> jv \<Rightarrow> string"
  and pretty_items :: "nat \<Rightarrow> jv list \<Rightarrow> string list"
  and pretty_fields :: "nat \<Rightarrow> (string \<times> jv) list \<Rightarrow> string list" where
  "pretty i (JArr xs) = bracketed i ''['' '']'' (pretty_items (Suc i) xs)"
| "pretty i (JObj kvs) = bracketed i ''{'' ''}'' (pretty_fields (Suc i) kvs)"
| "pretty i v = stringify v"
| "pretty_items i [] = []"
| "pretty_items i (x # xs) = (if is_absent x then ''null'' else pretty i x) # pretty_items i xs"
| "pretty_fields i [] = []"
| "pretty_fields i ((k, v) # kvs) =
     (if is_absent v then pretty_fields i kvs
      else (quote k @ '': '' @ pretty i v) # pretty_fields i kvs)"

section \<open>Injectivity of the compact form\<close>

text \<open>The inverse of the escape, reading one character off the front.\<close>

definition hex_value :: "char \<Rightarrow> nat" where
  "hex_value c = (let n = of_char c in if n < 58 then n - 48 else n - 87)"

definition unesc :: "string \<Rightarrow> char \<times> string" where
  "unesc s =
     (case s of
        [] \<Rightarrow> (CHR 0x00, [])
      | c # r \<Rightarrow>
          if c \<noteq> CHR 0x5C then (c, r)
          else (case r of
             [] \<Rightarrow> (c, [])
           | d # r' \<Rightarrow>
               if d = CHR ''u'' then (char_of (16 * hex_value (r' ! 2) + hex_value (r' ! 3)), drop 4 r')
               else ((if d = CHR ''b'' then char_of (8::nat) else if d = CHR ''t'' then char_of (9::nat)
                      else if d = CHR ''n'' then char_of (10::nat) else if d = CHR ''f'' then char_of (12::nat)
                      else if d = CHR ''r'' then char_of (13::nat) else d), r')))"

lemma hex_value_digit: "k < 16 \<Longrightarrow> hex_value (hex_digit k) = k"
  by (auto simp: hex_value_def hex_digit_def of_char_of)

lemma char_eqI: "(of_char c :: nat) = n \<Longrightarrow> char_of n = c"
  by auto

lemma unesc_esc: "unesc (esc_char c @ x) = (c, x)"
proof -
  define n where "n = (of_char c :: nat)"
  have c: "char_of n = c" by (simp add: n_def)
  have hex: "char_of (16 * hex_value (hex_digit (n div 16)) + hex_value (hex_digit (n mod 16))) = c" if "n < 32"
    using that c by (simp add: hex_value_digit)
  show ?thesis
    unfolding esc_char_def unesc_def n_def [symmetric] Let_def
    using c hex by (auto simp: numeral_3_eq_3 numeral_2_eq_2)
qed

lemma esc_inj: "esc_char a @ x = esc_char b @ y \<Longrightarrow> a = b \<and> x = y"
  by (metis unesc_esc prod.inject)

lemma esc_not_quote: "esc_char a @ x \<noteq> CHR 0x22 # y"
  by (auto simp: esc_char_def Let_def)

lemma quoted_inj:
  "concat (map esc_char a) @ CHR 0x22 # r = concat (map esc_char b) @ CHR 0x22 # s \<Longrightarrow> a = b \<and> r = s"
proof (induction a arbitrary: b)
  case Nil
  then show ?case by (cases b) (auto dest: sym simp: esc_not_quote)
next
  case (Cons x a)
  show ?case
  proof (cases b)
    case Nil
    with Cons.prems show ?thesis by (simp add: esc_not_quote)
  next
    case (Cons y b')
    with Cons.prems have "x = y" "concat (map esc_char a) @ CHR 0x22 # r = concat (map esc_char b') @ CHR 0x22 # s"
      using esc_inj [of x _ y] by auto
    with Cons.IH [of b'] Cons show ?thesis by simp
  qed
qed

lemma quote_inj: "quote a @ r = quote b @ s \<longleftrightarrow> a = b \<and> r = s"
  using quoted_inj [of a r b s] by (auto simp: quote_def)

text \<open>A decimal numeral ends at the first character that is not a digit.\<close>

definition no_digit_ahead :: "string \<Rightarrow> bool" where
  "no_digit_ahead r \<longleftrightarrow> (case r of [] \<Rightarrow> True | c # _ \<Rightarrow> \<not> is_digit c)"

lemma digits_prefix_inj:
  assumes "list_all is_digit a" "list_all is_digit b" "no_digit_ahead r" "no_digit_ahead s" "a @ r = b @ s"
  shows "a = b \<and> r = s"
  using assms
proof (induction a arbitrary: b)
  case Nil
  then show ?case by (cases b) (auto simp: no_digit_ahead_def)
next
  case (Cons x a)
  then show ?case by (cases b) (auto simp: no_digit_ahead_def)
qed

lemma show_int_not_minus: "show_nat n @ r \<noteq> CHR ''-'' # s"
  using show_nat_digits [of n] by (cases "show_nat n") (auto simp: is_digit_def)

lemma show_int_inj:
  assumes "show_int i @ r = show_int j @ s" "no_digit_ahead r" "no_digit_ahead s"
  shows "i = j \<and> r = s"
proof -
  have nat: "m = n \<and> r = s" if "show_nat m @ r = show_nat n @ s" for m n
    using digits_prefix_inj [OF show_nat_digits show_nat_digits assms(2,3) that] show_nat_inj by blast
  show ?thesis
  proof (cases "i < 0"; cases "j < 0")
    assume "i < 0" "j < 0"
    then show ?thesis using assms(1) nat [of "nat (- i)" "nat (- j)"]
      by (auto simp: show_int_def eq_nat_nat_iff)
  next
    assume "i < 0" "\<not> j < 0"
    then show ?thesis using assms(1) show_int_not_minus [of "nat j" s] by (simp add: show_int_def) metis
  next
    assume "\<not> i < 0" "j < 0"
    then show ?thesis using assms(1) show_int_not_minus [of "nat i" r] by (simp add: show_int_def)
  next
    assume "\<not> i < 0" "\<not> j < 0"
    then show ?thesis using assms(1) nat [of "nat i" "nat j"]
      by (auto simp: show_int_def eq_nat_nat_iff)
  qed
qed

text \<open>Documents: values that hold neither \<open>undefined\<close>, functions nor non-finite numbers.\<close>

fun is_doc :: "jv \<Rightarrow> bool"
  and is_doc_items :: "jv list \<Rightarrow> bool"
  and is_doc_fields :: "(string \<times> jv) list \<Rightarrow> bool" where
  "is_doc (JArr xs) = is_doc_items xs"
| "is_doc (JObj kvs) = is_doc_fields kvs"
| "is_doc JUndefined = False"
| "is_doc (JNonFinite _) = False"
| "is_doc (JOpaque _) = False"
| "is_doc JNull = True"
| "is_doc (JBool _) = True"
| "is_doc (JNum _) = True"
| "is_doc (JStr _) = True"
| "is_doc_items [] = True"
| "is_doc_items (x # xs) = (is_doc x \<and> is_doc_items xs)"
| "is_doc_fields [] = True"
| "is_doc_fields ((k, v) # kvs) = (is_doc v \<and> is_doc_fields kvs)"

lemma is_doc_not_absent: "is_doc v \<Longrightarrow> \<not> is_absent v"
  by (cases v) (auto simp: is_absent_def)

lemma is_doc_items_iff: "is_doc_items xs \<longleftrightarrow> (\<forall>x\<in>set xs. is_doc x)"
  by (induction xs) auto

lemma is_doc_fields_iff: "is_doc_fields kvs \<longleftrightarrow> (\<forall>p\<in>set kvs. is_doc (snd p))"
  by (induction kvs) auto

text \<open>What may follow a value inside a document: nothing, a comma or a closing bracket.\<close>

definition after_value :: "string \<Rightarrow> bool" where
  "after_value r \<longleftrightarrow> (case r of [] \<Rightarrow> True | c # _ \<Rightarrow> c = CHR '','' \<or> c = CHR '']'' \<or> c = CHR ''}'')"

lemma after_value_no_digit: "after_value r \<Longrightarrow> no_digit_ahead r"
  by (cases r) (auto simp: after_value_def no_digit_ahead_def is_digit_def)

lemma after_value_simps [simp]:
  "after_value []" "after_value (CHR '','' # r)" "after_value (CHR '']'' # r)" "after_value (CHR ''}'' # r)"
  by (simp_all add: after_value_def)

lemma show_int_head: "\<exists>c r. show_int i = c # r \<and> (is_digit c \<or> c = CHR ''-'')"
  using show_nat_digits [of "nat i"] by (cases "show_nat (nat i)") (auto simp: show_int_def)

text \<open>The first character of a document decides its shape.\<close>

definition shape :: "jv \<Rightarrow> char \<Rightarrow> bool" where
  "shape v c = (case v of JNull \<Rightarrow> c = CHR ''n'' | JBool b \<Rightarrow> c = (if b then CHR ''t'' else CHR ''f'')
     | JNum _ \<Rightarrow> is_digit c \<or> c = CHR ''-'' | JStr _ \<Rightarrow> c = CHR 0x22 | JArr _ \<Rightarrow> c = CHR ''[''
     | JObj _ \<Rightarrow> c = CHR ''{'' | _ \<Rightarrow> False)"

lemma shape_head: "is_doc v \<Longrightarrow> \<exists>c r. stringify v = c # r \<and> shape v c"
  using show_int_head by (cases v) (auto simp: shape_def quote_def)

lemma join_Cons: "join sep (x # xs) = x @ (if xs = [] then [] else sep @ join sep xs)"
  by (cases xs) auto

lemma stringify_fields_doc_ne: "is_doc_fields kvs \<Longrightarrow> stringify_fields kvs = [] \<longleftrightarrow> kvs = []"
  by (cases kvs) (auto simp: is_doc_not_absent)

lemma stringify_items_ne: "stringify_items xs = [] \<longleftrightarrow> xs = []"
  by (cases xs) auto

text \<open>The text of the rest of an array or object after one of its elements.\<close>

definition rest_text :: "string list \<Rightarrow> string \<Rightarrow> string" where
  "rest_text xs r = (if xs = [] then [] else '','' @ join '','' xs) @ r"

lemma after_value_rest: "after_value r \<Longrightarrow> after_value (rest_text xs r)"
  by (simp add: rest_text_def)

lemma join_rest: "join '','' (x # xs) @ r = x @ rest_text xs r"
  by (simp add: join_Cons rest_text_def)

lemma rest_text_inj:
  assumes "rest_text xs (c # r) = rest_text ys (c # s)" "c \<noteq> CHR '',''"
  shows "(xs = [] \<and> ys = [] \<and> r = s) \<or>
    (xs \<noteq> [] \<and> ys \<noteq> [] \<and> join '','' xs @ c # r = join '','' ys @ c # s)"
  using assms by (auto simp: rest_text_def split: if_splits)

lemma char_neqs: "CHR '']'' \<noteq> CHR '',''" "CHR ''}'' \<noteq> CHR '',''"
  by simp_all

lemma shape_unique:
  "shape v c \<Longrightarrow> shape w c \<Longrightarrow>
    (case v of JNull \<Rightarrow> w = JNull | JBool b \<Rightarrow> w = JBool b | JNum _ \<Rightarrow> (\<exists>n. w = JNum n)
     | JStr _ \<Rightarrow> (\<exists>t. w = JStr t) | JArr _ \<Rightarrow> (\<exists>ys. w = JArr ys) | JObj _ \<Rightarrow> (\<exists>kvs. w = JObj kvs)
     | _ \<Rightarrow> False)"
  by (cases v; cases w) (auto simp: shape_def is_digit_def split: if_splits)

lemma shape_not_closing: "shape v c \<Longrightarrow> c \<noteq> CHR '']'' \<and> c \<noteq> CHR ''}'' \<and> c \<noteq> CHR '',''"
  by (cases v) (auto simp: shape_def is_digit_def)

lemma same_shape:
  assumes "is_doc v" "is_doc w" "stringify v @ r = stringify w @ s"
  shows "case v of JNull \<Rightarrow> w = JNull | JBool b \<Rightarrow> w = JBool b | JNum _ \<Rightarrow> (\<exists>n. w = JNum n)
     | JStr _ \<Rightarrow> (\<exists>t. w = JStr t) | JArr _ \<Rightarrow> (\<exists>ys. w = JArr ys) | JObj _ \<Rightarrow> (\<exists>kvs. w = JObj kvs)
     | _ \<Rightarrow> False"
proof -
  obtain c x where v: "stringify v = c # x" "shape v c" using shape_head [OF assms(1)] by blast
  obtain d y where w: "stringify w = d # y" "shape w d" using shape_head [OF assms(2)] by blast
  with v assms(3) have "c = d" by simp
  with v w show ?thesis by (auto intro: shape_unique)
qed

lemma no_items:
  assumes "is_doc_items ys" "join '','' (stringify_items ys) @ CHR '']'' # s = CHR '']'' # r"
  shows "ys = [] \<and> r = s"
proof (cases ys)
  case Nil
  with assms show ?thesis by simp
next
  case (Cons y ys')
  with assms(1) have y: "is_doc y" by simp
  from shape_head [OF y] obtain c x where c: "stringify y = c # x" "shape y c" by blast
  from assms(2) have "stringify y @ rest_text (stringify_items ys') (CHR '']'' # s) = CHR '']'' # r"
    using y by (simp only: Cons stringify_items.simps join_rest is_doc_not_absent if_False)
  with c shape_not_closing [OF c(2)] show ?thesis by simp
qed

lemma no_fields:
  assumes "is_doc_fields kvs" "join '','' (stringify_fields kvs) @ CHR ''}'' # s = CHR ''}'' # r"
  shows "kvs = [] \<and> r = s"
proof (cases kvs)
  case Nil
  with assms show ?thesis by simp
next
  case (Cons p kvs')
  obtain k v where p: "p = (k, v)" by (cases p)
  with Cons assms(1) have "is_doc v" by simp
  then have "join '','' (stringify_fields kvs) @ CHR ''}'' # s
      = quote k @ '':'' @ stringify v @ rest_text (stringify_fields kvs') (CHR ''}'' # s)"
    by (simp only: Cons p stringify_fields.simps join_rest is_doc_not_absent if_False append_assoc)
  with assms(2) show ?thesis by (simp add: quote_def)
qed

lemma stringify_inj_aux:
  "is_doc v \<Longrightarrow> is_doc w \<Longrightarrow> after_value r \<Longrightarrow> after_value s \<Longrightarrow>
     stringify v @ r = stringify w @ s \<Longrightarrow> v = w \<and> r = s"
  "is_doc_items xs \<Longrightarrow> is_doc_items ys \<Longrightarrow>
     join '','' (stringify_items xs) @ CHR '']'' # r = join '','' (stringify_items ys) @ CHR '']'' # s
     \<Longrightarrow> xs = ys \<and> r = s"
  "is_doc_fields kvs \<Longrightarrow> is_doc_fields lvs \<Longrightarrow>
     join '','' (stringify_fields kvs) @ CHR ''}'' # r = join '','' (stringify_fields lvs) @ CHR ''}'' # s
     \<Longrightarrow> kvs = lvs \<and> r = s"
proof (induction v and xs and kvs arbitrary: w r s and ys r s and lvs r s
    rule: stringify_stringify_items_stringify_fields.induct)
  case 1
  from same_shape [OF 1(1,2,5)] have "w = JNull" by simp
  with 1(5) show ?case by simp
next
  case (3 b)
  from same_shape [OF 3(1,2,5)] have "w = JBool b" by simp
  with 3(5) show ?case by simp
next
  case (4 n)
  from same_shape [OF 4(1,2,5)] obtain m where "w = JNum m" by auto
  with 4(3-5) show ?case using show_int_inj [of n r m s] after_value_no_digit by auto
next
  case (6 t)
  from same_shape [OF 6(1,2,5)] obtain u where "w = JStr u" by auto
  with 6 show ?case by (simp add: quote_inj)
next
  case (7 xs)
  from same_shape [OF 7(2,3,6)] obtain ys where w: "w = JArr ys" by auto
  have "join '','' (stringify_items xs) @ CHR '']'' # r = join '','' (stringify_items ys) @ CHR '']'' # s"
    using 7(6) by (simp add: w)
  with 7(1) [of ys r s] 7(2,3) show ?case by (simp add: w)
next
  case (8 kvs)
  from same_shape [OF 8(2,3,6)] obtain lvs where w: "w = JObj lvs" by auto
  have "join '','' (stringify_fields kvs) @ CHR ''}'' # r = join '','' (stringify_fields lvs) @ CHR ''}'' # s"
    using 8(6) by (simp add: w)
  with 8(1) [of lvs r s] 8(2,3) show ?case by (simp add: w)
next
  case 10
  then show ?case using no_items [of ys s r] by simp
next
  case (11 x xs)
  have x: "is_doc x" "is_doc_items xs" using 11(3) by auto
  show ?case
  proof (cases ys)
    case Nil
    with 11(3,5) no_items [of "x # xs" r s] show ?thesis by simp
  next
    case (Cons y ys')
    with 11(4) have y: "is_doc y" "is_doc_items ys'" by auto
    let ?rx = "rest_text (stringify_items xs) (CHR '']'' # r)"
    let ?ry = "rest_text (stringify_items ys') (CHR '']'' # s)"
    have "stringify x @ ?rx = stringify y @ ?ry"
      using 11(5) x y Cons by (simp add: join_rest is_doc_not_absent)
    then have e: "x = y" "?rx = ?ry"
      using 11(1) [OF _ x(1) y(1), of ?rx ?ry] x by (simp_all add: after_value_rest is_doc_not_absent)
    from rest_text_inj [OF e(2) char_neqs(1)] show ?thesis
    proof (elim disjE conjE)
      assume "join '','' (stringify_items xs) @ CHR '']'' # r = join '','' (stringify_items ys') @ CHR '']'' # s"
      with 11(2) [OF x(2) y(2)] show ?thesis by (simp add: Cons e(1))
    qed (simp_all add: Cons e(1) stringify_items_ne)
  qed
next
  case 12
  then show ?case using no_fields [of lvs s r] by simp
next
  case (13 k v kvs)
  have v: "is_doc v" "is_doc_fields kvs" using 13(4) by auto
  show ?case
  proof (cases lvs)
    case Nil
    with 13(4,6) no_fields [of "(k, v) # kvs" r s] show ?thesis by simp
  next
    case (Cons p lvs')
    obtain l w where p: "p = (l, w)" by (cases p)
    with 13(5) Cons have w: "is_doc w" "is_doc_fields lvs'" by auto
    let ?rx = "rest_text (stringify_fields kvs) (CHR ''}'' # r)"
    let ?ry = "rest_text (stringify_fields lvs') (CHR ''}'' # s)"
    have "quote k @ '':'' @ stringify v @ ?rx = quote l @ '':'' @ stringify w @ ?ry"
      using 13(6) v w Cons p by (simp add: join_rest is_doc_not_absent)
    then have "k = l" and t: "stringify v @ ?rx = stringify w @ ?ry"
      by (simp_all add: quote_inj)
    then have e: "v = w" "?rx = ?ry"
      using 13(2) [OF _ v(1) w(1), of ?rx ?ry] v by (simp_all add: after_value_rest is_doc_not_absent)
    from rest_text_inj [OF e(2) char_neqs(2)] show ?thesis
    proof (elim disjE conjE)
      assume "join '','' (stringify_fields kvs) @ CHR ''}'' # r = join '','' (stringify_fields lvs') @ CHR ''}'' # s"
      with 13(3) [OF _ v(2) w(2)] is_doc_not_absent [OF v(1)] show ?thesis
        by (simp add: Cons p e(1) \<open>k = l\<close>)
    qed (use v w in \<open>simp_all add: Cons p e(1) \<open>k = l\<close> stringify_fields_doc_ne\<close>)
  qed
qed simp_all

lemma stringify_inj: "is_doc v \<Longrightarrow> is_doc w \<Longrightarrow> stringify v = stringify w \<longleftrightarrow> v = w"
  using stringify_inj_aux(1) [of v w "[]" "[]"] by auto

end
