(* ===== verification/Manifest.thy ===== *)
theory Manifest
  imports Json
begin

text \<open>
  The plugin contract of \<open>@appspine/plugin-api\<close>: the manifest types of
  \<open>manifest.ts\<close>, the inventory of \<open>inventory.ts\<close>, the capability registry of
  \<open>capabilities.ts\<close> and the injection tokens of \<open>tokens.ts\<close>.
  The lemmas show that instance keys and qualified capability names parse back to what they were
  built from, and that the capability registry and the token table cover each other.
\<close>

section \<open>The manifest\<close>

definition MANIFEST_SCHEMA_VERSION :: string where
  "MANIFEST_SCHEMA_VERSION = ''appspine.plugin/v1''"

datatype plugin_cardinality = Singleton | Multiple

datatype plugin_distribution = Official | AppLocal

datatype plugin_facet_id = Backend | Frontend | Prisma | Permissions | Operations

record engine_requirement =
  er_appspinePluginApi :: string
  er_node :: string
  er_frameworks :: "(string \<times> string) list option"

record backend_facet =
  bf_modulePath :: string
  bf_exportName :: string
  bf_factoryExportName :: "string option"
  bf_global :: "bool option"
  bf_controllerRoutes :: "string list option"
  bf_providerTokens :: "string list option"
  bf_workers :: "string list option"

record admin_page =
  ap_id :: string
  ap_routePath :: "string option"
  ap_title :: "string option"
  ap_componentExport :: "string option"
  ap_requiredPermission :: "string option"
  ap_breadcrumb :: "string option"
  ap_order :: "int option"

record navigation_item =
  ni_id :: string
  ni_title :: "string option"
  ni_href :: "string option"
  ni_icon :: "string option"
  ni_order :: "int option"
  ni_section :: "string option"
  ni_requiredPermission :: "string option"
  ni_before :: "string option"
  ni_after :: "string option"

record slot_contribution =
  sc_slot :: string
  sc_componentExport :: string
  sc_order :: "int option"
  sc_before :: "string option"
  sc_after :: "string option"
  sc_requiredPermission :: "string option"

record i18n_contribution =
  i18n_namespace :: string
  i18n_locales :: "string list option"

text \<open>An entry written as a bare string, or in full.\<close>

datatype 'a shorthand = Bare string | Full 'a

record frontend_facet =
  ff_adminPages :: "admin_page shorthand list option"
  ff_navigationItems :: "navigation_item shorthand list option"
  ff_slots :: "slot_contribution list option"
  ff_loginProviderUi :: "bool option"
  ff_i18nNamespace :: "string option"
  ff_i18n :: "i18n_contribution option"
  ff_clientEntry :: "string option"
  ff_serverEntry :: "string option"

record operations_facet =
  of_healthIndicatorId :: "string option"
  of_metricsPrefix :: "string option"
  of_shutdownTimeoutMs :: "int option"

text \<open>The Prisma and permission facets are untyped in the source: they stay JSON values.\<close>

record plugin_facets =
  fc_backend :: "backend_facet option"
  fc_frontend :: "frontend_facet option"
  fc_prisma :: "jv option"
  fc_permissions :: "jv option"
  fc_operations :: "operations_facet option"

record replacement =
  rp_plugin :: string
  rp_facet :: string
  rp_contribution :: string
  rp_reason :: string

record environment_entry =
  env_key :: string
  env_required :: bool
  env_secret :: bool
  env_description :: "string option"

text \<open>
  \<open>mf_optionalFailurePolicy\<close> records whether the policy object is present (all its fields
  are literal types) and \<open>mf_configSchema\<close> the \<open>configRef\<close> inside it.
  \<open>mf_document\<close> is the JSON value the record is the typed view of: the one the digests read.
\<close>

record plugin_manifest =
  mf_schemaVersion :: string
  mf_id :: string
  mf_displayName :: string
  mf_cardinality :: plugin_cardinality
  mf_distribution :: "plugin_distribution option"
  mf_engine :: engine_requirement
  mf_provides :: "string list"
  mf_requires :: "string list"
  mf_optionalRequires :: "string list option"
  mf_conflicts :: "string list option"
  mf_replaces :: "replacement list option"
  mf_configSchema :: "string option"
  mf_optionalFailurePolicy :: bool
  mf_environment :: "environment_entry list option"
  mf_facets :: plugin_facets
  mf_integrationContracts :: "jv list option"
  mf_document :: jv

definition PLUGIN_FACET_IDS :: "plugin_facet_id list" where
  "PLUGIN_FACET_IDS = [Backend, Frontend, Prisma, Permissions, Operations]"

fun facet_declared :: "plugin_facets \<Rightarrow> plugin_facet_id \<Rightarrow> bool" where
  "facet_declared f Backend = (fc_backend f \<noteq> None)"
| "facet_declared f Frontend = (fc_frontend f \<noteq> None)"
| "facet_declared f Prisma = (fc_prisma f \<noteq> None)"
| "facet_declared f Permissions = (fc_permissions f \<noteq> None)"
| "facet_declared f Operations = (fc_operations f \<noteq> None)"

definition listDeclaredFacets :: "plugin_manifest \<Rightarrow> plugin_facet_id list" where
  "listDeclaredFacets m = filter (facet_declared (mf_facets m)) PLUGIN_FACET_IDS"

lemma PLUGIN_FACET_IDS_complete: "f \<in> set PLUGIN_FACET_IDS"
  by (cases f) (auto simp: PLUGIN_FACET_IDS_def)

lemma listDeclaredFacets_iff: "f \<in> set (listDeclaredFacets m) \<longleftrightarrow> facet_declared (mf_facets m) f"
  by (simp add: listDeclaredFacets_def PLUGIN_FACET_IDS_complete)

section \<open>The inventory\<close>

definition INVENTORY_SCHEMA_VERSION :: string where
  "INVENTORY_SCHEMA_VERSION = ''appspine.plugins/v1''"

record inventory_entry =
  ie_plugin :: string
  ie_instanceId :: string
  ie_enabled :: bool
  ie_required :: bool
  ie_configRef :: "string option"

record plugin_inventory =
  pi_schemaVersion :: string
  pi_plugins :: "inventory_entry list"

definition DEFAULT_INSTANCE_ID :: string where
  "DEFAULT_INSTANCE_ID = ''default''"

definition instanceKey :: "string \<Rightarrow> string \<Rightarrow> string" where
  "instanceKey pluginId instanceId =
     (if instanceId = DEFAULT_INSTANCE_ID then pluginId else pluginId @ ''#'' @ instanceId)"

definition parseInstanceKey :: "string \<Rightarrow> string \<times> string" where
  "parseInstanceKey key =
     (case index_of CHR ''#'' key of
        None \<Rightarrow> (key, DEFAULT_INSTANCE_ID)
      | Some h \<Rightarrow> (take h key, drop (h + 1) key))"

definition inventoryPluginIdOf :: "string \<Rightarrow> string" where
  "inventoryPluginIdOf pluginRef = after_last CHR ''/'' pluginRef"

lemma parse_instanceKey:
  "CHR ''#'' \<notin> set p \<Longrightarrow> parseInstanceKey (instanceKey p i) = (p, i)"
  by (auto simp: parseInstanceKey_def instanceKey_def index_of_append index_of_None [THEN iffD2])

lemma instanceKey_inj:
  "CHR ''#'' \<notin> set p \<Longrightarrow> CHR ''#'' \<notin> set q \<Longrightarrow> instanceKey p i = instanceKey q j \<longleftrightarrow> p = q \<and> i = j"
  by (metis parse_instanceKey prod.inject)

text \<open>A key parses to parts that build it again, unless it spells the default instance out.\<close>

lemma instanceKey_parse:
  assumes "snd (parseInstanceKey k) = DEFAULT_INSTANCE_ID \<longrightarrow> CHR ''#'' \<notin> set k"
  shows "instanceKey (fst (parseInstanceKey k)) (snd (parseInstanceKey k)) = k"
proof (cases "index_of CHR ''#'' k")
  case None
  then show ?thesis by (simp add: parseInstanceKey_def instanceKey_def)
next
  case (Some h)
  then have k: "k = take h k @ CHR ''#'' # drop (Suc h) k" by (simp add: index_of_Some)
  then have "CHR ''#'' \<in> set k" by (metis in_set_conv_decomp)
  with assms Some k show ?thesis by (simp add: parseInstanceKey_def instanceKey_def)
qed

text \<open>The owner a diagnostic derives from an instance key is its plugin id.\<close>

lemma owner_of_instanceKey: "CHR ''#'' \<notin> set p \<Longrightarrow> hd (split_on CHR ''#'' (instanceKey p i)) = p"
  by (simp add: instanceKey_def split_on_append split_on_notin)

lemma inventoryPluginIdOf_scoped:
  "CHR ''/'' \<notin> set p \<Longrightarrow> inventoryPluginIdOf (scope @ ''/'' @ p) = p"
  by (simp add: inventoryPluginIdOf_def after_last_append)

lemma inventoryPluginIdOf_bare: "CHR ''/'' \<notin> set p \<Longrightarrow> inventoryPluginIdOf p = p"
  by (simp add: inventoryPluginIdOf_def after_last_notin)

lemma inventoryPluginIdOf_idem: "inventoryPluginIdOf (inventoryPluginIdOf r) = inventoryPluginIdOf r"
  by (simp add: inventoryPluginIdOf_def)

section \<open>Capabilities\<close>

definition CAP_prisma :: string where "CAP_prisma = ''appspine.prisma''"
definition CAP_interactiveAuthProvider :: string where
  "CAP_interactiveAuthProvider = ''appspine.interactive-auth-provider''"
definition CAP_machineAuthProvider :: string where
  "CAP_machineAuthProvider = ''appspine.machine-auth-provider''"
definition CAP_authenticationStrategyRegistry :: string where
  "CAP_authenticationStrategyRegistry = ''appspine.authentication-strategy-registry''"
definition CAP_principalContext :: string where
  "CAP_principalContext = ''appspine.principal-context''"

definition CAPABILITY :: "(string \<times> string) list" where
  "CAPABILITY =
    [(''prisma'', CAP_prisma),
     (''auditSink'', ''appspine.audit-sink''),
     (''identityStore'', ''appspine.identity-store''),
     (''interactiveAuthProvider'', CAP_interactiveAuthProvider),
     (''machineAuthProvider'', CAP_machineAuthProvider),
     (''authenticationStrategyRegistry'', CAP_authenticationStrategyRegistry),
     (''principalContext'', CAP_principalContext),
     (''scopeMatcher'', ''appspine.scope-matcher''),
     (''domainEvents'', ''appspine.domain-events''),
     (''notificationInbox'', ''appspine.notification-inbox''),
     (''mcpTools'', ''appspine.mcp-tools''),
     (''rbacPolicy'', ''appspine.rbac-policy''),
     (''metadataSchema'', ''appspine.metadata-schema''),
     (''masterDataClient'', ''appspine.master-data-client''),
     (''identityDelegation'', ''appspine.identity-delegation''),
     (''delegatedIdentityVerifier'', ''appspine.delegated-identity-verifier''),
     (''healthIndicator'', ''appspine.health-indicator'')]"

definition REGISTERED_CAPABILITIES :: "string list" where
  "REGISTERED_CAPABILITIES = sort (set_of (map snd CAPABILITY))"

definition HOST_PROVIDED_CAPABILITIES :: "string list" where
  "HOST_PROVIDED_CAPABILITIES = [CAP_authenticationStrategyRegistry, CAP_principalContext]"

definition INTERACTIVE_AUTH_CAPABILITY :: string where
  "INTERACTIVE_AUTH_CAPABILITY = CAP_interactiveAuthProvider"

definition STRATEGY_REGISTERED_CAPABILITIES :: "string list" where
  "STRATEGY_REGISTERED_CAPABILITIES = [CAP_interactiveAuthProvider, CAP_machineAuthProvider]"

definition isRegisteredCapability :: "string \<Rightarrow> bool" where
  "isRegisteredCapability name \<longleftrightarrow> name \<in> set REGISTERED_CAPABILITIES"

definition qualifyCapability :: "string \<Rightarrow> string \<Rightarrow> string" where
  "qualifyCapability capability instanceId = capability @ ''#'' @ instanceId"

definition parseQualifiedCapability :: "string \<Rightarrow> string \<times> string option" where
  "parseQualifiedCapability qualified =
     (case index_of CHR ''#'' qualified of
        None \<Rightarrow> (qualified, None)
      | Some h \<Rightarrow> (take h qualified, Some (drop (h + 1) qualified)))"

lemma parse_qualifyCapability:
  "CHR ''#'' \<notin> set c \<Longrightarrow> parseQualifiedCapability (qualifyCapability c i) = (c, Some i)"
  by (simp add: parseQualifiedCapability_def qualifyCapability_def index_of_append)

lemma parse_bare_capability: "CHR ''#'' \<notin> set c \<Longrightarrow> parseQualifiedCapability c = (c, None)"
  by (simp add: parseQualifiedCapability_def index_of_None [THEN iffD2])

lemma qualifyCapability_inj:
  "CHR ''#'' \<notin> set c \<Longrightarrow> CHR ''#'' \<notin> set d \<Longrightarrow>
     qualifyCapability c i = qualifyCapability d j \<longleftrightarrow> c = d \<and> i = j"
  by (metis parse_qualifyCapability option.inject prod.inject)

lemma isRegisteredCapability_iff: "isRegisteredCapability c \<longleftrightarrow> c \<in> snd ` set CAPABILITY"
  by (simp add: isRegisteredCapability_def REGISTERED_CAPABILITIES_def)

section \<open>Injection tokens\<close>

text \<open>
  \<open>Symbol.for\<close> interns one symbol per description in a process-wide registry, so a token is
  determined by its description.
\<close>

datatype token = SymbolFor string

definition CAPABILITY_TOKENS :: "(string \<times> token) list" where
  "CAPABILITY_TOKENS = map (\<lambda>c. (c, SymbolFor c))
    [CAP_prisma, ''appspine.audit-sink'', ''appspine.identity-store'',
     CAP_authenticationStrategyRegistry, CAP_principalContext, ''appspine.scope-matcher'',
     ''appspine.rbac-policy'', ''appspine.domain-events'', ''appspine.notification-inbox'',
     ''appspine.mcp-tools'', ''appspine.metadata-schema'', ''appspine.identity-delegation'',
     ''appspine.delegated-identity-verifier'', ''appspine.master-data-client'',
     ''appspine.health-indicator'']"

definition capabilityInstanceToken :: "string \<Rightarrow> string \<Rightarrow> token" where
  "capabilityInstanceToken capability instanceId = SymbolFor (capability @ ''#'' @ instanceId)"

lemma capability_token_cover:
  "snd ` set CAPABILITY = fst ` set CAPABILITY_TOKENS \<union> set STRATEGY_REGISTERED_CAPABILITIES"
  "fst ` set CAPABILITY_TOKENS \<inter> set STRATEGY_REGISTERED_CAPABILITIES = {}"
  by (simp add: CAPABILITY_def CAPABILITY_TOKENS_def STRATEGY_REGISTERED_CAPABILITIES_def
        insert_commute)
     (simp add: CAPABILITY_TOKENS_def STRATEGY_REGISTERED_CAPABILITIES_def CAP_prisma_def
        CAP_authenticationStrategyRegistry_def CAP_principalContext_def
        CAP_interactiveAuthProvider_def CAP_machineAuthProvider_def)

lemma capabilityInstanceToken_inj:
  "CHR ''#'' \<notin> set c \<Longrightarrow> CHR ''#'' \<notin> set d \<Longrightarrow>
     capabilityInstanceToken c i = capabilityInstanceToken d j \<longleftrightarrow> c = d \<and> i = j"
  using qualifyCapability_inj by (simp add: capabilityInstanceToken_def qualifyCapability_def)

end
