(* ===== verification/Diagnostics.thy ===== *)
theory Diagnostics
  imports Manifest
begin

text \<open>
  Diagnostics, secret redaction and the contract error of \<open>@appspine/plugin-api\<close>
  (\<open>diagnostics.ts\<close>, \<open>errors.ts\<close>).
  The lemmas show that sorting diagnostics forgets the order they were found in, that the sort
  separates diagnostics that differ in any printed field, that no value stored under a secret key
  survives redaction and that redaction bounds the depth of what it returns.
\<close>

section \<open>Diagnostics\<close>

datatype severity = SevError | SevWarning | SevInfo

record diagnostic =
  dg_code :: string
  dg_severity :: severity
  dg_message :: string
  dg_pluginId :: "string option"
  dg_instanceId :: "string option"
  dg_path :: "string option"

text \<open>
  The optional fields of the third argument of \<open>diagnostic()\<close>, with the severity it
  defaults.
\<close>

record diagnostic_extra =
  dx_severity :: "severity option"
  dx_pluginId :: "string option"
  dx_instanceId :: "string option"
  dx_path :: "string option"

definition no_extra :: diagnostic_extra where
  "no_extra = \<lparr>dx_severity = None, dx_pluginId = None, dx_instanceId = None, dx_path = None\<rparr>"

definition at_path :: "string \<Rightarrow> diagnostic_extra" where
  "at_path p = no_extra\<lparr>dx_path := Some p\<rparr>"

definition of_plugin :: "string \<Rightarrow> diagnostic_extra \<Rightarrow> diagnostic_extra" where
  "of_plugin p x = x\<lparr>dx_pluginId := Some p\<rparr>"

definition of_instance :: "string \<Rightarrow> diagnostic_extra \<Rightarrow> diagnostic_extra" where
  "of_instance i x = x\<lparr>dx_instanceId := Some i\<rparr>"

definition with_severity :: "severity \<Rightarrow> diagnostic_extra \<Rightarrow> diagnostic_extra" where
  "with_severity s x = x\<lparr>dx_severity := Some s\<rparr>"

lemmas extra_defs = no_extra_def at_path_def of_plugin_def of_instance_def with_severity_def

definition mk_diagnostic :: "string \<Rightarrow> string \<Rightarrow> diagnostic_extra \<Rightarrow> diagnostic" where
  "mk_diagnostic code message x =
     \<lparr>dg_code = code, dg_severity = coalesce (dx_severity x) SevError, dg_message = message,
      dg_pluginId = dx_pluginId x, dg_instanceId = dx_instanceId x, dg_path = dx_path x\<rparr>"

lemma mk_diagnostic_sel [simp]:
  "dg_code (mk_diagnostic c m x) = c"
  "dg_message (mk_diagnostic c m x) = m"
  "dg_severity (mk_diagnostic c m x) = coalesce (dx_severity x) SevError"
  by (simp_all add: mk_diagnostic_def)

lemma extra_severity [simp]:
  "dx_severity no_extra = None" "dx_severity (at_path p) = None"
  "dx_severity (of_plugin q x) = dx_severity x" "dx_severity (of_instance i x) = dx_severity x"
  "dx_severity (with_severity s x) = Some s"
  by (simp_all add: extra_defs)

definition hasErrors :: "diagnostic list \<Rightarrow> bool" where
  "hasErrors ds \<longleftrightarrow> list_ex (\<lambda>d. dg_severity d = SevError) ds"

lemma hasErrors_simps [simp]:
  "\<not> hasErrors []"
  "hasErrors (d # ds) \<longleftrightarrow> dg_severity d = SevError \<or> hasErrors ds"
  "hasErrors (ds @ es) \<longleftrightarrow> hasErrors ds \<or> hasErrors es"
  by (simp_all add: hasErrors_def)

lemma hasErrors_iff: "hasErrors ds \<longleftrightarrow> (\<exists>d\<in>set ds. dg_severity d = SevError)"
  by (simp add: hasErrors_def list_ex_iff)

lemma hasErrors_concat_map [simp]: "hasErrors (concat (map f xs)) \<longleftrightarrow> (\<exists>x\<in>set xs. hasErrors (f x))"
  by (induction xs) auto

lemma hasErrors_when [simp]:
  "hasErrors (if b then [d] else []) \<longleftrightarrow> b \<and> dg_severity d = SevError"
  by simp

lemma hasErrors_indexed:
  assumes "\<And>i x. hasErrors (f i x) \<longleftrightarrow> P x"
  shows "hasErrors (concat (map (\<lambda>(i, x). f i x) (List.enumerate n xs))) \<longleftrightarrow> (\<exists>x\<in>set xs. P x)"
  using assms by (induction xs arbitrary: n) auto

section \<open>Sorting\<close>

definition NUL :: string where
  "NUL = [CHR 0x00]"

definition diagnostic_key :: "diagnostic \<Rightarrow> string" where
  "diagnostic_key d =
     coalesce (dg_pluginId d) [] @ NUL @ coalesce (dg_instanceId d) [] @ NUL @ dg_code d @ NUL
     @ coalesce (dg_path d) [] @ NUL @ dg_message d"

definition sortDiagnostics :: "diagnostic list \<Rightarrow> diagnostic list" where
  "sortDiagnostics ds = sort_key diagnostic_key ds"

lemma set_sortDiagnostics [simp]: "set (sortDiagnostics ds) = set ds"
  by (simp add: sortDiagnostics_def)

lemma mset_sortDiagnostics [simp]: "mset (sortDiagnostics ds) = mset ds"
  by (simp add: sortDiagnostics_def)

lemma hasErrors_sort [simp]: "hasErrors (sortDiagnostics ds) = hasErrors ds"
  by (simp add: hasErrors_iff)

lemma sortDiagnostics_Nil_iff [simp]: "sortDiagnostics ds = [] \<longleftrightarrow> ds = []"
  by (metis mset_sortDiagnostics mset_zero_iff)

lemma sortDiagnostics_idem [simp]: "sortDiagnostics (sortDiagnostics ds) = sortDiagnostics ds"
  by (simp add: sortDiagnostics_def)

text \<open>
  The printed fields of a diagnostic; the separator makes the sort key determine them when none of
  them holds a NUL.
\<close>

definition printed :: "diagnostic \<Rightarrow> string list" where
  "printed d = [coalesce (dg_pluginId d) [], coalesce (dg_instanceId d) [], dg_code d,
     coalesce (dg_path d) [], dg_message d]"

definition nul_free :: "diagnostic \<Rightarrow> bool" where
  "nul_free d \<longleftrightarrow> list_all (\<lambda>s. CHR 0x00 \<notin> set s) (printed d)"

lemma printed_of_key: "nul_free d \<Longrightarrow> split_on CHR 0x00 (diagnostic_key d) = printed d"
  by (simp add: diagnostic_key_def printed_def nul_free_def NUL_def split_on_append split_on_notin)

lemma diagnostic_key_printed: "diagnostic_key d = join NUL (printed d)"
  by (simp add: diagnostic_key_def printed_def)

lemma diagnostic_key_eq_iff:
  "nul_free d \<Longrightarrow> nul_free e \<Longrightarrow> diagnostic_key d = diagnostic_key e \<longleftrightarrow> printed d = printed e"
  by (metis printed_of_key diagnostic_key_printed)

lemma sortDiagnostics_perm:
  assumes "mset ds = mset es" "inj_on printed (set ds)" "\<forall>d\<in>set ds. nul_free d"
  shows "sortDiagnostics ds = sortDiagnostics es"
  unfolding sortDiagnostics_def
proof (rule sort_key_unique [OF assms(1)])
  show "inj_on diagnostic_key (set ds)"
    using assms(2,3) by (auto simp: inj_on_def diagnostic_key_eq_iff)
qed

section \<open>Redaction\<close>

definition REDACTED :: string where
  "REDACTED = ''[redacted]''"

text \<open>\<open>a[-_]?b\<close>\<close>

definition opt_sep :: "string \<Rightarrow> string \<Rightarrow> string list" where
  "opt_sep a b = map (\<lambda>s. a @ s @ b) ['''', ''-'', ''_'']"

text \<open>\<open>\b w \b\<close>\<close>

definition word_char :: "char \<Rightarrow> bool" where
  "word_char c \<longleftrightarrow> is_digit c \<or> is_lower c \<or> is_upper c \<or> c = CHR ''_''"

definition word_at :: "string \<Rightarrow> string \<Rightarrow> nat \<Rightarrow> bool" where
  "word_at w s i \<longleftrightarrow> starts_with (drop i s) w
     \<and> (i = 0 \<or> \<not> word_char (s ! (i - 1)))
     \<and> (length s \<le> i + length w \<or> \<not> word_char (s ! (i + length w)))"

definition has_word :: "string \<Rightarrow> string \<Rightarrow> bool" where
  "has_word w s \<longleftrightarrow> list_ex (word_at w s) [0..<Suc (length s)]"

text \<open>The alternatives of \<open>SECRET_LOOKING_KEY\<close> without \<open>\bdsn\b\<close>.\<close>

definition secret_literals :: "string list" where
  "secret_literals =
     [''secret'', ''password'', ''passwd'', ''token''] @ opt_sep ''api'' ''key'' @ [''credential'']
     @ opt_sep ''private'' ''key'' @ opt_sep ''connection'' ''string''
     @ concat (map (\<lambda>a. opt_sep a ''url'' @ opt_sep a ''uri'')
         [''database'', ''db'', ''redis'', ''amqp'', ''mongo'', ''postgres'', ''mysql'', ''broker''])
     @ opt_sep ''access'' ''key'' @ opt_sep ''session'' ''key'' @ opt_sep ''signing'' ''key''
     @ [''webhook'', ''salt'', ''passphrase'']"

definition isSecretLookingKey :: "string \<Rightarrow> bool" where
  "isSecretLookingKey key =
     (let k = to_lower key in list_ex (contains_str k) secret_literals \<or> has_word ''dsn'' k)"

definition declaredSecretKeys :: "environment_entry list option \<Rightarrow> string list" where
  "declaredSecretKeys environment =
     set_of (map (\<lambda>e. to_lower (env_key e)) (filter env_secret (coalesce environment [])))"

text \<open>\<open>key.toLowerCase().replace(/_/g, '')\<close>\<close>

definition normalize_key :: "string \<Rightarrow> string" where
  "normalize_key k = filter (\<lambda>c. c \<noteq> CHR ''_'') (to_lower k)"

definition isSecretKey :: "string list \<Rightarrow> string \<Rightarrow> bool" where
  "isSecretKey secretKeys key \<longleftrightarrow>
     isSecretLookingKey key \<or> normalize_key key \<in> set (set_of (map normalize_key secretKeys))"

definition nullish :: "jv \<Rightarrow> bool" where
  "nullish v \<longleftrightarrow> v = JNull \<or> v = JUndefined"

text \<open>
  \<open>walk\<close> with the depth counted down: \<open>d\<close> is \<open>maxDepth - depth\<close>. The first
  argument decides secret keys.
\<close>

fun walk :: "(string \<Rightarrow> bool) \<Rightarrow> nat \<Rightarrow> string option \<Rightarrow> jv \<Rightarrow> jv" where
  "walk sec d hint node =
     (if hint \<noteq> None \<and> sec (the hint) \<and> \<not> nullish node then JStr REDACTED
      else if d = 0 then JStr REDACTED
      else (case node of
          JArr xs \<Rightarrow> JArr (map (walk sec (d - 1) hint) xs)
        | JObj kvs \<Rightarrow> JObj (obj_assign_all (map (\<lambda>(k, child). (k, walk sec (d - 1) (Some k) child)) kvs) [])
        | _ \<Rightarrow> node))"

declare walk.simps [simp del]

definition redactConfig :: "jv \<Rightarrow> string list option \<Rightarrow> nat option \<Rightarrow> jv" where
  "redactConfig v secretKeys maxDepth =
     walk (isSecretKey (coalesce secretKeys [])) (coalesce maxDepth 12) None v"

definition redactConfigForManifest :: "plugin_manifest \<Rightarrow> jv \<Rightarrow> jv" where
  "redactConfigForManifest m config = redactConfig config (Some (declaredSecretKeys (mf_environment m))) None"

subsection \<open>What redaction guarantees\<close>

text \<open>The keys and values of every object inside a value, at any depth.\<close>

fun fields_of :: "jv \<Rightarrow> (string \<times> jv) list"
  and fields_of_items :: "jv list \<Rightarrow> (string \<times> jv) list"
  and fields_of_fields :: "(string \<times> jv) list \<Rightarrow> (string \<times> jv) list" where
  "fields_of (JArr xs) = fields_of_items xs"
| "fields_of (JObj kvs) = fields_of_fields kvs"
| "fields_of v = []"
| "fields_of_items [] = []"
| "fields_of_items (x # xs) = fields_of x @ fields_of_items xs"
| "fields_of_fields [] = []"
| "fields_of_fields ((k, v) # kvs) = (k, v) # fields_of v @ fields_of_fields kvs"

fun depth_of :: "jv \<Rightarrow> nat"
  and depth_of_items :: "jv list \<Rightarrow> nat"
  and depth_of_fields :: "(string \<times> jv) list \<Rightarrow> nat" where
  "depth_of (JArr xs) = Suc (depth_of_items xs)"
| "depth_of (JObj kvs) = Suc (depth_of_fields kvs)"
| "depth_of v = 0"
| "depth_of_items [] = 0"
| "depth_of_items (x # xs) = max (depth_of x) (depth_of_items xs)"
| "depth_of_fields [] = 0"
| "depth_of_fields ((k, v) # kvs) = max (depth_of v) (depth_of_fields kvs)"

lemma fields_of_items_set: "set (fields_of_items xs) = (\<Union>x\<in>set xs. set (fields_of x))"
  by (induction xs) auto

lemma fields_of_fields_set:
  "set (fields_of_fields kvs) = set kvs \<union> (\<Union>p\<in>set kvs. set (fields_of (snd p)))"
  by (induction kvs) auto

lemma depth_of_items_le: "depth_of_items xs \<le> n \<longleftrightarrow> (\<forall>x\<in>set xs. depth_of x \<le> n)"
  by (induction xs) auto

lemma depth_of_fields_le: "depth_of_fields kvs \<le> n \<longleftrightarrow> (\<forall>p\<in>set kvs. depth_of (snd p) \<le> n)"
  by (induction kvs) auto

lemma set_map_put: "set (map_put k v ps) \<subseteq> insert (k, v) (set ps)"
  by (induction k v ps rule: map_put.induct) auto

lemma set_obj_assign_all: "set (obj_assign_all ps kvs) \<subseteq> set ps \<union> set kvs"
proof (induction ps arbitrary: kvs)
  case Nil
  show ?case by (simp add: obj_assign_all_def)
next
  case (Cons p ps)
  have "set (obj_assign (fst p) (snd p) kvs) \<subseteq> insert p (set kvs)"
    using set_map_put [of "fst p" "snd p" kvs] by (auto simp: obj_assign_def)
  with Cons [of "obj_assign (fst p) (snd p) kvs"] show ?case
    by (auto simp: obj_assign_all_def)
qed

lemma walk_secret: "sec h \<Longrightarrow> \<not> nullish v \<Longrightarrow> walk sec d (Some h) v = JStr REDACTED"
  by (simp add: walk.simps [of sec d "Some h"])

lemma walk_hidden: "sec h \<Longrightarrow> walk sec d (Some h) v = JStr REDACTED \<or> nullish (walk sec d (Some h) v)"
  by (cases "nullish v") (auto simp: walk_secret walk.simps [of sec d "Some h" v] nullish_def)

text \<open>A value stored under a secret key, anywhere in the result, is hidden or was nullish.\<close>

lemma walk_no_leak:
  "(k, v) \<in> set (fields_of (walk sec d hint node)) \<Longrightarrow> sec k \<Longrightarrow> v = JStr REDACTED \<or> nullish v"
proof (induction d arbitrary: hint node)
  case 0
  then show ?case by (auto simp: walk.simps [of sec 0] split: if_splits)
next
  case (Suc d)
  show ?case
  proof (cases "hint \<noteq> None \<and> sec (the hint) \<and> \<not> nullish node")
    case True
    with Suc.prems(1) show ?thesis by (subst (asm) walk.simps) simp
  next
    case False
    note w = walk.simps [of sec "Suc d" hint node, simplified False, simplified]
    show ?thesis
    proof (cases node)
      case (JArr xs)
      with Suc w show ?thesis by (auto simp: fields_of_items_set)
    next
      case (JObj kvs)
      let ?ps = "map (\<lambda>(k, child). (k, walk sec d (Some k) child)) kvs"
      have "(k, v) \<in> set (fields_of_fields (obj_assign_all ?ps []))"
        using Suc.prems(1) JObj w by simp
      then obtain p where "p \<in> set (obj_assign_all ?ps [])" and
        kv: "(k, v) = p \<or> (k, v) \<in> set (fields_of (snd p))"
        unfolding fields_of_fields_set by blast
      then have p: "p \<in> set ?ps" using set_obj_assign_all [of ?ps "[]"] by auto
      from p obtain c where c: "p = (fst p, walk sec d (Some (fst p)) c)" by auto
      from kv show ?thesis
      proof
        assume "(k, v) = p"
        with c Suc.prems(2) walk_hidden [of sec k d c] show ?thesis by (metis fst_conv snd_conv)
      next
        assume "(k, v) \<in> set (fields_of (snd p))"
        with c Suc.IH [of "Some (fst p)" c] Suc.prems(2) show ?thesis by (metis snd_conv)
      qed
    qed (use Suc.prems w in auto)
  qed
qed

lemma walk_depth: "depth_of (walk sec d hint node) \<le> d"
proof (induction d arbitrary: hint node)
  case 0
  show ?case by (simp add: walk.simps [of sec 0])
next
  case (Suc d)
  let ?ps = "\<lambda>kvs. map (\<lambda>(k, child). (k, walk sec d (Some k) child)) kvs"
  have "depth_of_fields (obj_assign_all (?ps kvs) []) \<le> d" for kvs
    using set_obj_assign_all [of "?ps kvs" "[]"] Suc by (fastforce simp: depth_of_fields_le)
  with Suc show ?case
    by (auto simp: walk.simps [of sec "Suc d"] depth_of_items_le split: jv.splits)
qed

lemma redactConfig_no_leak:
  "(k, v) \<in> set (fields_of (redactConfig c sk md)) \<Longrightarrow> isSecretKey (coalesce sk []) k \<Longrightarrow>
     v = JStr REDACTED \<or> nullish v"
  unfolding redactConfig_def by (rule walk_no_leak)

lemma declared_isSecretKey:
  assumes "e \<in> set env" "env_secret e" "normalize_key k = normalize_key (env_key e)"
  shows "isSecretKey (declaredSecretKeys (Some env)) k"
proof -
  have "normalize_key (to_lower (env_key e)) = normalize_key k"
    using assms(3) by (simp add: normalize_key_def)
  moreover have "to_lower (env_key e) \<in> set (declaredSecretKeys (Some env))"
    using assms(1,2) by (simp add: declaredSecretKeys_def)
  ultimately show ?thesis
    by (simp add: isSecretKey_def) (metis image_eqI)
qed

section \<open>The contract error\<close>

record contract_error =
  ce_code :: string
  ce_message :: string
  ce_diagnostics :: "diagnostic list"

definition diagnostic_line :: "diagnostic \<Rightarrow> string" where
  "diagnostic_line d = ''  - ['' @ dg_code d @ ''] '' @ dg_message d"

definition PluginContractError :: "string \<Rightarrow> string \<Rightarrow> diagnostic list \<Rightarrow> contract_error" where
  "PluginContractError code message diagnostics =
     (let sorted = sortDiagnostics diagnostics;
          detail = join newline (map diagnostic_line sorted)
      in \<lparr>ce_code = code,
          ce_message = (if length detail > 0 then message @ newline @ detail else message),
          ce_diagnostics = sorted\<rparr>)"

lemma PluginContractError_plain [simp]:
  "PluginContractError c m [] = \<lparr>ce_code = c, ce_message = m, ce_diagnostics = []\<rparr>"
  by (simp add: PluginContractError_def sortDiagnostics_def)

section \<open>Properties\<close>

text \<open>
  C31. After a plugin's configuration is redacted for printing, no value stored at any depth under a
  key that looks secret, or that the manifest declares secret, is printed: it is the redaction mark,
  or it was null or undefined. The printed value is at most twelve levels deep.
\<close>

theorem redaction_hides_secrets:
  assumes "(k, v) \<in> set (fields_of (redactConfigForManifest m config))"
    and "isSecretLookingKey k
      \<or> (\<exists>e\<in>set (coalesce (mf_environment m) []). env_secret e \<and> normalize_key k = normalize_key (env_key e))"
  shows "(v = JStr REDACTED \<or> v = JNull \<or> v = JUndefined) \<and> depth_of (redactConfigForManifest m config) \<le> 12"
proof -
  let ?sk = "declaredSecretKeys (mf_environment m)"
  have "isSecretKey ?sk k"
    using assms(2)
  proof
    assume "\<exists>e\<in>set (coalesce (mf_environment m) []). env_secret e \<and> normalize_key k = normalize_key (env_key e)"
    then show ?thesis using declared_isSecretKey by (cases "mf_environment m") auto
  qed (simp add: isSecretKey_def)
  then have "v = JStr REDACTED \<or> nullish v"
    using redactConfig_no_leak [of k v config "Some ?sk" None] assms(1) by (simp add: redactConfigForManifest_def)
  moreover have "depth_of (redactConfigForManifest m config) \<le> 12"
    using walk_depth [of "isSecretKey ?sk" 12] by (simp add: redactConfigForManifest_def redactConfig_def)
  ultimately show ?thesis by (auto simp: nullish_def)
qed

definition ex_secret_manifest :: plugin_manifest where
  "ex_secret_manifest =
     \<lparr>mf_schemaVersion = MANIFEST_SCHEMA_VERSION, mf_id = ''mail'', mf_displayName = ''Mail'',
      mf_cardinality = Singleton, mf_distribution = None,
      mf_engine = \<lparr>er_appspinePluginApi = ''^1'', er_node = ''>=20'', er_frameworks = None\<rparr>,
      mf_provides = [], mf_requires = [], mf_optionalRequires = None, mf_conflicts = None,
      mf_replaces = None, mf_configSchema = None, mf_optionalFailurePolicy = False,
      mf_environment = Some [\<lparr>env_key = ''SMTP_LOGIN'', env_required = True, env_secret = True, env_description = None\<rparr>],
      mf_facets = \<lparr>fc_backend = None, fc_frontend = None, fc_prisma = None, fc_permissions = None,
        fc_operations = None\<rparr>, mf_integrationContracts = None, mf_document = JNull\<rparr>"

theorem redaction_hides_secrets_witness:
  "redactConfigForManifest ex_secret_manifest (JObj [(''smtpLogin'', JStr ''hunter2''), (''port'', JNum 25)])
     = JObj [(''smtpLogin'', JStr REDACTED), (''port'', JNum 25)]
   \<and> depth_of (redactConfigForManifest ex_secret_manifest
        (JObj [(''smtpLogin'', JStr ''hunter2''), (''port'', JNum 25)])) \<le> 12"
proof -
  let ?c = "JObj [(''smtpLogin'', JStr ''hunter2''), (''port'', JNum 25)]"
  have e: "redactConfigForManifest ex_secret_manifest ?c = JObj [(''smtpLogin'', JStr REDACTED), (''port'', JNum 25)]"
    by code_simp
  then have "(''smtpLogin'', JStr REDACTED) \<in> set (fields_of (redactConfigForManifest ex_secret_manifest ?c))" by simp
  moreover have "\<exists>e\<in>set (coalesce (mf_environment ex_secret_manifest) []).
      env_secret e \<and> normalize_key ''smtpLogin'' = normalize_key (env_key e)" by code_simp
  ultimately show ?thesis using redaction_hides_secrets [of "''smtpLogin''" _ ex_secret_manifest ?c] e by blast
qed

text \<open>
  Diagnostics that differ in a printed field are sorted the same way whatever order they were
  collected in, and sorting neither loses nor adds one.
\<close>

theorem sorting_forgets_collection_order:
  assumes "mset ds = mset es" "inj_on printed (set ds)" "\<forall>d\<in>set ds. nul_free d"
  shows "sortDiagnostics ds = sortDiagnostics es \<and> mset (sortDiagnostics ds) = mset ds"
  by (intro conjI sortDiagnostics_perm [OF assms] mset_sortDiagnostics)

theorem sorting_forgets_collection_order_witness:
  "sortDiagnostics [mk_diagnostic ''b'' ''m'' no_extra, mk_diagnostic ''a'' ''m'' no_extra]
     = sortDiagnostics [mk_diagnostic ''a'' ''m'' no_extra, mk_diagnostic ''b'' ''m'' no_extra]"
proof -
  have "inj_on printed (set [mk_diagnostic ''b'' ''m'' no_extra, mk_diagnostic ''a'' ''m'' no_extra])"
    by (simp add: printed_def mk_diagnostic_def no_extra_def)
  moreover have "\<forall>d\<in>set [mk_diagnostic ''b'' ''m'' no_extra, mk_diagnostic ''a'' ''m'' no_extra]. nul_free d"
    by (simp add: printed_def mk_diagnostic_def no_extra_def nul_free_def)
  ultimately show ?thesis
    using sorting_forgets_collection_order [of "[mk_diagnostic ''b'' ''m'' no_extra, mk_diagnostic ''a'' ''m'' no_extra]"]
    by simp
qed

end
