(* ===== verification/Canonicalize.thy ===== *)
theory Canonicalize
  imports Diagnostics
begin

text \<open>
  Canonical JSON and the manifest digests (\<open>loader/canonicalize.ts\<close>,
  \<open>loader/digest.ts\<close>).
  A canonicalization sorts the keys of every object and keeps the order of arrays. The lemmas show
  that it succeeds exactly on the values it should, that it is idempotent, that two documents have
  the same canonical text exactly when they are equal up to the order of object keys, and that a
  digest built on a collision-free hash inherits this. The exception is the key
  \<open>__proto__\<close>, which the copy loses: two different documents then share a digest.
\<close>

section \<open>Canonical values\<close>

definition canon_error :: "string \<Rightarrow> contract_error" where
  "canon_error message = PluginContractError ''non-canonical-json'' message []"

definition quoted :: "string \<Rightarrow> string" where
  "quoted s = [CHR 0x22] @ s @ [CHR 0x22]"

text \<open>\<open>typeof value\<close>\<close>

fun typeof :: "jv \<Rightarrow> string" where
  "typeof JUndefined = ''undefined''"
| "typeof (JBool _) = ''boolean''"
| "typeof (JNum _) = ''number''"
| "typeof (JNonFinite _) = ''number''"
| "typeof (JStr _) = ''string''"
| "typeof (JOpaque t) = t"
| "typeof _ = ''object''"

definition assertCanonicalizable :: "jv \<Rightarrow> string \<Rightarrow> contract_error + unit" where
  "assertCanonicalizable value path =
     (case value of
        JNonFinite _ \<Rightarrow> Inl (canon_error (''Cannot canonicalize a non-finite number at '' @ quoted path))
      | JUndefined \<Rightarrow> Inl (canon_error (''Cannot canonicalize a value of type '' @ quoted (typeof value)
          @ '' at '' @ quoted path))
      | JOpaque _ \<Rightarrow> Inl (canon_error (''Cannot canonicalize a value of type '' @ quoted (typeof value)
          @ '' at '' @ quoted path))
      | _ \<Rightarrow> Inr ())"

text \<open>
  The children are canonicalized before the sort here and after it in the source: the values are
  the same, and the first error is picked in sorted order as the source meets it.
\<close>

fun canonicalizeValue :: "jv \<Rightarrow> string \<Rightarrow> contract_error + jv"
  and canon_items :: "jv list \<Rightarrow> string \<Rightarrow> nat \<Rightarrow> (contract_error + jv) list"
  and canon_fields :: "(string \<times> jv) list \<Rightarrow> string \<Rightarrow> (string \<times> (contract_error + jv)) list" where
  "canonicalizeValue (JArr xs) path =
     bind_result (assertCanonicalizable (JArr xs) path)
       (\<lambda>_. bind_result (collect (canon_items xs path 0)) (\<lambda>ys. Inr (JArr ys)))"
| "canonicalizeValue (JObj kvs) path =
     bind_result (assertCanonicalizable (JObj kvs) path)
       (\<lambda>_. bind_result
          (collect (map (\<lambda>(k, r). bind_result r (\<lambda>v. Inr (k, v))) (sort_key fst (canon_fields kvs path))))
          (\<lambda>ps. Inr (JObj (obj_assign_all ps []))))"
| "canonicalizeValue v path = bind_result (assertCanonicalizable v path) (\<lambda>_. Inr v)"
| "canon_items [] path i = []"
| "canon_items (x # xs) path i =
     canonicalizeValue x (path @ ''['' @ show_nat i @ '']'') # canon_items xs path (Suc i)"
| "canon_fields [] path = []"
| "canon_fields ((k, child) # kvs) path =
     (k, if child = JUndefined
         then Inl (canon_error (''Cannot canonicalize undefined at ''
                @ quoted ((if path = [] then [] else path @ ''.'') @ k)))
         else canonicalizeValue child (if path = [] then k else path @ ''.'' @ k))
     # canon_fields kvs path"

definition canonicalize :: "jv \<Rightarrow> contract_error + jv" where
  "canonicalize value = canonicalizeValue value []"

definition canonicalJsonString :: "jv \<Rightarrow> contract_error + string" where
  "canonicalJsonString value = bind_result (canonicalize value) (\<lambda>v. Inr (stringify v))"

section \<open>Digests\<close>

text \<open>
  \<open>createHash('sha256')\<close> is a parameter of the model: \<open>hash\<close> maps the hashed text to
  the hexadecimal digest.
\<close>

definition DIGEST_ALGORITHM :: string where
  "DIGEST_ALGORITHM = ''sha256''"

definition hash_digest :: "(string \<Rightarrow> string) \<Rightarrow> string \<Rightarrow> string" where
  "hash_digest hash input = DIGEST_ALGORITHM @ '':'' @ hash input"

definition manifestDigest :: "(string \<Rightarrow> string) \<Rightarrow> jv \<Rightarrow> contract_error + string" where
  "manifestDigest hash manifest = bind_result (canonicalJsonString manifest) (\<lambda>t. Inr (hash_digest hash t))"

definition resolvedManifestDigest ::
    "(string \<Rightarrow> string) \<Rightarrow> jv \<Rightarrow> string \<Rightarrow> string \<Rightarrow> contract_error + string" where
  "resolvedManifestDigest hash manifest packageName packageVersion =
     bind_result (canonicalJsonString
       (JObj [(''manifest'', manifest), (''packageName'', JStr packageName),
              (''packageVersion'', JStr packageVersion)]))
       (\<lambda>t. Inr (hash_digest hash t))"

definition digestsMatch :: "string option \<Rightarrow> string option \<Rightarrow> bool" where
  "digestsMatch left right \<longleftrightarrow> left \<noteq> None \<and> right \<noteq> None \<and> left = right"

section \<open>The pure form of canonicalization\<close>

text \<open>On a document no error arises, and the result is the key-sorted copy.\<close>

fun key_sorted :: "jv \<Rightarrow> jv"
  and key_sorted_items :: "jv list \<Rightarrow> jv list"
  and key_sorted_fields :: "(string \<times> jv) list \<Rightarrow> (string \<times> jv) list" where
  "key_sorted (JArr xs) = JArr (key_sorted_items xs)"
| "key_sorted (JObj kvs) = JObj (obj_assign_all (sort_key fst (key_sorted_fields kvs)) [])"
| "key_sorted v = v"
| "key_sorted_items [] = []"
| "key_sorted_items (x # xs) = key_sorted x # key_sorted_items xs"
| "key_sorted_fields [] = []"
| "key_sorted_fields ((k, v) # kvs) = (k, key_sorted v) # key_sorted_fields kvs"

lemma key_sorted_items_map: "key_sorted_items xs = map key_sorted xs"
  by (induction xs) auto

lemma key_sorted_fields_map: "key_sorted_fields kvs = map (\<lambda>(k, v). (k, key_sorted v)) kvs"
  by (induction kvs) auto

lemma sort_key_fst_map:
  "sort_key fst (map (\<lambda>(k, v). (k, f v)) ps) = map (\<lambda>(k, v). (k, f v)) (sort_key fst ps)"
proof (induction ps)
  case Nil
  show ?case by simp
next
  case (Cons p ps)
  have "insort_key fst (fst p, f (snd p)) (map (\<lambda>(k, v). (k, f v)) qs) =
      map (\<lambda>(k, v). (k, f v)) (insort_key fst p qs)" for qs
    by (induction qs) (auto split: prod.splits)
  with Cons show ?case by (auto split: prod.splits)
qed

lemma canonicalize_doc_aux:
  "is_doc v \<Longrightarrow> canonicalizeValue v path = Inr (key_sorted v)"
  "is_doc_items xs \<Longrightarrow> canon_items xs path i = map Inr (key_sorted_items xs)"
  "is_doc_fields kvs \<Longrightarrow> canon_fields kvs path = map (\<lambda>(k, v). (k, Inr v)) (key_sorted_fields kvs)"
proof (induction v path and xs path i and kvs path rule: canonicalizeValue_canon_items_canon_fields.induct)
  case (1 xs path)
  then show ?case by (simp add: assertCanonicalizable_def)
next
  case (2 kvs path)
  have "map (\<lambda>(k, r). bind_result r (\<lambda>v. Inr (k, v))) (map (\<lambda>(k, v). (k, Inr v :: contract_error + jv)) ps)
      = map Inr ps" for ps :: "(string \<times> jv) list" by (induction ps) auto
  with 2 show ?case
    by (simp add: assertCanonicalizable_def sort_key_fst_map del: map_map)
qed (auto simp: assertCanonicalizable_def)

lemma canonicalize_doc: "is_doc v \<Longrightarrow> canonicalize v = Inr (key_sorted v)"
  by (simp add: canonicalize_def canonicalize_doc_aux)

text \<open>Anything else is rejected.\<close>

lemma canonicalize_not_doc_aux:
  "canonicalizeValue v path = Inr w \<Longrightarrow> is_doc v"
  "canon_items xs path i = map Inr ys \<Longrightarrow> is_doc_items xs"
  "(\<forall>p\<in>set (canon_fields kvs path). is_ok (snd p)) \<Longrightarrow> is_doc_fields kvs"
proof (induction v path and xs path i and kvs path arbitrary: w and ys
    rule: canonicalizeValue_canon_items_canon_fields.induct)
  case (1 xs path)
  then show ?case by (auto simp: assertCanonicalizable_def bind_result_Inr_iff collect_Inr_iff)
next
  case (2 kvs path)
  from 2(2) obtain ps where ps:
    "map (\<lambda>(k, r). bind_result r (\<lambda>v. Inr (k, v))) (sort_key fst (canon_fields kvs path)) = map Inr ps"
    by (auto simp: assertCanonicalizable_def bind_result_Inr_iff collect_Inr_iff)
  have "is_ok (snd p)" if "p \<in> set (canon_fields kvs path)" for p
    using map_Inr_all_ok [OF ps, of p] that by (cases p; cases "snd p") auto
  with 2(1) show ?case by (simp add: assertCanonicalizable_def)
next
  case (5 x xs path i)
  then show ?case by (cases ys) auto
next
  case (7 k child kvs path)
  then show ?case
    by (cases "canonicalizeValue child (if path = [] then k else path @ ''.'' @ k)")
       (auto split: if_splits)
qed (auto simp: assertCanonicalizable_def)

lemma canonicalize_ok_iff: "is_ok (canonicalize v) \<longleftrightarrow> is_doc v"
proof
  assume "is_ok (canonicalize v)"
  then obtain w where "canonicalize v = Inr w" by (cases "canonicalize v") auto
  then show "is_doc v" unfolding canonicalize_def by (rule canonicalize_not_doc_aux)
qed (simp add: canonicalize_doc)

section \<open>Equality up to key order\<close>

text \<open>
  Two values are equal up to key order when they have the same shape and, at every object, the
  same keys with values equal up to key order.
\<close>

inductive same_doc :: "jv \<Rightarrow> jv \<Rightarrow> bool" where
  atom: "same_doc v v"
| arr: "list_all2 same_doc xs ys \<Longrightarrow> same_doc (JArr xs) (JArr ys)"
| obj: "mset lvs = mset mvs \<Longrightarrow>
    list_all2 (\<lambda>p q. fst p = fst q \<and> same_doc (snd p) (snd q)) kvs mvs \<Longrightarrow> same_doc (JObj kvs) (JObj lvs)"

text \<open>
  Well-formed documents: the keys of every object are distinct and none of them is
  \<open>__proto__\<close>.
\<close>

fun wf_doc :: "jv \<Rightarrow> bool"
  and wf_doc_items :: "jv list \<Rightarrow> bool"
  and wf_doc_fields :: "(string \<times> jv) list \<Rightarrow> bool" where
  "wf_doc (JArr xs) = wf_doc_items xs"
| "wf_doc (JObj kvs) = (distinct (map fst kvs) \<and> wf_doc_fields kvs)"
| "wf_doc v = is_doc v"
| "wf_doc_items [] = True"
| "wf_doc_items (x # xs) = (wf_doc x \<and> wf_doc_items xs)"
| "wf_doc_fields [] = True"
| "wf_doc_fields ((k, v) # kvs) = (k \<noteq> ''__proto__'' \<and> wf_doc v \<and> wf_doc_fields kvs)"

lemma wf_doc_items_iff: "wf_doc_items xs \<longleftrightarrow> (\<forall>x\<in>set xs. wf_doc x)"
  by (induction xs) auto

lemma wf_doc_fields_iff: "wf_doc_fields kvs \<longleftrightarrow> (\<forall>p\<in>set kvs. fst p \<noteq> ''__proto__'' \<and> wf_doc (snd p))"
  by (induction kvs) auto

lemma wf_doc_is_doc:
  "wf_doc v \<Longrightarrow> is_doc v" "wf_doc_items xs \<Longrightarrow> is_doc_items xs" "wf_doc_fields kvs \<Longrightarrow> is_doc_fields kvs"
  by (induction v and xs and kvs rule: wf_doc_wf_doc_items_wf_doc_fields.induct) auto

lemma is_doc_key_sorted:
  "is_doc v \<Longrightarrow> is_doc (key_sorted v)" "is_doc_items xs \<Longrightarrow> is_doc_items (key_sorted_items xs)"
  "is_doc_fields kvs \<Longrightarrow> is_doc_fields (key_sorted_fields kvs)"
proof (induction v and xs and kvs rule: key_sorted_key_sorted_items_key_sorted_fields.induct)
  case (2 kvs)
  then show ?case
    using set_obj_assign_all [of "sort_key fst (key_sorted_fields kvs)" "[]"]
    by (auto simp: is_doc_fields_iff)
qed auto

abbreviation key_sorted_object :: "(string \<times> jv) list \<Rightarrow> (string \<times> jv) list" where
  "key_sorted_object kvs \<equiv> obj_assign_all (sort_key fst (key_sorted_fields kvs)) []"

lemma map_fst_key_sorted_fields [simp]: "map fst (key_sorted_fields kvs) = map fst kvs"
  by (induction kvs) auto

lemma key_sorted_object_cong:
  assumes "mset (key_sorted_fields kvs) = mset (key_sorted_fields lvs)" "distinct (map fst kvs)"
  shows "key_sorted_object kvs = key_sorted_object lvs"
proof -
  have "inj_on fst (set (key_sorted_fields kvs))"
    using assms(2) by (metis distinct_map map_fst_key_sorted_fields)
  from sort_key_unique [OF assms(1) this] show ?thesis by simp
qed

lemma mset_key_sorted_object:
  assumes "distinct (map fst kvs)" "wf_doc_fields kvs"
  shows "mset (key_sorted_object kvs) = mset (key_sorted_fields kvs)"
proof -
  let ?ps = "sort_key fst (key_sorted_fields kvs)"
  have "mset (map fst ?ps) = mset (map fst kvs)"
    by (metis map_fst_key_sorted_fields mset_map mset_sort)
  then have "distinct (map fst ?ps)"
    using assms(1) by (metis mset_eq_imp_distinct_iff)
  moreover have "filter (\<lambda>p. fst p \<noteq> ''__proto__'') ?ps = ?ps"
    using assms(2) by (auto simp: filter_id_conv key_sorted_fields_map wf_doc_fields_iff)
  ultimately show ?thesis by (simp add: mset_obj_assign_all)
qed

lemma same_doc_key_sorted: "same_doc v w \<Longrightarrow> wf_doc v \<Longrightarrow> key_sorted v = key_sorted w"
proof (induction rule: same_doc.induct)
  case (atom v)
  show ?case by simp
next
  case (arr xs ys)
  from arr(1,2) have "map key_sorted xs = map key_sorted ys"
    by (induction rule: list_all2_induct) auto
  then show ?case by (simp add: key_sorted_items_map)
next
  case (obj lvs mvs kvs)
  from obj(2,3) have "key_sorted_fields kvs = key_sorted_fields mvs"
    by (induction rule: list_all2_induct) (auto split: prod.splits)
  then have "mset (key_sorted_fields kvs) = mset (key_sorted_fields lvs)"
    using obj(1) by (simp add: key_sorted_fields_map)
  with obj(3) show ?case by (simp add: key_sorted_object_cong)
qed

lemma mset_map_split:
  "mset (map f ys) = mset (map g xs) \<Longrightarrow> \<exists>zs. mset zs = mset ys \<and> map f zs = map g xs"
proof (induction xs arbitrary: ys)
  case Nil
  then show ?case by simp
next
  case (Cons x xs)
  then have "g x \<in> f ` set ys" by (metis list.set_intros(1) list.set_map list.simps(9) mset_eq_setD)
  then obtain y where y: "y \<in> set ys" "f y = g x" by auto
  then have m: "mset ys = add_mset y (mset (remove1 y ys))" by simp
  with Cons.prems y have "mset (map f (remove1 y ys)) = mset (map g xs)"
    by (metis add_mset_add_mset_same_iff image_mset_add_mset list.simps(9) mset.simps(2) mset_map)
  from Cons.IH [OF this] obtain zs where "mset zs = mset (remove1 y ys)" "map f zs = map g xs" by blast
  with m y have "mset (y # zs) = mset ys \<and> map f (y # zs) = map g (x # xs)" by simp
  then show ?case by blast
qed

lemma key_sorted_eq_atom [simp]:
  "JNull = key_sorted w \<longleftrightarrow> w = JNull" "JBool b = key_sorted w \<longleftrightarrow> w = JBool b"
  "JNum n = key_sorted w \<longleftrightarrow> w = JNum n" "JStr s = key_sorted w \<longleftrightarrow> w = JStr s"
  by (cases w; auto)+

lemma key_sorted_same_doc_aux:
  "wf_doc v \<Longrightarrow> wf_doc w \<Longrightarrow> key_sorted v = key_sorted w \<Longrightarrow> same_doc v w"
  "wf_doc_items xs \<Longrightarrow> wf_doc_items ys \<Longrightarrow> key_sorted_items xs = key_sorted_items ys \<Longrightarrow>
     list_all2 same_doc xs ys"
  "wf_doc_fields kvs \<Longrightarrow> wf_doc_fields mvs \<Longrightarrow> key_sorted_fields kvs = key_sorted_fields mvs \<Longrightarrow>
     list_all2 (\<lambda>p q. fst p = fst q \<and> same_doc (snd p) (snd q)) kvs mvs"
proof (induction v and xs and kvs arbitrary: w and ys and mvs
    rule: wf_doc_wf_doc_items_wf_doc_fields.induct)
  case (1 xs)
  then show ?case by (cases w) (auto intro: same_doc.arr)
next
  case (2 kvs)
  then obtain lvs where w: "w = JObj lvs" by (cases w) auto
  let ?f = "\<lambda>(k, v). (k, key_sorted v)"
  have "mset (key_sorted_fields kvs) = mset (key_sorted_fields lvs)"
    using 2(2-4) w mset_key_sorted_object [of kvs] mset_key_sorted_object [of lvs] by simp
  then have "mset (map ?f lvs) = mset (map ?f kvs)" by (simp add: key_sorted_fields_map)
  from mset_map_split [OF this] obtain mvs where
    m: "mset mvs = mset lvs" "key_sorted_fields kvs = key_sorted_fields mvs"
    by (auto simp: key_sorted_fields_map)
  have "wf_doc_fields mvs"
    using 2(3) w m(1) by (metis mset_eq_setD wf_doc.simps(2) wf_doc_fields_iff)
  with 2(1) m(2) have "list_all2 (\<lambda>p q. fst p = fst q \<and> same_doc (snd p) (snd q)) kvs mvs"
    using 2(2) by simp
  then show ?case unfolding w by (rule same_doc.obj [OF m(1) [symmetric]])
next
  case (5 x xs)
  then show ?case by (cases ys) auto
next
  case (7 k v kvs)
  then show ?case by (cases mvs) auto
next
  case 4
  then show ?case by (cases ys) auto
next
  case 6
  then show ?case by (cases mvs) auto
qed (auto intro: same_doc.atom)

lemma same_doc_copy:
  "wf_doc v \<Longrightarrow> same_doc v (key_sorted v)"
  "wf_doc_items xs \<Longrightarrow> list_all2 same_doc xs (key_sorted_items xs)"
  "wf_doc_fields kvs \<Longrightarrow>
     list_all2 (\<lambda>p q. fst p = fst q \<and> same_doc (snd p) (snd q)) kvs (key_sorted_fields kvs)"
proof (induction v and xs and kvs rule: wf_doc_wf_doc_items_wf_doc_fields.induct)
  case (2 kvs)
  then show ?case using same_doc.obj [OF mset_key_sorted_object [of kvs]] by simp
qed (auto intro: same_doc.intros)

lemma key_sorted_eq_iff: "wf_doc v \<Longrightarrow> wf_doc w \<Longrightarrow> key_sorted v = key_sorted w \<longleftrightarrow> same_doc v w"
  using key_sorted_same_doc_aux(1) same_doc_key_sorted by blast

lemma canonicalJsonString_doc: "is_doc v \<Longrightarrow> canonicalJsonString v = Inr (stringify (key_sorted v))"
  by (simp add: canonicalJsonString_def canonicalize_doc)

lemma canonicalJsonString_eq_iff:
  "wf_doc v \<Longrightarrow> wf_doc w \<Longrightarrow> canonicalJsonString v = canonicalJsonString w \<longleftrightarrow> same_doc v w"
  by (simp add: canonicalJsonString_doc wf_doc_is_doc stringify_inj is_doc_key_sorted key_sorted_eq_iff)

lemma manifestDigest_doc:
  "is_doc v \<Longrightarrow> manifestDigest hash v = Inr (hash_digest hash (stringify (key_sorted v)))"
  by (simp add: manifestDigest_def canonicalJsonString_doc)

text \<open>
  The hash does not collide on two texts. This is what collision resistance of SHA-256 gives for
  the texts a program meets.
\<close>

definition no_collision :: "(string \<Rightarrow> string) \<Rightarrow> string \<Rightarrow> string \<Rightarrow> bool" where
  "no_collision hash s t \<longleftrightarrow> (hash s = hash t \<longrightarrow> s = t)"

lemma hash_digest_eq_iff: "no_collision hash s t \<Longrightarrow> hash_digest hash s = hash_digest hash t \<longleftrightarrow> s = t"
  by (auto simp: hash_digest_def no_collision_def)

lemma manifestDigest_eq_iff:
  assumes "wf_doc v" "wf_doc w" "no_collision hash (stringify (key_sorted v)) (stringify (key_sorted w))"
  shows "manifestDigest hash v = manifestDigest hash w \<longleftrightarrow> same_doc v w"
  using assms
  by (simp add: manifestDigest_doc wf_doc_is_doc hash_digest_eq_iff stringify_inj is_doc_key_sorted
      key_sorted_eq_iff)

text \<open>The document a resolved digest covers.\<close>

abbreviation resolved_doc :: "jv \<Rightarrow> string \<Rightarrow> string \<Rightarrow> jv" where
  "resolved_doc m name version \<equiv>
     JObj [(''manifest'', m), (''packageName'', JStr name), (''packageVersion'', JStr version)]"

lemma resolvedManifestDigest_manifestDigest:
  "resolvedManifestDigest hash m name version = manifestDigest hash (resolved_doc m name version)"
  by (simp add: resolvedManifestDigest_def manifestDigest_def)

lemma wf_resolved_doc [simp]: "wf_doc (resolved_doc m n v) \<longleftrightarrow> wf_doc m"
  by simp

lemma key_sorted_resolved:
  "key_sorted (resolved_doc m n v) =
     JObj [(''manifest'', key_sorted m), (''packageName'', JStr n), (''packageVersion'', JStr v)]"
proof -
  have i: "array_index ''manifest'' = None" "array_index ''packageName'' = None"
    "array_index ''packageVersion'' = None"
    by (simp_all add: array_index_def is_digit_def)
  have s: "sort_key fst [(''manifest'', a), (''packageName'', b), (''packageVersion'', c)] =
      [(''manifest'', a), (''packageName'', b), (''packageVersion'', c :: jv)]" for a b c
    by simp
  show ?thesis
    by (simp add: s del: sort_key_simps)
       (simp add: obj_assign_all_def obj_assign_def own_order_def i)
qed

section \<open>Properties\<close>

text \<open>
  C30. Two well-formed documents have the same canonical text exactly when they are equal up to the
  order of object keys: reformatting a manifest never changes the text that is hashed, and any other
  change does.
\<close>

theorem canonical_text_iff_same_document:
  assumes "wf_doc v" "wf_doc w"
  shows "canonicalJsonString v = canonicalJsonString w \<longleftrightarrow> same_doc v w"
  using assms by (rule canonicalJsonString_eq_iff)

definition ex_doc1 :: jv where
  "ex_doc1 = JObj [(''id'', JStr ''a''), (''b'', JArr [JNum 1, JNull])]"

definition ex_doc2 :: jv where
  "ex_doc2 = JObj [(''b'', JArr [JNum 1, JNull]), (''id'', JStr ''a'')]"

lemma ex_docs_same: "same_doc ex_doc1 ex_doc2"
  unfolding ex_doc1_def ex_doc2_def
  by (rule same_doc.obj [where mvs = "[(''id'', JStr ''a''), (''b'', JArr [JNum 1, JNull])]"])
     (auto intro: same_doc.atom)

theorem canonical_text_iff_same_document_witness:
  "ex_doc1 \<noteq> ex_doc2 \<and> canonicalJsonString ex_doc1 = canonicalJsonString ex_doc2"
proof -
  have "wf_doc ex_doc1" "wf_doc ex_doc2" by (simp_all add: ex_doc1_def ex_doc2_def)
  from canonical_text_iff_same_document [OF this] ex_docs_same show ?thesis
    by (simp add: ex_doc1_def ex_doc2_def)
qed

text \<open>
  Canonicalization returns a value exactly for JSON documents: an \<open>undefined\<close>, a
  function or a non-finite number anywhere in the value makes it throw, and nothing else does.
\<close>

theorem canonicalize_succeeds_iff_document:
  "(\<exists>w. canonicalize v = Inr w) \<longleftrightarrow> is_doc v"
  using canonicalize_ok_iff [of v] by (cases "canonicalize v") auto

text \<open>
  The resolved digest of a manifest moves with the package name, the package version and the
  manifest itself, and with nothing else: two resolved digests are equal exactly when the names and
  versions are equal and the manifests are equal up to key order.
\<close>

theorem resolved_digest_identifies_package:
  assumes "wf_doc m" "wf_doc m'"
    and "no_collision hash (stringify (key_sorted (resolved_doc m name version)))
      (stringify (key_sorted (resolved_doc m' name' version')))"
  shows "resolvedManifestDigest hash m name version = resolvedManifestDigest hash m' name' version'
     \<longleftrightarrow> same_doc m m' \<and> name = name' \<and> version = version'"
proof -
  have d: "is_doc (resolved_doc m name version)" "is_doc (resolved_doc m' name' version')"
    using assms by (simp_all add: wf_doc_is_doc)
  have "resolvedManifestDigest hash m name version = resolvedManifestDigest hash m' name' version'
     \<longleftrightarrow> key_sorted (resolved_doc m name version) = key_sorted (resolved_doc m' name' version')"
    unfolding resolvedManifestDigest_manifestDigest manifestDigest_doc [OF d(1)] manifestDigest_doc [OF d(2)]
    using d assms(3) by (simp only: hash_digest_eq_iff sum.inject stringify_inj is_doc_key_sorted)
  also have "\<dots> \<longleftrightarrow> same_doc m m' \<and> name = name' \<and> version = version'"
    unfolding key_sorted_resolved using assms key_sorted_eq_iff by auto
  finally show ?thesis .
qed

theorem resolved_digest_identifies_package_witness:
  "resolvedManifestDigest rev ex_doc1 ''p'' ''1'' = resolvedManifestDigest rev ex_doc2 ''p'' ''1''
   \<and> resolvedManifestDigest rev ex_doc1 ''p'' ''1'' \<noteq> resolvedManifestDigest rev ex_doc1 ''p'' ''2''"
proof -
  have w: "wf_doc ex_doc1" "wf_doc ex_doc2" by (simp_all add: ex_doc1_def ex_doc2_def)
  have n: "no_collision rev s t" for s t by (simp add: no_collision_def)
  show ?thesis
    using resolved_digest_identifies_package [OF w n, of "''p''" "''1''" "''p''" "''1''"]
      resolved_digest_identifies_package [OF w(1,1) n, of "''p''" "''1''" "''p''" "''2''"] ex_docs_same
    by simp
qed

text \<open>
  The copy that canonicalization makes loses a property named \<open>__proto__\<close>: documents
  that differ only below it have the same canonical text, and so the same digest.
\<close>

theorem proto_key_is_lost:
  assumes "is_doc v"
  shows "canonicalJsonString (JObj [(''__proto__'', v)]) = canonicalJsonString (JObj [])"
  using assms
  by (simp add: canonicalJsonString_doc obj_assign_all_def obj_assign_def)

theorem proto_key_is_lost_witness:
  "canonicalJsonString (JObj [(''__proto__'', JObj [(''a'', JNum 1)])]) = canonicalJsonString (JObj [])"
  by (rule proto_key_is_lost) simp

end
