(* ===== verification/Loader.thy ===== *)
theory Loader
  imports Canonicalize
begin

text \<open>
  The manifest loader of \<open>@appspine/plugin-api/loader\<close>: engine checks
  (\<open>engine.ts\<close>), structural and semantic validation (\<open>validate.ts\<close>) and the parse
  and load entry points (\<open>index.ts\<close>).
  External code is a parameter: \<open>semver\<close> as the record \<open>semver_api\<close>, the compiled
  Ajv validator as the function from a candidate to its error objects, and the file system with
  \<open>JSON.parse\<close> and \<open>path.join\<close> as the record \<open>node_api\<close>.
\<close>

section \<open>Exceptions\<close>

datatype exn = TypeError | Contract contract_error

section \<open>Engine and framework ranges\<close>

record semver_api =
  sv_valid :: "string \<Rightarrow> string option"
  sv_validRange :: "string \<Rightarrow> string option"
  sv_satisfies :: "string \<Rightarrow> string \<Rightarrow> bool"
  sv_intersects :: "string \<Rightarrow> string \<Rightarrow> bool"

record host_engine =
  he_appspinePluginApi :: string
  he_node :: "string option"
  he_frameworks :: "(string \<times> string) list option"

definition concreteHostVersion :: "semver_api \<Rightarrow> string \<Rightarrow> string option" where
  "concreteHostVersion sv raw = sv_valid sv raw"

definition opt_plugin :: "string option \<Rightarrow> diagnostic_extra \<Rightarrow> diagnostic_extra" where
  "opt_plugin p x = x\<lparr>dx_pluginId := p\<rparr>"

lemma opt_plugin_severity [simp]: "dx_severity (opt_plugin p x) = dx_severity x"
  by (simp add: opt_plugin_def)

definition checkRange :: "semver_api \<Rightarrow> string \<Rightarrow> string \<Rightarrow> string option \<Rightarrow> bool \<times> diagnostic list" where
  "checkRange sv rng path pluginId =
     (if sv_validRange sv rng = None
      then (False, [mk_diagnostic ''invalid-engine-range''
              (quoted rng @ '' is not a valid SemVer range'') (opt_plugin pluginId (at_path path))])
      else (True, []))"

definition checkAgainstHost ::
    "semver_api \<Rightarrow> string \<Rightarrow> string \<Rightarrow> string \<Rightarrow> string \<Rightarrow> string option \<Rightarrow> diagnostic list" where
  "checkAgainstHost sv rng hostValue path label pluginId =
     (case concreteHostVersion sv hostValue of
        Some concrete \<Rightarrow>
          if \<not> sv_satisfies sv concrete rng
          then [mk_diagnostic ''engine-range-unsatisfied''
                 (label @ '' '' @ concrete @ '' does not satisfy the declared range '' @ quoted rng)
                 (opt_plugin pluginId (at_path path))]
          else []
      | None \<Rightarrow>
          if sv_validRange sv hostValue = None
          then [mk_diagnostic ''invalid-host-engine-range''
                 (''host declared '' @ quoted hostValue @ '' for '' @ label
                   @ '', which is neither a version nor a SemVer range'')
                 (opt_plugin pluginId (at_path path))]
          else if \<not> sv_intersects sv rng hostValue
          then [mk_diagnostic ''engine-range-no-intersection''
                 (''declared range '' @ quoted rng @ '' has no overlap with the host range ''
                   @ quoted hostValue @ '' for '' @ label)
                 (opt_plugin pluginId (at_path path))]
          else [])"

definition checkFramework ::
    "semver_api \<Rightarrow> host_engine \<Rightarrow> string option \<Rightarrow> string \<times> string \<Rightarrow> diagnostic list" where
  "checkFramework sv host pluginId fr =
     (case fr of (framework, rng) \<Rightarrow>
        let path = ''engine.frameworks.'' @ framework;
            r = checkRange sv rng path pluginId
        in if \<not> fst r then snd r
           else (case map_of (coalesce (he_frameworks host) []) framework of
               None \<Rightarrow>
                 [mk_diagnostic ''framework-not-declared-by-host''
                   (''host declares no version for '' @ quoted framework @ ''; the range ''
                     @ quoted rng @ '' cannot be checked'')
                   (with_severity SevWarning (opt_plugin pluginId (at_path path)))]
             | Some hostVersion \<Rightarrow> checkAgainstHost sv rng hostVersion path framework pluginId))"

definition validateEngine ::
    "semver_api \<Rightarrow> string \<Rightarrow> engine_requirement \<Rightarrow> host_engine \<Rightarrow> string option \<Rightarrow> diagnostic list" where
  "validateEngine sv processNode engine host pluginId =
     (let api = checkRange sv (er_appspinePluginApi engine) ''engine.appspinePluginApi'' pluginId;
          node = checkRange sv (er_node engine) ''engine.node'' pluginId
      in snd api
         @ (if fst api
            then checkAgainstHost sv (er_appspinePluginApi engine) (he_appspinePluginApi host)
                   ''engine.appspinePluginApi'' ''@appspine/plugin-api'' pluginId
            else [])
         @ snd node
         @ (if fst node
            then checkAgainstHost sv (er_node engine) (coalesce (he_node host) processNode)
                   ''engine.node'' ''Node'' pluginId
            else [])
         @ concat (map (checkFramework sv host pluginId)
             (sort_key fst (coalesce (er_frameworks engine) []))))"

subsection \<open>What the engine checks accept\<close>

text \<open>A host value satisfies a range: as a version, or as an overlapping range.\<close>

definition host_satisfies :: "semver_api \<Rightarrow> string \<Rightarrow> string \<Rightarrow> bool" where
  "host_satisfies sv rng hostValue =
     (case sv_valid sv hostValue of
        Some v \<Rightarrow> sv_satisfies sv v rng
      | None \<Rightarrow> sv_validRange sv hostValue \<noteq> None \<and> sv_intersects sv rng hostValue)"

definition framework_ok :: "semver_api \<Rightarrow> host_engine \<Rightarrow> string \<times> string \<Rightarrow> bool" where
  "framework_ok sv host fr \<longleftrightarrow>
     sv_validRange sv (snd fr) \<noteq> None
     \<and> (case map_of (coalesce (he_frameworks host) []) (fst fr) of
          None \<Rightarrow> True | Some v \<Rightarrow> host_satisfies sv (snd fr) v)"

definition engine_ok :: "semver_api \<Rightarrow> string \<Rightarrow> engine_requirement \<Rightarrow> host_engine \<Rightarrow> bool" where
  "engine_ok sv processNode e host \<longleftrightarrow>
     sv_validRange sv (er_appspinePluginApi e) \<noteq> None
     \<and> host_satisfies sv (er_appspinePluginApi e) (he_appspinePluginApi host)
     \<and> sv_validRange sv (er_node e) \<noteq> None
     \<and> host_satisfies sv (er_node e) (coalesce (he_node host) processNode)
     \<and> (\<forall>fr \<in> set (coalesce (er_frameworks e) []). framework_ok sv host fr)"

lemma checkRange_errors:
  "fst (checkRange sv r p i) \<longleftrightarrow> sv_validRange sv r \<noteq> None"
  "hasErrors (snd (checkRange sv r p i)) \<longleftrightarrow> sv_validRange sv r = None"
  by (simp_all add: checkRange_def)

lemma checkAgainstHost_errors:
  "hasErrors (checkAgainstHost sv r h p l i) \<longleftrightarrow> \<not> host_satisfies sv r h"
  by (simp add: checkAgainstHost_def host_satisfies_def concreteHostVersion_def split: option.splits)

lemma checkFramework_errors: "hasErrors (checkFramework sv host i fr) \<longleftrightarrow> \<not> framework_ok sv host fr"
  by (cases fr)
     (auto simp: checkFramework_def framework_ok_def Let_def checkRange_errors checkAgainstHost_errors
       split: option.splits)

lemma validateEngine_errors:
  "hasErrors (validateEngine sv pn e host i) \<longleftrightarrow> \<not> engine_ok sv pn e host"
  by (auto simp: validateEngine_def Let_def engine_ok_def checkRange_errors checkAgainstHost_errors
      checkFramework_errors)

section \<open>Structural validation\<close>

text \<open>
  An Ajv error object, with the fields of \<open>params\<close> that the mapping reads.
\<close>

record ajv_error =
  aj_keyword :: string
  aj_instancePath :: string
  aj_missingProperty :: string
  aj_additionalProperty :: string
  aj_allowedValue :: jv
  aj_allowedValues :: "jv list"
  aj_limit :: int
  aj_type :: string
  aj_message :: "string option"

definition dottedPath :: "string \<Rightarrow> string option \<Rightarrow> string" where
  "dottedPath instancePath extra =
     (let stripped = (case instancePath of [] \<Rightarrow> [] | c # cs \<Rightarrow> if c = CHR ''/'' then cs else instancePath);
          base = map (\<lambda>c. if c = CHR ''/'' then CHR ''.'' else c) stripped
      in if \<not> truthy extra then (if base = [] then ''(root)'' else base)
         else if base = [] then the extra else base @ ''.'' @ the extra)"

definition ENGINE_RANGE_PATHS :: "string list" where
  "ENGINE_RANGE_PATHS = [''engine.appspinePluginApi'', ''engine.node'']"

text \<open>
  Conversion of a value to a string, as in a template literal, and of an array element by
  \<open>Array.prototype.join\<close>.
\<close>

fun to_text :: "jv \<Rightarrow> string"
  and join_texts :: "jv list \<Rightarrow> string list" where
  "to_text JNull = ''null''"
| "to_text JUndefined = ''undefined''"
| "to_text (JBool b) = (if b then ''true'' else ''false'')"
| "to_text (JNum n) = show_int n"
| "to_text (JNonFinite t) = t"
| "to_text (JStr t) = t"
| "to_text (JArr xs) = join '','' (join_texts xs)"
| "to_text (JObj kvs) = ''[object Object]''"
| "to_text (JOpaque t) = t"
| "join_texts [] = []"
| "join_texts (x # xs) = (if nullish x then [] else to_text x) # join_texts xs"

definition mapAjvError :: "ajv_error \<Rightarrow> diagnostic" where
  "mapAjvError e =
     (let kw = aj_keyword e; path = dottedPath (aj_instancePath e) None in
      if kw = ''required'' then
        (let p = dottedPath (aj_instancePath e) (Some (aj_missingProperty e))
         in mk_diagnostic ''required-field-missing'' (quoted p @ '' is required'') (at_path p))
      else if kw = ''additionalProperties'' then
        (let p = dottedPath (aj_instancePath e) (Some (aj_additionalProperty e))
         in mk_diagnostic ''unknown-field'' (quoted p @ '' is not part of appspine.plugin/v1'') (at_path p))
      else if kw = ''const'' then
        mk_diagnostic (if path = ''schemaVersion'' then ''invalid-schema-version'' else ''invalid-constant-value'')
          (quoted path @ '' must be '' @ stringify (aj_allowedValue e)) (at_path path)
      else if kw = ''enum'' then
        mk_diagnostic ''invalid-enum-value''
          (quoted path @ '' must be one of '' @ join '', '' (join_texts (aj_allowedValues e))) (at_path path)
      else if kw = ''minProperties'' then
        mk_diagnostic (if path = ''facets'' then ''empty-facets'' else ''too-few-properties'')
          (quoted path @ '' must declare at least '' @ show_int (aj_limit e) @ '' entr''
            @ (if aj_limit e = 1 then ''y'' else ''ies'')) (at_path path)
      else if kw = ''pattern'' then
        mk_diagnostic (if path \<in> set ENGINE_RANGE_PATHS then ''invalid-engine-range'' else ''invalid-format'')
          (quoted path @ '' does not match the required format'') (at_path path)
      else if kw = ''uniqueItems'' then
        mk_diagnostic ''duplicate-array-item'' (quoted path @ '' contains duplicate entries'') (at_path path)
      else if kw = ''minLength'' then
        mk_diagnostic ''empty-value'' (quoted path @ '' must not be empty'') (at_path path)
      else if kw = ''type'' then
        mk_diagnostic ''invalid-type'' (quoted path @ '' must be of type '' @ aj_type e) (at_path path)
      else if kw = ''minimum'' \<or> kw = ''maximum'' then
        mk_diagnostic ''out-of-range'' (quoted path @ '' '' @ coalesce (aj_message e) ''is out of range'')
          (at_path path)
      else mk_diagnostic ''schema-violation'' (quoted path @ '' '' @ coalesce (aj_message e) ''is invalid'')
          (at_path path))"

text \<open>
  \<open>validate(candidate)\<close> returns true exactly when Ajv records no error.
\<close>

definition validateManifestStructure :: "(jv \<Rightarrow> ajv_error list) \<Rightarrow> jv \<Rightarrow> diagnostic list" where
  "validateManifestStructure ajv candidate = map mapAjvError (ajv candidate)"

lemma mapAjvError_severity [simp]: "dg_severity (mapAjvError e) = SevError"
  by (simp add: mapAjvError_def Let_def)

lemma validateManifestStructure_errors:
  "hasErrors (validateManifestStructure ajv c) \<longleftrightarrow> validateManifestStructure ajv c \<noteq> []"
  by (cases "ajv c") (auto simp: validateManifestStructure_def)

section \<open>Semantic validation\<close>

definition SECRET_LOOKING_ENV_KEYS :: "string list" where
  "SECRET_LOOKING_ENV_KEYS = [''SECRET'', ''PASSWORD'', ''TOKEN'', ''API_KEY'', ''CREDENTIAL'']"

definition looks_secret_env :: "string \<Rightarrow> bool" where
  "looks_secret_env k \<longleftrightarrow> list_ex (contains_str k) SECRET_LOOKING_ENV_KEYS"

text \<open>\<open>isStringArray(v) ? v : []\<close>\<close>

definition isStringArray :: "jv \<Rightarrow> bool" where
  "isStringArray v = (case v of JArr xs \<Rightarrow> list_all (\<lambda>x. jstr x \<noteq> None) xs | _ \<Rightarrow> False)"

definition string_array :: "jv \<Rightarrow> string list" where
  "string_array v =
     (if isStringArray v then (case v of JArr xs \<Rightarrow> map (\<lambda>x. the (jstr x)) xs | _ \<Rightarrow> []) else [])"

definition array_or_empty :: "jv \<Rightarrow> jv list" where
  "array_or_empty v = (case v of JArr xs \<Rightarrow> xs | _ \<Rightarrow> [])"

definition is_object :: "jv \<Rightarrow> bool" where
  "is_object v = (case v of JObj _ \<Rightarrow> True | _ \<Rightarrow> False)"

text \<open>
  The values a \<open>for ... of\<close> loop visits; iterating anything but an array or a string
  throws. Reading a property of \<open>null\<close> or \<open>undefined\<close> is guarded by \<open>?.\<close>.
\<close>

definition iterate :: "jv \<Rightarrow> exn + jv list" where
  "iterate v = (case v of JArr xs \<Rightarrow> Inr xs | JStr s \<Rightarrow> Inr (map (\<lambda>c. JStr [c]) s) | _ \<Rightarrow> Inl TypeError)"

text \<open>\<open>v ?? []\<close>\<close>

definition nullish_to_empty :: "jv \<Rightarrow> jv" where
  "nullish_to_empty v = (if nullish v then JArr [] else v)"

definition worker_diagnostics :: "string \<Rightarrow> jv \<Rightarrow> exn + diagnostic list" where
  "worker_diagnostics pluginId w =
     (case w of
        JStr worker \<Rightarrow>
          Inr (if \<not> starts_with worker (''appspine.'' @ pluginId @ ''.'')
               then [mk_diagnostic ''worker-namespace-mismatch''
                  (''worker '' @ quoted worker @ '' must be namespaced as appspine.'' @ pluginId
                    @ ''.<worker-name> (PL0-03 section 4)'')
                  (of_plugin pluginId (at_path ''facets.backend.workers''))]
               else [])
      | _ \<Rightarrow> Inl TypeError)"

definition health_diagnostics :: "string \<Rightarrow> jv \<Rightarrow> exn + diagnostic list" where
  "health_diagnostics pluginId h =
     (if h = JUndefined \<or> h = JStr pluginId then Inr []
      else (case h of
          JStr t \<Rightarrow>
            Inr (if \<not> starts_with t (pluginId @ ''-'')
                 then [mk_diagnostic ''health-indicator-namespace-mismatch''
                    (''healthIndicatorId '' @ quoted t @ '' must be '' @ quoted pluginId
                      @ '' or start with '' @ quoted (pluginId @ ''-''))
                    (of_plugin pluginId (at_path ''facets.operations.healthIndicatorId''))]
                 else [])
        | _ \<Rightarrow> Inl TypeError))"

definition metrics_diagnostics :: "string \<Rightarrow> jv \<Rightarrow> diagnostic list" where
  "metrics_diagnostics pluginId p =
     (let expected = map (\<lambda>c. if c = CHR ''-'' then CHR ''_'' else c) pluginId
      in if p \<noteq> JUndefined \<and> p \<noteq> JStr expected
         then [mk_diagnostic ''metrics-prefix-mismatch''
            (''metricsPrefix '' @ quoted (to_text p) @ '' must be '' @ quoted expected @ '' (PL0-03 section 4)'')
            (of_plugin pluginId (at_path ''facets.operations.metricsPrefix''))]
         else [])"

definition replaces_diagnostics :: "string \<Rightarrow> jv list \<Rightarrow> diagnostic list" where
  "replaces_diagnostics pluginId replaces =
     concat (map (\<lambda>(index, r).
       if jget ''plugin'' r = JStr pluginId
       then [mk_diagnostic ''replaces-self'' ''a plugin cannot replace its own contribution''
          (of_plugin pluginId (at_path (''replaces['' @ show_nat index @ ''].plugin'')))]
       else []) (List.enumerate 0 replaces))"

definition environment_diagnostics :: "string \<Rightarrow> jv list \<Rightarrow> diagnostic list" where
  "environment_diagnostics pluginId environment =
     concat (map (\<lambda>(index, entry).
       case jget ''key'' entry of
         JStr key \<Rightarrow>
           if looks_secret_env key \<and> jget ''secret'' entry \<noteq> JBool True
           then [mk_diagnostic ''secret-field-not-marked-secret''
              (''environment key '' @ quoted key @ '' looks like a credential but is not marked secret'')
              (of_plugin pluginId (at_path (''environment['' @ show_nat index @ ''].secret'')))]
           else []
       | _ \<Rightarrow> []) (List.enumerate 0 environment))"

definition provides_host_diagnostics :: "string \<Rightarrow> string list \<Rightarrow> diagnostic list" where
  "provides_host_diagnostics pluginId provides =
     concat (map (\<lambda>c. if c \<in> set HOST_PROVIDED_CAPABILITIES
       then [mk_diagnostic ''host-owned-capability-provided''
          (quoted c @ '' is host-owned; a plugin may require it but never provide it'')
          (of_plugin pluginId (at_path ''provides''))]
       else []) provides)"

definition requires_own_diagnostics :: "string \<Rightarrow> string list \<Rightarrow> string list \<Rightarrow> diagnostic list" where
  "requires_own_diagnostics pluginId provides required =
     concat (map (\<lambda>c. if c \<in> set provides
       then [mk_diagnostic ''requires-own-capability''
          (quoted c @ '' is both provided and required by this plugin'')
          (of_plugin pluginId (at_path ''requires''))]
       else []) required)"

definition unregistered_diagnostics :: "bool \<Rightarrow> string \<Rightarrow> string list \<Rightarrow> diagnostic list" where
  "unregistered_diagnostics strict pluginId caps =
     concat (map (\<lambda>c. if c \<notin> set REGISTERED_CAPABILITIES
       then [mk_diagnostic ''unregistered-capability''
          (quoted c @ '' is not in the PL0-03 capability registry'')
          (with_severity (if strict then SevError else SevWarning)
            (of_plugin pluginId (at_path ''provides/requires'')))]
       else []) caps)"

definition validateManifestSemantics :: "jv \<Rightarrow> bool \<Rightarrow> exn + diagnostic list" where
  "validateManifestSemantics candidate strict =
     (if \<not> is_object candidate then Inr []
      else
        let pluginId = coalesce (jstr (jget ''id'' candidate)) [];
            provides = string_array (jget ''provides'' candidate);
            required = string_array (jget ''requires'' candidate);
            optionalRequires = string_array (jget ''optionalRequires'' candidate);
            conflicts = string_array (jget ''conflicts'' candidate);
            replaces = array_or_empty (jget ''replaces'' candidate);
            environment = array_or_empty (jget ''environment'' candidate);
            facets = (if is_object (jget ''facets'' candidate) then jget ''facets'' candidate else JObj []);
            backend = jget ''backend'' facets;
            operations = jget ''operations'' facets
        in bind_result (iterate (nullish_to_empty (jget ''workers'' backend))) (\<lambda>workers.
           bind_result (collect (map (worker_diagnostics pluginId) workers)) (\<lambda>wds.
           bind_result (health_diagnostics pluginId (jget ''healthIndicatorId'' operations)) (\<lambda>hds.
           Inr (
             (if INTERACTIVE_AUTH_CAPABILITY \<in> set provides \<and> conflicts = []
              then [mk_diagnostic ''interactive-provider-without-conflicts''
                 (''a plugin providing '' @ INTERACTIVE_AUTH_CAPABILITY
                   @ '' must declare the interactive providers it excludes (051 decision 8)'')
                 (of_plugin pluginId (at_path ''conflicts''))]
              else [])
             @ (if pluginId \<in> set conflicts
                then [mk_diagnostic ''self-conflict'' ''a plugin cannot declare a conflict with itself''
                   (of_plugin pluginId (at_path ''conflicts''))]
                else [])
             @ (if replaces \<noteq> [] \<and> jget ''distribution'' candidate \<noteq> JStr ''app-local''
                then [mk_diagnostic ''replacement-not-app-local''
                   (''only an app-local plugin may replace another plugin'' @ [CHR 0x27]
                     @ ''s contribution (051 plan section 4.5)'')
                   (of_plugin pluginId (at_path ''distribution''))]
                else [])
             @ replaces_diagnostics pluginId replaces
             @ environment_diagnostics pluginId environment
             @ provides_host_diagnostics pluginId provides
             @ requires_own_diagnostics pluginId provides (required @ optionalRequires)
             @ unregistered_diagnostics strict pluginId (provides @ required @ optionalRequires)
             @ concat wds
             @ hds
             @ metrics_diagnostics pluginId (jget ''metricsPrefix'' operations)
             @ (if jget ''cardinality'' candidate = JStr ''multiple'' \<and> \<not> jtruthy (jget ''configSchema'' candidate)
                then [mk_diagnostic ''multi-instance-without-config''
                   ''a cardinality:multiple plugin should declare configSchema so instances can differ''
                   (with_severity SevWarning (of_plugin pluginId (at_path ''configSchema'')))]
                else [])
             @ (if CAP_prisma \<in> set provides
                then [mk_diagnostic ''prisma-capability-provided-by-plugin''
                   (quoted CAP_prisma @ '' is provided by the App'' @ [CHR 0x27]
                     @ ''s Prisma module, not by a capability plugin'')
                   (of_plugin pluginId (at_path ''provides''))]
                else []))))))"

section \<open>The typed view of a valid manifest\<close>

text \<open>
  \<open>candidate as PluginManifestV1\<close>: the fields read out of the document. It is used only
  after the structural validation has accepted the document, which fixes the type of every field.
\<close>

definition opt_field :: "(jv \<Rightarrow> 'a) \<Rightarrow> string \<Rightarrow> jv \<Rightarrow> 'a option" where
  "opt_field f k v = (if jget k v = JUndefined then None else Some (f (jget k v)))"

definition as_string :: "jv \<Rightarrow> string" where
  "as_string v = coalesce (jstr v) []"

definition as_strings :: "jv \<Rightarrow> string list" where
  "as_strings v = map as_string (array_or_empty v)"

definition as_bool :: "jv \<Rightarrow> bool" where
  "as_bool v \<longleftrightarrow> v = JBool True"

definition as_int :: "jv \<Rightarrow> int" where
  "as_int v = (case v of JNum n \<Rightarrow> n | _ \<Rightarrow> 0)"

definition as_entries :: "jv \<Rightarrow> (string \<times> string) list" where
  "as_entries v = (case v of JObj kvs \<Rightarrow> map (\<lambda>(k, x). (k, as_string x)) kvs | _ \<Rightarrow> [])"

definition as_engine :: "jv \<Rightarrow> engine_requirement" where
  "as_engine v =
     \<lparr>er_appspinePluginApi = as_string (jget ''appspinePluginApi'' v), er_node = as_string (jget ''node'' v),
      er_frameworks = opt_field as_entries ''frameworks'' v\<rparr>"

definition as_backend :: "jv \<Rightarrow> backend_facet" where
  "as_backend v =
     \<lparr>bf_modulePath = as_string (jget ''modulePath'' v), bf_exportName = as_string (jget ''exportName'' v),
      bf_factoryExportName = opt_field as_string ''factoryExportName'' v,
      bf_global = opt_field as_bool ''global'' v,
      bf_controllerRoutes = opt_field as_strings ''controllerRoutes'' v,
      bf_providerTokens = opt_field as_strings ''providerTokens'' v,
      bf_workers = opt_field as_strings ''workers'' v\<rparr>"

definition as_shorthand :: "(jv \<Rightarrow> 'a) \<Rightarrow> jv \<Rightarrow> 'a shorthand" where
  "as_shorthand f v = (case v of JStr t \<Rightarrow> Bare t | _ \<Rightarrow> Full (f v))"

definition as_admin_page :: "jv \<Rightarrow> admin_page" where
  "as_admin_page v =
     \<lparr>ap_id = as_string (jget ''id'' v), ap_routePath = opt_field as_string ''routePath'' v,
      ap_title = opt_field as_string ''title'' v,
      ap_componentExport = opt_field as_string ''componentExport'' v,
      ap_requiredPermission = opt_field as_string ''requiredPermission'' v,
      ap_breadcrumb = opt_field as_string ''breadcrumb'' v, ap_order = opt_field as_int ''order'' v\<rparr>"

definition as_navigation_item :: "jv \<Rightarrow> navigation_item" where
  "as_navigation_item v =
     \<lparr>ni_id = as_string (jget ''id'' v), ni_title = opt_field as_string ''title'' v,
      ni_href = opt_field as_string ''href'' v, ni_icon = opt_field as_string ''icon'' v,
      ni_order = opt_field as_int ''order'' v, ni_section = opt_field as_string ''section'' v,
      ni_requiredPermission = opt_field as_string ''requiredPermission'' v,
      ni_before = opt_field as_string ''before'' v, ni_after = opt_field as_string ''after'' v\<rparr>"

definition as_slot :: "jv \<Rightarrow> slot_contribution" where
  "as_slot v =
     \<lparr>sc_slot = as_string (jget ''slot'' v), sc_componentExport = as_string (jget ''componentExport'' v),
      sc_order = opt_field as_int ''order'' v, sc_before = opt_field as_string ''before'' v,
      sc_after = opt_field as_string ''after'' v,
      sc_requiredPermission = opt_field as_string ''requiredPermission'' v\<rparr>"

definition as_i18n :: "jv \<Rightarrow> i18n_contribution" where
  "as_i18n v = \<lparr>i18n_namespace = as_string (jget ''namespace'' v), i18n_locales = opt_field as_strings ''locales'' v\<rparr>"

definition as_frontend :: "jv \<Rightarrow> frontend_facet" where
  "as_frontend v =
     \<lparr>ff_adminPages = opt_field (\<lambda>x. map (as_shorthand as_admin_page) (array_or_empty x)) ''adminPages'' v,
      ff_navigationItems =
        opt_field (\<lambda>x. map (as_shorthand as_navigation_item) (array_or_empty x)) ''navigationItems'' v,
      ff_slots = opt_field (\<lambda>x. map as_slot (array_or_empty x)) ''slots'' v,
      ff_loginProviderUi = opt_field as_bool ''loginProviderUi'' v,
      ff_i18nNamespace = opt_field as_string ''i18nNamespace'' v,
      ff_i18n = opt_field as_i18n ''i18n'' v, ff_clientEntry = opt_field as_string ''clientEntry'' v,
      ff_serverEntry = opt_field as_string ''serverEntry'' v\<rparr>"

definition as_operations :: "jv \<Rightarrow> operations_facet" where
  "as_operations v =
     \<lparr>of_healthIndicatorId = opt_field as_string ''healthIndicatorId'' v,
      of_metricsPrefix = opt_field as_string ''metricsPrefix'' v,
      of_shutdownTimeoutMs = opt_field as_int ''shutdownTimeoutMs'' v\<rparr>"

definition as_facets :: "jv \<Rightarrow> plugin_facets" where
  "as_facets v =
     \<lparr>fc_backend = opt_field as_backend ''backend'' v, fc_frontend = opt_field as_frontend ''frontend'' v,
      fc_prisma = opt_field (\<lambda>x. x) ''prisma'' v, fc_permissions = opt_field (\<lambda>x. x) ''permissions'' v,
      fc_operations = opt_field as_operations ''operations'' v\<rparr>"

definition as_replacement :: "jv \<Rightarrow> replacement" where
  "as_replacement v =
     \<lparr>rp_plugin = as_string (jget ''plugin'' v), rp_facet = as_string (jget ''facet'' v),
      rp_contribution = as_string (jget ''contribution'' v), rp_reason = as_string (jget ''reason'' v)\<rparr>"

definition as_environment :: "jv \<Rightarrow> environment_entry" where
  "as_environment v =
     \<lparr>env_key = as_string (jget ''key'' v), env_required = as_bool (jget ''required'' v),
      env_secret = as_bool (jget ''secret'' v), env_description = opt_field as_string ''description'' v\<rparr>"

definition as_manifest :: "jv \<Rightarrow> plugin_manifest" where
  "as_manifest v =
     \<lparr>mf_schemaVersion = as_string (jget ''schemaVersion'' v), mf_id = as_string (jget ''id'' v),
      mf_displayName = as_string (jget ''displayName'' v),
      mf_cardinality = (if jget ''cardinality'' v = JStr ''multiple'' then Multiple else Singleton),
      mf_distribution =
        opt_field (\<lambda>x. if x = JStr ''app-local'' then AppLocal else Official) ''distribution'' v,
      mf_engine = as_engine (jget ''engine'' v),
      mf_provides = as_strings (jget ''provides'' v), mf_requires = as_strings (jget ''requires'' v),
      mf_optionalRequires = opt_field as_strings ''optionalRequires'' v,
      mf_conflicts = opt_field as_strings ''conflicts'' v,
      mf_replaces = opt_field (\<lambda>x. map as_replacement (array_or_empty x)) ''replaces'' v,
      mf_configSchema = opt_field (\<lambda>x. as_string (jget ''configRef'' x)) ''configSchema'' v,
      mf_optionalFailurePolicy = jtruthy (jget ''optionalFailurePolicy'' v),
      mf_environment = opt_field (\<lambda>x. map as_environment (array_or_empty x)) ''environment'' v,
      mf_facets = as_facets (jget ''facets'' v),
      mf_integrationContracts = opt_field array_or_empty ''integrationContracts'' v, mf_document = v\<rparr>"

section \<open>Parsing and loading\<close>

definition PLUGIN_API_VERSION :: string where
  "PLUGIN_API_VERSION = ''1.1.0''"

definition PLUGIN_MANIFEST_FILENAME :: string where
  "PLUGIN_MANIFEST_FILENAME = ''appspine.plugin.json''"

record host_overrides =
  ho_appspinePluginApi :: "string option"
  ho_node :: "string option"
  ho_frameworks :: "(string \<times> string) list option"

definition defaultHostEngine :: "string \<Rightarrow> host_overrides \<Rightarrow> host_engine" where
  "defaultHostEngine processNode overrides =
     \<lparr>he_appspinePluginApi = coalesce (ho_appspinePluginApi overrides) PLUGIN_API_VERSION,
      he_node = or_else (ho_node overrides) (Some processNode), he_frameworks = ho_frameworks overrides\<rparr>"

record loaded_manifest =
  lm_manifest :: plugin_manifest
  lm_packageName :: string
  lm_packageVersion :: string
  lm_source :: string
  lm_manifestDigest :: string
  lm_digest :: string
  lm_diagnostics :: "diagnostic list"

text \<open>The external code the loader calls.\<close>

record loader_env =
  le_semver :: semver_api
  le_ajv :: "jv \<Rightarrow> ajv_error list"
  le_hash :: "string \<Rightarrow> string"
  le_processNode :: string

record parse_options =
  po_strict :: bool
  po_packageName :: string
  po_packageVersion :: string
  po_host :: "host_engine option"
  po_expectedDigest :: "string option"
  po_source :: "string option"

definition lift_contract :: "contract_error + 'a \<Rightarrow> exn + 'a" where
  "lift_contract r = (case r of Inl e \<Rightarrow> Inl (Contract e) | Inr a \<Rightarrow> Inr a)"

lemma lift_contract_simps [simp]:
  "lift_contract (Inl e) = Inl (Contract e)" "lift_contract (Inr a) = Inr a"
  by (simp_all add: lift_contract_def)

definition digest_mismatch :: "parse_options \<Rightarrow> string \<Rightarrow> string \<Rightarrow> diagnostic list" where
  "digest_mismatch opts pluginId computed =
     (case po_expectedDigest opts of
        None \<Rightarrow> []
      | Some expected \<Rightarrow>
          if \<not> digestsMatch (Some expected) (Some computed)
          then [mk_diagnostic ''manifest-digest-mismatch''
             (''manifest digest '' @ computed @ '' does not match the expected '' @ expected)
             (of_plugin pluginId (at_path ''digest''))]
          else [])"

text \<open>\<open>Inr (Inl ds)\<close> is the result \<open>ok: false\<close>, \<open>Inr (Inr m)\<close> is \<open>ok: true\<close>.\<close>

definition parsePluginManifest ::
    "loader_env \<Rightarrow> jv \<Rightarrow> parse_options \<Rightarrow> exn + (diagnostic list + loaded_manifest)" where
  "parsePluginManifest env candidate opts =
     (let structural = validateManifestStructure (le_ajv env) candidate in
      bind_result (validateManifestSemantics candidate (po_strict opts)) (\<lambda>semantic.
      if structural \<noteq> [] then Inr (Inl (sortDiagnostics (structural @ semantic)))
      else
        let manifest = as_manifest candidate;
            engine = (case po_host opts of
                None \<Rightarrow> []
              | Some host \<Rightarrow> validateEngine (le_semver env) (le_processNode env) (mf_engine manifest) host
                  (Some (mf_id manifest)))
        in bind_result (lift_contract (manifestDigest (le_hash env) (mf_document manifest))) (\<lambda>mdigest.
           bind_result (lift_contract (resolvedManifestDigest (le_hash env) (mf_document manifest)
              (po_packageName opts) (po_packageVersion opts))) (\<lambda>rdigest.
           let diagnostics = semantic @ engine @ digest_mismatch opts (mf_id manifest) rdigest
           in if hasErrors diagnostics then Inr (Inl (sortDiagnostics diagnostics))
              else Inr (Inr
                \<lparr>lm_manifest = manifest, lm_packageName = po_packageName opts,
                 lm_packageVersion = po_packageVersion opts,
                 lm_source = coalesce (po_source opts) ''<in-memory>'',
                 lm_manifestDigest = mdigest, lm_digest = rdigest,
                 lm_diagnostics = sortDiagnostics diagnostics\<rparr>)))))"

text \<open>
  The file system, \<open>JSON.parse\<close> and \<open>path.join\<close>. A failed read gives the
  \<open>code\<close> of the error if it is a string.
\<close>

record node_api =
  na_readFile :: "string \<Rightarrow> string option + string"
  na_jsonParse :: "string \<Rightarrow> jv option"
  na_pathJoin :: "string \<Rightarrow> string \<Rightarrow> string"

definition readJson :: "node_api \<Rightarrow> string \<Rightarrow> string \<Rightarrow> diagnostic list + jv" where
  "readJson node file what =
     (case na_readFile node file of
        Inl code \<Rightarrow> Inl [mk_diagnostic ''manifest-not-readable''
          (''cannot read '' @ what @ '' at '' @ quoted file @ '': '' @ coalesce code ''unknown error'') (at_path file)]
      | Inr raw \<Rightarrow>
          (case na_jsonParse node raw of
             Some v \<Rightarrow> Inr v
           | None \<Rightarrow> Inl [mk_diagnostic ''manifest-not-json''
               (what @ '' at '' @ quoted file @ '' is not valid JSON'') (at_path file)]))"

record load_options =
  lo_strict :: bool
  lo_host :: "host_engine option"
  lo_expectedDigest :: "string option"
  lo_manifestFilename :: "string option"

definition loadPluginManifest ::
    "node_api \<Rightarrow> loader_env \<Rightarrow> string \<Rightarrow> load_options \<Rightarrow> exn + (diagnostic list + loaded_manifest)" where
  "loadPluginManifest node env packageDir opts =
     (let manifestPath = na_pathJoin node packageDir (coalesce (lo_manifestFilename opts) PLUGIN_MANIFEST_FILENAME);
          packageJsonPath = na_pathJoin node packageDir ''package.json''
      in case readJson node packageJsonPath ''package.json'' of
           Inl ds \<Rightarrow> Inr (Inl ds)
         | Inr pkg \<Rightarrow>
             (case (jstr (jget ''name'' pkg), jstr (jget ''version'' pkg)) of
                (Some name, Some version) \<Rightarrow>
                  (case readJson node manifestPath PLUGIN_MANIFEST_FILENAME of
                     Inl ds \<Rightarrow> Inr (Inl ds)
                   | Inr doc \<Rightarrow> parsePluginManifest env doc
                       \<lparr>po_strict = lo_strict opts, po_packageName = name, po_packageVersion = version,
                        po_host = lo_host opts, po_expectedDigest = lo_expectedDigest opts,
                        po_source = Some manifestPath\<rparr>)
              | _ \<Rightarrow> Inr (Inl [mk_diagnostic ''package-metadata-missing''
                    (''package.json at '' @ quoted packageJsonPath @ '' must declare a string name and version'')
                    (at_path packageJsonPath)])))"

definition unwrapManifest :: "diagnostic list + loaded_manifest \<Rightarrow> contract_error + loaded_manifest" where
  "unwrapManifest result =
     (case result of
        Inr value \<Rightarrow> Inr value
      | Inl ds \<Rightarrow> Inl (PluginContractError ''invalid-plugin-manifest'' ''Plugin manifest validation failed'' ds))"

section \<open>What the loader accepts\<close>






lemma unregistered_errors:
  "hasErrors (unregistered_diagnostics strict p cs) \<longleftrightarrow> strict \<and> \<not> set cs \<subseteq> set REGISTERED_CAPABILITIES"
  unfolding unregistered_diagnostics_def hasErrors_concat_map hasErrors_when by auto

lemma worker_errors:
  "worker_diagnostics p w = Inr ds \<Longrightarrow>
     \<exists>t. w = JStr t \<and> (hasErrors ds \<longleftrightarrow> \<not> starts_with t (''appspine.'' @ p @ ''.''))"
  by (auto simp: worker_diagnostics_def split: jv.splits if_splits)

lemma metrics_errors: "hasErrors (metrics_diagnostics p v) \<longleftrightarrow>
    v \<noteq> JUndefined \<and> v \<noteq> JStr (map (\<lambda>c. if c = CHR ''-'' then CHR ''_'' else c) p)"
  by (auto simp: metrics_diagnostics_def Let_def)

text \<open>
  The types the JSON schema gives to the fields that semantic validation reads. The structural
  validator rejects every document that does not have them.
\<close>

definition optionally :: "(jv \<Rightarrow> bool) \<Rightarrow> jv \<Rightarrow> bool" where
  "optionally P v \<longleftrightarrow> v = JUndefined \<or> P v"

definition is_env_array :: "jv \<Rightarrow> bool" where
  "is_env_array v = (case v of
     JArr es \<Rightarrow> list_all (\<lambda>e. jstr (jget ''key'' e) \<noteq> None \<and> jget ''secret'' e \<in> {JBool True, JBool False}) es
   | _ \<Rightarrow> False)"

definition is_replaces_array :: "jv \<Rightarrow> bool" where
  "is_replaces_array v = (case v of JArr rs \<Rightarrow> list_all (\<lambda>r. jstr (jget ''plugin'' r) \<noteq> None) rs | _ \<Rightarrow> False)"

definition schema_typed :: "jv \<Rightarrow> bool" where
  "schema_typed c \<longleftrightarrow>
     is_object c \<and> jstr (jget ''id'' c) \<noteq> None
     \<and> isStringArray (jget ''provides'' c) \<and> isStringArray (jget ''requires'' c)
     \<and> optionally isStringArray (jget ''optionalRequires'' c)
     \<and> optionally isStringArray (jget ''conflicts'' c)
     \<and> optionally is_replaces_array (jget ''replaces'' c)
     \<and> optionally is_env_array (jget ''environment'' c)
     \<and> is_object (jget ''facets'' c)
     \<and> optionally isStringArray (jget ''workers'' (jget ''backend'' (jget ''facets'' c)))
     \<and> optionally (\<lambda>v. jstr v \<noteq> None) (jget ''healthIndicatorId'' (jget ''operations'' (jget ''facets'' c)))"

lemma jstr_Some_iff [simp]: "jstr v = Some t \<longleftrightarrow> v = JStr t"
  by (cases v) (auto simp: jstr_def)

lemma jstr_JStr [simp]: "jstr (JStr t) = Some t"
  by simp

lemma isStringArray_cases:
  assumes "isStringArray v"
  obtains ts where "v = JArr (map JStr ts)"
proof -
  from assms obtain xs where xs: "v = JArr xs" "\<forall>x\<in>set xs. \<exists>t. x = JStr t"
    by (auto simp: isStringArray_def list_all_iff split: jv.splits)
  from xs(2) have "xs = map JStr (map (\<lambda>x. the (jstr x)) xs)"
    by (induction xs) auto
  with xs(1) that show ?thesis by metis
qed

lemma isStringArray_map [simp]: "isStringArray (JArr (map JStr ts))"
  by (simp add: isStringArray_def list_all_iff)

lemma string_array_map [simp]: "string_array (JArr (map JStr ts)) = ts"
  by (simp add: string_array_def comp_def)



lemma isStringArray_iterate:
  "isStringArray v \<Longrightarrow> iterate (nullish_to_empty v) = Inr (map JStr (string_array v))"
  by (elim isStringArray_cases) (simp add: iterate_def nullish_to_empty_def nullish_def)

lemma undefined_workers: "iterate (nullish_to_empty JUndefined) = Inr []"
  by (simp add: iterate_def nullish_to_empty_def nullish_def)

text \<open>Semantic validation of a document of the schema's types never throws.\<close>

lemma workers_no_throw:
  "optionally isStringArray v \<Longrightarrow>
     \<exists>ws. iterate (nullish_to_empty v) = Inr (map JStr ws) \<and> ws = string_array v"
  by (auto simp: optionally_def isStringArray_iterate undefined_workers string_array_def isStringArray_def)

lemma worker_list_ok:
  "\<exists>dss. collect (map (worker_diagnostics p) (map JStr ws)) = Inr dss \<and>
     (hasErrors (concat dss) \<longleftrightarrow> (\<exists>w\<in>set ws. \<not> starts_with w (''appspine.'' @ p @ ''.'')))"
proof (induction ws)
  case Nil
  show ?case by simp
next
  case (Cons w ws)
  then show ?case by (auto simp: worker_diagnostics_def)
qed

lemma health_no_throw:
  "optionally (\<lambda>v. jstr v \<noteq> None) h \<Longrightarrow> \<exists>ds. health_diagnostics p h = Inr ds"
  by (auto simp: optionally_def health_diagnostics_def)


lemma semantics_no_throw:
  assumes "schema_typed c"
  shows "\<exists>ds. validateManifestSemantics c strict = Inr ds"
proof -
  let ?b = "jget ''backend'' (jget ''facets'' c)" and ?o = "jget ''operations'' (jget ''facets'' c)"
  let ?p = "coalesce (jstr (jget ''id'' c)) []"
  obtain ws where w: "iterate (nullish_to_empty (jget ''workers'' ?b)) = Inr (map JStr ws)"
    using workers_no_throw assms unfolding schema_typed_def by blast
  obtain dss where d: "collect (map (worker_diagnostics ?p) (map JStr ws)) = Inr dss"
    using worker_list_ok by blast
  obtain hs where h: "health_diagnostics ?p (jget ''healthIndicatorId'' ?o) = Inr hs"
    using health_no_throw assms unfolding schema_typed_def by blast
  have o: "is_object c" "is_object (jget ''facets'' c)" using assms by (simp_all add: schema_typed_def)
  show ?thesis
    unfolding validateManifestSemantics_def Let_def
    by (simp only: o if_True not_True_eq_False if_False w bind_result_simps d h) blast
qed



section \<open>Properties\<close>

text \<open>The conditions under which a candidate is accepted.\<close>

definition host_accepts :: "loader_env \<Rightarrow> parse_options \<Rightarrow> jv \<Rightarrow> bool" where
  "host_accepts env opts c =
     (case po_host opts of None \<Rightarrow> True
      | Some h \<Rightarrow> engine_ok (le_semver env) (le_processNode env) (mf_engine (as_manifest c)) h)"

definition digest_accepts :: "loader_env \<Rightarrow> parse_options \<Rightarrow> jv \<Rightarrow> bool" where
  "digest_accepts env opts c =
     (case po_expectedDigest opts of None \<Rightarrow> True
      | Some e \<Rightarrow>
          resolvedManifestDigest (le_hash env) c (po_packageName opts) (po_packageVersion opts) = Inr e)"

lemma as_manifest_document [simp]: "mf_document (as_manifest c) = c"
  by (simp add: as_manifest_def)

lemma digest_mismatch_errors:
  "hasErrors (digest_mismatch opts p d) \<longleftrightarrow> (case po_expectedDigest opts of None \<Rightarrow> False | Some e \<Rightarrow> e \<noteq> d)"
  by (simp add: digest_mismatch_def digestsMatch_def split: option.splits)

lemma resolved_ok_iff: "is_ok (resolvedManifestDigest hash c n v) \<longleftrightarrow> is_doc c"
proof -
  have "is_doc (JObj [(''manifest'', c), (''packageName'', JStr n), (''packageVersion'', JStr v)]) \<longleftrightarrow> is_doc c"
    by simp
  then show ?thesis
    using canonicalize_ok_iff [of "JObj [(''manifest'', c), (''packageName'', JStr n), (''packageVersion'', JStr v)]"]
    unfolding resolvedManifestDigest_def canonicalJsonString_def
    by (cases "canonicalize (JObj [(''manifest'', c), (''packageName'', JStr n), (''packageVersion'', JStr v)])")
      simp_all
qed

lemma manifestDigest_ok_iff: "is_ok (manifestDigest hash c) \<longleftrightarrow> is_doc c"
  using canonicalize_ok_iff [of c] unfolding manifestDigest_def canonicalJsonString_def
  by (cases "canonicalize c") simp_all

lemma parse_Inr_iff:
  "parsePluginManifest env c opts = Inr (Inr m) \<longleftrightarrow>
     (\<exists>ds md rd. validateManifestStructure (le_ajv env) c = [] \<and> validateManifestSemantics c (po_strict opts) = Inr ds
       \<and> \<not> hasErrors ds \<and> host_accepts env opts c
       \<and> manifestDigest (le_hash env) c = Inr md
       \<and> resolvedManifestDigest (le_hash env) c (po_packageName opts) (po_packageVersion opts) = Inr rd
       \<and> \<not> hasErrors (digest_mismatch opts (mf_id (as_manifest c)) rd)
       \<and> m = \<lparr>lm_manifest = as_manifest c, lm_packageName = po_packageName opts,
               lm_packageVersion = po_packageVersion opts, lm_source = coalesce (po_source opts) ''<in-memory>'',
               lm_manifestDigest = md, lm_digest = rd,
               lm_diagnostics = sortDiagnostics (ds @ (case po_host opts of None \<Rightarrow> []
                 | Some host \<Rightarrow> validateEngine (le_semver env) (le_processNode env) (mf_engine (as_manifest c)) host
                     (Some (mf_id (as_manifest c)))) @ digest_mismatch opts (mf_id (as_manifest c)) rd)\<rparr>)"
proof (cases "validateManifestSemantics c (po_strict opts)")
  case (Inl e)
  then show ?thesis by (simp add: parsePluginManifest_def Let_def)
next
  case sem: (Inr ds)
  show ?thesis
  proof (cases "manifestDigest (le_hash env) c")
    case (Inl e)
    then show ?thesis by (simp add: parsePluginManifest_def Let_def sem)
  next
    case md: (Inr md)
    show ?thesis
    proof (cases "resolvedManifestDigest (le_hash env) c (po_packageName opts) (po_packageVersion opts)")
      case (Inl e)
      then show ?thesis by (simp add: parsePluginManifest_def Let_def sem md)
    next
      case rd: (Inr rd)
      show ?thesis
        by (cases "po_host opts")
           (auto simp: parsePluginManifest_def Let_def sem md rd host_accepts_def validateEngine_errors)
    qed
  qed
qed

text \<open>
  C28. A candidate is loaded exactly when the compiled schema reports no error on it, semantic
  validation runs and reports no error, the document can be canonicalized, the host (when one is
  given) meets every declared engine and framework range, and the expected digest (when one is
  given) is the resolved digest.
\<close>

theorem parse_accepts_iff:
  "(\<exists>m. parsePluginManifest env c opts = Inr (Inr m)) \<longleftrightarrow>
     le_ajv env c = [] \<and> (\<exists>ds. validateManifestSemantics c (po_strict opts) = Inr ds \<and> \<not> hasErrors ds)
     \<and> is_doc c \<and> host_accepts env opts c \<and> digest_accepts env opts c"
proof -
  have s: "validateManifestStructure (le_ajv env) c = [] \<longleftrightarrow> le_ajv env c = []"
    by (simp add: validateManifestStructure_def)
  have md: "(\<exists>md. manifestDigest (le_hash env) c = Inr md) \<longleftrightarrow> is_doc c"
    using manifestDigest_ok_iff [of "le_hash env" c] by (cases "manifestDigest (le_hash env) c") auto
  have rd: "(\<exists>rd. resolvedManifestDigest (le_hash env) c n v = Inr rd) \<longleftrightarrow> is_doc c" for n v
    using resolved_ok_iff [of "le_hash env" c n v] by (cases "resolvedManifestDigest (le_hash env) c n v") auto
  have dg: "\<not> hasErrors (digest_mismatch opts p rd) \<longleftrightarrow> digest_accepts env opts c"
    if "resolvedManifestDigest (le_hash env) c (po_packageName opts) (po_packageVersion opts) = Inr rd" for rd p
    using that by (auto simp: digest_mismatch_errors digest_accepts_def split: option.splits)
  show ?thesis unfolding parse_Inr_iff s using md rd dg by blast
qed

definition ex_doc :: jv where
  "ex_doc = JObj [(''id'', JStr ''notes''), (''provides'', JArr []), (''requires'', JArr []),
     (''facets'', JObj [(''backend'', JObj [(''workers'', JArr [JStr ''appspine.notes.sync''])])])]"

definition ex_semver :: semver_api where
  "ex_semver = \<lparr>sv_valid = Some, sv_validRange = Some, sv_satisfies = (\<lambda>v r. v = r), sv_intersects = (\<lambda>v r. v = r)\<rparr>"

definition ex_ajv :: "jv \<Rightarrow> ajv_error list" where
  "ex_ajv c = (if schema_typed c then [] else
     [\<lparr>aj_keyword = ''type'', aj_instancePath = [], aj_missingProperty = [], aj_additionalProperty = [],
       aj_allowedValue = JNull, aj_allowedValues = [], aj_limit = 0, aj_type = ''object'', aj_message = None\<rparr>])"

definition ex_env :: loader_env where
  "ex_env = \<lparr>le_semver = ex_semver, le_ajv = ex_ajv, le_hash = (\<lambda>t. t), le_processNode = ''20.0.0''\<rparr>"

definition ex_parse :: parse_options where
  "ex_parse = \<lparr>po_strict = True, po_packageName = ''notes'', po_packageVersion = ''1.0.0'', po_host = None,
     po_expectedDigest = None, po_source = None\<rparr>"

lemma ex_doc_accepted:
  "le_ajv ex_env ex_doc = []" "validateManifestSemantics ex_doc True = Inr []" "is_doc ex_doc"
  "host_accepts ex_env ex_parse ex_doc" "digest_accepts ex_env ex_parse ex_doc"
  by code_simp+


theorem parse_accepts_iff_witness: "\<exists>m. parsePluginManifest ex_env ex_doc ex_parse = Inr (Inr m)"
  unfolding parse_accepts_iff using ex_doc_accepted by (simp add: ex_parse_def)




text \<open>
  A candidate whose backend facet has a number where the list of workers belongs makes the
  loader throw a TypeError, although the schema validator has found its errors and the function
  promises to report them as diagnostics.
\<close>

theorem parse_throws_on_untyped_workers:
  assumes "is_object c" "is_object (jget ''facets'' c)"
    and "jget ''workers'' (jget ''backend'' (jget ''facets'' c)) = JNum n"
  shows "parsePluginManifest env c opts = Inl TypeError"
  using assms
  by (simp add: parsePluginManifest_def validateManifestSemantics_def Let_def iterate_def nullish_to_empty_def
      nullish_def)

theorem parse_throws_on_untyped_workers_witness:
  "parsePluginManifest ex_env
     (JObj [(''facets'', JObj [(''backend'', JObj [(''workers'', JNum 5)])])]) ex_parse = Inl TypeError"
  by (rule parse_throws_on_untyped_workers [where n = 5]) (simp_all add: is_object_def jget_def)

end
