(* ===== verification/Lifecycle.thy ===== *)
theory Lifecycle
  imports Loader
begin

text \<open>
  The runtime half of \<open>@appspine/plugin-api\<close>: lifecycle vocabulary (\<open>lifecycle.ts\<close>),
  plugin definitions (\<open>define-plugin.ts\<close>), principals (\<open>principal.ts\<close>) and the
  lifecycle runner with its catalog and capability registry (\<open>runtime/index.ts\<close>).
  Plugin hooks, the clock and the configuration parsers are external: a hook call is known by when
  it settles and with what, and the clock by the value of each successive call of \<open>now()\<close>.
  Asynchronous calls are awaited one after the other in the source, so a run is a sequence of steps
  on the state of the runner.
\<close>

section \<open>Vocabulary\<close>

datatype lifecycle_stage = Validate | Register | Ready | Shutdown

fun stage_name :: "lifecycle_stage \<Rightarrow> string" where
  "stage_name Validate = ''validate''"
| "stage_name Register = ''register''"
| "stage_name Ready = ''ready''"
| "stage_name Shutdown = ''shutdown''"

definition PLUGIN_LIFECYCLE_STAGES :: "lifecycle_stage list" where
  "PLUGIN_LIFECYCLE_STAGES = [Validate, Register, Ready, Shutdown]"

definition PLUGIN_BOOT_STAGES :: "lifecycle_stage list" where
  "PLUGIN_BOOT_STAGES = [Validate, Register, Ready]"

datatype instance_status =
  StPending | StValidated | StRegistered | StReady | StDegraded | StFailed | StNotReached | StDisabled | StStopped

datatype event_outcome = EvOk | EvFailed | EvTimeout | EvSkipped

record lifecycle_event =
  ev_key :: string
  ev_pluginId :: string
  ev_instanceId :: string
  ev_stage :: lifecycle_stage
  ev_outcome :: event_outcome
  ev_durationMs :: int

datatype boot_outcome = BootReady | BootDegradedReady | BootAborted

datatype shutdown_outcome = ShutdownCompleted | ShutdownWithTimeout | ShutdownWithFailure

section \<open>The capability registry\<close>

type_synonym 'v registry = "(string \<times> 'v) list"

definition reg_register :: "string \<Rightarrow> 'v \<Rightarrow> 'v registry \<Rightarrow> 'v registry" where
  "reg_register capability v r = map_put capability v r"

text \<open>The constructor copies the entries of a plain object.\<close>

definition new_registry :: "(string \<times> 'v) list \<Rightarrow> 'v registry" where
  "new_registry initial = fold (\<lambda>p. reg_register (fst p) (snd p)) initial []"

definition reg_has :: "'v registry \<Rightarrow> string \<Rightarrow> bool" where
  "reg_has r capability \<longleftrightarrow> capability \<in> set (map fst r)"

definition reg_getOptional :: "'v registry \<Rightarrow> string \<Rightarrow> 'v option" where
  "reg_getOptional r capability = map_of r capability"

definition reg_get :: "'v registry \<Rightarrow> string \<Rightarrow> string + 'v" where
  "reg_get r capability =
     (if \<not> reg_has r capability then Inl (''Capability '' @ quoted capability @ '' is not available'')
      else Inr (the (reg_getOptional r capability)))"

definition reg_list :: "'v registry \<Rightarrow> string list" where
  "reg_list r = sort (map fst r)"

interpretation reg: keyed_store "[]" reg_register reg_getOptional "map fst"
  by unfold_locales
    (simp_all only: reg_register_def reg_getOptional_def js_map.get_empty js_map.get_put js_map.keys_empty
      js_map.keys_put js_map.get_None)

lemma reg_has_iff: "reg_has r c \<longleftrightarrow> reg_getOptional r c \<noteq> None"
  using reg.get_None [of r c] by (simp add: reg_has_def)

lemma reg_get_iff: "reg_get r c = Inr v \<longleftrightarrow> reg_getOptional r c = Some v"
  by (auto simp: reg_get_def reg_has_iff)

section \<open>The runner\<close>

definition DEFAULT_STAGE_TIMEOUT_MS :: int where
  "DEFAULT_STAGE_TIMEOUT_MS = 30000"

definition DEFAULT_SHUTDOWN_TIMEOUT_MS :: int where
  "DEFAULT_SHUTDOWN_TIMEOUT_MS = 10000"

text \<open>
  \<open>rt_hooks\<close> lists the stages the plugin has a hook for, and \<open>rt_policy\<close> says
  whether an \<open>optionalFailurePolicy\<close> is present.
\<close>

record runtime_instance =
  rt_key :: string
  rt_pluginId :: string
  rt_instanceId :: string
  rt_packageName :: string
  rt_packageVersion :: string
  rt_digest :: string
  rt_required :: bool
  rt_provides :: "string list"
  rt_requires :: "string list"
  rt_unresolvedOptional :: "string list"
  rt_config :: jv
  rt_redactedConfig :: "jv option"
  rt_hooks :: "lifecycle_stage list"
  rt_policy :: bool
  rt_healthIndicatorId :: "string option"
  rt_shutdownTimeoutMs :: "int option"

record catalog_entry =
  ct_key :: string
  ct_pluginId :: string
  ct_instanceId :: string
  ct_packageName :: string
  ct_packageVersion :: string
  ct_digest :: string
  ct_status :: instance_status
  ct_required :: bool
  ct_provides :: "string list"
  ct_requires :: "string list"
  ct_unresolvedOptional :: "string list"
  ct_startupMs :: int
  ct_healthIndicatorId :: "string option"
  ct_config :: "jv option"
  ct_error :: "(lifecycle_stage \<times> string) option"

record host_catalog =
  hc_outcome :: boot_outcome
  hc_entries :: "catalog_entry list"
  hc_byKey :: "(string \<times> catalog_entry) list"
  hc_diagnostics :: "diagnostic list"

text \<open>
  The result of one call of a hook: it settles after some milliseconds, with the message of the
  error it rejects with if it does, or it never settles.
\<close>

datatype hook_result = Settles int "string option" | NeverSettles

type_synonym hook_calls = "runtime_instance \<Rightarrow> lifecycle_stage \<Rightarrow> hook_result"

record runner_options =
  op_instances :: "runtime_instance list"
  op_stageTimeoutMs :: "int option"
  op_shutdownTimeoutMs :: "int option"

text \<open>The state of a runner. \<open>rn_calls\<close> counts the calls of \<open>now()\<close>.\<close>

record runner =
  rn_instances :: "runtime_instance list"
  rn_stageTimeoutMs :: int
  rn_shutdownTimeoutMs :: int
  rn_entries :: "(string \<times> catalog_entry) list"
  rn_recorded :: "lifecycle_event list"
  rn_started :: "runtime_instance list"
  rn_booted :: bool
  rn_calls :: nat
  rn_log :: "(string \<times> string) list"

definition initial_entry :: "runtime_instance \<Rightarrow> catalog_entry" where
  "initial_entry i =
     \<lparr>ct_key = rt_key i, ct_pluginId = rt_pluginId i, ct_instanceId = rt_instanceId i,
      ct_packageName = rt_packageName i, ct_packageVersion = rt_packageVersion i, ct_digest = rt_digest i,
      ct_status = StPending, ct_required = rt_required i, ct_provides = rt_provides i,
      ct_requires = rt_requires i, ct_unresolvedOptional = rt_unresolvedOptional i, ct_startupMs = 0,
      ct_healthIndicatorId = rt_healthIndicatorId i, ct_config = rt_redactedConfig i, ct_error = None\<rparr>"

definition new_runner :: "runner_options \<Rightarrow> runner" where
  "new_runner opts =
     \<lparr>rn_instances = op_instances opts,
      rn_stageTimeoutMs = coalesce (op_stageTimeoutMs opts) DEFAULT_STAGE_TIMEOUT_MS,
      rn_shutdownTimeoutMs = coalesce (op_shutdownTimeoutMs opts) DEFAULT_SHUTDOWN_TIMEOUT_MS,
      rn_entries = entries_map (map (\<lambda>i. (rt_key i, initial_entry i)) (op_instances opts)),
      rn_recorded = [], rn_started = [], rn_booted = False, rn_calls = 0, rn_log = []\<rparr>"

text \<open>
  \<open>setTimeout\<close> waits at least one millisecond, and one if the delay does not fit 31 bits.
  A hook that settles without waiting, or before the timer, wins the race.
\<close>

definition timer_ms :: "int \<Rightarrow> int" where
  "timer_ms t = (if t < 1 \<or> t > 2147483647 then 1 else t)"

datatype stage_error = StageTimeout string | HookError string

fun messageOf :: "stage_error \<Rightarrow> string" where
  "messageOf (StageTimeout m) = m"
| "messageOf (HookError m) = m"

definition is_timeout :: "stage_error \<Rightarrow> bool" where
  "is_timeout e = (case e of StageTimeout _ \<Rightarrow> True | HookError _ \<Rightarrow> False)"

definition StageTimeoutError :: "lifecycle_stage \<Rightarrow> string \<Rightarrow> int \<Rightarrow> stage_error" where
  "StageTimeoutError stage key timeoutMs =
     StageTimeout (quoted key @ '' exceeded its '' @ show_int timeoutMs @ ''ms budget during '' @ stage_name stage)"

definition withTimeout :: "hook_result \<Rightarrow> int \<Rightarrow> lifecycle_stage \<Rightarrow> string \<Rightarrow> stage_error option" where
  "withTimeout work timeoutMs stage key =
     (case work of
        Settles t result \<Rightarrow>
          if t < timer_ms timeoutMs then map_option HookError result
          else Some (StageTimeoutError stage key timeoutMs)
      | NeverSettles \<Rightarrow> Some (StageTimeoutError stage key timeoutMs))"

definition now_call :: "(nat \<Rightarrow> int) \<Rightarrow> runner \<Rightarrow> int \<times> runner" where
  "now_call clock r = (clock (rn_calls r), r\<lparr>rn_calls := Suc (rn_calls r)\<rparr>)"

definition update_entry :: "string \<Rightarrow> (catalog_entry \<Rightarrow> catalog_entry) \<Rightarrow> runner \<Rightarrow> runner" where
  "update_entry key f r =
     r\<lparr>rn_entries := map (\<lambda>(k, e). (k, if k = key then f e else e)) (rn_entries r)\<rparr>"

definition record_event :: "lifecycle_event \<Rightarrow> runner \<Rightarrow> runner" where
  "record_event e r = r\<lparr>rn_recorded := rn_recorded r @ [e]\<rparr>"

definition log_line :: "string \<Rightarrow> string \<Rightarrow> runner \<Rightarrow> runner" where
  "log_line level message r = r\<lparr>rn_log := rn_log r @ [(level, message)]\<rparr>"

definition event_of :: "runtime_instance \<Rightarrow> lifecycle_stage \<Rightarrow> event_outcome \<Rightarrow> int \<Rightarrow> lifecycle_event" where
  "event_of i stage outcome duration =
     \<lparr>ev_key = rt_key i, ev_pluginId = rt_pluginId i, ev_instanceId = rt_instanceId i, ev_stage = stage,
      ev_outcome = outcome, ev_durationMs = duration\<rparr>"

definition next_status :: "lifecycle_stage \<Rightarrow> instance_status option" where
  "next_status stage =
     (case stage of Validate \<Rightarrow> Some StValidated | Register \<Rightarrow> Some StRegistered
      | Ready \<Rightarrow> Some StReady | Shutdown \<Rightarrow> None)"

definition advance :: "lifecycle_stage \<Rightarrow> catalog_entry \<Rightarrow> catalog_entry" where
  "advance stage e = (case next_status stage of None \<Rightarrow> e | Some s \<Rightarrow> e\<lparr>ct_status := s\<rparr>)"

text \<open>What follows a stage that was skipped or succeeded.\<close>

definition pass_stage :: "runtime_instance \<Rightarrow> lifecycle_stage \<Rightarrow> event_outcome \<Rightarrow> int \<Rightarrow> runner \<Rightarrow> runner" where
  "pass_stage i stage outcome duration r =
     (let r = update_entry (rt_key i) (advance stage) (record_event (event_of i stage outcome duration) r)
      in if stage = Register then r\<lparr>rn_started := rn_started r @ [i]\<rparr> else r)"

definition stage_diagnostic :: "runtime_instance \<Rightarrow> lifecycle_stage \<Rightarrow> stage_error \<Rightarrow> diagnostic" where
  "stage_diagnostic i stage err =
     mk_diagnostic (if is_timeout err then ''lifecycle-stage-timeout'' else ''lifecycle-stage-failed'')
       (quoted (rt_key i) @ '' failed during '' @ stage_name stage @ '': '' @ messageOf err)
       (of_plugin (rt_pluginId i) (of_instance (rt_instanceId i) (at_path (stage_name stage))))"

fun run_stages ::
    "(nat \<Rightarrow> int) \<Rightarrow> hook_calls \<Rightarrow> runtime_instance \<Rightarrow> int \<Rightarrow> lifecycle_stage list \<Rightarrow> runner
     \<Rightarrow> diagnostic option \<times> runner" where
  "run_stages clock calls i startedAt [] r =
     (let (t, r) = now_call clock r
      in (None, update_entry (rt_key i) (\<lambda>e. e\<lparr>ct_startupMs := t - startedAt\<rparr>) r))"
| "run_stages clock calls i startedAt (stage # stages) r =
     (let (stageStartedAt, r) = now_call clock r in
      if stage \<notin> set (rt_hooks i)
      then run_stages clock calls i startedAt stages (pass_stage i stage EvSkipped 0 r)
      else (case withTimeout (calls i stage) (rn_stageTimeoutMs r) stage (rt_key i) of
          Some err \<Rightarrow>
            let (t1, r) = now_call clock r;
                r = record_event
                  (event_of i stage (if is_timeout err then EvTimeout else EvFailed) (t1 - stageStartedAt)) r;
                (t2, r) = now_call clock r
            in (Some (stage_diagnostic i stage err),
                update_entry (rt_key i)
                  (\<lambda>e. e\<lparr>ct_error := Some (stage, messageOf err), ct_startupMs := t2 - startedAt\<rparr>) r)
        | None \<Rightarrow>
            let (t1, r) = now_call clock r
            in run_stages clock calls i startedAt stages (pass_stage i stage EvOk (t1 - stageStartedAt) r)))"

definition runBootStages ::
    "(nat \<Rightarrow> int) \<Rightarrow> hook_calls \<Rightarrow> runtime_instance \<Rightarrow> runner \<Rightarrow> diagnostic option \<times> runner" where
  "runBootStages clock calls i r =
     (let (startedAt, r) = now_call clock r in run_stages clock calls i startedAt PLUGIN_BOOT_STAGES r)"

record boot_state =
  bs_runner :: runner
  bs_aborted :: bool
  bs_degraded :: bool
  bs_diagnostics :: "diagnostic list"

definition set_status :: "instance_status \<Rightarrow> catalog_entry \<Rightarrow> catalog_entry" where
  "set_status s e = e\<lparr>ct_status := s\<rparr>"

definition boot_step :: "(nat \<Rightarrow> int) \<Rightarrow> hook_calls \<Rightarrow> runtime_instance \<Rightarrow> boot_state \<Rightarrow> boot_state" where
  "boot_step clock calls i st =
     (if bs_aborted st
      then st\<lparr>bs_runner := update_entry (rt_key i) (set_status StNotReached) (bs_runner st)\<rparr>
      else
        case runBootStages clock calls i (bs_runner st) of
          (None, r) \<Rightarrow> st\<lparr>bs_runner := r\<rparr>
        | (Some d, r) \<Rightarrow>
            if rt_required i \<or> \<not> rt_policy i
            then st\<lparr>bs_runner := update_entry (rt_key i) (set_status StFailed) r, bs_aborted := True,
                    bs_diagnostics := bs_diagnostics st @ [d]\<rparr>
            else st\<lparr>bs_runner := log_line ''warn''
                      (''Plugin '' @ quoted (rt_key i) @ '' is degraded: '' @ dg_message d
                        @ ''. Readiness and catalog report degraded; this is not a silent failure.'')
                      (update_entry (rt_key i) (set_status StDegraded) r),
                    bs_degraded := True, bs_diagnostics := bs_diagnostics st @ [d]\<rparr>)"

definition boot :: "(nat \<Rightarrow> int) \<Rightarrow> hook_calls \<Rightarrow> runner \<Rightarrow> (string + host_catalog) \<times> runner" where
  "boot clock calls r =
     (if rn_booted r then (Inl ''boot() may only be called once'', r)
      else
        let st = fold (boot_step clock calls) (rn_instances r)
              \<lparr>bs_runner = r\<lparr>rn_booted := True\<rparr>, bs_aborted = False, bs_degraded = False, bs_diagnostics = []\<rparr>;
            outcome = (if bs_aborted st then BootAborted else if bs_degraded st then BootDegradedReady else BootReady);
            entries = rn_entries (bs_runner st)
        in (Inr \<lparr>hc_outcome = outcome, hc_entries = map snd entries, hc_byKey = own_order entries,
                 hc_diagnostics = sortDiagnostics (bs_diagnostics st)\<rparr>, bs_runner st))"

record shutdown_state =
  sd_runner :: runner
  sd_events :: "lifecycle_event list"
  sd_timedOut :: bool
  sd_failed :: bool

definition push_event :: "lifecycle_event \<Rightarrow> shutdown_state \<Rightarrow> shutdown_state" where
  "push_event e st = st\<lparr>sd_events := sd_events st @ [e], sd_runner := record_event e (sd_runner st)\<rparr>"

definition shutdown_step :: "(nat \<Rightarrow> int) \<Rightarrow> hook_calls \<Rightarrow> runtime_instance \<Rightarrow> shutdown_state \<Rightarrow> shutdown_state" where
  "shutdown_step clock calls i st =
     (let (startedAt, r) = now_call clock (sd_runner st) in
      if Shutdown \<notin> set (rt_hooks i)
      then push_event (event_of i Shutdown EvSkipped 0)
             (st\<lparr>sd_runner := update_entry (rt_key i) (set_status StStopped) r\<rparr>)
      else (case withTimeout (calls i Shutdown) (coalesce (rt_shutdownTimeoutMs i) (rn_shutdownTimeoutMs r))
                   Shutdown (rt_key i) of
          None \<Rightarrow>
            let (t, r) = now_call clock (update_entry (rt_key i) (set_status StStopped) r)
            in push_event (event_of i Shutdown EvOk (t - startedAt)) (st\<lparr>sd_runner := r\<rparr>)
        | Some err \<Rightarrow>
            let r = log_line ''error''
                  (''Plugin '' @ quoted (rt_key i) @ '' shutdown '' @ (if is_timeout err then ''timed out'' else ''failed'')
                    @ '': '' @ messageOf err)
                  (update_entry (rt_key i) (\<lambda>e. e\<lparr>ct_error := Some (Shutdown, messageOf err)\<rparr>) r);
                (t, r) = now_call clock r
            in push_event (event_of i Shutdown (if is_timeout err then EvTimeout else EvFailed) (t - startedAt))
                 (st\<lparr>sd_runner := r, sd_timedOut := sd_timedOut st \<or> is_timeout err,
                     sd_failed := sd_failed st \<or> \<not> is_timeout err\<rparr>)))"

definition shutdown ::
    "(nat \<Rightarrow> int) \<Rightarrow> hook_calls \<Rightarrow> runner \<Rightarrow> (shutdown_outcome \<times> lifecycle_event list) \<times> runner" where
  "shutdown clock calls r =
     (let st = fold (shutdown_step clock calls) (rev (rn_started r))
            \<lparr>sd_runner = r, sd_events = [], sd_timedOut = False, sd_failed = False\<rparr>;
          outcome = (if sd_timedOut st then ShutdownWithTimeout
                     else if sd_failed st then ShutdownWithFailure else ShutdownCompleted)
      in ((outcome, sd_events st), sd_runner st))"

section \<open>Aggregate health\<close>

datatype health_status = HealthReady | HealthDegraded | HealthFailed

record health_report =
  hr_status :: health_status
  hr_degraded :: "string list"
  hr_failed :: "string list"

definition aggregateHealth :: "host_catalog \<Rightarrow> health_report" where
  "aggregateHealth catalog =
     (let degraded = sort (map ct_key (filter (\<lambda>e. ct_status e = StDegraded) (hc_entries catalog)));
          failed = sort (map ct_key
            (filter (\<lambda>e. ct_status e = StFailed \<or> ct_status e = StNotReached) (hc_entries catalog)));
          status = (if length failed > 0 then HealthFailed
                    else if length degraded > 0 then HealthDegraded else HealthReady)
      in \<lparr>hr_status = status, hr_degraded = degraded, hr_failed = failed\<rparr>)"

section \<open>Defining a plugin\<close>

text \<open>
  The parts of a definition that \<open>definePlugin\<close> inspects: the manifest and whether the
  optional members are present.
\<close>

record plugin_definition =
  pd_manifest :: plugin_manifest
  pd_configSchema :: bool
  pd_backend :: bool

record defined_plugin =
  dp_definition :: plugin_definition
  dp_id :: string
  dp_displayName :: string
  dp_cardinality :: plugin_cardinality
  dp_provides :: "string list"
  dp_requires :: "string list"
  dp_optionalRequires :: "string list"

definition collectDefinitionDiagnostics :: "plugin_definition \<Rightarrow> diagnostic list" where
  "collectDefinitionDiagnostics d =
     (let m = pd_manifest d; p = mf_id m; backend = fc_backend (mf_facets m) \<noteq> None in
      if mf_schemaVersion m \<noteq> MANIFEST_SCHEMA_VERSION
      then [mk_diagnostic ''unsupported-manifest-schema-version''
        (''definePlugin() supports '' @ MANIFEST_SCHEMA_VERSION @ '' only'') (at_path ''manifest.schemaVersion'')]
      else
        (if backend \<and> \<not> pd_backend d
         then [mk_diagnostic ''missing-backend-factory''
           ''manifest declares a backend facet but the definition has no backend factory''
           (of_plugin p (at_path ''backend''))] else [])
        @ (if \<not> backend \<and> pd_backend d
           then [mk_diagnostic ''undeclared-backend-factory''
             ''definition has a backend factory but the manifest declares no backend facet''
             (of_plugin p (at_path ''manifest.facets.backend''))] else [])
        @ (if mf_configSchema m \<noteq> None \<and> \<not> pd_configSchema d
           then [mk_diagnostic ''missing-config-parser''
             (''manifest declares configSchema.configRef '' @ quoted (the (mf_configSchema m))
               @ '' but the definition has no configSchema parser'')
             (of_plugin p (at_path ''configSchema''))] else [])
        @ (if mf_configSchema m = None \<and> pd_configSchema d
           then [mk_diagnostic ''undeclared-config-parser''
             ''definition has a configSchema parser but the manifest declares no configSchema''
             (of_plugin p (at_path ''manifest.configSchema''))] else []))"

definition definePlugin :: "plugin_definition \<Rightarrow> contract_error + defined_plugin" where
  "definePlugin d =
     (let ds = collectDefinitionDiagnostics d; m = pd_manifest d in
      if length ds > 0
      then Inl (PluginContractError ''invalid-plugin-definition''
        (''Invalid plugin definition for '' @ quoted (mf_id m)) ds)
      else Inr \<lparr>dp_definition = d, dp_id = mf_id m, dp_displayName = mf_displayName m,
        dp_cardinality = mf_cardinality m, dp_provides = mf_provides m, dp_requires = mf_requires m,
        dp_optionalRequires = coalesce (mf_optionalRequires m) []\<rparr>)"

lemma definePlugin_ok_iff:
  "(\<exists>p. definePlugin d = Inr p) \<longleftrightarrow>
     mf_schemaVersion (pd_manifest d) = MANIFEST_SCHEMA_VERSION
     \<and> (pd_backend d \<longleftrightarrow> fc_backend (mf_facets (pd_manifest d)) \<noteq> None)
     \<and> (pd_configSchema d \<longleftrightarrow> mf_configSchema (pd_manifest d) \<noteq> None)"
  by (auto simp: definePlugin_def collectDefinitionDiagnostics_def Let_def)

section \<open>Principals\<close>

definition SYSTEM_ADMIN_ROLE :: string where "SYSTEM_ADMIN_ROLE = ''ADMIN''"
definition SYSTEM_USER_ROLE :: string where "SYSTEM_USER_ROLE = ''USER''"

record principal_authorization =
  pa_roleNames :: "string list"
  pa_permissionPolicy :: string
  pa_permissions :: "string list"

record interactive_principal = principal_authorization +
  ip_sub :: string
  ip_email :: string
  ip_name :: "string option"
  ip_roleName :: string

record machine_principal = principal_authorization +
  mp_sub :: string
  mp_scopes :: "string list"
  mp_actingUserId :: "string option"

text \<open>\<open>isApiKey\<close> is the discriminant of the union.\<close>

datatype principal = Interactive interactive_principal | Machine machine_principal

fun isMachinePrincipal :: "principal \<Rightarrow> bool" where
  "isMachinePrincipal (Machine m) = True"
| "isMachinePrincipal (Interactive i) = False"

definition isInteractivePrincipal :: "principal \<Rightarrow> bool" where
  "isInteractivePrincipal p \<longleftrightarrow> \<not> isMachinePrincipal p"

fun actingUserIdOf :: "principal \<Rightarrow> string option" where
  "actingUserIdOf (Machine m) = mp_actingUserId m"
| "actingUserIdOf (Interactive i) = Some (ip_sub i)"

end
