(* ===== verification/Booting.thy ===== *)
theory Booting
  imports Lifecycle
begin

text \<open>
  What the lifecycle runner guarantees: the status every instance has after \<open>boot()\<close> and
  the outcome it reports, the events it records and their order, which instances a
  \<open>shutdown()\<close> visits and in which order, and what the aggregate health shows of it.
\<close>

named_theorems runner_simps \<open>how the runner's updates act on its parts\<close>

section \<open>One stage and the stages of one instance\<close>

text \<open>The error of one stage, if it has one; a stage without a hook has none.\<close>

definition stage_error_of :: "hook_calls \<Rightarrow> int \<Rightarrow> runtime_instance \<Rightarrow> lifecycle_stage \<Rightarrow> stage_error option" where
  "stage_error_of calls tm i stage =
     (if stage \<notin> set (rt_hooks i) then None else withTimeout (calls i stage) tm stage (rt_key i))"

text \<open>The first stage that fails, with its error.\<close>

fun first_failure :: "hook_calls \<Rightarrow> int \<Rightarrow> runtime_instance \<Rightarrow> lifecycle_stage list
    \<Rightarrow> (lifecycle_stage \<times> stage_error) option" where
  "first_failure calls tm i [] = None"
| "first_failure calls tm i (s # ss) =
     (case stage_error_of calls tm i s of Some err \<Rightarrow> Some (s, err) | None \<Rightarrow> first_failure calls tm i ss)"

text \<open>The stages that pass before it.\<close>

fun passed_stages :: "hook_calls \<Rightarrow> int \<Rightarrow> runtime_instance \<Rightarrow> lifecycle_stage list \<Rightarrow> lifecycle_stage list" where
  "passed_stages calls tm i [] = []"
| "passed_stages calls tm i (s # ss) =
     (case stage_error_of calls tm i s of Some err \<Rightarrow> [] | None \<Rightarrow> s # passed_stages calls tm i ss)"

definition stage_outcome :: "hook_calls \<Rightarrow> int \<Rightarrow> runtime_instance \<Rightarrow> lifecycle_stage \<Rightarrow> event_outcome" where
  "stage_outcome calls tm i s =
     (if s \<notin> set (rt_hooks i) then EvSkipped
      else (case stage_error_of calls tm i s of None \<Rightarrow> EvOk
        | Some err \<Rightarrow> if is_timeout err then EvTimeout else EvFailed))"

text \<open>The stages that are attempted: those that pass and the one that fails.\<close>

definition attempted_stages :: "hook_calls \<Rightarrow> int \<Rightarrow> runtime_instance \<Rightarrow> lifecycle_stage list \<Rightarrow> lifecycle_stage list" where
  "attempted_stages calls tm i ss =
     passed_stages calls tm i ss
     @ (case first_failure calls tm i ss of None \<Rightarrow> [] | Some (s, err) \<Rightarrow> [s])"

definition event_core :: "lifecycle_event \<Rightarrow> string \<times> lifecycle_stage \<times> event_outcome" where
  "event_core e = (ev_key e, ev_stage e, ev_outcome e)"

definition expected_events :: "hook_calls \<Rightarrow> int \<Rightarrow> runtime_instance \<Rightarrow> lifecycle_stage list
    \<Rightarrow> (string \<times> lifecycle_stage \<times> event_outcome) list" where
  "expected_events calls tm i ss =
     map (\<lambda>s. (rt_key i, s, stage_outcome calls tm i s)) (attempted_stages calls tm i ss)"

lemma passed_all: "first_failure calls tm i ss = None \<Longrightarrow> passed_stages calls tm i ss = ss"
  by (induction ss) (auto split: option.splits)

lemma passed_subset: "set (passed_stages calls tm i ss) \<subseteq> set ss"
  by (induction ss) (auto split: option.splits)

lemma first_failure_mem: "first_failure calls tm i ss = Some (s, err) \<Longrightarrow> s \<in> set ss"
  by (induction ss) (auto split: option.splits)

lemma attempted_Cons:
  "attempted_stages calls tm i (s # ss) =
     s # (if stage_error_of calls tm i s = None then attempted_stages calls tm i ss else [])"
  by (simp add: attempted_stages_def split: option.split)

lemma attempted_prefix: "prefix (attempted_stages calls tm i ss) ss"
  by (induction ss) (auto simp: attempted_Cons, simp add: attempted_stages_def)

section \<open>The parts of the runner\<close>

definition entry_of :: "runner \<Rightarrow> string \<Rightarrow> catalog_entry option" where
  "entry_of r k = map_of (rn_entries r) k"

lemma entry_of_update [runner_simps]:
  "entry_of (update_entry k f r) k' = (if k' = k then map_option f (entry_of r k') else entry_of r k')"
proof -
  have "map_of (map (\<lambda>(j, e). (j, if j = k then f e else e)) ps) k' =
      (if k' = k then map_option f (map_of ps k') else map_of ps k')" for ps
    by (induction ps) auto
  then show ?thesis by (simp add: entry_of_def update_entry_def)
qed

text \<open>The configuration of a runner, which no step changes, with the keys of its entries.\<close>

definition config_of :: "runner \<Rightarrow> runtime_instance list \<times> int \<times> int \<times> bool \<times> string list" where
  "config_of r = (rn_instances r, rn_stageTimeoutMs r, rn_shutdownTimeoutMs r, rn_booted r, map fst (rn_entries r))"

lemma config_of_update [runner_simps]:
  "config_of (update_entry k f r) = config_of r"
  "config_of (record_event e r) = config_of r"
  "config_of (log_line l m r) = config_of r"
  "config_of (r\<lparr>rn_calls := n\<rparr>) = config_of r"
  "config_of (r\<lparr>rn_started := st\<rparr>) = config_of r"
  by (auto simp: config_of_def update_entry_def record_event_def log_line_def comp_def)

lemma entry_of_other [runner_simps]:
  "entry_of (record_event e r) k = entry_of r k"
  "entry_of (log_line l m r) k = entry_of r k"
  "entry_of (r\<lparr>rn_calls := n\<rparr>) k = entry_of r k"
  "entry_of (r\<lparr>rn_started := st\<rparr>) k = entry_of r k"
  by (simp_all add: entry_of_def record_event_def log_line_def)

lemma started_update [runner_simps]:
  "rn_started (update_entry k f r) = rn_started r"
  "rn_started (record_event e r) = rn_started r"
  "rn_started (log_line l m r) = rn_started r"
  by (simp_all add: update_entry_def record_event_def log_line_def)

lemma recorded_update [runner_simps]:
  "rn_recorded (update_entry k f r) = rn_recorded r"
  "rn_recorded (record_event e r) = rn_recorded r @ [e]"
  "rn_recorded (log_line l m r) = rn_recorded r"
  by (simp_all add: update_entry_def record_event_def log_line_def)

lemma timeout_of_config: "config_of r = config_of r' \<Longrightarrow>
    rn_stageTimeoutMs r = rn_stageTimeoutMs r' \<and> rn_shutdownTimeoutMs r = rn_shutdownTimeoutMs r'
    \<and> rn_instances r = rn_instances r' \<and> rn_booted r = rn_booted r'"
  by (simp add: config_of_def)

lemma pass_stage_parts [runner_simps]:
  "config_of (pass_stage i s oc d r) = config_of r"
  "entry_of (pass_stage i s oc d r) k =
     (if k = rt_key i then map_option (advance s) (entry_of r k) else entry_of r k)"
  "rn_started (pass_stage i s oc d r) = rn_started r @ (if s = Register then [i] else [])"
  "rn_recorded (pass_stage i s oc d r) = rn_recorded r @ [event_of i s oc d]"
  by (simp_all add: pass_stage_def Let_def runner_simps)

lemma event_core_of [simp]: "event_core (event_of i s oc d) = (rt_key i, s, oc)"
  by (simp add: event_core_def event_of_def)

section \<open>The boot stages of one instance\<close>

lemma run_stages_pass:
  assumes "stage_error_of calls (rn_stageTimeoutMs r) i s = None"
  obtains n d where "run_stages clock calls i t0 (s # ss) r =
    run_stages clock calls i t0 ss
      (pass_stage i s (stage_outcome calls (rn_stageTimeoutMs r) i s) d (r\<lparr>rn_calls := n\<rparr>))"
proof (cases "s \<in> set (rt_hooks i)")
  case False
  then have "run_stages clock calls i t0 (s # ss) r =
    run_stages clock calls i t0 ss
      (pass_stage i s (stage_outcome calls (rn_stageTimeoutMs r) i s) 0 (r\<lparr>rn_calls := Suc (rn_calls r)\<rparr>))"
    by (simp add: Let_def now_call_def stage_outcome_def)
  with that show thesis by blast
next
  case True
  with assms have "withTimeout (calls i s) (rn_stageTimeoutMs r) s (rt_key i) = None"
    by (simp add: stage_error_of_def)
  with True have "run_stages clock calls i t0 (s # ss) r =
    run_stages clock calls i t0 ss
      (pass_stage i s (stage_outcome calls (rn_stageTimeoutMs r) i s)
        (clock (Suc (rn_calls r)) - clock (rn_calls r)) (r\<lparr>rn_calls := Suc (Suc (rn_calls r))\<rparr>))"
    by (simp add: Let_def now_call_def stage_outcome_def stage_error_of_def)
  with that show thesis by blast
qed

lemma run_stages_fail:
  assumes "stage_error_of calls (rn_stageTimeoutMs r) i s = Some err"
  obtains n m d t where "run_stages clock calls i t0 (s # ss) r =
    (Some (stage_diagnostic i s err),
     update_entry (rt_key i) (\<lambda>e. e\<lparr>ct_error := Some (s, messageOf err), ct_startupMs := t\<rparr>)
       ((record_event (event_of i s (stage_outcome calls (rn_stageTimeoutMs r) i s) d) (r\<lparr>rn_calls := n\<rparr>))\<lparr>rn_calls := m\<rparr>))"
proof -
  from assms have h: "s \<in> set (rt_hooks i)" by (cases "s \<in> set (rt_hooks i)") (simp_all add: stage_error_of_def)
  with assms have "withTimeout (calls i s) (rn_stageTimeoutMs r) s (rt_key i) = Some err"
    by (simp add: stage_error_of_def)
  with h assms have "run_stages clock calls i t0 (s # ss) r =
    (Some (stage_diagnostic i s err),
     update_entry (rt_key i)
       (\<lambda>e. e\<lparr>ct_error := Some (s, messageOf err), ct_startupMs := clock (Suc (Suc (rn_calls r))) - t0\<rparr>)
       ((record_event (event_of i s (stage_outcome calls (rn_stageTimeoutMs r) i s)
          (clock (Suc (rn_calls r)) - clock (rn_calls r))) (r\<lparr>rn_calls := Suc (Suc (rn_calls r))\<rparr>))
        \<lparr>rn_calls := Suc (Suc (Suc (rn_calls r)))\<rparr>))"
    by (simp add: Let_def now_call_def stage_outcome_def record_event_def)
  with that show thesis by blast
qed

text \<open>Everything the stages of one instance do to the runner.\<close>

definition stages_effect ::
    "hook_calls \<Rightarrow> runtime_instance \<Rightarrow> lifecycle_stage list \<Rightarrow> runner \<Rightarrow> diagnostic option \<times> runner \<Rightarrow> bool" where
  "stages_effect calls i ss r res \<longleftrightarrow>
     (let tm = rn_stageTimeoutMs r; r' = snd res in
      fst res = map_option (\<lambda>(s, err). stage_diagnostic i s err) (first_failure calls tm i ss)
      \<and> config_of r' = config_of r
      \<and> (\<forall>k. k \<noteq> rt_key i \<longrightarrow> entry_of r' k = entry_of r k)
      \<and> map_option ct_status (entry_of r' (rt_key i)) =
          map_option ct_status (fold (\<lambda>s. map_option (advance s)) (passed_stages calls tm i ss) (entry_of r (rt_key i)))
      \<and> rn_started r' = rn_started r @ (if Register \<in> set (passed_stages calls tm i ss) then [i] else [])
      \<and> map event_core (rn_recorded r') = map event_core (rn_recorded r) @ expected_events calls tm i ss)"

lemma advance_status: "ct_status (advance s e) = coalesce (next_status s) (ct_status e)"
  by (simp add: advance_def split: option.split)

lemma map_advance_status:
  "map_option ct_status (map_option (advance s) e) = map_option (coalesce (next_status s)) (map_option ct_status e)"
  by (cases e) (simp_all add: advance_status)

lemma advance_status_cong:
  "map_option ct_status e = map_option ct_status e' \<Longrightarrow>
     map_option ct_status (fold (\<lambda>s. map_option (advance s)) ss e) =
     map_option ct_status (fold (\<lambda>s. map_option (advance s)) ss e')"
proof (induction ss arbitrary: e e')
  case Nil
  then show ?case by simp
next
  case (Cons s ss)
  have "map_option ct_status (map_option (advance s) e) = map_option ct_status (map_option (advance s) e')"
    unfolding map_advance_status Cons.prems ..
  from Cons.IH [OF this] show ?case by simp
qed

lemma run_stages_effect:
  "distinct ss \<Longrightarrow> stages_effect calls i ss r (run_stages clock calls i t0 ss r)"
proof (induction ss arbitrary: r)
  case Nil
  show ?case
    by (cases "entry_of r (rt_key i)")
      (simp_all add: stages_effect_def Let_def now_call_def runner_simps expected_events_def attempted_stages_def)
next
  case (Cons s ss)
  let ?tm = "rn_stageTimeoutMs r"
  show ?case
  proof (cases "stage_error_of calls ?tm i s")
    case (Some err)
    then obtain n m d t where res: "run_stages clock calls i t0 (s # ss) r =
      (Some (stage_diagnostic i s err),
       update_entry (rt_key i) (\<lambda>e. e\<lparr>ct_error := Some (s, messageOf err), ct_startupMs := t\<rparr>)
         ((record_event (event_of i s (stage_outcome calls ?tm i s) d) (r\<lparr>rn_calls := n\<rparr>))\<lparr>rn_calls := m\<rparr>))"
      by (rule run_stages_fail)
    show ?thesis unfolding stages_effect_def Let_def res using Some
      by (cases "entry_of r (rt_key i)")
        (simp_all add: runner_simps expected_events_def attempted_Cons)
  next
    case None
    then obtain n d where res: "run_stages clock calls i t0 (s # ss) r =
      run_stages clock calls i t0 ss (pass_stage i s (stage_outcome calls ?tm i s) d (r\<lparr>rn_calls := n\<rparr>))"
      by (rule run_stages_pass)
    let ?r = "pass_stage i s (stage_outcome calls ?tm i s) d (r\<lparr>rn_calls := n\<rparr>)"
    have tm: "rn_stageTimeoutMs ?r = ?tm"
      using timeout_of_config [of ?r r] by (simp add: runner_simps)
    from Cons have ih: "stages_effect calls i ss ?r (run_stages clock calls i t0 ss ?r)" by simp
    show ?thesis
      using ih Cons.prems None unfolding stages_effect_def Let_def res tm
      using passed_subset [of calls ?tm i ss]
      by (auto simp: runner_simps expected_events_def attempted_Cons)
  qed
qed

lemma boot_stages_distinct: "distinct PLUGIN_BOOT_STAGES"
  by (simp add: PLUGIN_BOOT_STAGES_def)

lemma runBootStages_effect:
  "stages_effect calls i PLUGIN_BOOT_STAGES r (runBootStages clock calls i r)"
proof -
  have "stages_effect calls i PLUGIN_BOOT_STAGES (r\<lparr>rn_calls := Suc (rn_calls r)\<rparr>) (runBootStages clock calls i r)"
    unfolding runBootStages_def now_call_def
    by (simp del: run_stages.simps add: run_stages_effect [OF boot_stages_distinct])
  then show ?thesis by (simp add: stages_effect_def Let_def runner_simps)
qed

section \<open>Booting\<close>

definition fails :: "hook_calls \<Rightarrow> int \<Rightarrow> runtime_instance \<Rightarrow> bool" where
  "fails calls tm i \<longleftrightarrow> first_failure calls tm i PLUGIN_BOOT_STAGES \<noteq> None"

text \<open>A failure that aborts the boot: of a required instance, or of one without a failure policy.\<close>

definition fatal :: "hook_calls \<Rightarrow> int \<Rightarrow> runtime_instance \<Rightarrow> bool" where
  "fatal calls tm i \<longleftrightarrow> fails calls tm i \<and> (rt_required i \<or> \<not> rt_policy i)"

definition own_status :: "hook_calls \<Rightarrow> int \<Rightarrow> runtime_instance \<Rightarrow> instance_status" where
  "own_status calls tm i =
     (if \<not> fails calls tm i then StReady else if fatal calls tm i then StFailed else StDegraded)"

lemma own_status_alt:
  "own_status calls tm i =
     (if \<not> fails calls tm i then StReady else if rt_required i \<or> \<not> rt_policy i then StFailed else StDegraded)"
  by (simp add: own_status_def fatal_def)

definition claims_resources :: "hook_calls \<Rightarrow> int \<Rightarrow> runtime_instance \<Rightarrow> bool" where
  "claims_resources calls tm i \<longleftrightarrow> Register \<in> set (passed_stages calls tm i PLUGIN_BOOT_STAGES)"

text \<open>The instances whose boot is attempted: up to and including the first fatal failure.\<close>

fun reached :: "hook_calls \<Rightarrow> int \<Rightarrow> runtime_instance list \<Rightarrow> runtime_instance list" where
  "reached calls tm [] = []"
| "reached calls tm (i # is) = i # (if fatal calls tm i then [] else reached calls tm is)"

lemma reached_prefix: "prefix (reached calls tm is) is"
  by (induction "is") auto

lemma reached_all: "\<not> (\<exists>i\<in>set is. fatal calls tm i) \<Longrightarrow> reached calls tm is = is"
  by (induction "is") auto

text \<open>One step of the boot loop.\<close>

definition boot_effect :: "hook_calls \<Rightarrow> runtime_instance \<Rightarrow> boot_state \<Rightarrow> boot_state \<Rightarrow> bool" where
  "boot_effect calls i st st' \<longleftrightarrow>
     (let r = bs_runner st; r' = bs_runner st'; tm = rn_stageTimeoutMs r; live = \<not> bs_aborted st in
      config_of r' = config_of r
      \<and> bs_aborted st' = (bs_aborted st \<or> fatal calls tm i)
      \<and> bs_degraded st' = (bs_degraded st \<or> (live \<and> fails calls tm i \<and> \<not> fatal calls tm i))
      \<and> (bs_diagnostics st' \<noteq> [] \<longleftrightarrow> bs_diagnostics st \<noteq> [] \<or> (live \<and> fails calls tm i))
      \<and> (\<forall>k. k \<noteq> rt_key i \<longrightarrow> entry_of r' k = entry_of r k)
      \<and> (entry_of r (rt_key i) \<noteq> None \<longrightarrow> map_option ct_status (entry_of r' (rt_key i)) =
           Some (if live then own_status calls tm i else StNotReached))
      \<and> rn_started r' = rn_started r @ (if live \<and> claims_resources calls tm i then [i] else [])
      \<and> map event_core (rn_recorded r') = map event_core (rn_recorded r)
          @ (if live then expected_events calls tm i PLUGIN_BOOT_STAGES else []))"

lemma status_set [simp]: "ct_status (set_status s e) = s"
  by (simp add: set_status_def)

lemma all_advanced:
  "map_option ct_status (fold (\<lambda>s. map_option (advance s)) PLUGIN_BOOT_STAGES e) = map_option (\<lambda>_. StReady) e"
  by (cases e) (simp_all add: PLUGIN_BOOT_STAGES_def advance_status next_status_def)

lemma entry_kept:
  assumes "config_of r' = config_of r" "entry_of r k \<noteq> None"
  shows "entry_of r' k \<noteq> None"
  using assms unfolding entry_of_def config_of_def map_of_None_keys by simp

lemma boot_step_aborted:
  "bs_aborted st \<Longrightarrow> boot_effect calls i st (boot_step clock calls i st)"
  unfolding boot_effect_def boot_step_def Let_def by (auto simp: runner_simps)

lemma boot_step_live:
  assumes "\<not> bs_aborted st"
  shows "boot_effect calls i st (boot_step clock calls i st)"
proof -
  let ?r = "bs_runner st" and ?tm = "rn_stageTimeoutMs (bs_runner st)"
  obtain d r' where res: "runBootStages clock calls i ?r = (d, r')" by fastforce
  have eff: "stages_effect calls i PLUGIN_BOOT_STAGES ?r (d, r')"
    using runBootStages_effect [of calls i ?r clock] res by simp
  note e = eff [unfolded stages_effect_def Let_def fst_conv snd_conv]
  from e have d: "d = map_option (\<lambda>(s, err). stage_diagnostic i s err) (first_failure calls ?tm i PLUGIN_BOOT_STAGES)"
    and c: "config_of r' = config_of ?r" and o: "\<forall>k. k \<noteq> rt_key i \<longrightarrow> entry_of r' k = entry_of ?r k"
    and s: "map_option ct_status (entry_of r' (rt_key i)) = map_option ct_status
      (fold (\<lambda>s. map_option (advance s)) (passed_stages calls ?tm i PLUGIN_BOOT_STAGES) (entry_of ?r (rt_key i)))"
    and t: "rn_started r' = rn_started ?r @ (if claims_resources calls ?tm i then [i] else [])"
    and v: "map event_core (rn_recorded r') = map event_core (rn_recorded ?r) @ expected_events calls ?tm i PLUGIN_BOOT_STAGES"
    by (simp_all add: claims_resources_def)
  have k: "\<exists>e. entry_of r' (rt_key i) = Some e" if "entry_of ?r (rt_key i) \<noteq> None"
    using entry_kept [OF c that] by blast
  show ?thesis
  proof (cases d)
    case None
    then have nf: "\<not> fails calls ?tm i" "\<not> fatal calls ?tm i" using d by (simp_all add: fails_def fatal_def)
    then have "passed_stages calls ?tm i PLUGIN_BOOT_STAGES = PLUGIN_BOOT_STAGES"
      by (intro passed_all) (simp only: fails_def not_not)
    with s have "map_option ct_status (entry_of r' (rt_key i)) = map_option (\<lambda>_. StReady) (entry_of ?r (rt_key i))"
      by (simp only: all_advanced)
    with assms None nf res c o t v show ?thesis
      unfolding boot_effect_def boot_step_def Let_def own_status_def by auto
  next
    case (Some dg)
    then have f: "fails calls ?tm i" using d by (auto simp: fails_def)
    show ?thesis
    proof (cases "rt_required i \<or> \<not> rt_policy i")
      case True
      with f have "fatal calls ?tm i" by (simp add: fatal_def)
      with True assms Some f res c o t v k show ?thesis
        unfolding boot_effect_def boot_step_def Let_def own_status_def by (auto simp: runner_simps)
    next
      case False
      with f have "\<not> fatal calls ?tm i" by (simp add: fatal_def)
      with False assms Some f res c o t v k show ?thesis
        unfolding boot_effect_def boot_step_def Let_def own_status_def by (auto simp: runner_simps)
    qed
  qed
qed

lemma boot_step_effect: "boot_effect calls i st (boot_step clock calls i st)"
  using boot_step_live boot_step_aborted by blast

text \<open>The whole loop.\<close>

lemma boot_loop:
  fixes st :: boot_state
  defines "tm \<equiv> rn_stageTimeoutMs (bs_runner st)"
  shows "config_of (bs_runner (fold (boot_step clock calls) is st)) = config_of (bs_runner st)
    \<and> bs_aborted (fold (boot_step clock calls) is st) = (bs_aborted st \<or> (\<exists>i\<in>set is. fatal calls tm i))
    \<and> bs_degraded (fold (boot_step clock calls) is st) =
        (bs_degraded st \<or> (\<not> bs_aborted st \<and> (\<exists>i\<in>set (reached calls tm is). fails calls tm i \<and> \<not> fatal calls tm i)))
    \<and> (\<forall>k. k \<notin> rt_key ` set is \<longrightarrow>
        entry_of (bs_runner (fold (boot_step clock calls) is st)) k = entry_of (bs_runner st) k)
    \<and> rn_started (bs_runner (fold (boot_step clock calls) is st)) = rn_started (bs_runner st)
        @ (if bs_aborted st then [] else filter (claims_resources calls tm) (reached calls tm is))
    \<and> map event_core (rn_recorded (bs_runner (fold (boot_step clock calls) is st))) =
        map event_core (rn_recorded (bs_runner st))
        @ (if bs_aborted st then []
           else concat (map (\<lambda>i. expected_events calls tm i PLUGIN_BOOT_STAGES) (reached calls tm is)))"
  unfolding tm_def
proof (induction "is" arbitrary: st)
  case Nil
  show ?case by simp
next
  case (Cons i "is")
  let ?st = "boot_step clock calls i st"
  note e = boot_step_effect [of calls i st clock, unfolded boot_effect_def Let_def]
  have tm: "rn_stageTimeoutMs (bs_runner ?st) = rn_stageTimeoutMs (bs_runner st)"
    using e timeout_of_config by blast
  note ih = Cons.IH [of ?st, unfolded tm]
  show ?case
    using ih e by (cases "bs_aborted st"; cases "fatal calls (rn_stageTimeoutMs (bs_runner st)) i") simp_all
qed

lemma boot_loop_status:
  fixes st :: boot_state
  defines "tm \<equiv> rn_stageTimeoutMs (bs_runner st)"
  assumes "distinct (map rt_key (us @ i # vs))" "entry_of (bs_runner st) (rt_key i) \<noteq> None"
  shows "map_option ct_status (entry_of (bs_runner (fold (boot_step clock calls) (us @ i # vs) st)) (rt_key i)) =
    Some (if bs_aborted st \<or> (\<exists>j\<in>set us. fatal calls tm j) then StNotReached else own_status calls tm i)"
proof -
  let ?s1 = "fold (boot_step clock calls) us st"
  let ?s2 = "boot_step clock calls i ?s1"
  note l = boot_loop [of clock calls us st]
  have c: "config_of (bs_runner ?s1) = config_of (bs_runner st)" using l by blast
  have tm: "rn_stageTimeoutMs (bs_runner ?s1) = tm" unfolding tm_def using timeout_of_config [OF c] by simp
  have a: "bs_aborted ?s1 \<longleftrightarrow> bs_aborted st \<or> (\<exists>j\<in>set us. fatal calls tm j)" using l unfolding tm_def by blast
  have "entry_of (bs_runner (fold (boot_step clock calls) vs ?s2)) (rt_key i) = entry_of (bs_runner ?s2) (rt_key i)"
    using boot_loop [of clock calls vs ?s2] assms(2) by auto
  moreover have "map_option ct_status (entry_of (bs_runner ?s2) (rt_key i)) =
      Some (if bs_aborted ?s1 then StNotReached else own_status calls tm i)"
    using boot_step_effect [of calls i ?s1 clock, unfolded boot_effect_def Let_def tm] entry_kept [OF c assms(3)] by auto
  ultimately show ?thesis by (simp add: a)
qed

lemma new_runner_entries:
  assumes "distinct (map rt_key (op_instances opts))"
  shows "rn_entries (new_runner opts) = map (\<lambda>i. (rt_key i, initial_entry i)) (op_instances opts)"
  unfolding new_runner_def using assms by (simp add: entries_map_distinct comp_def)

lemma map_snd_by_key: "distinct (map fst ps) \<Longrightarrow> map snd ps = map (\<lambda>k. the (map_of ps k)) (map fst ps)"
proof -
  assume d: "distinct (map fst ps)"
  have "map (\<lambda>p. the (map_of ps (fst p))) ps = map snd ps"
  proof (rule map_cong [OF refl])
    fix p
    assume "p \<in> set ps"
    then have "(fst p, snd p) \<in> set ps" by simp
    with d have "map_of ps (fst p) = Some (snd p)" by (rule map_of_is_SomeI)
    then show "the (map_of ps (fst p)) = snd p" by simp
  qed
  then show ?thesis by (simp add: comp_def)
qed

definition booted_state :: "(nat \<Rightarrow> int) \<Rightarrow> hook_calls \<Rightarrow> runner_options \<Rightarrow> boot_state" where
  "booted_state clock calls opts =
     fold (boot_step clock calls) (op_instances opts)
       \<lparr>bs_runner = (new_runner opts)\<lparr>rn_booted := True\<rparr>, bs_aborted = False, bs_degraded = False,
        bs_diagnostics = []\<rparr>"

lemma boot_result:
  assumes "boot clock calls (new_runner opts) = (Inr cat, r)"
  shows "r = bs_runner (booted_state clock calls opts)"
    "hc_entries cat = map snd (rn_entries (bs_runner (booted_state clock calls opts)))"
    "hc_outcome cat = (if bs_aborted (booted_state clock calls opts) then BootAborted
      else if bs_degraded (booted_state clock calls opts) then BootDegradedReady else BootReady)"
  using assms by (auto simp: boot_def new_runner_def booted_state_def Let_def)

lemma booted_facts:
  fixes opts :: runner_options and clock :: "nat \<Rightarrow> int" and calls :: hook_calls
  defines "tm \<equiv> rn_stageTimeoutMs (new_runner opts)"
  defines "st \<equiv> booted_state clock calls opts"
  shows "bs_aborted st \<longleftrightarrow> (\<exists>i\<in>set (op_instances opts). fatal calls tm i)"
    "bs_degraded st \<longleftrightarrow> (\<exists>i\<in>set (reached calls tm (op_instances opts)). fails calls tm i \<and> \<not> fatal calls tm i)"
    "rn_started (bs_runner st) = filter (claims_resources calls tm) (reached calls tm (op_instances opts))"
    "map event_core (rn_recorded (bs_runner st)) =
       concat (map (\<lambda>i. expected_events calls tm i PLUGIN_BOOT_STAGES) (reached calls tm (op_instances opts)))"
    "rn_shutdownTimeoutMs (bs_runner st) = rn_shutdownTimeoutMs (new_runner opts)"
    "map fst (rn_entries (bs_runner st)) = map fst (rn_entries (new_runner opts))"
proof -
  let ?s0 = "\<lparr>bs_runner = (new_runner opts)\<lparr>rn_booted := True\<rparr>, bs_aborted = False, bs_degraded = False,
        bs_diagnostics = []\<rparr>"
  have t: "rn_stageTimeoutMs (bs_runner ?s0) = tm" by (simp add: tm_def)
  note l = boot_loop [of clock calls "op_instances opts" ?s0, unfolded t, folded booted_state_def, folded st_def]
  show "bs_aborted st \<longleftrightarrow> (\<exists>i\<in>set (op_instances opts). fatal calls tm i)"
    "bs_degraded st \<longleftrightarrow> (\<exists>i\<in>set (reached calls tm (op_instances opts)). fails calls tm i \<and> \<not> fatal calls tm i)"
    "rn_started (bs_runner st) = filter (claims_resources calls tm) (reached calls tm (op_instances opts))"
    "map event_core (rn_recorded (bs_runner st)) =
       concat (map (\<lambda>i. expected_events calls tm i PLUGIN_BOOT_STAGES) (reached calls tm (op_instances opts)))"
    using l by (simp_all add: new_runner_def)
  have "config_of (bs_runner st) = config_of (bs_runner ?s0)" using l by blast
  then show "rn_shutdownTimeoutMs (bs_runner st) = rn_shutdownTimeoutMs (new_runner opts)"
    "map fst (rn_entries (bs_runner st)) = map fst (rn_entries (new_runner opts))"
    by (simp_all add: config_of_def)
qed

lemma booted_status:
  fixes opts :: runner_options
  defines "tm \<equiv> rn_stageTimeoutMs (new_runner opts)"
  assumes d: "distinct (map rt_key (op_instances opts))"
    and res: "boot clock calls (new_runner opts) = (Inr cat, r)" and n: "n < length (op_instances opts)"
  shows "length (hc_entries cat) = length (op_instances opts)"
    "ct_status (hc_entries cat ! n) =
      (if \<exists>m<n. fatal calls tm (op_instances opts ! m) then StNotReached
       else own_status calls tm (op_instances opts ! n))"
proof -
  let ?is = "op_instances opts" and ?st = "booted_state clock calls opts"
  let ?i = "?is ! n"
  have k: "map fst (rn_entries (bs_runner ?st)) = map rt_key ?is"
    unfolding booted_facts(6) new_runner_entries [OF d] by (simp add: comp_def)
  then show len: "length (hc_entries cat) = length ?is"
    unfolding boot_result(2) [OF res] by (metis length_map)
  let ?s0 = "\<lparr>bs_runner = (new_runner opts)\<lparr>rn_booted := True\<rparr>, bs_aborted = False, bs_degraded = False,
        bs_diagnostics = []\<rparr>"
  have split: "?is = take n ?is @ ?i # drop (Suc n) ?is" using n by (rule id_take_nth_drop)
  have "(rt_key ?i, initial_entry ?i) \<in> set (rn_entries (new_runner opts))"
    using n unfolding new_runner_entries [OF d] by simp
  then have "entry_of (bs_runner ?s0) (rt_key ?i) \<noteq> None"
    unfolding entry_of_def map_of_None_keys by force
  moreover have "distinct (map rt_key (take n ?is @ ?i # drop (Suc n) ?is))"
    unfolding split [symmetric] by (rule d)
  ultimately have "map_option ct_status (entry_of (bs_runner
      (fold (boot_step clock calls) (take n ?is @ ?i # drop (Suc n) ?is) ?s0)) (rt_key ?i)) =
      Some (if \<exists>j\<in>set (take n ?is). fatal calls tm j then StNotReached else own_status calls tm ?i)"
    by (subst boot_loop_status) (simp_all add: tm_def)
  then have "map_option ct_status (entry_of (bs_runner ?st) (rt_key ?i)) =
      Some (if \<exists>j\<in>set (take n ?is). fatal calls tm j then StNotReached else own_status calls tm ?i)"
    unfolding split [symmetric] booted_state_def .
  moreover have "hc_entries cat ! n = the (entry_of (bs_runner ?st) (rt_key ?i))"
  proof -
    have "hc_entries cat = map (\<lambda>k. the (entry_of (bs_runner ?st) k)) (map rt_key ?is)"
      unfolding boot_result(2) [OF res] entry_of_def using map_snd_by_key [of "rn_entries (bs_runner ?st)"] d k by simp
    then show ?thesis using n by simp
  qed
  moreover have "(\<exists>j\<in>set (take n ?is). fatal calls tm j) \<longleftrightarrow> (\<exists>m<n. fatal calls tm (?is ! m))"
  proof -
    have "set (take n ?is) = (!) ?is ` {0..<n}" using n by (simp add: nth_image)
    then show ?thesis by auto
  qed
  ultimately show "ct_status (hc_entries cat ! n) =
      (if \<exists>m<n. fatal calls tm (?is ! m) then StNotReached else own_status calls tm ?i)"
    by auto
qed

section \<open>Shutting down\<close>

definition shutdown_budget :: "int \<Rightarrow> runtime_instance \<Rightarrow> int" where
  "shutdown_budget tm i = coalesce (rt_shutdownTimeoutMs i) tm"

definition shutdown_event_outcome :: "hook_calls \<Rightarrow> int \<Rightarrow> runtime_instance \<Rightarrow> event_outcome" where
  "shutdown_event_outcome calls tm i = stage_outcome calls (shutdown_budget tm i) i Shutdown"

lemma shutdown_step_effect:
  fixes st :: shutdown_state and clock :: "nat \<Rightarrow> int" and calls :: hook_calls and i :: runtime_instance
  defines "tm \<equiv> rn_shutdownTimeoutMs (sd_runner st)"
  defines "st' \<equiv> shutdown_step clock calls i st"
  shows "config_of (sd_runner st') = config_of (sd_runner st)
    \<and> map event_core (sd_events st') = map event_core (sd_events st) @ [(rt_key i, Shutdown, shutdown_event_outcome calls tm i)]
    \<and> sd_timedOut st' = (sd_timedOut st \<or> shutdown_event_outcome calls tm i = EvTimeout)
    \<and> sd_failed st' = (sd_failed st \<or> shutdown_event_outcome calls tm i = EvFailed)"
proof (cases "Shutdown \<in> set (rt_hooks i)")
  case False
  then show ?thesis unfolding st'_def
    by (simp add: shutdown_step_def now_call_def push_event_def runner_simps shutdown_event_outcome_def stage_outcome_def)
next
  case True
  show ?thesis
  proof (cases "withTimeout (calls i Shutdown) (shutdown_budget tm i) Shutdown (rt_key i)")
    case None
    then have "shutdown_event_outcome calls tm i = EvOk"
      using True by (simp add: shutdown_event_outcome_def stage_outcome_def stage_error_of_def)
    with True None show ?thesis unfolding st'_def
      by (simp add: shutdown_step_def now_call_def push_event_def runner_simps Let_def shutdown_budget_def tm_def)
  next
    case (Some err)
    then have "shutdown_event_outcome calls tm i = (if is_timeout err then EvTimeout else EvFailed)"
      using True by (simp add: shutdown_event_outcome_def stage_outcome_def stage_error_of_def)
    with True Some show ?thesis unfolding st'_def
      by (simp add: shutdown_step_def now_call_def push_event_def runner_simps Let_def shutdown_budget_def tm_def)
  qed
qed

lemma shutdown_loop:
  fixes st :: shutdown_state
  defines "tm \<equiv> rn_shutdownTimeoutMs (sd_runner st)"
  shows "map event_core (sd_events (fold (shutdown_step clock calls) is st)) =
      map event_core (sd_events st) @ map (\<lambda>i. (rt_key i, Shutdown, shutdown_event_outcome calls tm i)) is
    \<and> sd_timedOut (fold (shutdown_step clock calls) is st) =
        (sd_timedOut st \<or> (\<exists>i\<in>set is. shutdown_event_outcome calls tm i = EvTimeout))
    \<and> sd_failed (fold (shutdown_step clock calls) is st) =
        (sd_failed st \<or> (\<exists>i\<in>set is. shutdown_event_outcome calls tm i = EvFailed))"
  unfolding tm_def
proof (induction "is" arbitrary: st)
  case Nil
  show ?case by simp
next
  case (Cons i "is")
  note e = shutdown_step_effect [where st = st and clock = clock and calls = calls and i = i]
  have tm: "rn_shutdownTimeoutMs (sd_runner (shutdown_step clock calls i st)) = rn_shutdownTimeoutMs (sd_runner st)"
    using e timeout_of_config by blast
  note ih = Cons.IH [of "shutdown_step clock calls i st", unfolded tm]
  show ?case using ih e by simp
qed

lemma shutdown_result:
  assumes "shutdown clock calls r = ((outcome, events), r')"
  shows "map event_core events = map (\<lambda>i. (rt_key i, Shutdown, shutdown_event_outcome calls (rn_shutdownTimeoutMs r) i))
      (rev (rn_started r))"
    and "outcome = (if \<exists>i\<in>set (rn_started r). shutdown_event_outcome calls (rn_shutdownTimeoutMs r) i = EvTimeout
        then ShutdownWithTimeout
        else if \<exists>i\<in>set (rn_started r). shutdown_event_outcome calls (rn_shutdownTimeoutMs r) i = EvFailed
        then ShutdownWithFailure else ShutdownCompleted)"
proof -
  let ?s0 = "\<lparr>sd_runner = r, sd_events = [], sd_timedOut = False, sd_failed = False\<rparr>"
  let ?st = "fold (shutdown_step clock calls) (rev (rn_started r)) ?s0"
  note l = shutdown_loop [of clock calls "rev (rn_started r)" ?s0]
  from assms have e: "events = sd_events ?st" and o: "outcome = (if sd_timedOut ?st then ShutdownWithTimeout
      else if sd_failed ?st then ShutdownWithFailure else ShutdownCompleted)"
    by (auto simp: shutdown_def Let_def)
  show "map event_core events = map (\<lambda>i. (rt_key i, Shutdown, shutdown_event_outcome calls (rn_shutdownTimeoutMs r) i))
      (rev (rn_started r))"
    unfolding e using l by simp
  show "outcome = (if \<exists>i\<in>set (rn_started r). shutdown_event_outcome calls (rn_shutdownTimeoutMs r) i = EvTimeout
        then ShutdownWithTimeout
        else if \<exists>i\<in>set (rn_started r). shutdown_event_outcome calls (rn_shutdownTimeoutMs r) i = EvFailed
        then ShutdownWithFailure else ShutdownCompleted)"
    unfolding o using l by simp
qed

section \<open>Properties\<close>

lemma bex_upt: "(\<exists>s\<in>set (map g [0..<N]). P s) \<longleftrightarrow> (\<exists>n<N. P (g n))"
  by auto

lemma map_eq_by_nth:
  assumes "length xs = N" "\<And>n. n < N \<Longrightarrow> f (xs ! n) = g n"
  shows "map f xs = map g [0..<N]"
  by (rule nth_equalityI) (use assms in simp_all)

lemma sort_Nil_iff [simp]: "sort_key f xs = [] \<longleftrightarrow> xs = []"
  by (metis length_0_conv length_sort)

text \<open>
  C4. After \<open>boot()\<close>, an instance is not reached exactly when an instance before it failed
  fatally (it is required, or declares no failure policy); a reached instance is ready when all its
  stages passed, failed when its failure is fatal and degraded otherwise. The reported outcome is
  aborted, degraded or ready accordingly, so a failure of an instance that declares no policy is
  never reported as a degraded start.
\<close>

theorem boot_statuses_and_outcome:
  assumes "boot clock calls (new_runner opts) = (Inr cat, r)" "distinct (map rt_key (op_instances opts))"
    and "tm = rn_stageTimeoutMs (new_runner opts)"
  shows "map ct_status (hc_entries cat) = map (\<lambda>n.
      if \<exists>m<n. fatal calls tm (op_instances opts ! m) then StNotReached
      else if \<not> fails calls tm (op_instances opts ! n) then StReady
      else if rt_required (op_instances opts ! n) \<or> \<not> rt_policy (op_instances opts ! n) then StFailed
      else StDegraded) [0..<length (op_instances opts)]
    \<and> hc_outcome cat = (if \<exists>i\<in>set (op_instances opts). fatal calls tm i then BootAborted
      else if \<exists>i\<in>set (op_instances opts). fails calls tm i then BootDegradedReady else BootReady)"
proof
  have s: "ct_status (hc_entries cat ! n) = (if \<exists>m<n. fatal calls tm (op_instances opts ! m) then StNotReached
      else if \<not> fails calls tm (op_instances opts ! n) then StReady
      else if rt_required (op_instances opts ! n) \<or> \<not> rt_policy (op_instances opts ! n) then StFailed
      else StDegraded)" if "n < length (op_instances opts)" for n
    using booted_status(2) [OF assms(2,1) that] unfolding own_status_alt assms(3) .
  have "length (hc_entries cat) = length (op_instances opts)"
  proof (cases "op_instances opts = []")
    case True
    then show ?thesis
      using assms(1) by (auto simp: boot_def new_runner_def Let_def entries_map_def)
  next
    case False
    then show ?thesis using booted_status(1) [OF assms(2,1), of 0] by simp
  qed
  then show "map ct_status (hc_entries cat) = map (\<lambda>n.
      if \<exists>m<n. fatal calls tm (op_instances opts ! m) then StNotReached
      else if \<not> fails calls tm (op_instances opts ! n) then StReady
      else if rt_required (op_instances opts ! n) \<or> \<not> rt_policy (op_instances opts ! n) then StFailed
      else StDegraded) [0..<length (op_instances opts)]"
    by (intro map_eq_by_nth) (simp_all only: s)
  have "(\<exists>i\<in>set (reached calls tm (op_instances opts)). fails calls tm i \<and> \<not> fatal calls tm i)
      \<longleftrightarrow> (\<exists>i\<in>set (op_instances opts). fails calls tm i)"
    if "\<not> (\<exists>i\<in>set (op_instances opts). fatal calls tm i)"
    using that reached_all [OF that] by auto
  then show "hc_outcome cat = (if \<exists>i\<in>set (op_instances opts). fatal calls tm i then BootAborted
      else if \<exists>i\<in>set (op_instances opts). fails calls tm i then BootDegradedReady else BootReady)"
    unfolding boot_result(3) [OF assms(1)] booted_facts assms(3) by simp
qed

definition ex_runtime :: "string \<Rightarrow> bool \<Rightarrow> lifecycle_stage list \<Rightarrow> runtime_instance" where
  "ex_runtime k required hooks =
     \<lparr>rt_key = k, rt_pluginId = k, rt_instanceId = ''default'', rt_packageName = k, rt_packageVersion = ''1'',
      rt_digest = ''d'', rt_required = required, rt_provides = [], rt_requires = [], rt_unresolvedOptional = [],
      rt_config = JNull, rt_redactedConfig = None, rt_hooks = hooks, rt_policy = True,
      rt_healthIndicatorId = None, rt_shutdownTimeoutMs = None\<rparr>"

text \<open>The second instance fails to get ready and may degrade; its shutdown hangs.\<close>

definition ex_runtimes :: "runtime_instance list" where
  "ex_runtimes = [ex_runtime ''db'' True [Register, Shutdown], ex_runtime ''mail'' False [Ready, Shutdown]]"

definition ex_runner_options :: runner_options where
  "ex_runner_options = \<lparr>op_instances = ex_runtimes, op_stageTimeoutMs = None, op_shutdownTimeoutMs = Some 100\<rparr>"

definition ex_calls :: hook_calls where
  "ex_calls i s = (if rt_key i = ''mail'' then (if s = Ready then Settles 5 (Some ''refused'') else NeverSettles)
     else Settles 1 None)"

definition ex_boot :: "(string + host_catalog) \<times> runner" where
  "ex_boot = boot int ex_calls (new_runner ex_runner_options)"

lemma ex_boot_result: "boot int ex_calls (new_runner ex_runner_options) = (Inr (projr (fst ex_boot)), snd ex_boot)"
proof -
  have "case ex_boot of (Inr c, r) \<Rightarrow> True | _ \<Rightarrow> False" by code_simp
  then show ?thesis unfolding ex_boot_def by (auto split: prod.splits sum.splits)
qed

lemma ex_runtimes_distinct: "distinct (map rt_key (op_instances ex_runner_options))"
  by code_simp

theorem boot_statuses_and_outcome_witness:
  "map ct_status (hc_entries (projr (fst ex_boot))) = [StReady, StDegraded]
   \<and> hc_outcome (projr (fst ex_boot)) = BootDegradedReady"
proof -
  let ?tm = "rn_stageTimeoutMs (new_runner ex_runner_options)" and ?is = "op_instances ex_runner_options"
  have "map (\<lambda>n.
      if \<exists>m<n. fatal ex_calls ?tm (?is ! m) then StNotReached
      else if \<not> fails ex_calls ?tm (?is ! n) then StReady
      else if rt_required (?is ! n) \<or> \<not> rt_policy (?is ! n) then StFailed
      else StDegraded) [0..<length ?is] = [StReady, StDegraded]" by code_simp
  moreover have "(if \<exists>i\<in>set ?is. fatal ex_calls ?tm i then BootAborted
      else if \<exists>i\<in>set ?is. fails ex_calls ?tm i then BootDegradedReady else BootReady) = BootDegradedReady" by code_simp
  ultimately show ?thesis
    using boot_statuses_and_outcome [OF ex_boot_result ex_runtimes_distinct refl] by simp
qed

text \<open>
  The boot works through the instances in order and, within each, through validate, register
  and ready: the recorded events are exactly those of the reached instances, one instance after the
  other, each a prefix of its three stages that ends at its first failure. No instance starts before
  the ones in front of it are done.
\<close>

theorem boot_events_follow_registration_order:
  assumes "boot clock calls (new_runner opts) = (Inr cat, r)" "tm = rn_stageTimeoutMs (new_runner opts)"
  shows "\<exists>is. prefix is (op_instances opts)
    \<and> map event_core (rn_recorded r) = concat (map (\<lambda>i. map (\<lambda>s. (rt_key i, s, stage_outcome calls tm i s))
        (attempted_stages calls tm i [Validate, Register, Ready])) is)
    \<and> (\<forall>i\<in>set (butlast is). \<not> fatal calls tm i)
    \<and> (is = op_instances opts \<or> (is \<noteq> [] \<and> fatal calls tm (last is)))"
proof -
  let ?is = "reached calls tm (op_instances opts)"
  have "\<forall>i\<in>set (butlast (reached calls tm xs)). \<not> fatal calls tm i" for xs
    by (induction xs) auto
  moreover have "reached calls tm xs = xs \<or> (reached calls tm xs \<noteq> [] \<and> fatal calls tm (last (reached calls tm xs)))" for xs
    by (induction xs) auto
  moreover have "map event_core (rn_recorded r) =
      concat (map (\<lambda>i. expected_events calls tm i PLUGIN_BOOT_STAGES) ?is)"
    unfolding boot_result(1) [OF assms(1)] booted_facts assms(2) ..
  ultimately show ?thesis
    unfolding expected_events_def PLUGIN_BOOT_STAGES_def using reached_prefix by blast
qed

theorem boot_events_follow_registration_order_witness:
  "\<exists>is. prefix is ex_runtimes \<and> map event_core (rn_recorded (snd ex_boot)) =
     concat (map (\<lambda>i. map (\<lambda>s. (rt_key i, s, stage_outcome ex_calls 30000 i s))
        (attempted_stages ex_calls 30000 i [Validate, Register, Ready])) is)"
proof -
  have "30000 = rn_stageTimeoutMs (new_runner ex_runner_options)" by code_simp
  from boot_events_follow_registration_order [OF ex_boot_result this] show ?thesis
    unfolding ex_runner_options_def by auto
qed

text \<open>
  C5. \<open>shutdown()\<close> after a boot visits, in exactly the reverse of the registration order,
  every reached instance whose register stage passed and no other, once each, whether or not the
  shutdown hooks before it failed or timed out; and it reports a timeout if any visited hook timed
  out, a failure if none did but one failed, and a clean completion otherwise.
\<close>

theorem shutdown_visits_started_in_reverse:
  assumes "boot clock calls (new_runner opts) = (Inr cat, r)"
    and "shutdown clock' calls' r = ((outcome, events), r')"
    and "tm = rn_stageTimeoutMs (new_runner opts)" "sm = rn_shutdownTimeoutMs (new_runner opts)"
    and "started = filter (claims_resources calls tm) (reached calls tm (op_instances opts))"
  shows "map event_core events = map (\<lambda>i. (rt_key i, Shutdown, shutdown_event_outcome calls' sm i)) (rev started)
    \<and> outcome = (if \<exists>i\<in>set started. shutdown_event_outcome calls' sm i = EvTimeout then ShutdownWithTimeout
        else if \<exists>i\<in>set started. shutdown_event_outcome calls' sm i = EvFailed then ShutdownWithFailure
        else ShutdownCompleted)"
proof -
  have s: "rn_started r = started" "rn_shutdownTimeoutMs r = sm"
    unfolding boot_result(1) [OF assms(1)] booted_facts assms(3-5) by simp_all
  show ?thesis using shutdown_result [OF assms(2)] unfolding s by blast
qed

theorem shutdown_visits_started_in_reverse_witness:
  "map event_core (snd (fst (shutdown int ex_calls (snd ex_boot)))) =
     [(''mail'', Shutdown, EvTimeout), (''db'', Shutdown, EvOk)]
   \<and> fst (fst (shutdown int ex_calls (snd ex_boot))) = ShutdownWithTimeout"
proof -
  let ?tm = "rn_stageTimeoutMs (new_runner ex_runner_options)" and ?sm = "rn_shutdownTimeoutMs (new_runner ex_runner_options)"
  let ?started = "filter (claims_resources ex_calls ?tm) (reached ex_calls ?tm (op_instances ex_runner_options))"
  have r: "shutdown int ex_calls (snd ex_boot) =
      ((fst (fst (shutdown int ex_calls (snd ex_boot))), snd (fst (shutdown int ex_calls (snd ex_boot)))),
       snd (shutdown int ex_calls (snd ex_boot)))" by simp
  have "map (\<lambda>i. (rt_key i, Shutdown, shutdown_event_outcome ex_calls ?sm i)) (rev ?started) =
      [(''mail'', Shutdown, EvTimeout), (''db'', Shutdown, EvOk)]" by code_simp
  moreover have "\<exists>i\<in>set ?started. shutdown_event_outcome ex_calls ?sm i = EvTimeout" by code_simp
  ultimately show ?thesis
    using shutdown_visits_started_in_reverse [OF ex_boot_result r refl refl refl] by simp
qed

text \<open>
  The aggregate health of the catalog a boot returns is failed exactly when the boot aborted,
  degraded exactly when it ended degraded, and ready exactly when every instance is ready.
\<close>

theorem health_agrees_with_boot:
  assumes "boot clock calls (new_runner opts) = (Inr cat, r)" "distinct (map rt_key (op_instances opts))"
  shows "hr_status (aggregateHealth cat) = (case hc_outcome cat of BootAborted \<Rightarrow> HealthFailed
      | BootDegradedReady \<Rightarrow> HealthDegraded | BootReady \<Rightarrow> HealthReady)
    \<and> (hc_outcome cat = BootReady \<longleftrightarrow> (\<forall>e\<in>set (hc_entries cat). ct_status e = StReady))"
proof -
  let ?tm = "rn_stageTimeoutMs (new_runner opts)" and ?is = "op_instances opts"
  note st = boot_statuses_and_outcome [OF assms refl, THEN conjunct1]
    and oc = boot_statuses_and_outcome [OF assms refl, THEN conjunct2]
  have h: "hr_status (aggregateHealth cat) =
      (if \<exists>e\<in>set (hc_entries cat). ct_status e = StFailed \<or> ct_status e = StNotReached then HealthFailed
       else if \<exists>e\<in>set (hc_entries cat). ct_status e = StDegraded then HealthDegraded else HealthReady)"
    by (auto simp: aggregateHealth_def Let_def filter_empty_conv)
  let ?F = "\<lambda>n. if \<exists>m<n. fatal calls ?tm (?is ! m) then StNotReached
      else if \<not> fails calls ?tm (?is ! n) then StReady
      else if rt_required (?is ! n) \<or> \<not> rt_policy (?is ! n) then StFailed else StDegraded"
  have ex: "(\<exists>e\<in>set (hc_entries cat). P (ct_status e)) \<longleftrightarrow> (\<exists>n<length ?is. P (?F n))" for P
  proof -
    have "(\<exists>e\<in>set (hc_entries cat). P (ct_status e)) \<longleftrightarrow> (\<exists>s\<in>set (map ct_status (hc_entries cat)). P s)"
      by (simp only: set_map bex_simps)
    also have "\<dots> \<longleftrightarrow> (\<exists>n<length ?is. P (?F n))"
      unfolding st by (rule bex_upt)
    finally show ?thesis .
  qed
  have is_nth: "(\<exists>i\<in>set ?is. Q i) \<longleftrightarrow> (\<exists>n<length ?is. Q (?is ! n))" for Q
    unfolding set_conv_nth by auto
  have ff: "(\<exists>e\<in>set (hc_entries cat). ct_status e = StFailed \<or> ct_status e = StNotReached)
      \<longleftrightarrow> (\<exists>i\<in>set ?is. fatal calls ?tm i)"
    unfolding ex [of "\<lambda>s. s = StFailed \<or> s = StNotReached"] is_nth
  proof
    assume "\<exists>n<length ?is. ?F n = StFailed \<or> ?F n = StNotReached"
    then obtain n where n: "n < length ?is" "?F n = StFailed \<or> ?F n = StNotReached" by blast
    show "\<exists>n<length ?is. fatal calls ?tm (?is ! n)"
    proof (cases "\<exists>m<n. fatal calls ?tm (?is ! m)")
      case True
      with n(1) show ?thesis using less_trans by blast
    next
      case False
      with n have "fatal calls ?tm (?is ! n)" unfolding fatal_def by (auto split: if_splits)
      with n(1) show ?thesis by blast
    qed
  next
    assume "\<exists>n<length ?is. fatal calls ?tm (?is ! n)"
    then obtain n where n: "n < length ?is" "fatal calls ?tm (?is ! n)" by blast
    then have "?F n = StFailed \<or> ?F n = StNotReached" unfolding fatal_def by simp
    with n(1) show "\<exists>n<length ?is. ?F n = StFailed \<or> ?F n = StNotReached" by blast
  qed
  have dd: "(\<exists>e\<in>set (hc_entries cat). ct_status e = StDegraded) \<longleftrightarrow> (\<exists>i\<in>set ?is. fails calls ?tm i)"
    if no: "\<not> (\<exists>i\<in>set ?is. fatal calls ?tm i)"
  proof -
    have F: "?F n = StDegraded \<longleftrightarrow> fails calls ?tm (?is ! n)" if n: "n < length ?is" for n
    proof -
      have "\<not> (\<exists>m<n. fatal calls ?tm (?is ! m))" using no n unfolding is_nth by (meson less_trans)
      moreover have "\<not> fatal calls ?tm (?is ! n)" using no n unfolding is_nth by blast
      ultimately show ?thesis by (simp add: fatal_def)
    qed
    show ?thesis unfolding ex [of "\<lambda>s. s = StDegraded"] is_nth using F by blast
  qed
  have vals: "ct_status e \<in> {StReady, StFailed, StNotReached, StDegraded}" if "e \<in> set (hc_entries cat)" for e
  proof (rule ccontr)
    assume "ct_status e \<notin> {StReady, StFailed, StNotReached, StDegraded}"
    with that have "\<exists>e\<in>set (hc_entries cat). ct_status e \<notin> {StReady, StFailed, StNotReached, StDegraded}" by blast
    then obtain n where "?F n \<notin> {StReady, StFailed, StNotReached, StDegraded}"
      unfolding ex [of "\<lambda>s. s \<notin> {StReady, StFailed, StNotReached, StDegraded}"] by blast
    moreover have "(if b then StNotReached else if c then StReady else if d then StFailed else StDegraded)
        \<in> {StReady, StFailed, StNotReached, StDegraded}" for b c d by simp
    ultimately show False by blast
  qed
  have rr: "(\<exists>e\<in>set (hc_entries cat). ct_status e \<noteq> StReady) \<longleftrightarrow>
      (\<exists>e\<in>set (hc_entries cat). ct_status e = StFailed \<or> ct_status e = StNotReached)
      \<or> (\<exists>e\<in>set (hc_entries cat). ct_status e = StDegraded)"
    using vals by force
  show ?thesis
  proof (cases "\<exists>i\<in>set ?is. fatal calls ?tm i")
    case True
    then have "hc_outcome cat = BootAborted" using oc by simp
    then show ?thesis unfolding h using True ff rr by auto
  next
    case False
    then show ?thesis unfolding h oc using ff rr dd [OF False] by auto
  qed
qed

theorem health_agrees_with_boot_witness:
  "hr_status (aggregateHealth (projr (fst ex_boot))) = HealthDegraded"
proof -
  have "hc_outcome (projr (fst ex_boot)) = BootDegradedReady" by code_simp
  then show ?thesis using health_agrees_with_boot [OF ex_boot_result ex_runtimes_distinct] by simp
qed

end
