(* ===== verification/Topology.thy ===== *)
theory Topology
  imports Diagnostics
begin

text \<open>
  The registration order of the resolver (\<open>topologicalOrder\<close> in
  \<open>plugin-api/src/resolver/index.ts\<close>): Kahn's algorithm with a sorted frontier, over the
  map from an instance key to the set of keys it depends on.
  The lemmas show that it terminates, that a complete order is a permutation of the keys with every
  dependency before its dependent, that it stops early exactly when the graph has a cycle, and that
  the order does not depend on the order of the input.
\<close>

section \<open>The algorithm\<close>

type_synonym dep_map = "(string \<times> string list) list"

definition ready_keys :: "dep_map \<Rightarrow> string list" where
  "ready_keys remaining = sort (map fst (filter (\<lambda>p. snd p = []) remaining))"

definition drop_ready :: "string list \<Rightarrow> dep_map \<Rightarrow> dep_map" where
  "drop_ready ready remaining =
     map (\<lambda>p. (fst p, filter (\<lambda>d. d \<notin> set ready) (snd p)))
       (filter (\<lambda>p. fst p \<notin> set ready) remaining)"

lemma set_ready_keys: "k \<in> set (ready_keys rem) \<longleftrightarrow> (k, []) \<in> set rem"
  by (force simp: ready_keys_def)

lemma ready_keys_ne: "ready_keys rem = [] \<longleftrightarrow> (\<forall>p\<in>set rem. snd p \<noteq> [])"
proof
  show "ready_keys rem = [] \<Longrightarrow> \<forall>p\<in>set rem. snd p \<noteq> []"
    by (metis list.set(1) empty_iff prod.collapse set_ready_keys)
  show "\<forall>p\<in>set rem. snd p \<noteq> [] \<Longrightarrow> ready_keys rem = []"
    unfolding ready_keys_def by (subst filter_False) auto
qed

lemma drop_ready_less:
  assumes "ready_keys rem \<noteq> []"
  shows "length (drop_ready (ready_keys rem) rem) < length rem"
proof -
  obtain k where "k \<in> set (ready_keys rem)" using assms by (cases "ready_keys rem") auto
  then have "(k, []) \<in> set rem" "fst (k, [] :: string list) \<in> set (ready_keys rem)"
    by (simp_all add: set_ready_keys)
  then show ?thesis unfolding drop_ready_def length_map by (intro length_filter_less) auto
qed

text \<open>
  The loop: the remaining map and the order so far. The result is the order and, when no key is
  ready, the sorted keys that remain.
\<close>

function kahn :: "dep_map \<Rightarrow> string list \<Rightarrow> string list \<times> string list option" where
  "kahn remaining order =
     (if remaining = [] then (order, None)
      else let ready = ready_keys remaining
           in if ready = [] then (order, Some (sort (map fst remaining)))
              else kahn (drop_ready ready remaining) (order @ ready))"
  by pat_completeness auto

termination by (relation "measure (\<lambda>(rem, _). length rem)") (auto simp: drop_ready_less)

declare kahn.simps [simp del]

lemma kahn_Nil [simp]: "kahn [] order = (order, None)"
  by (simp add: kahn.simps)

lemma kahn_stuck: "rem \<noteq> [] \<Longrightarrow> ready_keys rem = [] \<Longrightarrow> kahn rem order = (order, Some (sort (map fst rem)))"
  by (simp add: kahn.simps [of rem])

lemma kahn_step:
  "ready_keys rem \<noteq> [] \<Longrightarrow> kahn rem order = kahn (drop_ready (ready_keys rem) rem) (order @ ready_keys rem)"
  by (cases "rem = []") (simp_all add: kahn.simps [of rem] Let_def, simp add: ready_keys_def)

text \<open>Computation induction with the three cases named.\<close>

lemma kahn_cases [case_names finish stuck step]:
  assumes "\<And>order. P [] order"
    and "\<And>rem order. rem \<noteq> [] \<Longrightarrow> ready_keys rem = [] \<Longrightarrow> P rem order"
    and "\<And>rem order. ready_keys rem \<noteq> [] \<Longrightarrow>
      P (drop_ready (ready_keys rem) rem) (order @ ready_keys rem) \<Longrightarrow> P rem order"
  shows "P rem order"
proof (induction rem order rule: kahn.induct)
  case (1 rem order)
  show ?case
  proof (cases "rem = []")
    case True
    with assms(1) show ?thesis by simp
  next
    case ne: False
    show ?thesis
    proof (cases "ready_keys rem = []")
      case True
      with ne assms(2) show ?thesis by simp
    next
      case False
      with ne 1 assms(3) show ?thesis by simp
    qed
  qed
qed

section \<open>Orders\<close>

text \<open>\<open>a\<close> occurs before \<open>b\<close>.\<close>

definition before :: "'a list \<Rightarrow> 'a \<Rightarrow> 'a \<Rightarrow> bool" where
  "before xs a b \<longleftrightarrow> (\<exists>us vs ws. xs = us @ a # vs @ b # ws)"

lemma before_append: "before ys a b \<Longrightarrow> before (xs @ ys) a b"
  unfolding before_def by (metis append.assoc)

lemma before_across: "a \<in> set xs \<Longrightarrow> b \<in> set ys \<Longrightarrow> before (xs @ ys) a b"
  unfolding before_def by (metis append.assoc append_Cons in_set_conv_decomp)

lemma before_mem: "before xs a b \<Longrightarrow> a \<in> set xs \<and> b \<in> set xs"
  by (auto simp: before_def)

lemma before_rev: "before (rev xs) a b \<longleftrightarrow> before xs b a"
proof -
  have "before xs b a \<Longrightarrow> before (rev xs) a b" for xs :: "'a list" and a b
    unfolding before_def by (auto simp: rev_eq_Cons_iff) (metis append.assoc append_Cons append_Nil rev.simps(2))
  from this [of xs] this [of "rev xs"] show ?thesis by auto
qed

lemma before_asym: "distinct xs \<Longrightarrow> before xs a b \<Longrightarrow> \<not> before xs b a \<and> a \<noteq> b"
proof -
  assume d: "distinct xs" and "before xs a b"
  then obtain us vs ws where x: "xs = us @ a # vs @ b # ws" by (auto simp: before_def)
  have "a \<noteq> b" using d x by auto
  moreover have "\<not> before xs b a"
  proof
    assume "before xs b a"
    then obtain us' vs' ws' where y: "xs = us' @ b # vs' @ a # ws'" by (auto simp: before_def)
    have "xs ! length us = a" "xs ! (length us + length vs + 1) = b" "length us + length vs + 1 < length xs"
      using x by (simp_all add: nth_append)
    moreover have "xs ! length us' = b" "xs ! (length us' + length vs' + 1) = a"
        "length us' + length vs' + 1 < length xs"
      using y by (simp_all add: nth_append)
    ultimately have "length us = length us' + length vs' + 1" "length us' = length us + length vs + 1"
      using d by (simp_all add: nth_eq_iff_index_eq [symmetric])
    then show False by simp
  qed
  ultimately show ?thesis by simp
qed

lemma before_trans: "distinct xs \<Longrightarrow> before xs a b \<Longrightarrow> before xs b c \<Longrightarrow> before xs a c"
proof -
  assume d: "distinct xs" and ab: "before xs a b" and bc: "before xs b c"
  obtain us vs ws where x: "xs = us @ a # vs @ b # ws" using ab by (auto simp: before_def)
  obtain us' vs' ws' where y: "xs = us' @ b # vs' @ c # ws'" using bc by (auto simp: before_def)
  have "(us @ a # vs) @ b # ws = us' @ b # (vs' @ c # ws')" using x y by simp
  then have "ws = vs' @ c # ws'"
    using d x y by (subst (asm) append_Cons_eq_iff) auto
  then show ?thesis unfolding before_def using x by (metis append.assoc append_Cons)
qed

section \<open>A complete order is topological\<close>

lemma fst_drop_ready: "map fst (drop_ready ready rem) = filter (\<lambda>k. k \<notin> set ready) (map fst rem)"
  by (simp add: drop_ready_def filter_map comp_def)

lemma drop_ready_mem:
  "(k, ds) \<in> set rem \<Longrightarrow> k \<notin> set ready \<Longrightarrow> (k, filter (\<lambda>d. d \<notin> set ready) ds) \<in> set (drop_ready ready rem)"
  by (force simp: drop_ready_def)

lemma mset_ready_keys:
  assumes "distinct (map fst rem)"
  shows "mset (ready_keys rem) + mset (filter (\<lambda>k. k \<notin> set (ready_keys rem)) (map fst rem)) = mset (map fst rem)"
proof -
  have "filter (\<lambda>k. k \<in> set (ready_keys rem)) (map fst rem) = map fst (filter (\<lambda>p. snd p = []) rem)"
    unfolding filter_map comp_def using assms
    by (intro arg_cong [where f = "map fst"] filter_cong) (auto simp: set_ready_keys eq_key_imp_eq_value)
  then have "mset (ready_keys rem) = mset (filter (\<lambda>k. k \<in> set (ready_keys rem)) (map fst rem))"
    unfolding ready_keys_def by simp
  then show ?thesis by (simp only: mset_filter multiset_partition [symmetric])
qed

lemma kahn_complete:
  "kahn rem acc = (order, None) \<Longrightarrow> distinct (map fst rem) \<Longrightarrow>
     \<exists>rest. order = acc @ rest \<and> mset rest = mset (map fst rem)
       \<and> (\<forall>k ds d. (k, ds) \<in> set rem \<longrightarrow> d \<in> set ds \<longrightarrow> before rest d k)"
proof (induction rem acc rule: kahn_cases)
  case (finish order)
  then show ?case by simp
next
  case (stuck rem order)
  then show ?case by (simp add: kahn_stuck)
next
  case (step rem acc)
  let ?r = "ready_keys rem"
  have "distinct (map fst (drop_ready ?r rem))"
    using step.prems(2) by (simp only: fst_drop_ready distinct_filter)
  with step.IH step.prems(1) step.hyps obtain rest where
    o: "order = (acc @ ?r) @ rest" and m: "mset rest = mset (map fst (drop_ready ?r rem))"
    and b: "\<forall>k ds d. (k, ds) \<in> set (drop_ready ?r rem) \<longrightarrow> d \<in> set ds \<longrightarrow> before rest d k"
    by (auto simp: kahn_step)
  have "mset (?r @ rest) = mset (map fst rem)"
    using mset_ready_keys [OF step.prems(2)] m by (simp only: fst_drop_ready mset_append)
  moreover have "before (?r @ rest) d k" if kd: "(k, ds) \<in> set rem" "d \<in> set ds" for k ds d
  proof -
    have "k \<notin> set ?r"
      using eq_key_imp_eq_value [OF step.prems(2) kd(1)] kd(2) by (fastforce simp only: set_ready_keys list.set(1))
    with kd have k: "(k, filter (\<lambda>d. d \<notin> set ?r) ds) \<in> set (drop_ready ?r rem)"
      by (intro drop_ready_mem)
    show ?thesis
    proof (cases "d \<in> set ?r")
      case True
      have "k \<in> set rest" using k m by (metis fst_conv image_eqI set_map set_mset_mset)
      with True show ?thesis by (rule before_across)
    next
      case False
      with k b kd(2) have "before rest d k" by auto
      then show ?thesis by (rule before_append)
    qed
  qed
  ultimately show ?case using o by (intro exI [of _ "?r @ rest"]) simp
qed

section \<open>An incomplete order means a cycle\<close>

definition dep_edges :: "dep_map \<Rightarrow> (string \<times> string) set" where
  "dep_edges rem = {(k, d). \<exists>ds. (k, ds) \<in> set rem \<and> d \<in> set ds}"

definition closed_deps :: "dep_map \<Rightarrow> bool" where
  "closed_deps rem \<longleftrightarrow> (\<forall>(k, ds) \<in> set rem. set ds \<subseteq> fst ` set rem)"

lemma finite_dep_edges: "finite (dep_edges rem)"
proof (rule finite_subset)
  show "dep_edges rem \<subseteq> fst ` set rem \<times> \<Union> (set ` snd ` set rem)"
    by (force simp: dep_edges_def)
qed simp

lemma dep_edges_drop: "dep_edges (drop_ready ready rem) \<subseteq> dep_edges rem"
  by (force simp: dep_edges_def drop_ready_def)

lemma closed_deps_drop: "closed_deps rem \<Longrightarrow> closed_deps (drop_ready ready rem)"
  unfolding closed_deps_def drop_ready_def by (force simp: image_iff)

lemma no_ready_cyclic:
  assumes "closed_deps rem" "rem \<noteq> []" "ready_keys rem = []"
  shows "\<not> acyclic (dep_edges rem)"
proof
  assume "acyclic (dep_edges rem)"
  then have "wf ((dep_edges rem)\<inverse>)"
    by (intro finite_acyclic_wf_converse finite_dep_edges)
  moreover obtain k0 where "k0 \<in> fst ` set rem" using assms(2) by (cases rem) auto
  ultimately obtain k where k: "k \<in> fst ` set rem" "\<And>d. (d, k) \<in> (dep_edges rem)\<inverse> \<Longrightarrow> d \<notin> fst ` set rem"
    by (metis wfE_min)
  obtain ds where ds: "(k, ds) \<in> set rem" using k(1) by auto
  with assms(3) obtain d where "d \<in> set ds"
    unfolding ready_keys_ne by (cases ds) auto
  with ds assms(1) have "(k, d) \<in> dep_edges rem" "d \<in> fst ` set rem"
    by (auto simp: dep_edges_def closed_deps_def)
  with k(2) show False by blast
qed

lemma kahn_stuck_cyclic:
  "kahn rem acc = (order, Some cycle) \<Longrightarrow> closed_deps rem \<Longrightarrow> \<not> acyclic (dep_edges rem)"
proof (induction rem acc rule: kahn_cases)
  case (finish order)
  then show ?case by simp
next
  case (stuck rem order)
  then show ?case by (intro no_ready_cyclic)
next
  case (step rem acc)
  then have "\<not> acyclic (dep_edges (drop_ready (ready_keys rem) rem))"
    by (simp add: kahn_step closed_deps_drop)
  then show ?case using dep_edges_drop acyclic_subset by blast
qed

lemma order_acyclic:
  assumes "distinct order" "\<And>k d. (k, d) \<in> E \<Longrightarrow> before order d k"
  shows "acyclic E"
proof -
  have "before order d k" if "(k, d) \<in> E\<^sup>+" for k d
    using that
  proof (induction rule: trancl_induct)
    case (base d)
    then show ?case by (rule assms(2))
  next
    case (step d e)
    from assms(2) [OF step.hyps(2)] step.IH show ?case by (rule before_trans [OF assms(1)])
  qed
  then show ?thesis unfolding acyclic_def using before_asym [OF assms(1)] by blast
qed

lemma kahn_complete_iff:
  assumes "distinct (map fst rem)" "closed_deps rem"
  shows "snd (kahn rem []) = None \<longleftrightarrow> acyclic (dep_edges rem)"
proof
  assume "snd (kahn rem []) = None"
  then obtain order where k: "kahn rem [] = (order, None)" by (cases "kahn rem []") auto
  from kahn_complete [OF k assms(1)] have "mset order = mset (map fst rem)"
    and b: "\<And>k d. (k, d) \<in> dep_edges rem \<Longrightarrow> before order d k"
    by (auto simp: dep_edges_def)
  with assms(1) have "distinct order" by (metis distinct_count_atmost_1 mset_eq_imp_distinct_iff)
  then show "acyclic (dep_edges rem)" using b by (rule order_acyclic)
next
  assume a: "acyclic (dep_edges rem)"
  show "snd (kahn rem []) = None"
  proof (cases "kahn rem []")
    case (Pair order c)
    with a kahn_stuck_cyclic [of rem "[]" order] assms(2) show ?thesis by (cases c) auto
  qed
qed

section \<open>Independence of the input order\<close>

lemma ready_keys_perm: "mset rem = mset rem' \<Longrightarrow> ready_keys rem = ready_keys rem'"
  unfolding ready_keys_def by (intro sort_unique) simp

lemma drop_ready_perm: "mset rem = mset rem' \<Longrightarrow> mset (drop_ready r rem) = mset (drop_ready r rem')"
  by (simp add: drop_ready_def)

lemma kahn_perm: "mset rem = mset rem' \<Longrightarrow> kahn rem acc = kahn rem' acc"
proof (induction rem acc arbitrary: rem' rule: kahn_cases)
  case (finish order)
  then show ?case by simp
next
  case (stuck rem order)
  have "ready_keys rem' = []" using ready_keys_perm [OF stuck.prems] stuck.hyps(2) by simp
  moreover have "rem' \<noteq> []" using stuck.prems stuck.hyps(1) by fastforce
  moreover have "sort (map fst rem) = sort (map fst rem')"
    using stuck.prems by (intro sort_unique) simp
  ultimately show ?case using stuck by (simp add: kahn_stuck)
next
  case (step rem acc)
  have r: "ready_keys rem' = ready_keys rem" using ready_keys_perm [OF step.prems] by simp
  have "kahn (drop_ready (ready_keys rem) rem) (acc @ ready_keys rem)
      = kahn (drop_ready (ready_keys rem) rem') (acc @ ready_keys rem)"
    by (rule step.IH [OF drop_ready_perm [OF step.prems]])
  moreover have "ready_keys rem' \<noteq> []" using step.hyps r by simp
  ultimately show ?case using kahn_step [OF step.hyps, of acc] kahn_step [of rem' acc] r by simp
qed

end
