(* ===== verification/Resolution.thy ===== *)
theory Resolution
  imports Resolver
begin

text \<open>
  What the resolver guarantees. Each group of diagnostics is characterised by a condition on the
  set of instances; together with the loop over the inventory this gives a declarative description
  of the inputs that resolve, from which the order, the satisfaction of requirements and the
  independence of the input order follow.
\<close>

section \<open>Manifest references\<close>

lemma index_refs_fold:
  "fold (\<lambda>(entry, ref). index_ref entry ref) ps ([], []) = (m, ds) \<Longrightarrow>
     (\<forall>r e. map_of m r = Some e \<longrightarrow> (e, r) \<in> set ps)
     \<and> (\<forall>r. map_of m r = None \<longrightarrow> r \<notin> snd ` set ps)
     \<and> (hasErrors ds \<longleftrightarrow> (\<exists>r a b. (a, r) \<in> set ps \<and> (b, r) \<in> set ps \<and> rm_ref a \<noteq> rm_ref b))"
proof (induction ps arbitrary: m ds rule: rev_induct)
  case Nil
  then show ?case by simp
next
  case (snoc p ps)
  obtain e r where p: "p = (e, r)" by (cases p)
  obtain m0 d0 where f: "fold (\<lambda>(entry, ref). index_ref entry ref) ps ([], []) = (m0, d0)" by fastforce
  from snoc.IH [OF f] have
    i1: "\<And>r e. map_of m0 r = Some e \<Longrightarrow> (e, r) \<in> set ps" and
    i2: "\<And>r. map_of m0 r = None \<Longrightarrow> r \<notin> snd ` set ps" and
    i3: "hasErrors d0 \<longleftrightarrow> (\<exists>r a b. (a, r) \<in> set ps \<and> (b, r) \<in> set ps \<and> rm_ref a \<noteq> rm_ref b)"
    by blast+
  have res: "index_ref e r (m0, d0) = (m, ds)" using snoc.prems f p by simp
  show ?case
  proof (cases "map_of m0 r")
    case None
    with res have m: "m = map_put r e m0" "ds = d0" by (simp_all add: index_ref_def)
    have new: "(a, r) \<notin> set ps" for a using i2 [OF None] by force
    show ?thesis unfolding p m
      using i1 i2 i3 new by (auto simp: map_of_map_put split: if_splits)
  next
    case (Some e0)
    then have e0: "(e0, r) \<in> set ps" by (rule i1)
    show ?thesis
    proof (cases "rm_ref e0 = rm_ref e")
      case True
      with Some res have m: "m = map_put r e m0" "ds = d0" by (simp_all add: index_ref_def)
      have "(\<exists>r' a b. (a, r') \<in> set (ps @ [p]) \<and> (b, r') \<in> set (ps @ [p]) \<and> rm_ref a \<noteq> rm_ref b)
          \<longleftrightarrow> (\<exists>r a b. (a, r) \<in> set ps \<and> (b, r) \<in> set ps \<and> rm_ref a \<noteq> rm_ref b)"
        using e0 True p by auto metis+
      then show ?thesis unfolding p m
        using i1 i2 i3 by (auto simp: map_of_map_put split: if_splits)
    next
      case False
      with Some res have m: "m = m0" and d: "hasErrors ds" by (auto simp: index_ref_def)
      have "r' \<notin> snd ` set (ps @ [p])" if "map_of m0 r' = None" for r'
        using i2 [OF that] that Some p by auto
      then show ?thesis using i1 d e0 False p m by auto
    qed
  qed
qed

text \<open>No two manifests answer to the same reference.\<close>

definition unambiguous :: "resolvable_manifest list \<Rightarrow> bool" where
  "unambiguous ms \<longleftrightarrow>
     (\<forall>a\<in>set ms. \<forall>b\<in>set ms. set (refs_of a) \<inter> set (refs_of b) \<noteq> {} \<longrightarrow> rm_ref a = rm_ref b)"

lemma index_pairs_mem:
  "(e, r) \<in> set (concat (map (\<lambda>entry. map (Pair entry) (refs_of entry)) ms)) \<longleftrightarrow> e \<in> set ms \<and> r \<in> set (refs_of e)"
  by auto

lemma indexManifests_errors: "hasErrors (snd (indexManifests ms)) \<longleftrightarrow> \<not> unambiguous ms"
proof (cases "indexManifests ms")
  case (Pair m ds)
  from index_refs_fold [OF Pair [unfolded indexManifests_def]]
  have "hasErrors ds \<longleftrightarrow> (\<exists>r a b. (a \<in> set ms \<and> r \<in> set (refs_of a)) \<and> (b \<in> set ms \<and> r \<in> set (refs_of b))
      \<and> rm_ref a \<noteq> rm_ref b)"
    unfolding index_pairs_mem by blast
  with Pair show ?thesis unfolding unambiguous_def by auto
qed

lemma indexManifests_get:
  assumes "unambiguous ms" "inj_on rm_ref (set ms)"
  shows "map_of (fst (indexManifests ms)) r = Some e \<longleftrightarrow> e \<in> set ms \<and> r \<in> set (refs_of e)"
proof (cases "indexManifests ms")
  case (Pair m ds)
  note f = index_refs_fold [OF Pair [unfolded indexManifests_def]]
  have 1: "e \<in> set ms \<and> r \<in> set (refs_of e)" if "map_of m r = Some e" for e
    using f [THEN conjunct1] that index_pairs_mem by blast
  have 2: "map_of m r \<noteq> None" if e: "e \<in> set ms \<and> r \<in> set (refs_of e)"
  proof
    assume "map_of m r = None"
    moreover have "r = snd (e, r)" by simp
    ultimately show False
      using f [THEN conjunct2, THEN conjunct1] index_pairs_mem [THEN iffD2, OF e] by (metis imageI)
  qed
  have 3: "e = e'" if "e \<in> set ms \<and> r \<in> set (refs_of e)" "e' \<in> set ms \<and> r \<in> set (refs_of e')" for e'
  proof -
    have "rm_ref e = rm_ref e'" using assms(1) that unfolding unambiguous_def by blast
    then show ?thesis using assms(2) that by (auto dest: inj_onD)
  qed
  have "map_of m r = Some e" if e: "e \<in> set ms \<and> r \<in> set (refs_of e)"
  proof -
    obtain e' where "map_of m r = Some e'" using 2 [OF e] by auto
    with 1 3 [OF e] show ?thesis by blast
  qed
  then have "map_of m r = Some e \<longleftrightarrow> e \<in> set ms \<and> r \<in> set (refs_of e)" using 1 by blast
  with Pair show ?thesis by (simp only: fst_conv)
qed

lemma option_eqI_Some: "(\<And>x. a = Some x \<longleftrightarrow> b = Some x) \<Longrightarrow> a = b"
  by (cases a) (metis not_None_eq)+

lemma indexManifests_perm:
  assumes "unambiguous ms" "inj_on rm_ref (set ms)" "set ms = set ms'"
  shows "map_of (fst (indexManifests ms)) = map_of (fst (indexManifests ms'))"
proof
  fix r
  have "unambiguous ms'" "inj_on rm_ref (set ms')" using assms by (simp_all add: unambiguous_def)
  then show "map_of (fst (indexManifests ms)) r = map_of (fst (indexManifests ms')) r"
    using indexManifests_get [OF assms(1,2)] indexManifests_get [of ms'] assms(3)
    by (intro option_eqI_Some) simp
qed

section \<open>The loop over the inventory\<close>

definition found_for :: "ref_index \<Rightarrow> inventory_entry \<Rightarrow> resolvable_manifest" where
  "found_for byRef e = the (lookup_ref byRef (ie_plugin e))"

definition entry_key :: "ref_index \<Rightarrow> inventory_entry \<Rightarrow> string" where
  "entry_key byRef e = instanceKey (mf_id (rm_manifest (found_for byRef e))) (entry_instance_id e)"

definition entry_instance :: "(string \<Rightarrow> string) \<Rightarrow> ref_index \<Rightarrow> inventory_entry \<Rightarrow> resolved_instance" where
  "entry_instance hash byRef e = projr (make_instance hash (found_for byRef e) e)"

definition entry_disabled :: "ref_index \<Rightarrow> inventory_entry \<Rightarrow> disabled_instance" where
  "entry_disabled byRef e =
     \<lparr>di_key = entry_key byRef e, di_pluginId = mf_id (rm_manifest (found_for byRef e)),
      di_instanceId = entry_instance_id e, di_packageName = rm_packageName (found_for byRef e)\<rparr>"

text \<open>The conditions of the inventory loop on one enabled entry.\<close>

definition policy_ok :: "string \<Rightarrow> resolvable_manifest \<Rightarrow> inventory_entry \<Rightarrow> bool" where
  "policy_ok officialScope found e \<longleftrightarrow>
     (ie_required e \<or> mf_optionalFailurePolicy (rm_manifest found))
     \<and> (\<forall>c r. ie_configRef e = Some c \<and> mf_configSchema (rm_manifest found) = Some r \<longrightarrow> c = [] \<or> c = r)
     \<and> \<not> (mf_distribution (rm_manifest found) = Some AppLocal \<and> starts_with (rm_packageName found) officialScope)"

lemma entry_diagnostics_errors:
  "hasErrors (entry_diagnostics scope found e) \<longleftrightarrow> \<not> policy_ok scope found e"
  "entry_diagnostics scope found e = [] \<longleftrightarrow> policy_ok scope found e"
  by (auto simp: entry_diagnostics_def policy_ok_def inventory_at_def Let_def split: option.splits)

definition entry_ok :: "(string \<Rightarrow> string) \<Rightarrow> string \<Rightarrow> ref_index \<Rightarrow> inventory_entry \<Rightarrow> bool" where
  "entry_ok hash scope byRef e \<longleftrightarrow>
     lookup_ref byRef (ie_plugin e) \<noteq> None
     \<and> (ie_enabled e \<longrightarrow> policy_ok scope (found_for byRef e) e \<and> is_ok (make_instance hash (found_for byRef e) e))"

definition admitted :: "(string \<Rightarrow> string) \<Rightarrow> ref_index \<Rightarrow> inventory_entry list \<Rightarrow> admission \<Rightarrow> admission" where
  "admitted hash byRef es st =
     \<lparr>ad_instances = ad_instances st @ map (entry_instance hash byRef) (filter ie_enabled es),
      ad_disabled = ad_disabled st @ map (entry_disabled byRef) (filter (\<lambda>e. \<not> ie_enabled e) es),
      ad_seen = ad_seen st @ map (entry_key byRef) es, ad_diags = ad_diags st\<rparr>"

lemma admit_clean_iff:
  "admit hash scope byRef e st = Inr st' \<and> \<not> hasErrors (ad_diags st') \<longleftrightarrow>
     \<not> hasErrors (ad_diags st) \<and> entry_ok hash scope byRef e \<and> entry_key byRef e \<notin> set (ad_seen st)
     \<and> st' = admitted hash byRef [e] st"
proof (cases "lookup_ref byRef (ie_plugin e)")
  case None
  then show ?thesis by (auto simp: admit_def entry_ok_def add_diags_def)
next
  case (Some f)
  then have f: "found_for byRef e = f" by (simp add: found_for_def)
  let ?k = "instanceKey (mf_id (rm_manifest f)) (entry_instance_id e)"
  have k: "entry_key byRef e = ?k" by (simp add: entry_key_def f)
  show ?thesis
  proof (cases "?k \<in> set (ad_seen st)")
    case True
    then show ?thesis using Some k by (auto simp: admit_def Let_def add_diags_def inventory_at_def)
  next
    case new: False
    show ?thesis
    proof (cases "ie_enabled e")
      case False
      with new Some show ?thesis
        by (auto simp: admit_def Let_def entry_ok_def f k admitted_def entry_disabled_def set_add_def)
    next
      case True
      show ?thesis
      proof (cases "make_instance hash f e")
        case (Inl err)
        with True new Some show ?thesis by (auto simp: admit_def Let_def entry_ok_def f k)
      next
        case (Inr i)
        with True new Some show ?thesis
          by (auto simp: admit_def Let_def entry_ok_def f k admitted_def entry_instance_def set_add_def
              add_diags_def entry_diagnostics_errors)
      qed
    qed
  qed
qed

lemma admitted_Nil [simp]: "admitted hash byRef [] st = st"
  by (simp add: admitted_def)

lemma admitted_Cons: "admitted hash byRef (e # es) st = admitted hash byRef es (admitted hash byRef [e] st)"
  by (simp add: admitted_def)

lemma admitted_sel [simp]:
  "ad_diags (admitted hash byRef es st) = ad_diags st"
  "ad_seen (admitted hash byRef es st) = ad_seen st @ map (entry_key byRef) es"
  by (simp_all add: admitted_def)

lemma admit_all_clean_iff:
  "foldM (admit hash scope byRef) es st = Inr st' \<and> \<not> hasErrors (ad_diags st') \<longleftrightarrow>
     \<not> hasErrors (ad_diags st) \<and> (\<forall>e\<in>set es. entry_ok hash scope byRef e)
     \<and> distinct (map (entry_key byRef) es) \<and> entry_key byRef ` set es \<inter> set (ad_seen st) = {}
     \<and> st' = admitted hash byRef es st"
proof (induction es arbitrary: st)
  case Nil
  then show ?case by auto
next
  case (Cons e es)
  show ?case (is "?l \<longleftrightarrow> ?r")
  proof
    assume l: ?l
    then obtain st1 where s: "admit hash scope byRef e st = Inr st1"
      "foldM (admit hash scope byRef) es st1 = Inr st' \<and> \<not> hasErrors (ad_diags st')"
      by (cases "admit hash scope byRef e st") auto
    note rest = Cons.IH [THEN iffD1, OF s(2)]
    have "admit hash scope byRef e st = Inr st1 \<and> \<not> hasErrors (ad_diags st1)" using s(1) rest by simp
    note first = admit_clean_iff [THEN iffD1, OF this]
    then have st1: "st1 = admitted hash byRef [e] st" by simp
    have "entry_key byRef e \<notin> entry_key byRef ` set es" "entry_key byRef ` set es \<inter> set (ad_seen st) = {}"
      using rest unfolding st1 by auto
    moreover have "st' = admitted hash byRef (e # es) st" using rest st1 admitted_Cons by metis
    ultimately show ?r using first rest by simp
  next
    assume r: ?r
    let ?st1 = "admitted hash byRef [e] st"
    have s: "admit hash scope byRef e st = Inr ?st1"
      using r by (intro admit_clean_iff [THEN iffD2, THEN conjunct1]) simp
    have st': "st' = admitted hash byRef es ?st1" using r admitted_Cons by metis
    have "foldM (admit hash scope byRef) es ?st1 = Inr st' \<and> \<not> hasErrors (ad_diags st')"
      using r by (intro Cons.IH [THEN iffD2] conjI st') auto
    with s show ?l by simp
  qed
qed

section \<open>The checks between instances\<close>

lemma filter_length2:
  "distinct xs \<Longrightarrow> length (filter P xs) < 2 \<longleftrightarrow> (\<forall>a\<in>set xs. \<forall>b\<in>set xs. P a \<longrightarrow> P b \<longrightarrow> a = b)"
proof -
  assume d: "distinct xs"
  then have l: "length (filter P xs) = card {x \<in> set xs. P x}"
    by (metis distinct_card distinct_filter set_filter)
  have "card {x \<in> set xs. P x} < 2 \<longleftrightarrow> card {x \<in> set xs. P x} \<le> Suc 0" by auto
  also have "\<dots> \<longleftrightarrow> (\<forall>a\<in>{x \<in> set xs. P x}. \<forall>b\<in>{x \<in> set xs. P x}. a = b)"
    by (rule card_le_Suc0_iff_eq) simp
  finally show ?thesis using l by auto
qed

lemma hasErrors_groups:
  "hasErrors (concat (map (\<lambda>(k, vs). f k vs) (sort_key fst (multi_of ps)))) \<longleftrightarrow>
     (\<exists>k \<in> fst ` set ps. hasErrors (f k (map snd (filter (\<lambda>p. fst p = k) ps))))"
  unfolding hasErrors_concat_map set_sort by (auto simp: multi_of_mem Bex_def split_paired_Ex)

text \<open>A singleton plugin has one enabled instance.\<close>

definition singletons_ok :: "resolved_instance list \<Rightarrow> bool" where
  "singletons_ok is \<longleftrightarrow> (\<forall>i\<in>set is. \<forall>j\<in>set is.
     rs_pluginId i = rs_pluginId j \<and> rs_cardinality i = Singleton \<longrightarrow> i = j)"

definition same_cardinality :: "resolved_instance list \<Rightarrow> bool" where
  "same_cardinality is \<longleftrightarrow> (\<forall>i\<in>set is. \<forall>j\<in>set is.
     rs_pluginId i = rs_pluginId j \<longrightarrow> rs_cardinality i = rs_cardinality j)"

lemma cardinality_errors:
  assumes "distinct is" "same_cardinality is"
  shows "hasErrors (cardinality_diagnostics is) \<longleftrightarrow> \<not> singletons_ok is"
proof -
  let ?g = "\<lambda>k. filter (\<lambda>i. rs_pluginId i = k) is"
  have g: "map snd (filter (\<lambda>p. fst p = k) (map (\<lambda>i. (rs_pluginId i, i)) is)) = ?g k" for k
    by (simp add: filter_map comp_def)
  have hd: "rs_cardinality (hd (?g (rs_pluginId i))) = rs_cardinality i" if "i \<in> set is" for i
  proof -
    have "hd (?g (rs_pluginId i)) \<in> set (?g (rs_pluginId i))"
      by (rule hd_in_set) (use that in \<open>auto simp: filter_empty_conv\<close>)
    then have "hd (?g (rs_pluginId i)) \<in> set is" "rs_pluginId (hd (?g (rs_pluginId i))) = rs_pluginId i"
      unfolding set_filter by blast+
    with assms(2) that show ?thesis unfolding same_cardinality_def by blast
  qed
  have "hasErrors (cardinality_diagnostics is) \<longleftrightarrow>
      (\<exists>i\<in>set is. rs_cardinality i = Singleton \<and> \<not> length (?g (rs_pluginId i)) < 2)"
    unfolding cardinality_diagnostics_def hasErrors_groups g hasErrors_when
    by (auto simp: hd)
  also have "\<dots> \<longleftrightarrow> \<not> singletons_ok is"
  proof
    assume "\<exists>i\<in>set is. rs_cardinality i = Singleton \<and> \<not> length (?g (rs_pluginId i)) < 2"
    then obtain i a b where i: "i \<in> set is" "rs_cardinality i = Singleton"
      and ab: "a \<in> set is" "b \<in> set is" "rs_pluginId a = rs_pluginId i" "rs_pluginId b = rs_pluginId i" "a \<noteq> b"
      unfolding filter_length2 [OF assms(1)] by blast
    have "rs_cardinality a = Singleton"
      using assms(2) i ab(1,3) unfolding same_cardinality_def by metis
    moreover have "rs_pluginId a = rs_pluginId b" using ab(3,4) by simp
    ultimately show "\<not> singletons_ok is" using ab(1,2,5) unfolding singletons_ok_def by blast
  next
    assume "\<not> singletons_ok is"
    then show "\<exists>i\<in>set is. rs_cardinality i = Singleton \<and> \<not> length (?g (rs_pluginId i)) < 2"
      unfolding filter_length2 [OF assms(1)] singletons_ok_def by fastforce
  qed
  finally show ?thesis .
qed

lemma enabledPluginIds_set [simp]: "set (enabledPluginIds is) = rs_pluginId ` set is"
  by (simp add: enabledPluginIds_def)

text \<open>No instance conflicts with an enabled plugin.\<close>

definition conflict_free :: "resolved_instance list \<Rightarrow> bool" where
  "conflict_free is \<longleftrightarrow> (\<forall>i\<in>set is. \<forall>j\<in>set is. rs_pluginId j \<notin> set (coalesce (mf_conflicts (rs_manifest i)) []))"

lemma conflict_errors: "hasErrors (conflict_diagnostics is) \<longleftrightarrow> \<not> conflict_free is"
  unfolding conflict_diagnostics_def hasErrors_concat_map hasErrors_when conflict_free_def
  by (auto simp: inventory_at_def)

lemma snd_fst_eq: "snd ` {p \<in> S. fst p = c} = {v. (c, v) \<in> S}"
  by force

lemma provided_keys:
  "set (map snd (filter (\<lambda>p. fst p = c) (concat (map (\<lambda>i. map (\<lambda>c. (c, rs_key i)) (rs_provides i)) is))))
     = {rs_key i |i. i \<in> set is \<and> c \<in> set (rs_provides i)}"
  unfolding set_map set_filter snd_fst_eq by auto

lemma capability_providers_get:
  "map_of (capability_providers is) c =
     (if \<exists>i\<in>set is. c \<in> set (rs_provides i)
      then Some (map snd (filter (\<lambda>p. fst p = c) (concat (map (\<lambda>i. map (\<lambda>c. (c, rs_key i)) (rs_provides i)) is))))
      else None)"
  unfolding capability_providers_def multi_of_get by (auto simp: image_iff)

lemma providers_set:
  "set (coalesce (map_of (capability_providers is) c) []) = {rs_key i |i. i \<in> set is \<and> c \<in> set (rs_provides i)}"
  unfolding capability_providers_get by (simp add: provided_keys del: set_map set_filter)

lemma replacedPlugins_set [simp]: "set (replacedPlugins is) = {rp_plugin r |i r. i \<in> set is \<and> r \<in> set (rs_replaces i)}"
  by (auto simp: replacedPlugins_def)

text \<open>
  Two instances of different plugins provide one capability only if a plugin replaces one of them.
\<close>

definition providers_ok :: "resolved_instance list \<Rightarrow> bool" where
  "providers_ok is \<longleftrightarrow> (\<forall>i\<in>set is. \<forall>j\<in>set is. set (rs_provides i) \<inter> set (rs_provides j) \<noteq> {} \<longrightarrow>
     key_owner (rs_key i) = key_owner (rs_key j)
     \<or> key_owner (rs_key i) \<in> set (replacedPlugins is) \<or> key_owner (rs_key j) \<in> set (replacedPlugins is))"

lemma contested_groups:
  fixes keys :: "string list"
  shows "hasErrors (if length keys < 2 then []
       else let ownerIds = set_of (map key_owner keys) in
         if length ownerIds = 1 then []
         else let contested = filter (\<lambda>i. i \<notin> set R) ownerIds in
           if length contested < 2 then []
           else [mk_diagnostic c t (at_path p)])
     \<longleftrightarrow> (\<exists>a\<in>set keys. \<exists>b\<in>set keys. key_owner a \<noteq> key_owner b \<and> key_owner a \<notin> set R \<and> key_owner b \<notin> set R)"
    (is "?l \<longleftrightarrow> ?r")
proof -
  let ?o = "set_of (map key_owner keys)"
  have r: "?r \<longleftrightarrow> \<not> length (filter (\<lambda>i. i \<notin> set R) ?o) < 2"
    unfolding filter_length2 [OF distinct_set_of] by auto
  have "\<not> length keys < 2 \<and> length ?o \<noteq> 1" if "\<not> length (filter (\<lambda>i. i \<notin> set R) ?o) < 2"
  proof
    have "length (filter (\<lambda>i. i \<notin> set R) ?o) \<le> length ?o" by (rule length_filter_le)
    moreover have "length ?o \<le> length keys"
      unfolding length_set_of by (metis card_length length_map)
    ultimately show "\<not> length keys < 2" "length ?o \<noteq> 1" using that by linarith+
  qed
  then show ?thesis unfolding r by (auto simp: Let_def)
qed

lemma provider_errors: "hasErrors (provider_diagnostics is) \<longleftrightarrow> \<not> providers_ok is"
proof -
  let ?ps = "concat (map (\<lambda>i. map (\<lambda>c. (c, rs_key i)) (rs_provides i)) is)"
  have s: "set (map snd (filter (\<lambda>p. fst p = c) ?ps)) = {rs_key i |i. i \<in> set is \<and> c \<in> set (rs_provides i)}" for c
    by (rule provided_keys)
  have k: "fst ` set ?ps = {c. \<exists>i\<in>set is. c \<in> set (rs_provides i)}" by force
  have "hasErrors (provider_diagnostics is) \<longleftrightarrow> (\<exists>c\<in>fst ` set ?ps.
      \<exists>a\<in>set (map snd (filter (\<lambda>p. fst p = c) ?ps)). \<exists>b\<in>set (map snd (filter (\<lambda>p. fst p = c) ?ps)).
        key_owner a \<noteq> key_owner b \<and> key_owner a \<notin> set (replacedPlugins is) \<and> key_owner b \<notin> set (replacedPlugins is))"
    unfolding provider_diagnostics_def capability_providers_def hasErrors_groups contested_groups ..
  also have "\<dots> \<longleftrightarrow> \<not> providers_ok is"
    unfolding s k providers_ok_def by blast
  finally show ?thesis .
qed

text \<open>No instance provides a capability of the host.\<close>

definition host_ok :: "string list \<Rightarrow> resolved_instance list \<Rightarrow> bool" where
  "host_ok host is \<longleftrightarrow> (\<forall>i\<in>set is. set (rs_provides i) \<inter> set host = {})"

lemma host_errors: "hasErrors (host_override_diagnostics host is) \<longleftrightarrow> \<not> host_ok host is"
  unfolding host_override_diagnostics_def hasErrors_concat_map host_ok_def
  by (auto simp: capability_providers_get split: option.splits if_splits)

text \<open>Every replaced plugin is enabled.\<close>

definition targets_ok :: "resolved_instance list \<Rightarrow> bool" where
  "targets_ok is \<longleftrightarrow> (\<forall>i\<in>set is. \<forall>r\<in>set (rs_replaces i). rp_plugin r \<in> rs_pluginId ` set is)"

lemma target_errors: "hasErrors (replaces_target_diagnostics is) \<longleftrightarrow> \<not> targets_ok is"
proof -
  have e: "hasErrors (concat (map (\<lambda>(index, r).
       if rp_plugin r \<notin> set (enabledPluginIds is)
       then [mk_diagnostic ''replaces-target-missing'' (m r) (inventory_at p q (f index))]
       else []) (List.enumerate 0 rs))) \<longleftrightarrow> (\<exists>r\<in>set rs. rp_plugin r \<notin> rs_pluginId ` set is)" for m f p q rs
    by (rule hasErrors_indexed) (simp add: inventory_at_def)
  show ?thesis
    unfolding replaces_target_diagnostics_def hasErrors_concat_map [of _ "is"] targets_ok_def e by auto
qed

section \<open>Requirements\<close>

text \<open>Another instance provides the capability.\<close>

definition provided_by_other :: "resolved_instance list \<Rightarrow> string \<Rightarrow> string \<Rightarrow> bool" where
  "provided_by_other is key c \<longleftrightarrow> (\<exists>j\<in>set is. rs_key j \<noteq> key \<and> c \<in> set (rs_provides j))"

lemma external_providers_set:
  "set (external_providers (capability_providers is) key c) =
     {rs_key j |j. j \<in> set is \<and> rs_key j \<noteq> key \<and> c \<in> set (rs_provides j)}"
  unfolding external_providers_def set_filter providers_set by auto

lemma unmet_iff:
  "unmet host (capability_providers is) key c \<longleftrightarrow> c \<notin> set host \<and> \<not> provided_by_other is key c"
proof -
  have "external_providers (capability_providers is) key c = [] \<longleftrightarrow> \<not> provided_by_other is key c"
    unfolding provided_by_other_def set_empty [symmetric] external_providers_set by blast
  then show ?thesis by (simp add: unmet_def)
qed

definition requirements_ok :: "string list \<Rightarrow> resolved_instance list \<Rightarrow> bool" where
  "requirements_ok host is \<longleftrightarrow>
     (\<forall>i\<in>set is. \<forall>c\<in>set (rs_requires i). c \<in> set host \<or> provided_by_other is (rs_key i) c)"

lemma required_errors:
  "hasErrors (required_diagnostics host ps i) \<longleftrightarrow> (\<exists>c\<in>set (rs_requires i). unmet host ps (rs_key i) c)"
  unfolding required_diagnostics_def Let_def hasErrors_concat_map hasErrors_when by (simp add: inventory_at_def)

lemma optional_no_errors: "\<not> hasErrors (optional_diagnostics host ps i)"
  unfolding optional_diagnostics_def hasErrors_concat_map hasErrors_when by simp

lemma requirement_errors:
  "hasErrors (requirement_diagnostics host (capability_providers is) is) \<longleftrightarrow> \<not> requirements_ok host is"
  unfolding requirement_diagnostics_def hasErrors_concat_map hasErrors_simps required_errors
    unmet_iff requirements_ok_def
  by (auto simp: optional_no_errors)

section \<open>Linking\<close>

lemma link_sel [simp]:
  "rs_key (link_instance host ps i) = rs_key i"
  "rs_pluginId (link_instance host ps i) = rs_pluginId i"
  "rs_instanceId (link_instance host ps i) = rs_instanceId i"
  "rs_packageName (link_instance host ps i) = rs_packageName i"
  "rs_cardinality (link_instance host ps i) = rs_cardinality i"
  "rs_provides (link_instance host ps i) = rs_provides i"
  "rs_requires (link_instance host ps i) = rs_requires i"
  "rs_optionalRequires (link_instance host ps i) = rs_optionalRequires i"
  "rs_replaces (link_instance host ps i) = rs_replaces i"
  "rs_manifest (link_instance host ps i) = rs_manifest i"
  "rs_required (link_instance host ps i) = rs_required i"
  by (simp_all add: link_instance_def)

lemma map_link_key [simp]: "map rs_key (map (link_instance host ps) is) = map rs_key is"
  by (simp add: comp_def)

text \<open>Instance \<open>i\<close> takes a capability, required or optional, from instance \<open>j\<close>.\<close>

definition takes_from :: "string list \<Rightarrow> resolved_instance \<Rightarrow> resolved_instance \<Rightarrow> bool" where
  "takes_from host i j \<longleftrightarrow> rs_key j \<noteq> rs_key i
     \<and> (\<exists>c\<in>set (rs_requires i) \<union> set (rs_optionalRequires i). c \<notin> set host \<and> c \<in> set (rs_provides j))"

definition dependency_graph :: "string list \<Rightarrow> resolved_instance list \<Rightarrow> (string \<times> string) set" where
  "dependency_graph host is = {(rs_key i, rs_key j) |i j. i \<in> set is \<and> j \<in> set is \<and> takes_from host i j}"

lemma set_dependsOn:
  "set (rs_dependsOn (link_instance host (capability_providers is) i)) = {rs_key j |j. j \<in> set is \<and> takes_from host i j}"
proof -
  have "set (rs_dependsOn (link_instance host (capability_providers is) i)) =
      (\<Union>c\<in>set (rs_requires i) \<union> set (rs_optionalRequires i). if c \<in> set host then {} else
        set (external_providers (capability_providers is) (rs_key i) c))"
    by (auto simp: link_instance_def)
  also have "\<dots> = {rs_key j |j. j \<in> set is \<and> takes_from host i j}"
    unfolding external_providers_set takes_from_def by (auto split: if_splits)
  finally show ?thesis .
qed

lemma linked_deps:
  assumes "distinct (map rs_key is)"
  shows "instance_deps (map (link_instance host ps) is) =
    map (\<lambda>i. (rs_key i, set_of (rs_dependsOn (link_instance host ps i)))) is"
  unfolding instance_deps_def using assms
  by (subst entries_map_distinct) (simp_all add: comp_def)

lemma linked_edges:
  assumes "distinct (map rs_key is)"
  shows "dep_edges (instance_deps (map (link_instance host (capability_providers is)) is)) = dependency_graph host is"
    and "closed_deps (instance_deps (map (link_instance host (capability_providers is)) is))"
    and "map fst (instance_deps (map (link_instance host (capability_providers is)) is)) = map rs_key is"
proof -
  let ?l = "link_instance host (capability_providers is)"
  note l = linked_deps [OF assms, of host "capability_providers is"]
  have d: "set (set_of (rs_dependsOn (?l i))) = {rs_key j |j. j \<in> set is \<and> takes_from host i j}" for i
    by (simp add: set_dependsOn)
  have "dep_edges (instance_deps (map ?l is)) = {(rs_key i, d) |i d. i \<in> set is \<and> d \<in> set (set_of (rs_dependsOn (?l i)))}"
    unfolding l dep_edges_def by auto
  then show "dep_edges (instance_deps (map ?l is)) = dependency_graph host is"
    unfolding d dependency_graph_def by auto
  have "\<forall>i\<in>set is. set (set_of (rs_dependsOn (?l i))) \<subseteq> rs_key ` set is"
    unfolding d by blast
  then show "closed_deps (instance_deps (map ?l is))"
    unfolding l closed_deps_def by (simp add: image_image)
  show "map fst (instance_deps (map ?l is)) = map rs_key is"
    unfolding l by (simp add: comp_def)
qed

lemma topological_errors:
  "hasErrors (snd (topologicalOrder is)) \<longleftrightarrow> snd (kahn (instance_deps is) []) \<noteq> None"
  by (auto simp: topologicalOrder_def split: prod.split option.split)

lemma topological_acyclic:
  assumes "distinct (map rs_key is)"
  shows "hasErrors (snd (topologicalOrder (map (link_instance host (capability_providers is)) is)))
    \<longleftrightarrow> \<not> acyclic (dependency_graph host is)"
  using kahn_complete_iff [OF _ linked_edges(2) [OF assms]] assms
  by (simp add: topological_errors linked_edges [OF assms])

section \<open>Contributions\<close>

lemma split_colons_kind: "CHR '':'' \<notin> set k \<Longrightarrow> split_colons (k @ ''::'' @ v) = k # split_colons v"
proof (induction k)
  case Nil
  show ?case by simp
next
  case (Cons c k)
  obtain d r where d: "k @ ''::'' @ v = d # r" by (cases k) auto
  moreover have "c \<noteq> CHR '':''" using Cons.prems by auto
  ultimately show ?case using Cons by (simp del: append_Cons add: append_Cons [of c])
qed

lemma contribution_id_split:
  assumes "CHR '':'' \<notin> set (cn_kind c)"
  shows "hd (split_colons (contribution_id c)) = cn_kind c"
  using split_colons_kind [OF assms] by (simp add: contribution_id_def)

lemma contribution_id_inj:
  assumes "CHR '':'' \<notin> set (cn_kind c)" "CHR '':'' \<notin> set (cn_kind d)"
  shows "contribution_id c = contribution_id d \<longleftrightarrow> cn_kind c = cn_kind d \<and> cn_value c = cn_value d"
proof
  assume e: "contribution_id c = contribution_id d"
  then have "cn_kind c = cn_kind d" using contribution_id_split assms by metis
  with e show "cn_kind c = cn_kind d \<and> cn_value c = cn_value d" by (simp add: contribution_id_def)
qed (simp add: contribution_id_def)

lemma contributed_kinds: "(k, v) \<in> set (contributed i) \<Longrightarrow> k \<in> set (map fst DUPLICATE_CODES)"
  by (auto simp: contributed_def DUPLICATE_CODES_def Let_def split: option.splits if_splits)

lemma DUPLICATE_CODES_colon_free: "k \<in> set (map fst DUPLICATE_CODES) \<Longrightarrow> CHR '':'' \<notin> set k"
  by (auto simp: DUPLICATE_CODES_def)

lemma contributions_kind:
  assumes "c \<in> set (contributions_of is)"
  shows "CHR '':'' \<notin> set (cn_kind c)"
proof -
  from assms obtain i kv where "i \<in> set is" "kv \<in> set (contributed i)"
    "c = (case kv of (kind, value) \<Rightarrow>
       \<lparr>cn_kind = kind, cn_value = value, cn_key = rs_key i, cn_pluginId = rs_pluginId i\<rparr>)"
    by (auto simp: contributions_of_def collectContributions_def)
  then show ?thesis using contributed_kinds [of "fst kv" "snd kv" i] DUPLICATE_CODES_colon_free
    by (auto split: prod.splits)
qed

text \<open>
  Nothing that is not replaced is contributed twice, but for the modules and models that the
  instances of one plugin share.
\<close>

definition contributions_ok :: "resolved_instance list \<Rightarrow> bool" where
  "contributions_ok is \<longleftrightarrow> (\<forall>c\<in>set (contributions_of is).
     let same = filter (\<lambda>d. cn_kind d = cn_kind c \<and> cn_value d = cn_value c) (contributions_of is)
     in length same < 2
        \<or> (cn_kind c \<in> set SHARED_ACROSS_INSTANCES \<and> (\<forall>d\<in>set same. cn_pluginId d = cn_pluginId c)))"

lemma set_of_single:
  assumes "x \<in> set xs"
  shows "length (set_of xs) = 1 \<longleftrightarrow> (\<forall>y\<in>set xs. y = x)"
proof
  assume "length (set_of xs) = 1"
  then obtain z where "set xs = {z}" unfolding length_set_of by (rule card_1_singletonE)
  with assms show "\<forall>y\<in>set xs. y = x" by simp
next
  assume "\<forall>y\<in>set xs. y = x"
  with assms have "set xs = {x}" by blast
  then show "length (set_of xs) = 1" by (simp add: length_set_of)
qed

lemma contribution_errors: "hasErrors (contribution_diagnostics is) \<longleftrightarrow> \<not> contributions_ok is"
proof -
  let ?cs = "contributions_of is"
  let ?same = "\<lambda>c. filter (\<lambda>d. cn_kind d = cn_kind c \<and> cn_value d = cn_value c) ?cs"
  let ?clash = "\<lambda>c. \<not> length (?same c) < 2
    \<and> \<not> (cn_kind c \<in> set SHARED_ACROSS_INSTANCES \<and> length (set_of (map cn_pluginId (?same c))) = 1)"
  have g: "map snd (filter (\<lambda>p. fst p = contribution_id c) (map (\<lambda>c. (contribution_id c, c)) ?cs)) = ?same c"
    if "c \<in> set ?cs" for c
  proof -
    have "filter (\<lambda>d. contribution_id d = contribution_id c) ?cs = ?same c"
      by (intro filter_cong refl contribution_id_inj contributions_kind) (use that in auto)
    then show ?thesis by (simp add: filter_map comp_def)
  qed
  have "hasErrors (contribution_diagnostics is) \<longleftrightarrow> (\<exists>c\<in>set ?cs. ?clash c)"
    unfolding contribution_diagnostics_def hasErrors_groups set_map image_image fst_conv bex_simps
  proof (rule bex_cong [OF refl])
    fix c
    assume c: "c \<in> set ?cs"
    note k = contribution_id_split [OF contributions_kind [OF c]]
    show "hasErrors (if length (map snd (filter (\<lambda>p. fst p = contribution_id c) (map (\<lambda>c. (contribution_id c, c)) ?cs))) < 2
       then []
       else let parts = split_colons (contribution_id c); kind = hd parts; value = hd (tl parts) in
         if kind \<in> set SHARED_ACROSS_INSTANCES
            \<and> length (set_of (map cn_pluginId (map snd (filter (\<lambda>p. fst p = contribution_id c)
                (map (\<lambda>c. (contribution_id c, c)) ?cs))))) = 1
         then []
         else [mk_diagnostic (coalesce (map_of DUPLICATE_CODES kind) ''duplicate-contribution'')
           (kind @ '' '' @ quoted value @ '' is contributed by ''
             @ join '', '' (sort (map cn_key (map snd (filter (\<lambda>p. fst p = contribution_id c)
                (map (\<lambda>c. (contribution_id c, c)) ?cs))))))
           (at_path (''facets.'' @ kind))]) \<longleftrightarrow> ?clash c"
      unfolding g [OF c] Let_def k by simp
  qed
  also have "\<dots> \<longleftrightarrow> \<not> contributions_ok is"
  proof -
    have "length (set_of (map cn_pluginId (?same c))) = 1 \<longleftrightarrow> (\<forall>d\<in>set (?same c). cn_pluginId d = cn_pluginId c)"
      if "c \<in> set ?cs" for c
      using set_of_single [of "cn_pluginId c" "map cn_pluginId (?same c)"] that by auto
    then show ?thesis unfolding contributions_ok_def Let_def by blast
  qed
  finally show ?thesis .
qed

lemma contributed_link [simp]: "contributed (link_instance host ps i) = contributed i"
  by (simp add: contributed_def Let_def split: option.split)

lemma collectContributions_link [simp]:
  "collectContributions (link_instance host ps i) = collectContributions i"
  by (simp add: collectContributions_def)

lemma contributions_link [simp]: "contributions_of (map (link_instance host ps) is) = contributions_of is"
  by (simp add: contributions_of_def replacementKeysOf_def comp_def)

lemma contributions_ok_link [simp]: "contributions_ok (map (link_instance host ps) is) = contributions_ok is"
  unfolding contributions_ok_def contributions_link ..

section \<open>When resolution succeeds\<close>

text \<open>The conditions between the enabled instances, one for each group of diagnostics.\<close>

definition valid_instances :: "string list \<Rightarrow> resolved_instance list \<Rightarrow> bool" where
  "valid_instances host is \<longleftrightarrow>
     singletons_ok is \<and> conflict_free is \<and> providers_ok is \<and> host_ok host is \<and> targets_ok is
     \<and> requirements_ok host is \<and> contributions_ok is \<and> acyclic (dependency_graph host is)"

lemma build_graph_errors:
  assumes "distinct (map rs_key (ad_instances st))" "same_cardinality (ad_instances st)"
  shows "hasErrors (fst (build_graph host st)) \<longleftrightarrow>
    hasErrors (ad_diags st) \<or> \<not> valid_instances host (ad_instances st)"
proof -
  have "distinct (ad_instances st)" using assms(1) by (rule distinct_of_map)
  then show ?thesis
    unfolding build_graph_def Let_def fst_conv hasErrors_simps cardinality_errors [OF _ assms(2)]
      conflict_errors provider_errors host_errors target_errors requirement_errors contribution_errors
      contributions_ok_link topological_acyclic [OF assms(1)] valid_instances_def
    by (simp only: cardinality_errors [OF _ assms(2)] de_Morgan_conj)
qed

lemma dependency_graph_cong: "set is = set is' \<Longrightarrow> dependency_graph host is = dependency_graph host is'"
  by (simp add: dependency_graph_def)

lemma contributions_of_perm:
  assumes "mset is = mset is'"
  shows "mset (contributions_of is) = mset (contributions_of is')"
proof -
  have s: "set is = set is'" using assms by (rule mset_eq_setD)
  have r: "set (replacementKeysOf is) = set (replacementKeysOf is')"
    unfolding replacementKeysOf_def set_set_of set_concat set_map s ..
  have c: "mset (concat (map collectContributions is)) = mset (concat (map collectContributions is'))"
    using assms by (rule mset_concat_map_cong)
  show ?thesis unfolding contributions_of_def mset_filter r c ..
qed

lemma contributions_ok_perm: "mset is = mset is' \<Longrightarrow> contributions_ok is = contributions_ok is'"
proof -
  assume m: "mset is = mset is'"
  note c = contributions_of_perm [OF m]
  have s: "set (contributions_of is) = set (contributions_of is')" using c by (rule mset_eq_setD)
  have l: "length (filter P (contributions_of is)) = length (filter P (contributions_of is'))" for P
    using c by (metis mset_filter size_mset)
  show ?thesis unfolding contributions_ok_def Let_def set_filter s l ..
qed

lemma valid_instances_perm:
  assumes "mset is = mset is'"
  shows "valid_instances host is = valid_instances host is'"
proof -
  have s: "set is = set is'" using assms by (rule mset_eq_setD)
  have p: "set (replacedPlugins is) = set (replacedPlugins is')" unfolding replacedPlugins_set s ..
  show ?thesis
    unfolding valid_instances_def singletons_ok_def conflict_free_def providers_ok_def host_ok_def targets_ok_def
      requirements_ok_def provided_by_other_def s p contributions_ok_perm [OF assms] dependency_graph_cong [OF s] ..
qed

text \<open>The parts of the options that the resolver computes first.\<close>

definition opts_index :: "resolve_options \<Rightarrow> ref_index" where
  "opts_index opts = fst (indexManifests (ro_manifests opts))"

definition opts_host :: "resolve_options \<Rightarrow> string list" where
  "opts_host opts = sort (set_of (coalesce (ro_hostCapabilities opts) []))"

definition opts_scope :: "resolve_options \<Rightarrow> string" where
  "opts_scope opts = coalesce (ro_officialScope opts) DEFAULT_OFFICIAL_SCOPE"

definition enabled_instances :: "(string \<Rightarrow> string) \<Rightarrow> resolve_options \<Rightarrow> inventory_entry list \<Rightarrow> resolved_instance list" where
  "enabled_instances hash opts es = map (entry_instance hash (opts_index opts)) (filter ie_enabled es)"

text \<open>
  The inputs that resolve: unambiguous manifests; an inventory in which every entry is known, no
  two entries name one instance and every enabled entry meets its manifest's policies; and valid
  enabled instances.
\<close>

definition resolvable :: "(string \<Rightarrow> string) \<Rightarrow> resolve_options \<Rightarrow> bool" where
  "resolvable hash opts \<longleftrightarrow>
     unambiguous (ro_manifests opts)
     \<and> (\<forall>e\<in>set (ro_inventory opts). entry_ok hash (opts_scope opts) (opts_index opts) e)
     \<and> distinct (map (entry_key (opts_index opts)) (ro_inventory opts))
     \<and> valid_instances (opts_host opts) (enabled_instances hash opts (ro_inventory opts))"

lemma make_instance_sel:
  assumes "make_instance hash f e = Inr i"
  shows "rs_key i = instanceKey (mf_id (rm_manifest f)) (entry_instance_id e)"
    "rs_pluginId i = mf_id (rm_manifest f)" "rs_manifest i = rm_manifest f"
    "rs_cardinality i = mf_cardinality (rm_manifest f)" "rs_required i = ie_required e"
    "rs_requires i = sort (mf_requires (rm_manifest f))"
    "rs_provides i = sort (providedCapabilities (rm_manifest f) (entry_instance_id e))"
  using assms by (auto simp: make_instance_def Let_def bind_result_Inr_iff)

lemma entry_instance_sel:
  assumes "entry_ok hash scope byRef e" "ie_enabled e"
  shows "rs_key (entry_instance hash byRef e) = entry_key byRef e"
    "rs_pluginId (entry_instance hash byRef e) = mf_id (rm_manifest (found_for byRef e))"
    "rs_cardinality (entry_instance hash byRef e) = mf_cardinality (rm_manifest (found_for byRef e))"
    "rs_manifest (entry_instance hash byRef e) = rm_manifest (found_for byRef e)"
proof -
  obtain i where i: "make_instance hash (found_for byRef e) e = Inr i"
    using assms by (cases "make_instance hash (found_for byRef e) e") (auto simp: entry_ok_def)
  then have "entry_instance hash byRef e = i" by (simp add: entry_instance_def)
  with make_instance_sel [OF i] show
    "rs_key (entry_instance hash byRef e) = entry_key byRef e"
    "rs_pluginId (entry_instance hash byRef e) = mf_id (rm_manifest (found_for byRef e))"
    "rs_cardinality (entry_instance hash byRef e) = mf_cardinality (rm_manifest (found_for byRef e))"
    "rs_manifest (entry_instance hash byRef e) = rm_manifest (found_for byRef e)"
    by (simp_all add: entry_key_def)
qed

lemma lookup_ref_in:
  assumes "unambiguous ms" "inj_on rm_ref (set ms)" "lookup_ref (fst (indexManifests ms)) p = Some f"
  shows "f \<in> set ms"
proof -
  obtain r where "map_of (fst (indexManifests ms)) r = Some f"
    using assms(3) unfolding lookup_ref_def by (cases "map_of (fst (indexManifests ms)) p") auto
  then show ?thesis using indexManifests_get [OF assms(1,2)] by blast
qed

lemma enabled_keys:
  assumes "\<forall>e\<in>set es. entry_ok hash scope (opts_index opts) e"
  shows "map rs_key (enabled_instances hash opts es) = map (entry_key (opts_index opts)) (filter ie_enabled es)"
  using assms by (auto simp: enabled_instances_def entry_instance_sel)

lemma distinct_map_filter: "distinct (map f xs) \<Longrightarrow> distinct (map f (filter P xs))"
  by (induction xs) auto

lemma enabled_same_cardinality:
  assumes u: "unambiguous (ro_manifests opts)" and r: "inj_on rm_ref (set (ro_manifests opts))"
    and ok: "\<forall>e\<in>set es. entry_ok hash scope (opts_index opts) e"
  shows "same_cardinality (enabled_instances hash opts es)"
proof -
  let ?f = "found_for (opts_index opts)"
  have f: "?f e \<in> set (ro_manifests opts)" if "e \<in> set es" for e
  proof -
    obtain f where l: "lookup_ref (opts_index opts) (ie_plugin e) = Some f"
      using ok \<open>e \<in> set es\<close> unfolding entry_ok_def by blast
    from lookup_ref_in [OF u r l [unfolded opts_index_def]] l show ?thesis by (simp add: found_for_def)
  qed
  have "?f a = ?f b" if ab: "a \<in> set es" "b \<in> set es" "mf_id (rm_manifest (?f a)) = mf_id (rm_manifest (?f b))" for a b
  proof -
    have "mf_id (rm_manifest (?f a)) \<in> set (refs_of (?f a)) \<inter> set (refs_of (?f b))"
      unfolding refs_of_def using ab(3) by simp
    then have "set (refs_of (?f a)) \<inter> set (refs_of (?f b)) \<noteq> {}" by blast
    then have "rm_ref (?f a) = rm_ref (?f b)"
      using u f [OF ab(1)] f [OF ab(2)] unfolding unambiguous_def by blast
    then show ?thesis by (rule inj_onD [OF r _ f [OF ab(1)] f [OF ab(2)]])
  qed
  note same = this
  show ?thesis
    unfolding same_cardinality_def enabled_instances_def
  proof (intro ballI impI)
    fix i j
    assume "i \<in> set (map (entry_instance hash (opts_index opts)) (filter ie_enabled es))"
      and "j \<in> set (map (entry_instance hash (opts_index opts)) (filter ie_enabled es))"
      and p: "rs_pluginId i = rs_pluginId j"
    then obtain a b where a: "a \<in> set es" "ie_enabled a" "i = entry_instance hash (opts_index opts) a"
      and b: "b \<in> set es" "ie_enabled b" "j = entry_instance hash (opts_index opts) b" by auto
    note ea = entry_instance_sel [OF ok [rule_format, OF a(1)] a(2), folded a(3)]
    note eb = entry_instance_sel [OF ok [rule_format, OF b(1)] b(2), folded b(3)]
    show "rs_cardinality i = rs_cardinality j"
      using same [OF a(1) b(1)] p unfolding ea eb by simp
  qed
qed

lemma is_doc_jstrs [simp]: "is_doc (jstrs xs)"
  by (simp add: jstrs_def is_doc_items_iff)

lemma resolutionDigest_ok: "\<exists>d. resolutionDigest hash g = Inr d"
  unfolding resolutionDigest_def
  by (subst manifestDigest_doc) (auto simp: is_doc_fields_iff is_doc_items_iff)

section \<open>The result\<close>

text \<open>The state after the loop over the inventory, and the graph built from it.\<close>

definition final_admission :: "(string \<Rightarrow> string) \<Rightarrow> resolve_options \<Rightarrow> admission" where
  "final_admission hash opts =
     admitted hash (opts_index opts) (sort_key entry_sort_key (ro_inventory opts))
       (no_admission (snd (indexManifests (ro_manifests opts))))"

definition final_graph :: "(string \<Rightarrow> string) \<Rightarrow> resolve_options \<Rightarrow> resolution_graph" where
  "final_graph hash opts = snd (build_graph (opts_host opts) (final_admission hash opts))"

lemma no_admission_sel [simp]:
  "ad_instances (no_admission ds) = []" "ad_disabled (no_admission ds) = []"
  "ad_seen (no_admission ds) = []" "ad_diags (no_admission ds) = ds"
  by (simp_all add: no_admission_def)

lemma final_admission_sel:
  "ad_instances (final_admission hash opts) =
     enabled_instances hash opts (sort_key entry_sort_key (ro_inventory opts))"
  "ad_disabled (final_admission hash opts) = map (entry_disabled (opts_index opts))
     (filter (\<lambda>e. \<not> ie_enabled e) (sort_key entry_sort_key (ro_inventory opts)))"
  "ad_diags (final_admission hash opts) = snd (indexManifests (ro_manifests opts))"
  by (simp_all add: final_admission_def admitted_def enabled_instances_def)

lemma mset_enabled:
  "mset (enabled_instances hash opts (sort_key f es)) = mset (enabled_instances hash opts es)"
  by (simp add: enabled_instances_def)

lemma build_graph_keeps_errors: "hasErrors (ad_diags st) \<Longrightarrow> hasErrors (fst (build_graph host st))"
  by (simp add: build_graph_def Let_def)

lemma distinct_sorted_keys: "distinct (map f (sort_key g xs)) \<longleftrightarrow> distinct (map f xs)"
  by (rule mset_eq_imp_distinct_iff) simp

lemma clean_admission_iff:
  "foldM (admit hash (opts_scope opts) (opts_index opts)) (sort_key entry_sort_key (ro_inventory opts))
      (no_admission (snd (indexManifests (ro_manifests opts)))) = Inr st \<and> \<not> hasErrors (ad_diags st)
   \<longleftrightarrow> unambiguous (ro_manifests opts)
     \<and> (\<forall>e\<in>set (ro_inventory opts). entry_ok hash (opts_scope opts) (opts_index opts) e)
     \<and> distinct (map (entry_key (opts_index opts)) (ro_inventory opts)) \<and> st = final_admission hash opts"
  unfolding admit_all_clean_iff final_admission_def
  by (simp add: indexManifests_errors distinct_sorted_keys)

lemma final_keys:
  assumes "resolvable hash opts"
  shows "distinct (map rs_key (ad_instances (final_admission hash opts)))"
    and "map rs_key (ad_instances (final_admission hash opts)) =
      map (entry_key (opts_index opts)) (filter ie_enabled (sort_key entry_sort_key (ro_inventory opts)))"
proof -
  show k: "map rs_key (ad_instances (final_admission hash opts)) =
      map (entry_key (opts_index opts)) (filter ie_enabled (sort_key entry_sort_key (ro_inventory opts)))"
    unfolding final_admission_sel
    by (rule enabled_keys [where scope = "opts_scope opts"]) (use assms in \<open>simp add: resolvable_def\<close>)
  show "distinct (map rs_key (ad_instances (final_admission hash opts)))"
    unfolding k by (rule distinct_map_filter) (use assms in \<open>simp add: resolvable_def distinct_sorted_keys\<close>)
qed

lemma final_errors:
  assumes r: "inj_on rm_ref (set (ro_manifests opts))" and u: "unambiguous (ro_manifests opts)"
    and e: "\<forall>e\<in>set (ro_inventory opts). entry_ok hash (opts_scope opts) (opts_index opts) e"
    and d: "distinct (map (entry_key (opts_index opts)) (ro_inventory opts))"
  shows "hasErrors (fst (build_graph (opts_host opts) (final_admission hash opts)))
    \<longleftrightarrow> \<not> valid_instances (opts_host opts) (enabled_instances hash opts (ro_inventory opts))"
proof -
  let ?es = "sort_key entry_sort_key (ro_inventory opts)"
  have "map rs_key (ad_instances (final_admission hash opts)) = map (entry_key (opts_index opts)) (filter ie_enabled ?es)"
    unfolding final_admission_sel by (rule enabled_keys [where scope = "opts_scope opts"]) (use e in simp)
  moreover have "distinct (map (entry_key (opts_index opts)) (filter ie_enabled ?es))"
    by (rule distinct_map_filter) (simp add: d distinct_sorted_keys)
  ultimately have dk: "distinct (map rs_key (ad_instances (final_admission hash opts)))" by simp
  have "same_cardinality (ad_instances (final_admission hash opts))"
    unfolding final_admission_sel by (rule enabled_same_cardinality [OF u r]) (use e in simp)
  from build_graph_errors [OF dk this, of "opts_host opts"] u show ?thesis
    unfolding final_admission_sel indexManifests_errors valid_instances_perm [OF mset_enabled] by simp
qed

lemma resolvePlugins_iff:
  assumes r: "inj_on rm_ref (set (ro_manifests opts))"
  shows "resolvePlugins hash opts = Inr (Inr g) \<longleftrightarrow>
     resolvable hash opts
     \<and> (\<exists>d. resolutionDigest hash (final_graph hash opts) = Inr d \<and> g = (final_graph hash opts)\<lparr>rg_digest := d\<rparr>)"
proof -
  let ?fold = "foldM (admit hash (opts_scope opts) (opts_index opts)) (sort_key entry_sort_key (ro_inventory opts))
      (no_admission (snd (indexManifests (ro_manifests opts))))"
  have res: "resolvePlugins hash opts = bind_result ?fold (\<lambda>st.
       case build_graph (opts_host opts) st of (diagnostics, graph) \<Rightarrow>
         if hasErrors diagnostics then Inr (Inl (sortDiagnostics diagnostics))
         else bind_result (resolutionDigest hash graph) (\<lambda>digest. Inr (Inr (graph\<lparr>rg_digest := digest\<rparr>))))"
    by (simp add: resolvePlugins_def Let_def opts_scope_def opts_index_def opts_host_def)
  have "resolvePlugins hash opts = Inr (Inr g) \<longleftrightarrow>
    (\<exists>st. ?fold = Inr st \<and> \<not> hasErrors (fst (build_graph (opts_host opts) st))
      \<and> (\<exists>d. resolutionDigest hash (snd (build_graph (opts_host opts) st)) = Inr d
         \<and> g = (snd (build_graph (opts_host opts) st))\<lparr>rg_digest := d\<rparr>))"
  proof -
    have "(if h then Inr (Inl x) else bind_result q (\<lambda>d. Inr (Inr (gr\<lparr>rg_digest := d\<rparr>)))) = Inr (Inr g)
        \<longleftrightarrow> \<not> h \<and> (\<exists>d. q = Inr d \<and> g = gr\<lparr>rg_digest := d\<rparr>)"
      for h gr and x :: "diagnostic list" and q :: "contract_error + string"
      by (auto simp: bind_result_Inr_iff)
    then show ?thesis unfolding res bind_result_Inr_iff case_prod_beta by simp
  qed
  also have "\<dots> \<longleftrightarrow> (\<exists>st. (?fold = Inr st \<and> \<not> hasErrors (ad_diags st))
      \<and> \<not> hasErrors (fst (build_graph (opts_host opts) st))
      \<and> (\<exists>d. resolutionDigest hash (snd (build_graph (opts_host opts) st)) = Inr d
         \<and> g = (snd (build_graph (opts_host opts) st))\<lparr>rg_digest := d\<rparr>))"
    using build_graph_keeps_errors by blast
  also have "\<dots> \<longleftrightarrow> resolvable hash opts
     \<and> (\<exists>d. resolutionDigest hash (final_graph hash opts) = Inr d \<and> g = (final_graph hash opts)\<lparr>rg_digest := d\<rparr>)"
    unfolding clean_admission_iff resolvable_def final_graph_def
    using final_errors [OF r, of hash] by blast
  finally show ?thesis .
qed

lemma resolve_ok:
  assumes r: "inj_on rm_ref (set (ro_manifests opts))"
  shows "(\<exists>g. resolvePlugins hash opts = Inr (Inr g)) \<longleftrightarrow> resolvable hash opts"
  unfolding resolvePlugins_iff [OF r] using resolutionDigest_ok by blast

subsection \<open>The order\<close>

lemma find_instance_key:
  "distinct (map rs_key is) \<Longrightarrow> i \<in> set is \<Longrightarrow> find_instance is (rs_key i) = i"
  unfolding find_instance_def by (induction "is") (auto simp: image_iff)

lemma find_instance_all:
  assumes "distinct (map rs_key is)" "mset order = mset (map rs_key is)"
  shows "mset (map (find_instance is) order) = mset is" "map rs_key (map (find_instance is) order) = order"
proof -
  have "mset (map (find_instance is) order) = image_mset (find_instance is) (mset (map rs_key is))"
    using assms(2) by (simp only: mset_map)
  also have "\<dots> = mset (map (\<lambda>i. find_instance is (rs_key i)) is)" by (simp add: image_mset.compositionality comp_def)
  also have "map (\<lambda>i. find_instance is (rs_key i)) is = is"
    by (rule map_idI) (rule find_instance_key [OF assms(1)])
  finally show "mset (map (find_instance is) order) = mset is" .
  have "k \<in> rs_key ` set is" if "k \<in> set order" for k
    using assms(2) that by (metis mset_eq_setD set_map)
  then have "rs_key (find_instance is k) = k" if "k \<in> set order" for k
    using that find_instance_key [OF assms(1)] by fastforce
  then show "map rs_key (map (find_instance is) order) = order" by (simp add: comp_def map_idI)
qed

lemma mset_deps_map:
  "instance_deps is = map (\<lambda>i. (rs_key i, set_of (rs_dependsOn i))) is" if "distinct (map rs_key is)"
  unfolding instance_deps_def by (rule entries_map_distinct) (use that in \<open>simp add: comp_def\<close>)

lemma final_order:
  assumes "resolvable hash opts" and r: "inj_on rm_ref (set (ro_manifests opts))"
  defines "is \<equiv> ad_instances (final_admission hash opts)"
  defines "linked \<equiv> map (link_instance (opts_host opts) (capability_providers is)) is"
  defines "g \<equiv> final_graph hash opts"
  shows "mset (rg_order g) = mset (map rs_key is)"
    and "\<And>i j. i \<in> set is \<Longrightarrow> j \<in> set is \<Longrightarrow> takes_from (opts_host opts) i j \<Longrightarrow>
           before (rg_order g) (rs_key j) (rs_key i)"
    and "mset (rg_instances g) = mset linked" "map rs_key (rg_instances g) = rg_order g"
proof -
  have dk: "distinct (map rs_key is)" unfolding is_def using assms(1) by (rule final_keys)
  have "\<not> hasErrors (fst (build_graph (opts_host opts) (final_admission hash opts)))"
    using assms(1) final_errors [OF r, of hash] by (simp add: resolvable_def)
  then have "\<not> hasErrors (snd (topologicalOrder linked))"
    unfolding build_graph_def Let_def linked_def is_def by simp
  then obtain order where k: "kahn (instance_deps linked) [] = (order, None)"
    unfolding topological_errors by (cases "kahn (instance_deps linked) []") auto
  have g: "rg_order g = order" "rg_instances g = map (find_instance linked) order"
    using k unfolding g_def final_graph_def build_graph_def Let_def linked_def is_def
    by (simp_all add: topologicalOrder_def)
  have keys: "map fst (instance_deps linked) = map rs_key is"
    unfolding linked_def by (rule linked_edges [OF dk])
  have edges: "dep_edges (instance_deps linked) = dependency_graph (opts_host opts) is"
    unfolding linked_def by (rule linked_edges [OF dk])
  from kahn_complete [OF k] keys dk have m: "mset order = mset (map rs_key is)"
    and b: "\<And>k d. (k, d) \<in> dep_edges (instance_deps linked) \<Longrightarrow> before order d k"
    by (auto simp: dep_edges_def)
  show "mset (rg_order g) = mset (map rs_key is)" using g m by simp
  show "before (rg_order g) (rs_key j) (rs_key i)"
    if "i \<in> set is" "j \<in> set is" "takes_from (opts_host opts) i j" for i j
    unfolding g by (rule b) (use that edges in \<open>auto simp: dependency_graph_def\<close>)
  have l: "map rs_key linked = map rs_key is" unfolding linked_def by simp
  then have dl: "distinct (map rs_key linked)" "mset order = mset (map rs_key linked)" using dk m by simp_all
  show "mset (rg_instances g) = mset linked" "map rs_key (rg_instances g) = rg_order g"
    unfolding g using find_instance_all [OF dl] by simp_all
qed

subsection \<open>Independence of the order of the inputs\<close>

lemma lookup_cong:
  assumes "map_of b = map_of b'"
  shows "lookup_ref b = lookup_ref b'" "found_for b = found_for b'" "entry_key b = entry_key b'"
    "entry_instance hash b = entry_instance hash b'" "entry_disabled b = entry_disabled b'"
    "entry_ok hash scope b = entry_ok hash scope b'"
proof -
  show l: "lookup_ref b = lookup_ref b'" using assms by (simp add: lookup_ref_def fun_eq_iff)
  show f: "found_for b = found_for b'" by (simp add: found_for_def l fun_eq_iff)
  show "entry_key b = entry_key b'" by (simp add: entry_key_def f fun_eq_iff)
  then show "entry_disabled b = entry_disabled b'" by (simp add: entry_disabled_def f fun_eq_iff)
  show "entry_instance hash b = entry_instance hash b'" by (simp add: entry_instance_def f fun_eq_iff)
  show "entry_ok hash scope b = entry_ok hash scope b'" by (simp add: entry_ok_def f l fun_eq_iff)
qed

lemma link_cong:
  assumes "set is = set is'"
  shows "link_instance host (capability_providers is) = link_instance host (capability_providers is')"
proof
  fix i :: resolved_instance
  have e: "set (external_providers (capability_providers is) k c) = set (external_providers (capability_providers is') k c)"
    for k c unfolding external_providers_set assms ..
  have u: "unmet host (capability_providers is) k = unmet host (capability_providers is') k" for k
    by (simp add: fun_eq_iff unmet_iff provided_by_other_def assms)
  have "sort (set_of (concat (map (\<lambda>c. if c \<in> set host then []
          else external_providers (capability_providers is) (rs_key i) c) cs))) =
        sort (set_of (concat (map (\<lambda>c. if c \<in> set host then []
          else external_providers (capability_providers is') (rs_key i) c) cs)))" for cs
  proof (rule sort_set_of_cong)
    show "set (concat (map (\<lambda>c. if c \<in> set host then []
          else external_providers (capability_providers is) (rs_key i) c) cs)) =
        set (concat (map (\<lambda>c. if c \<in> set host then []
          else external_providers (capability_providers is') (rs_key i) c) cs))"
      unfolding set_concat set_map image_image if_distrib [of set] e ..
  qed
  then show "link_instance host (capability_providers is) i = link_instance host (capability_providers is') i"
    unfolding link_instance_def u by (simp only:)
qed

lemma sorted_providers_perm:
  assumes "mset is = mset is'"
  shows "map (\<lambda>(c, keys). (c, sort keys)) (sort_key fst (capability_providers is)) =
    map (\<lambda>(c, keys). (c, sort keys)) (sort_key fst (capability_providers is'))"
proof -
  let ?ps = "\<lambda>is. concat (map (\<lambda>i. map (\<lambda>c. (c, rs_key i)) (rs_provides i)) is)"
  let ?n = "map (\<lambda>(c, keys). (c, sort keys))"
  have m: "mset (?ps is) = mset (?ps is')" using assms by (rule mset_concat_map_cong)
  have s: "set (?ps is) = set (?ps is')" using m by (rule mset_eq_setD)
  have srt: "sort (map snd (filter P (?ps is))) = sort (map snd (filter P (?ps is')))" for P
    by (rule sort_unique) (simp only: mset_map mset_filter m)
  have set_n: "set (?n (multi_of ps)) = {(k, sort (map snd (filter (\<lambda>p. fst p = k) ps))) |k. k \<in> fst ` set ps}"
    for ps :: "(string \<times> string) list"
  proof -
    have "set (?n (multi_of ps)) = (\<lambda>(c, keys). (c, sort keys)) ` {(k, vs). (k, vs) \<in> set (multi_of ps)}"
      by simp
    then show ?thesis unfolding multi_of_mem by auto
  qed
  have "set (?n (multi_of (?ps is))) = set (?n (multi_of (?ps is')))"
    unfolding set_n s srt ..
  note sn = this
  have fst_n: "map fst (?n qs) = map fst qs" for qs :: "(string \<times> string list) list"
    by (auto simp: comp_def)
  have d: "distinct (?n (multi_of (?ps is)))" for "is"
    by (rule distinct_of_map [where f = fst]) (simp only: fst_n multi_of_distinct)
  have "mset (?n (multi_of (?ps is))) = mset (?n (multi_of (?ps is')))"
    by (rule set_eq_iff_mset_eq_distinct [THEN iffD1, OF d d sn])
  moreover have "inj_on fst (set (?n (multi_of (?ps is))))"
    using multi_of_distinct [of "?ps is"] unfolding fst_n [symmetric, of "multi_of (?ps is)"] distinct_map by blast
  ultimately have "sort_key fst (?n (multi_of (?ps is))) = sort_key fst (?n (multi_of (?ps is')))"
    by (rule sort_key_unique)
  then show ?thesis unfolding sort_key_fst_map capability_providers_def .
qed

text \<open>Two sets of options that list the same inputs, in whatever order.\<close>

definition same_inputs :: "resolve_options \<Rightarrow> resolve_options \<Rightarrow> bool" where
  "same_inputs opts opts' \<longleftrightarrow>
     mset (ro_inventory opts) = mset (ro_inventory opts')
     \<and> mset (ro_manifests opts) = mset (ro_manifests opts')
     \<and> set (coalesce (ro_hostCapabilities opts) []) = set (coalesce (ro_hostCapabilities opts') [])
     \<and> opts_scope opts = opts_scope opts'"

lemma unambiguous_cong: "set ms = set ms' \<Longrightarrow> unambiguous ms = unambiguous ms'"
  by (simp add: unambiguous_def)

lemma same_inputs_resolvable:
  assumes s: "same_inputs opts opts'" and r: "inj_on rm_ref (set (ro_manifests opts))" and ok: "resolvable hash opts"
  shows "resolvable hash opts'" "inj_on rm_ref (set (ro_manifests opts'))"
    "map_of (opts_index opts) = map_of (opts_index opts')" "opts_host opts = opts_host opts'"
    "mset (ad_instances (final_admission hash opts)) = mset (ad_instances (final_admission hash opts'))"
    "mset (ad_disabled (final_admission hash opts)) = mset (ad_disabled (final_admission hash opts'))"
proof -
  have ms: "set (ro_manifests opts) = set (ro_manifests opts')" and es: "set (ro_inventory opts) = set (ro_inventory opts')"
    and em: "mset (ro_inventory opts) = mset (ro_inventory opts')"
    using s by (auto simp: same_inputs_def dest: mset_eq_setD)
  show "inj_on rm_ref (set (ro_manifests opts'))" using r ms by simp
  show ix: "map_of (opts_index opts) = map_of (opts_index opts')"
    unfolding opts_index_def using ok r ms by (intro indexManifests_perm) (simp_all add: resolvable_def)
  note c = lookup_cong [OF ix]
  show h: "opts_host opts = opts_host opts'"
    unfolding opts_host_def using s by (intro sort_set_of_cong) (simp add: same_inputs_def)
  have sc: "opts_scope opts = opts_scope opts'" using s by (simp add: same_inputs_def)
  have me: "mset (enabled_instances hash opts (ro_inventory opts)) = mset (enabled_instances hash opts' (ro_inventory opts'))"
    by (simp add: enabled_instances_def c em)
  then show "mset (ad_instances (final_admission hash opts)) = mset (ad_instances (final_admission hash opts'))"
    by (simp only: final_admission_sel mset_enabled)
  show "mset (ad_disabled (final_admission hash opts)) = mset (ad_disabled (final_admission hash opts'))"
    by (simp add: final_admission_sel c em)
  have "distinct (map (entry_key (opts_index opts)) (ro_inventory opts))
      = distinct (map (entry_key (opts_index opts')) (ro_inventory opts'))"
    by (rule mset_eq_imp_distinct_iff) (simp add: c em)
  with ok show "resolvable hash opts'"
    unfolding resolvable_def unambiguous_cong [OF ms] es sc h c valid_instances_perm [OF me] by simp
qed

lemma disabled_keys:
  "map di_key (ad_disabled (final_admission hash opts)) =
     map (entry_key (opts_index opts)) (filter (\<lambda>e. \<not> ie_enabled e) (sort_key entry_sort_key (ro_inventory opts)))"
  by (simp add: final_admission_sel entry_disabled_def comp_def)

lemma same_inputs_graph:
  assumes s: "same_inputs opts opts'" and r: "inj_on rm_ref (set (ro_manifests opts))" and ok: "resolvable hash opts"
  shows "(final_graph hash opts)\<lparr>rg_diagnostics := ds\<rparr> = (final_graph hash opts')\<lparr>rg_diagnostics := ds\<rparr>"
proof -
  note same = same_inputs_resolvable [OF s r ok]
  let ?is = "ad_instances (final_admission hash opts)" and ?is' = "ad_instances (final_admission hash opts')"
  let ?l = "link_instance (opts_host opts) (capability_providers ?is)"
  have si: "set ?is = set ?is'" using same(5) by (rule mset_eq_setD)
  have l: "link_instance (opts_host opts) (capability_providers ?is') = ?l"
    unfolding link_cong [OF si, symmetric] ..
  have dk: "distinct (map rs_key (map ?l ?is))" "distinct (map rs_key (map ?l ?is'))"
    unfolding map_link_key using final_keys(1) [OF ok] final_keys(1) [OF same(1)] by auto
  have ml: "mset (map ?l ?is) = mset (map ?l ?is')" using same(5) by simp
  have "mset (instance_deps (map ?l ?is)) = mset (instance_deps (map ?l ?is'))"
    unfolding mset_deps_map [OF dk(1)] mset_deps_map [OF dk(2)] using ml by (simp only: mset_map)
  note kp = kahn_perm [OF this, of "[]"]
  have t: "fst (topologicalOrder (map ?l ?is)) = fst (topologicalOrder (map ?l ?is'))"
    unfolding topologicalOrder_def kp ..
  have o: "set (fst (topologicalOrder (map ?l ?is))) = rs_key ` set (map ?l ?is)"
  proof -
    have "mset (fst (topologicalOrder (map ?l ?is))) = mset (map rs_key ?is)"
      using final_order(1) [OF ok r] by (simp add: final_graph_def build_graph_def Let_def)
    then show ?thesis by (metis map_link_key mset_eq_setD set_map)
  qed
  have f: "map (find_instance (map ?l ?is)) (fst (topologicalOrder (map ?l ?is))) =
      map (find_instance (map ?l ?is')) (fst (topologicalOrder (map ?l ?is)))"
  proof (rule map_cong [OF refl])
    fix k
    assume "k \<in> set (fst (topologicalOrder (map ?l ?is)))"
    then obtain i where i: "i \<in> set (map ?l ?is)" "k = rs_key i" unfolding o by blast
    have "i \<in> set (map ?l ?is')" using i(1) mset_eq_setD [OF ml] by blast
    from find_instance_key [OF dk(1) i(1)] find_instance_key [OF dk(2) this]
    show "find_instance (map ?l ?is) k = find_instance (map ?l ?is') k"
      unfolding i(2) by (rule trans [OF _ sym])
  qed
  have d: "sort_key di_key (ad_disabled (final_admission hash opts)) = sort_key di_key (ad_disabled (final_admission hash opts'))"
  proof (rule sort_key_unique [OF same(6)])
    have "distinct (map di_key (ad_disabled (final_admission hash opts)))"
      unfolding disabled_keys
      by (rule distinct_map_filter) (use ok in \<open>simp add: resolvable_def distinct_sorted_keys\<close>)
    then show "inj_on di_key (set (ad_disabled (final_admission hash opts)))" unfolding distinct_map by blast
  qed
  show ?thesis
    unfolding final_graph_def build_graph_def Let_def snd_conv same(4) [symmetric] l
    using t f d sorted_providers_perm [OF same(5)] by simp
qed

lemma resolutionDigest_diagnostics [simp]:
  "resolutionDigest hash (g\<lparr>rg_diagnostics := ds\<rparr>) = resolutionDigest hash g"
  by (simp add: resolutionDigest_def)

section \<open>Properties\<close>

text \<open>
  C1. Resolution succeeds exactly for the valid inputs: unambiguous manifests, an inventory whose
  entries are known, name distinct instances and meet their manifests' policies, and enabled
  instances with one instance per singleton plugin, no conflict, no contested or host-owned
  capability, every replaced plugin enabled, every required capability provided, no duplicate
  contribution and no dependency cycle.
\<close>

theorem resolution_succeeds_iff_valid:
  assumes "inj_on rm_ref (set (ro_manifests opts))"
  shows "(\<exists>g. resolvePlugins hash opts = Inr (Inr g)) \<longleftrightarrow> resolvable hash opts"
  using assms by (rule resolve_ok)

definition ex_facets :: plugin_facets where
  "ex_facets = \<lparr>fc_backend = None, fc_frontend = None, fc_prisma = None, fc_permissions = None, fc_operations = None\<rparr>"

definition ex_manifest :: "string \<Rightarrow> string list \<Rightarrow> string list \<Rightarrow> plugin_manifest" where
  "ex_manifest i provides requires =
     \<lparr>mf_schemaVersion = MANIFEST_SCHEMA_VERSION, mf_id = i, mf_displayName = i, mf_cardinality = Singleton,
      mf_distribution = None,
      mf_engine = \<lparr>er_appspinePluginApi = ''^1'', er_node = ''>=20'', er_frameworks = None\<rparr>,
      mf_provides = provides, mf_requires = requires, mf_optionalRequires = None, mf_conflicts = None,
      mf_replaces = None, mf_configSchema = None, mf_optionalFailurePolicy = False, mf_environment = None,
      mf_facets = ex_facets, mf_integrationContracts = None, mf_document = JObj [(''id'', JStr i)]\<rparr>"

definition ex_resolvable :: "nat \<Rightarrow> plugin_manifest \<Rightarrow> resolvable_manifest" where
  "ex_resolvable ref m =
     \<lparr>rm_ref = ref, rm_manifest = m, rm_packageName = ''@x/'' @ mf_id m, rm_packageVersion = ''1.0.0'',
      rm_manifestDigest = Some ''m'', rm_digest = Some ''d''\<rparr>"

definition ex_entry :: "string \<Rightarrow> inventory_entry" where
  "ex_entry p = \<lparr>ie_plugin = p, ie_instanceId = ''default'', ie_enabled = True, ie_required = True, ie_configRef = None\<rparr>"

definition ex_opts :: resolve_options where
  "ex_opts = \<lparr>ro_inventory = [ex_entry ''a'', ex_entry ''b''],
     ro_manifests = [ex_resolvable 0 (ex_manifest ''a'' [] [''x'']), ex_resolvable 1 (ex_manifest ''b'' [''x''] [])],
     ro_hostCapabilities = None, ro_officialScope = None\<rparr>"

definition ex_opts_rev :: resolve_options where
  "ex_opts_rev = ex_opts\<lparr>ro_inventory := rev (ro_inventory ex_opts), ro_manifests := rev (ro_manifests ex_opts)\<rparr>"

definition ex_graph :: resolution_graph where
  "ex_graph = projr (projr (resolvePlugins (\<lambda>t. t) ex_opts))"

lemma ex_opts_resolve: "resolvePlugins (\<lambda>t. t) ex_opts = Inr (Inr ex_graph)"
proof -
  have "case resolvePlugins (\<lambda>t. t) ex_opts of Inr (Inr g) \<Rightarrow> True | _ \<Rightarrow> False" by code_simp
  then show ?thesis unfolding ex_graph_def by (auto split: sum.splits)
qed

lemma ex_graph_order: "rg_order ex_graph = [''b'', ''a'']"
proof -
  have "case resolvePlugins (\<lambda>t. t) ex_opts of Inr (Inr g) \<Rightarrow> rg_order g = [''b'', ''a''] | _ \<Rightarrow> False" by code_simp
  then show ?thesis unfolding ex_opts_resolve by simp
qed

lemma ex_opts_refs: "inj_on rm_ref (set (ro_manifests ex_opts))"
  by (simp add: ex_opts_def ex_resolvable_def)

theorem resolution_succeeds_iff_valid_witness: "resolvable (\<lambda>t. t) ex_opts"
  using resolution_succeeds_iff_valid [OF ex_opts_refs] ex_opts_resolve by blast

text \<open>
  C2. The order of a resolved graph lists every enabled inventory entry once, the instances follow
  that order, each instance comes after everything it depends on, and every capability an instance
  requires is supplied by the host or by an instance that comes before it.
\<close>

theorem registration_order_respects_dependencies:
  assumes "resolvePlugins hash opts = Inr (Inr g)" "inj_on rm_ref (set (ro_manifests opts))"
  shows "distinct (rg_order g) \<and> map rs_key (rg_instances g) = rg_order g
    \<and> set (rg_order g) = entry_key (opts_index opts) ` {e \<in> set (ro_inventory opts). ie_enabled e}
    \<and> (\<forall>i\<in>set (rg_instances g). \<forall>d\<in>set (rs_dependsOn i). before (rg_order g) d (rs_key i))
    \<and> (\<forall>i\<in>set (rg_instances g). \<forall>c\<in>set (rs_requires i). c \<in> set (rg_hostCapabilities g)
        \<or> (\<exists>j\<in>set (rg_instances g). c \<in> set (rs_provides j) \<and> before (rg_order g) (rs_key j) (rs_key i)))"
proof -
  let ?is = "ad_instances (final_admission hash opts)"
  let ?l = "link_instance (opts_host opts) (capability_providers ?is)"
  have ok: "resolvable hash opts" and g: "rg_order g = rg_order (final_graph hash opts)"
    "rg_instances g = rg_instances (final_graph hash opts)" "rg_hostCapabilities g = opts_host opts"
    using assms(1) unfolding resolvePlugins_iff [OF assms(2)]
    by (auto simp: final_graph_def build_graph_def Let_def)
  note o = final_order [OF ok assms(2), folded g(1,2)]
  note k = final_keys [OF ok]
  have si: "set (rg_instances g) = ?l ` set ?is" using mset_eq_setD [OF o(3)] by simp
  have "distinct (rg_order g)" using o(1) k(1) mset_eq_imp_distinct_iff by metis
  moreover have "set (rg_order g) = entry_key (opts_index opts) ` {e \<in> set (ro_inventory opts). ie_enabled e}"
    using mset_eq_setD [OF o(1)] unfolding k(2) by auto
  moreover have "before (rg_order g) d (rs_key i)"
    if i: "i \<in> set (rg_instances g)" "d \<in> set (rs_dependsOn i)" for i d
  proof -
    obtain i0 where i0: "i0 \<in> set ?is" "i = ?l i0" using i(1) unfolding si by blast
    then obtain j where "j \<in> set ?is" "d = rs_key j" "takes_from (opts_host opts) i0 j"
      using i(2) set_dependsOn by auto
    with o(2) [OF i0(1)] i0(2) show ?thesis by simp
  qed
  moreover have "c \<in> set (rg_hostCapabilities g)
      \<or> (\<exists>j\<in>set (rg_instances g). c \<in> set (rs_provides j) \<and> before (rg_order g) (rs_key j) (rs_key i))"
    if i: "i \<in> set (rg_instances g)" "c \<in> set (rs_requires i)" for i c
  proof (cases "c \<in> set (rg_hostCapabilities g)")
    case host: False
    obtain i0 where i0: "i0 \<in> set ?is" "i = ?l i0" using i(1) unfolding si by blast
    have "requirements_ok (opts_host opts) ?is"
      using ok valid_instances_perm [OF mset_enabled, of "opts_host opts" hash opts]
      unfolding resolvable_def valid_instances_def final_admission_sel by metis
    then obtain j where j: "j \<in> set ?is" "rs_key j \<noteq> rs_key i0" "c \<in> set (rs_provides j)"
      using i0 i(2) host g(3) unfolding requirements_ok_def provided_by_other_def by auto
    then have "takes_from (opts_host opts) i0 j"
      using i(2) i0(2) host g(3) unfolding takes_from_def by auto
    from o(2) [OF i0(1) j(1) this] j(1,3) i0(2)
    have "\<exists>j\<in>set (rg_instances g). c \<in> set (rs_provides j) \<and> before (rg_order g) (rs_key j) (rs_key i)"
      unfolding si by auto
    then show ?thesis ..
  qed simp
  ultimately show ?thesis using o(4) by blast
qed

theorem registration_order_respects_dependencies_witness:
  "distinct (rg_order ex_graph) \<and> map rs_key (rg_instances ex_graph) = [''b'', ''a'']"
  using registration_order_respects_dependencies [OF ex_opts_resolve ex_opts_refs] ex_graph_order by simp

text \<open>
  C3. The order and the digest of a resolution, and every other part of the graph but the list of
  its informational diagnostics, depend only on which inputs are given: listing the inventory, the
  manifests or the host capabilities in another order changes nothing.
\<close>

theorem resolution_ignores_input_order:
  assumes "resolvePlugins hash opts = Inr (Inr g)" "inj_on rm_ref (set (ro_manifests opts))"
    and "same_inputs opts opts'"
  shows "\<exists>g'. resolvePlugins hash opts' = Inr (Inr g') \<and> g' = g\<lparr>rg_diagnostics := rg_diagnostics g'\<rparr>"
proof -
  obtain d where ok: "resolvable hash opts" and d: "resolutionDigest hash (final_graph hash opts) = Inr d"
    and g: "g = (final_graph hash opts)\<lparr>rg_digest := d\<rparr>"
    using assms(1) unfolding resolvePlugins_iff [OF assms(2)] by blast
  note same = same_inputs_resolvable [OF assms(3,2) ok]
  let ?G = "final_graph hash opts" and ?G' = "final_graph hash opts'"
  have G: "?G' = ?G\<lparr>rg_diagnostics := rg_diagnostics ?G'\<rparr>"
    using same_inputs_graph [OF assms(3,2) ok, of "rg_diagnostics ?G'"] by simp
  have d': "resolutionDigest hash ?G' = Inr d" by (subst G) (simp add: d)
  let ?g' = "?G'\<lparr>rg_digest := d\<rparr>"
  have "resolvePlugins hash opts' = Inr (Inr ?g')"
    unfolding resolvePlugins_iff [OF same(2)] using same(1) d' by blast
  moreover have "?g' = g\<lparr>rg_diagnostics := rg_diagnostics ?g'\<rparr>" unfolding g by (subst G) simp
  ultimately show ?thesis by blast
qed

theorem resolution_ignores_input_order_witness:
  "\<exists>g'. resolvePlugins (\<lambda>t. t) ex_opts_rev = Inr (Inr g') \<and> rg_order g' = [''b'', ''a'']"
proof -
  have "same_inputs ex_opts ex_opts_rev"
    by (simp add: same_inputs_def ex_opts_rev_def ex_opts_def opts_scope_def)
  from resolution_ignores_input_order [OF ex_opts_resolve ex_opts_refs this] ex_graph_order
  show ?thesis by (metis resolution_graph.select_convs(1) resolution_graph.surjective resolution_graph.update_convs(7))
qed

text \<open>
  Shutdown runs in exactly the reverse of the registration order, so an instance is shut down
  before everything it depends on.
\<close>

theorem shutdown_reverses_registration:
  assumes "resolvePlugins hash opts = Inr (Inr g)" "inj_on rm_ref (set (ro_manifests opts))"
    and "i \<in> set (rg_instances g)" "d \<in> set (rs_dependsOn i)"
  shows "rev (shutdownOrder g) = rg_order g \<and> before (shutdownOrder g) (rs_key i) d"
proof -
  have ok: "resolvable hash opts" and g: "rg_order g = rg_order (final_graph hash opts)"
    "rg_instances g = rg_instances (final_graph hash opts)"
    using assms(1) unfolding resolvePlugins_iff [OF assms(2)]
    by (auto simp: final_graph_def build_graph_def Let_def)
  note o = final_order [OF ok assms(2), folded g]
  let ?is = "ad_instances (final_admission hash opts)"
  obtain i0 where i0: "i0 \<in> set ?is" "i = link_instance (opts_host opts) (capability_providers ?is) i0"
    using assms(3) mset_eq_setD [OF o(3)] by auto
  then obtain j where "j \<in> set ?is" "d = rs_key j" "takes_from (opts_host opts) i0 j"
    using assms(4) set_dependsOn by auto
  with o(2) [OF i0(1)] i0(2) show ?thesis by (simp add: shutdownOrder_def before_rev)
qed

theorem shutdown_reverses_registration_witness:
  "rev (shutdownOrder ex_graph) = [''b'', ''a'']"
proof -
  have "case resolvePlugins (\<lambda>t. t) ex_opts of
      Inr (Inr g) \<Rightarrow> list_ex (\<lambda>i. rs_dependsOn i = [''b'']) (rg_instances g) | _ \<Rightarrow> False" by code_simp
  then obtain i where "i \<in> set (rg_instances ex_graph)" "''b'' \<in> set (rs_dependsOn i)"
    unfolding ex_opts_resolve by (auto simp: list_ex_iff)
  from shutdown_reverses_registration [OF ex_opts_resolve ex_opts_refs this] ex_graph_order show ?thesis by simp
qed



end
