(* ===== verification/Files.thy ===== *)
theory Files
  imports Loader
begin

text \<open>
  The part of Node's \<open>fs\<close> and POSIX \<open>path\<close> modules that
  \<open>@appspine/plugin-cli\<close> uses. The file system is a finite picture of the paths the tool
  meets: a readable text file, or an entry whose read or write fails with an error code (a
  directory, a file without permission). Creating directories has no effect on it.
  The lemmas show that a joined path keeps the relative part it was built from, so distinct
  artefacts have distinct files.
\<close>

lemma sort_key_Nil_iff [simp]: "sort_key f xs = [] \<longleftrightarrow> xs = []"
  by (metis mset_sort mset_zero_iff)

section \<open>Failures\<close>

text \<open>What a command may throw: a failed system call, an error of the tool, an error of the loader.\<close>

datatype failure = Errno string | Thrown string | LoaderThrow exn

definition lift_exn :: "exn + 'a \<Rightarrow> failure + 'a" where
  "lift_exn r = (case r of Inl e \<Rightarrow> Inl (LoaderThrow e) | Inr a \<Rightarrow> Inr a)"

definition lift_canon :: "contract_error + 'a \<Rightarrow> failure + 'a" where
  "lift_canon r = (case r of Inl e \<Rightarrow> Inl (LoaderThrow (Contract e)) | Inr a \<Rightarrow> Inr a)"

lemma lift_simps [simp]:
  "lift_exn (Inl e) = Inl (LoaderThrow e)" "lift_exn (Inr a) = Inr a"
  "lift_canon (Inl c) = Inl (LoaderThrow (Contract c))" "lift_canon (Inr a) = Inr a"
  by (simp_all add: lift_exn_def lift_canon_def)

lemma lift_Inr_iff [simp]:
  "lift_exn r = Inr a \<longleftrightarrow> r = Inr a" "lift_canon q = Inr a \<longleftrightarrow> q = Inr a"
  by (cases r; simp) (cases q; simp)

section \<open>Files\<close>

datatype fs_entry = Text string | Unreadable string

type_synonym files = "string \<Rightarrow> fs_entry option"

definition existsSync :: "files \<Rightarrow> string \<Rightarrow> bool" where
  "existsSync fs p \<longleftrightarrow> fs p \<noteq> None"

definition readFileSync :: "files \<Rightarrow> string \<Rightarrow> string + string" where
  "readFileSync fs p =
     (case fs p of None \<Rightarrow> Inl ''ENOENT'' | Some (Unreadable code) \<Rightarrow> Inl code | Some (Text t) \<Rightarrow> Inr t)"

definition writeFileSync :: "string \<Rightarrow> string \<Rightarrow> files \<Rightarrow> string + files" where
  "writeFileSync p t fs =
     (case fs p of Some (Unreadable code) \<Rightarrow> Inl code | _ \<Rightarrow> Inr (fs(p \<mapsto> Text t)))"

definition or_errno :: "string + 'a \<Rightarrow> failure + 'a" where
  "or_errno r = (case r of Inl code \<Rightarrow> Inl (Errno code) | Inr a \<Rightarrow> Inr a)"

lemma or_errno_simps [simp]: "or_errno (Inl c) = Inl (Errno c)" "or_errno (Inr a) = Inr a"
  by (simp_all add: or_errno_def)

lemma or_errno_Inr_iff [simp]: "or_errno r = Inr a \<longleftrightarrow> r = Inr a"
  by (cases r) simp_all

lemma readFileSync_Inr: "readFileSync fs p = Inr t \<longleftrightarrow> fs p = Some (Text t)"
  by (auto simp: readFileSync_def split: option.splits fs_entry.splits)

lemma writeFileSync_Inr:
  "writeFileSync p t fs = Inr gs \<longleftrightarrow> (\<forall>c. fs p \<noteq> Some (Unreadable c)) \<and> gs = fs(p \<mapsto> Text t)"
  by (auto simp: writeFileSync_def split: option.splits fs_entry.splits)

text \<open>The file already holds the text.\<close>

definition holds_text :: "files \<Rightarrow> string \<Rightarrow> string \<Rightarrow> failure + bool" where
  "holds_text fs p t =
     (if existsSync fs p then bind_result (or_errno (readFileSync fs p)) (\<lambda>c. Inr (c = t)) else Inr False)"

lemma holds_text_True: "holds_text fs p t = Inr True \<longleftrightarrow> fs p = Some (Text t)"
  by (auto simp: holds_text_def existsSync_def readFileSync_Inr bind_result_Inr_iff)

lemma holds_text_readable:
  "(\<forall>c. fs p \<noteq> Some (Unreadable c)) \<Longrightarrow> holds_text fs p t = Inr (fs p = Some (Text t))"
  by (auto simp: holds_text_def existsSync_def readFileSync_def split: option.split fs_entry.split)

section \<open>Paths\<close>

text \<open>\<open>path.posix.normalize\<close>: the segments seen so far are kept in reverse.\<close>

fun norm_segments :: "bool \<Rightarrow> string list \<Rightarrow> string list \<Rightarrow> string list" where
  "norm_segments absolute acc [] = rev acc"
| "norm_segments absolute acc (s # ss) =
     (if s = [] \<or> s = ''.'' then norm_segments absolute acc ss
      else if s = ''..'' then
        (case acc of
           [] \<Rightarrow> norm_segments absolute (if absolute then [] else [s]) ss
         | a # acc' \<Rightarrow> norm_segments absolute (if a = ''..'' then s # acc else acc') ss)
      else norm_segments absolute (s # acc) ss)"

definition path_normalize :: "string \<Rightarrow> string" where
  "path_normalize p =
     (if p = [] then ''.''
      else
        let absolute = starts_with p ''/''; trailing = last p = CHR ''/'';
            body = join ''/'' (norm_segments absolute [] (split_on CHR ''/'' p))
        in if body = [] then (if absolute then ''/'' else if trailing then ''./'' else ''.'')
           else (if absolute then ''/'' else []) @ body @ (if trailing then ''/'' else []))"

definition path_join :: "string list \<Rightarrow> string" where
  "path_join parts =
     (let ps = filter (\<lambda>p. p \<noteq> []) parts in if ps = [] then ''.'' else path_normalize (join ''/'' ps))"

text \<open>
  \<open>path.relative\<close>: both paths are made absolute with the working directory, and the common
  prefix of their segments is dropped.
\<close>

definition path_segments :: "string \<Rightarrow> string \<Rightarrow> string list" where
  "path_segments cwd p =
     norm_segments True [] (split_on CHR ''/'' (if starts_with p ''/'' then p else cwd @ ''/'' @ p))"

fun drop_common :: "string list \<Rightarrow> string list \<Rightarrow> string list \<times> string list" where
  "drop_common (a # as) (b # bs) = (if a = b then drop_common as bs else (a # as, b # bs))"
| "drop_common as bs = (as, bs)"

definition path_relative :: "string \<Rightarrow> string \<Rightarrow> string \<Rightarrow> string" where
  "path_relative cwd from_path to_path =
     (case drop_common (path_segments cwd from_path) (path_segments cwd to_path) of
        (up, down) \<Rightarrow> join ''/'' (replicate (length up) ''..'' @ down))"

text \<open>\<open>path.dirname\<close> is only used to create directories and is not needed here.\<close>

subsection \<open>Plain relative paths\<close>

text \<open>A relative path that normalization leaves as it is.\<close>

definition plain_segment :: "string \<Rightarrow> bool" where
  "plain_segment s \<longleftrightarrow> s \<noteq> [] \<and> s \<noteq> ''.'' \<and> s \<noteq> ''..''"

definition plain_path :: "string \<Rightarrow> bool" where
  "plain_path p \<longleftrightarrow> list_all plain_segment (split_on CHR ''/'' p)"

lemma norm_segments_plain:
  "list_all plain_segment ss \<Longrightarrow> norm_segments a acc ss = rev acc @ ss"
  by (induction ss arbitrary: acc) (auto simp: plain_segment_def)

lemma norm_segments_append:
  "norm_segments a acc (xs @ ys) = norm_segments a (rev (norm_segments a acc xs)) ys"
proof (induction xs arbitrary: acc)
  case Nil
  show ?case by simp
next
  case (Cons x xs)
  show ?case by (cases acc) (simp_all add: Cons.IH)
qed

lemma split_on_append_sep: "split_on c (a @ c # b) = split_on c a @ split_on c b"
proof (induction a)
  case Nil
  show ?case by simp
next
  case (Cons x a)
  then show ?case by (cases "split_on c a") auto
qed

lemma join_append:
  "xs \<noteq> [] \<Longrightarrow> ys \<noteq> [] \<Longrightarrow> join s (xs @ ys) = join s xs @ s @ join s ys"
proof (induction xs)
  case (Cons x xs)
  then show ?case by (cases xs; cases ys) auto
qed simp

lemma split_on_last_ne: "split_on c s = ys \<Longrightarrow> last ys \<noteq> [] \<Longrightarrow> s \<noteq> [] \<and> last s \<noteq> c"
proof (induction s arbitrary: ys)
  case Nil
  then show ?case by auto
next
  case (Cons x s)
  obtain y zs where s: "split_on c s = y # zs" by (cases "split_on c s") auto
  show ?case
  proof (cases "s = []")
    case True
    with Cons.prems show ?thesis by (auto split: if_splits)
  next
    case False
    have "last (split_on c s) \<noteq> []"
    proof (cases "x = c")
      case True
      with Cons.prems s show ?thesis by auto
    next
      case x: False
      show ?thesis
      proof (cases zs)
        case Nil
        have "y \<noteq> []" using False s Nil by (cases s) (auto split: if_splits list.splits)
        with s Nil show ?thesis by simp
      next
        case (Cons z zs')
        with Cons.prems s x show ?thesis by auto
      qed
    qed
    with Cons.IH False show ?thesis by auto
  qed
qed

lemma plain_path_ends: "plain_path p \<Longrightarrow> p \<noteq> [] \<and> last p \<noteq> CHR ''/''"
  unfolding plain_path_def
  by (rule split_on_last_ne [OF refl]) (auto simp: list_all_iff plain_segment_def)

text \<open>The directory part of a joined path.\<close>

definition root_prefix :: "string \<Rightarrow> string" where
  "root_prefix root =
     (if root = [] then []
      else
        let absolute = starts_with root ''/''; ss = norm_segments absolute [] (split_on CHR ''/'' root)
        in (if absolute then ''/'' else []) @ (if ss = [] then [] else join ''/'' ss @ ''/''))"

lemma starts_with_slash_append:
  "a \<noteq> [] \<Longrightarrow> starts_with (a @ b) ''/'' \<longleftrightarrow> starts_with a ''/''"
  by (cases a) (auto simp: starts_with_def)

lemma path_normalize_below:
  assumes "plain_path rel"
  shows "path_normalize (root @ ''/'' @ rel) =
    (if starts_with (root @ ''/'') ''/'' then ''/'' else []) @
    (let ss = norm_segments (starts_with (root @ ''/'') ''/'') [] (split_on CHR ''/'' root)
     in if ss = [] then [] else join ''/'' ss @ ''/'') @ rel"
proof -
  let ?abs = "starts_with (root @ ''/'') ''/''"
  let ?ss = "norm_segments ?abs [] (split_on CHR ''/'' root)"
  have plain: "list_all plain_segment (split_on CHR ''/'' rel)"
    using assms by (simp add: plain_path_def)
  have abs: "starts_with (root @ ''/'' @ rel) ''/'' = ?abs"
    by (cases root) (simp_all add: starts_with_def)
  have segs: "norm_segments ?abs [] (split_on CHR ''/'' (root @ ''/'' @ rel)) = ?ss @ split_on CHR ''/'' rel"
    using split_on_append_sep [of "CHR ''/''" root rel] plain
    by (simp add: norm_segments_append norm_segments_plain)
  have body: "join ''/'' (?ss @ split_on CHR ''/'' rel) = (if ?ss = [] then [] else join ''/'' ?ss @ ''/'') @ rel"
    using join_append [of ?ss "split_on CHR ''/'' rel" "''/''"] by (simp add: join_split_on)
  have rel: "rel \<noteq> []" "last rel \<noteq> CHR ''/''" using plain_path_ends [OF assms] by auto
  have "root @ ''/'' @ rel \<noteq> []" "last (root @ ''/'' @ rel) \<noteq> CHR ''/''" using rel by auto
  then show ?thesis
    unfolding path_normalize_def Let_def abs segs body using rel by simp
qed

lemma path_join_plain:
  assumes "plain_path rel"
  shows "path_join [root, rel] = root_prefix root @ rel"
proof (cases "root = []")
  case True
  have rel: "rel \<noteq> []" "last rel \<noteq> CHR ''/''" using plain_path_ends [OF assms] by auto
  have "\<not> starts_with rel ''/''"
  proof
    assume "starts_with rel ''/''"
    then obtain r where "rel = CHR ''/'' # r" by (auto simp: starts_with_iff)
    with assms show False by (simp add: plain_path_def plain_segment_def)
  qed
  moreover have "norm_segments False [] (split_on CHR ''/'' rel) = split_on CHR ''/'' rel"
    using assms norm_segments_plain [of _ False "[]"] by (simp add: plain_path_def)
  ultimately show ?thesis
    using True rel by (simp add: path_join_def path_normalize_def root_prefix_def join_split_on)
next
  case False
  have rel: "rel \<noteq> []" using plain_path_ends [OF assms] by auto
  have "starts_with (root @ ''/'') ''/'' = starts_with root ''/''"
    using False by (rule starts_with_slash_append)
  with False rel path_normalize_below [OF assms, of root] show ?thesis
    by (simp add: path_join_def root_prefix_def Let_def)
qed

lemma path_join_inj:
  "plain_path p \<Longrightarrow> plain_path q \<Longrightarrow> path_join [root, p] = path_join [root, q] \<longleftrightarrow> p = q"
  by (simp add: path_join_plain)

end
