(* ===== verification/InventoryFile.thy ===== *)
theory InventoryFile
  imports Files "HOL-Library.Product_Lexorder"
begin

text \<open>
  The inventory file \<open>appspine.plugins.json\<close>: \<open>plugin-cli/src/inventory-file.ts\<close>.
  The lemmas show that the canonical serialisation forgets the order of the entries, that parsing
  what was serialised gives the entries back in canonical order, and which inventories are refused.
  The compiled Ajv validator of the shipped schema and \<open>JSON.parse\<close> are parameters; a
  failed \<open>JSON.parse\<close> gives the message of its error.
\<close>

section \<open>The environment of the tool\<close>

text \<open>
  The external code the tool calls: what the manifest loader needs, \<open>JSON.parse\<close>, the
  validator of the inventory schema, the collation key that \<open>localeCompare\<close> compares by,
  the names of the environment variables that are set and the working directory.
\<close>

record cli_env =
  ce_loader :: loader_env
  ce_parse :: "string \<Rightarrow> string + jv"
  ce_inventoryAjv :: "jv \<Rightarrow> ajv_error list"
  ce_collate :: "string \<Rightarrow> string"
  ce_processEnv :: "string list"
  ce_cwd :: string

definition INVENTORY_FILENAME :: string where
  "INVENTORY_FILENAME = ''appspine.plugins.json''"

text \<open>The file on disk may also name presets.\<close>

record inventory_file =
  if_presets :: "string list option"
  if_plugins :: "inventory_entry list"

definition pluginIdOf :: "string \<Rightarrow> string" where
  "pluginIdOf pluginRef = after_last CHR ''/'' pluginRef"

section \<open>Diagnostics\<close>

fun severity_rank :: "severity \<Rightarrow> nat" where
  "severity_rank SevError = 0"
| "severity_rank SevWarning = 1"
| "severity_rank SevInfo = 2"

definition inventory_diagnostic_key :: "diagnostic \<Rightarrow> nat \<times> string" where
  "inventory_diagnostic_key d =
     (severity_rank (dg_severity d), join '' '' [coalesce (dg_path d) [], dg_code d, dg_message d])"

definition sort_inventory_diagnostics :: "diagnostic list \<Rightarrow> diagnostic list" where
  "sort_inventory_diagnostics ds = sort_key inventory_diagnostic_key ds"

lemma set_sort_inventory_diagnostics [simp]: "set (sort_inventory_diagnostics ds) = set ds"
  by (simp add: sort_inventory_diagnostics_def)

lemma hasErrors_sort_inventory [simp]: "hasErrors (sort_inventory_diagnostics ds) = hasErrors ds"
  by (simp add: hasErrors_iff)

text \<open>\<open>replace(/\/(\d+)/g, '[$1]').replace(/\//g, '.')\<close>\<close>

function bracket_indices :: "string \<Rightarrow> string" where
  "bracket_indices [] = []"
| "bracket_indices (c # cs) =
     (if c = CHR ''/'' \<and> takeWhile is_digit cs \<noteq> []
      then ''['' @ takeWhile is_digit cs @ '']'' @ bracket_indices (dropWhile is_digit cs)
      else (if c = CHR ''/'' then CHR ''.'' else c) # bracket_indices cs)"
  by pat_completeness auto
termination
  by (relation "measure length") (auto simp: less_Suc_eq_le length_dropWhile_le)

definition schema_violation :: "ajv_error \<Rightarrow> diagnostic" where
  "schema_violation e =
     mk_diagnostic ''inventory-schema-violation'' (coalesce (aj_message e) ''is invalid'')
       (at_path (bracket_indices (''plugins'' @ aj_instancePath e)))"

definition plugins_at :: "nat \<Rightarrow> string \<Rightarrow> string" where
  "plugins_at index field = ''plugins['' @ show_nat index @ ''].'' @ field"

text \<open>One entry of \<open>semanticDiagnostics\<close>; \<open>seen\<close> maps a key to its first index.\<close>

definition semantic_entry ::
    "nat \<times> jv \<Rightarrow> (string \<times> nat) list \<times> diagnostic list \<Rightarrow> (string \<times> nat) list \<times> diagnostic list" where
  "semantic_entry ie st =
     (case ie of (index, entry) \<Rightarrow> case st of (seen, ds) \<Rightarrow>
      case (jget ''plugin'' entry, jget ''instanceId'' entry) of
        (JStr plugin, JStr iid) \<Rightarrow>
          let key = instanceKey (pluginIdOf plugin) iid;
              dup = (case map_of seen key of
                  Some first \<Rightarrow> [mk_diagnostic ''duplicate-instance''
                    (''entries '' @ show_nat first @ '' and '' @ show_nat index @ '' both resolve to instance '' @ quoted key)
                    (of_instance iid (at_path (plugins_at index ''instanceId'')))]
                | None \<Rightarrow> []);
              unused = (if jget ''required'' entry = JBool False \<and> jget ''enabled'' entry = JBool False
                then [mk_diagnostic ''disabled-optional-entry''
                  (quoted key @ '' is disabled, so '' @ quoted ''required: false'' @ '' has no effect'')
                  (with_severity SevInfo (of_instance iid (at_path (plugins_at index ''required''))))]
                else [])
          in (if map_of seen key = None then map_put key index seen else seen, ds @ dup @ unused)
      | _ \<Rightarrow> (seen, ds))"

definition semanticDiagnostics :: "jv \<Rightarrow> diagnostic list" where
  "semanticDiagnostics candidate =
     snd (fold semantic_entry (List.enumerate 0 (array_or_empty (jget ''plugins'' candidate))) ([], []))"

section \<open>Parsing\<close>

definition as_inventory_entry :: "jv \<Rightarrow> inventory_entry" where
  "as_inventory_entry v =
     \<lparr>ie_plugin = as_string (jget ''plugin'' v), ie_instanceId = as_string (jget ''instanceId'' v),
      ie_enabled = as_bool (jget ''enabled'' v), ie_required = as_bool (jget ''required'' v),
      ie_configRef = opt_field as_string ''configRef'' v\<rparr>"

definition as_inventory_file :: "jv \<Rightarrow> inventory_file" where
  "as_inventory_file v =
     \<lparr>if_presets = (let ps = as_strings (jget ''presets'' v) in if ps = [] then None else Some ps),
      if_plugins = map as_inventory_entry (array_or_empty (jget ''plugins'' v))\<rparr>"

text \<open>\<open>Inl ds\<close> is \<open>ok: false\<close>.\<close>

type_synonym parse_inventory_result = "diagnostic list + inventory_file \<times> diagnostic list"

definition parseInventory :: "cli_env \<Rightarrow> jv \<Rightarrow> parse_inventory_result" where
  "parseInventory env v =
     (let diagnostics = map schema_violation (ce_inventoryAjv env v) @ semanticDiagnostics v in
      if hasErrors diagnostics then Inl (sort_inventory_diagnostics diagnostics)
      else Inr (as_inventory_file v, sort_inventory_diagnostics diagnostics))"

definition inventoryPath :: "string \<Rightarrow> string" where
  "inventoryPath appRoot = path_join [appRoot, INVENTORY_FILENAME]"

definition emptyInventory :: inventory_file where
  "emptyInventory = \<lparr>if_presets = None, if_plugins = []\<rparr>"

text \<open>A read error other than \<open>ENOENT\<close> is thrown.\<close>

definition readInventory ::
    "cli_env \<Rightarrow> files \<Rightarrow> string \<Rightarrow> bool \<Rightarrow> failure + parse_inventory_result" where
  "readInventory env fs appRoot createIfMissing =
     (case readFileSync fs (inventoryPath appRoot) of
        Inl code \<Rightarrow>
          if code = ''ENOENT'' then
            (if createIfMissing then Inr (Inr (emptyInventory, []))
             else Inr (Inl [mk_diagnostic ''inventory-not-found''
                (INVENTORY_FILENAME @ '' not found in '' @ appRoot) (at_path INVENTORY_FILENAME)]))
          else Inl (Errno code)
      | Inr raw \<Rightarrow>
          (case ce_parse env raw of
             Inl message \<Rightarrow> Inr (Inl [mk_diagnostic ''inventory-malformed-json''
               (INVENTORY_FILENAME @ '' is not valid JSON: '' @ message) (at_path INVENTORY_FILENAME)])
           | Inr parsed \<Rightarrow> Inr (parseInventory env parsed)))"

section \<open>Canonical serialisation\<close>

definition serial_key :: "inventory_entry \<Rightarrow> string" where
  "serial_key entry = join '' '' [pluginIdOf (ie_plugin entry), ie_instanceId entry]"

definition entry_doc :: "inventory_entry \<Rightarrow> jv" where
  "entry_doc entry = JObj
     ([(''plugin'', JStr (ie_plugin entry)), (''instanceId'', JStr (ie_instanceId entry)),
       (''enabled'', JBool (ie_enabled entry)), (''required'', JBool (ie_required entry))]
      @ (case ie_configRef entry of None \<Rightarrow> [] | Some c \<Rightarrow> [(''configRef'', JStr c)]))"

definition inventory_document :: "inventory_file \<Rightarrow> jv" where
  "inventory_document invf = JObj
     ([(''schemaVersion'', JStr INVENTORY_SCHEMA_VERSION)]
      @ (if coalesce (if_presets invf) [] \<noteq> []
         then [(''presets'', JArr (map JStr (sort (coalesce (if_presets invf) []))))] else [])
      @ [(''plugins'', JArr (map entry_doc (sort_key serial_key (if_plugins invf))))])"

definition serializeInventory :: "inventory_file \<Rightarrow> string" where
  "serializeInventory invf = pretty 0 (inventory_document invf) @ newline"

definition writeInventory :: "files \<Rightarrow> string \<Rightarrow> inventory_file \<Rightarrow> failure + string \<times> files" where
  "writeInventory fs appRoot invf =
     (let serialized = serializeInventory invf in
      bind_result (or_errno (writeFileSync (inventoryPath appRoot) serialized fs)) (\<lambda>gs. Inr (serialized, gs)))"

definition toResolverInventory :: "inventory_file \<Rightarrow> failure + inventory_entry list" where
  "toResolverInventory invf =
     (if coalesce (if_presets invf) [] \<noteq> []
      then Inl (Thrown ''inventory declares presets; expand them with expandPresets() before resolving'')
      else Inr (if_plugins invf))"

section \<open>What is accepted\<close>

text \<open>The instance keys of the entries that name a plugin and an instance.\<close>

definition entry_instance_key :: "jv \<Rightarrow> string option" where
  "entry_instance_key entry =
     (case (jget ''plugin'' entry, jget ''instanceId'' entry) of
        (JStr plugin, JStr iid) \<Rightarrow> Some (instanceKey (pluginIdOf plugin) iid)
      | _ \<Rightarrow> None)"

definition declared_keys :: "jv list \<Rightarrow> string list" where
  "declared_keys entries = List.map_filter entry_instance_key entries"

lemma declared_keys_Cons:
  "declared_keys (e # es) = (case entry_instance_key e of None \<Rightarrow> [] | Some k \<Rightarrow> [k]) @ declared_keys es"
  by (simp add: declared_keys_def List.map_filter_simps split: option.split)

lemma semantic_entry_seen:
  "fst ` set (fst (semantic_entry (n, e) st)) =
     (case entry_instance_key e of None \<Rightarrow> {} | Some k \<Rightarrow> {k}) \<union> fst ` set (fst st)"
proof -
  have put: "fst ` set (map_put k v m) = insert k (fst ` set m)" for k :: string and v :: nat and m
    using arg_cong [OF keys_map_put [of k v m], of set] by simp
  obtain seen ds where st: "st = (seen, ds)" by (cases st)
  show ?thesis
    by (auto simp: st semantic_entry_def entry_instance_key_def Let_def put map_of_eq_None_iff
        split: jv.split)
qed

lemma semantic_entry_errors:
  "hasErrors (snd (semantic_entry (n, e) st)) \<longleftrightarrow>
     hasErrors (snd st) \<or> (\<exists>k. entry_instance_key e = Some k \<and> k \<in> fst ` set (fst st))"
proof -
  obtain seen ds where st: "st = (seen, ds)" by (cases st)
  have "k \<in> fst ` set seen \<longleftrightarrow> map_of seen k \<noteq> None" for k by (simp add: map_of_eq_None_iff)
  then show ?thesis
    by (auto simp: st semantic_entry_def entry_instance_key_def Let_def split: jv.split option.split)
qed

lemma semantic_errors:
  "hasErrors (snd (fold semantic_entry (List.enumerate n es) st)) \<longleftrightarrow>
     hasErrors (snd st) \<or> \<not> distinct (declared_keys es) \<or> set (declared_keys es) \<inter> fst ` set (fst st) \<noteq> {}"
proof (induction es arbitrary: n st)
  case Nil
  show ?case by (simp add: declared_keys_def List.map_filter_simps)
next
  case (Cons e es)
  show ?case
    by (cases "entry_instance_key e")
       (auto simp: Cons.IH semantic_entry_errors semantic_entry_seen declared_keys_Cons)
qed

lemma semanticDiagnostics_errors:
  "hasErrors (semanticDiagnostics c) \<longleftrightarrow> \<not> distinct (declared_keys (array_or_empty (jget ''plugins'' c)))"
  by (simp add: semanticDiagnostics_def semantic_errors)

lemma schema_violation_errors: "hasErrors (map schema_violation es) \<longleftrightarrow> es \<noteq> []"
  by (cases es) (simp_all add: schema_violation_def)

lemma parseInventory_ok_iff:
  "(\<exists>ds. parseInventory env v = Inr (invf, ds)) \<longleftrightarrow>
     ce_inventoryAjv env v = [] \<and> distinct (declared_keys (array_or_empty (jget ''plugins'' v)))
     \<and> invf = as_inventory_file v"
  by (auto simp: parseInventory_def Let_def semanticDiagnostics_errors schema_violation_errors)

section \<open>Reading back what was written\<close>

definition canonical_inventory :: "inventory_file \<Rightarrow> inventory_file" where
  "canonical_inventory invf =
     \<lparr>if_presets = (if coalesce (if_presets invf) [] = [] then None else Some (sort (coalesce (if_presets invf) []))),
      if_plugins = sort_key serial_key (if_plugins invf)\<rparr>"

lemma as_inventory_entry_doc [simp]: "as_inventory_entry (entry_doc e) = e"
  by (cases e) (auto simp: as_inventory_entry_def entry_doc_def jget_def as_string_def jstr_def as_bool_def
      opt_field_def split: option.split)

lemma as_strings_JStr [simp]: "as_strings (JArr (map JStr xs)) = xs"
  by (simp add: as_strings_def array_or_empty_def as_string_def jstr_def comp_def)

lemma as_strings_undefined [simp]: "as_strings JUndefined = []"
  by (simp add: as_strings_def array_or_empty_def)

lemma jget_inventory_document:
  "jget ''plugins'' (inventory_document invf) = JArr (map entry_doc (sort_key serial_key (if_plugins invf)))"
  "jget ''presets'' (inventory_document invf) =
    (if coalesce (if_presets invf) [] = [] then JUndefined
     else JArr (map JStr (sort (coalesce (if_presets invf) []))))"
  by (simp_all add: jget_def inventory_document_def)

lemma as_inventory_file_document: "as_inventory_file (inventory_document invf) = canonical_inventory invf"
  by (auto simp: as_inventory_file_def canonical_inventory_def jget_inventory_document Let_def
      array_or_empty_def comp_def)

lemma entry_instance_key_doc: "entry_instance_key (entry_doc e) = Some (instanceKey (pluginIdOf (ie_plugin e)) (ie_instanceId e))"
  by (simp add: entry_instance_key_def entry_doc_def jget_def)

definition inventory_keys :: "inventory_file \<Rightarrow> string list" where
  "inventory_keys invf = map (\<lambda>e. instanceKey (pluginIdOf (ie_plugin e)) (ie_instanceId e)) (if_plugins invf)"

lemma declared_keys_document:
  "declared_keys (array_or_empty (jget ''plugins'' (inventory_document invf))) =
    map (\<lambda>e. instanceKey (pluginIdOf (ie_plugin e)) (ie_instanceId e)) (sort_key serial_key (if_plugins invf))"
proof -
  have "declared_keys (map entry_doc es) = map (\<lambda>e. instanceKey (pluginIdOf (ie_plugin e)) (ie_instanceId e)) es" for es
    by (induction es) (simp_all add: declared_keys_def List.map_filter_simps entry_instance_key_doc)
  then show ?thesis by (simp add: jget_inventory_document array_or_empty_def)
qed

lemma distinct_sort_map: "distinct (map f (sort_key g xs)) = distinct (map f xs)"
  by (metis mset_sort mset_map mset_eq_imp_distinct_iff)

lemma parse_document:
  assumes "ce_inventoryAjv env (inventory_document invf) = []" "distinct (inventory_keys invf)"
  shows "\<exists>ds. parseInventory env (inventory_document invf) = Inr (canonical_inventory invf, ds)"
  unfolding parseInventory_ok_iff
  using assms by (simp add: declared_keys_document distinct_sort_map inventory_keys_def as_inventory_file_document)

lemma document_canonical [simp]: "inventory_document (canonical_inventory invf) = inventory_document invf"
  by (simp add: inventory_document_def canonical_inventory_def)

lemma serialize_canonical [simp]: "serializeInventory (canonical_inventory invf) = serializeInventory invf"
  by (simp add: serializeInventory_def)

section \<open>Properties\<close>

text \<open>
  \<open>parseInventory\<close> accepts exactly the documents the schema accepts in which no two
  entries resolve to the same instance (\<open>health-check\<close> and
  \<open>@appspine/health-check\<close> collapse to one key), and the accepted inventory is the typed
  view of the document.
\<close>

theorem inventory_accepted_iff:
  "(\<exists>ds. parseInventory env v = Inr (invf, ds)) =
     (ce_inventoryAjv env v = [] \<and> distinct (declared_keys (array_or_empty (jget ''plugins'' v)))
      \<and> invf = as_inventory_file v)"
  by (rule parseInventory_ok_iff)

text \<open>
  C33. Writing an inventory and reading it back gives the same entries and presets in canonical
  order, and writing that again produces the same bytes: the file is a fixed point after one
  write. Hypotheses: the file can be written, the entries resolve to distinct instances, the
  schema accepts the document and \<open>JSON.parse\<close> inverts \<open>JSON.stringify\<close> on it.
\<close>

theorem inventory_write_read_roundtrip:
  assumes "\<forall>c. fs (inventoryPath appRoot) \<noteq> Some (Unreadable c)"
    and "distinct (inventory_keys invf)"
    and "ce_inventoryAjv env (inventory_document invf) = []"
    and "ce_parse env (serializeInventory invf) = Inr (inventory_document invf)"
  shows "\<exists>gs ds. writeInventory fs appRoot invf = Inr (serializeInventory invf, gs)
    \<and> readInventory env gs appRoot missing = Inr (Inr (canonical_inventory invf, ds))
    \<and> writeInventory gs appRoot (canonical_inventory invf) = Inr (serializeInventory invf, gs)"
proof -
  let ?p = "inventoryPath appRoot" and ?t = "serializeInventory invf"
  let ?gs = "fs(?p \<mapsto> Text ?t)"
  have w: "writeFileSync ?p ?t fs = Inr ?gs" "writeFileSync ?p ?t ?gs = Inr ?gs"
    using assms(1) by (simp_all add: writeFileSync_Inr)
  obtain ds where "parseInventory env (inventory_document invf) = Inr (canonical_inventory invf, ds)"
    using parse_document [OF assms(3,2)] by blast
  then have "readInventory env ?gs appRoot missing = Inr (Inr (canonical_inventory invf, ds))"
    using assms(4) by (simp add: readInventory_def readFileSync_def)
  with w show ?thesis by (auto simp: writeInventory_def Let_def)
qed

definition ex_inventory :: inventory_file where
  "ex_inventory = \<lparr>if_presets = Some [''standard''], if_plugins =
     [\<lparr>ie_plugin = ''rbac'', ie_instanceId = ''default'', ie_enabled = True, ie_required = True, ie_configRef = None\<rparr>,
      \<lparr>ie_plugin = ''@appspine/audit-log'', ie_instanceId = ''default'', ie_enabled = True, ie_required = False,
       ie_configRef = Some ''audit''\<rparr>]\<rparr>"

definition ex_cli_env :: "string \<Rightarrow> jv \<Rightarrow> cli_env" where
  "ex_cli_env t v = \<lparr>ce_loader = ex_env, ce_parse = (\<lambda>s. if s = t then Inr v else Inl ''Unexpected token''),
     ce_inventoryAjv = (\<lambda>_. []), ce_collate = (\<lambda>s. s), ce_processEnv = [], ce_cwd = ''/app''\<rparr>"

theorem inventory_write_read_roundtrip_witness:
  "\<exists>gs ds. writeInventory (\<lambda>_. None) ''/app'' ex_inventory = Inr (serializeInventory ex_inventory, gs)
    \<and> readInventory (ex_cli_env (serializeInventory ex_inventory) (inventory_document ex_inventory)) gs ''/app'' False
        = Inr (Inr (canonical_inventory ex_inventory, ds))
    \<and> writeInventory gs ''/app'' (canonical_inventory ex_inventory) = Inr (serializeInventory ex_inventory, gs)"
proof (rule inventory_write_read_roundtrip)
  show "distinct (inventory_keys ex_inventory)" by code_simp
qed (simp_all add: ex_cli_env_def)

text \<open>
  The serialised inventory does not depend on the order in which the entries and the presets
  were listed: two people who make the same edits in a different order produce the same file.
\<close>

theorem serialized_inventory_ignores_order:
  assumes "mset (if_plugins a) = mset (if_plugins b)" and "distinct (map serial_key (if_plugins a))"
    and "mset (coalesce (if_presets a) []) = mset (coalesce (if_presets b) [])"
  shows "serializeInventory a = serializeInventory b"
proof -
  have "sort_key serial_key (if_plugins a) = sort_key serial_key (if_plugins b)"
    using assms(1,2) by (intro sort_key_unique) (simp_all add: distinct_map)
  moreover have "sort (coalesce (if_presets a) []) = sort (coalesce (if_presets b) [])"
    using assms(3) by (rule sort_unique)
  moreover have "coalesce (if_presets a) [] = [] \<longleftrightarrow> coalesce (if_presets b) [] = []"
    using assms(3) by (metis mset_zero_iff)
  ultimately show ?thesis by (simp add: serializeInventory_def inventory_document_def)
qed

theorem serialized_inventory_ignores_order_witness:
  "serializeInventory ex_inventory
     = serializeInventory (ex_inventory\<lparr>if_plugins := rev (if_plugins ex_inventory)\<rparr>)"
proof (rule serialized_inventory_ignores_order)
  show "distinct (map serial_key (if_plugins ex_inventory))" by code_simp
qed simp_all

end
