(* ===== verification/ConfigBoundary.thy ===== *)
theory ConfigBoundary
  imports InventoryFile
begin

text \<open>
  The config and secret boundary of the inventory: \<open>plugin-cli/src/config-boundary.ts\<close>.
  The lemmas show which \<open>configRef\<close>s are refused and that the text of a
  \<open>configRef\<close> that looks like a credential never reaches a diagnostic of this check.
\<close>

section \<open>Values that look like a credential\<close>

text \<open>The white space that \<open>\s\<close> matches, as UTF-8.\<close>

definition js_spaces :: "string list" where
  "js_spaces =
     [[CHR 0x09], [CHR 0x0A], [CHR 0x0B], [CHR 0x0C], [CHR 0x0D], [CHR 0x20], [CHR 0xC2, CHR 0xA0],
      [CHR 0xE1, CHR 0x9A, CHR 0x80]]
     @ map (\<lambda>n. [CHR 0xE2, CHR 0x80, char_of n]) [0x80..<0x8B::nat]
     @ [[CHR 0xE2, CHR 0x80, CHR 0xA8], [CHR 0xE2, CHR 0x80, CHR 0xA9], [CHR 0xE2, CHR 0x80, CHR 0xAF],
        [CHR 0xE2, CHR 0x81, CHR 0x9F], [CHR 0xE3, CHR 0x80, CHR 0x80], [CHR 0xEF, CHR 0xBB, CHR 0xBF]]"

definition is_alnum :: "char \<Rightarrow> bool" where
  "is_alnum c \<longleftrightarrow> is_digit c \<or> is_lower c \<or> is_upper c"

text \<open>\<open>[A-Za-z0-9_-]\<close> and \<open>[A-Za-z0-9+/_-]\<close>\<close>

definition token_char :: "char \<Rightarrow> bool" where
  "token_char c \<longleftrightarrow> is_alnum c \<or> c = CHR ''_'' \<or> c = CHR ''-''"

definition base64_char :: "char \<Rightarrow> bool" where
  "base64_char c \<longleftrightarrow> token_char c \<or> c = CHR ''+'' \<or> c = CHR ''/''"

definition hex_char :: "char \<Rightarrow> bool" where
  "hex_char c \<longleftrightarrow> is_digit c \<or> c \<in> set ''ABCDEFabcdef''"

definition token_run :: "string \<Rightarrow> bool" where
  "token_run s \<longleftrightarrow> s \<noteq> [] \<and> list_all token_char s"

definition ey_segment :: "string \<Rightarrow> bool" where
  "ey_segment s \<longleftrightarrow> starts_with s ''ey'' \<and> token_run (drop 2 s)"

definition jwt_shaped :: "string \<Rightarrow> bool" where
  "jwt_shaped s \<longleftrightarrow>
     (case split_on CHR ''.'' s of
        [h, p] \<Rightarrow> ey_segment h \<and> ey_segment p
      | [h, p, g] \<Rightarrow> ey_segment h \<and> ey_segment p \<and> token_run g
      | _ \<Rightarrow> False)"

definition base64_shaped :: "string \<Rightarrow> bool" where
  "base64_shaped s \<longleftrightarrow>
     (let body = takeWhile (\<lambda>c. c \<noteq> CHR ''='') s; padding = dropWhile (\<lambda>c. c \<noteq> CHR ''='') s
      in length body \<ge> 32 \<and> list_all base64_char body
         \<and> length padding \<le> 2 \<and> list_all (\<lambda>c. c = CHR ''='') padding)"

definition TOKEN_PREFIXES :: "string list" where
  "TOKEN_PREFIXES =
     concat (map (\<lambda>p. [p @ ''-'', p @ ''_''])
       [''sk'', ''pk'', ''ghp'', ''gho'', ''xoxa'', ''xoxb'', ''xoxp'', ''xoxr''])"

definition CREDENTIAL_SHAPED :: "string \<Rightarrow> bool" where
  "CREDENTIAL_SHAPED s \<longleftrightarrow>
     list_ex (contains_str s) js_spaces \<or> contains_str s ''://'' \<or> contains_str s ''-----BEGIN ''
     \<or> jwt_shaped s \<or> base64_shaped s \<or> (length s \<ge> 32 \<and> list_all hex_char s)
     \<or> list_ex (starts_with s) TOKEN_PREFIXES"

section \<open>The boundary check\<close>

definition pluginIdOfRef :: "string \<Rightarrow> string" where
  "pluginIdOfRef pluginRef = after_last CHR ''/'' pluginRef"

definition boundary_at :: "nat \<Rightarrow> inventory_entry \<Rightarrow> diagnostic_extra" where
  "boundary_at index entry = of_instance (ie_instanceId entry) (at_path (plugins_at index ''configRef''))"

definition secret_value_diagnostic :: "nat \<Rightarrow> inventory_entry \<Rightarrow> diagnostic" where
  "secret_value_diagnostic index entry =
     mk_diagnostic ''secret-value-in-inventory''
       (''configRef looks like a value, not a dotted path into the App config. The inventory is committed ''
        @ ''and must never contain a credential; put the value in the environment and reference it from ''
        @ ''appspine.config.ts'')
       (boundary_at index entry)"

definition declared_ref_diagnostics :: "plugin_manifest option \<Rightarrow> nat \<Rightarrow> inventory_entry \<Rightarrow> string \<Rightarrow> diagnostic list" where
  "declared_ref_diagnostics manifest index entry configRef =
     (case manifest of
        None \<Rightarrow> []
      | Some m \<Rightarrow>
          (case mf_configSchema m of
             None \<Rightarrow> [mk_diagnostic ''config-ref-not-declared''
               (quoted (mf_id m) @ '' declares no configSchema, so it takes no configRef'')
               (of_plugin (mf_id m) (boundary_at index entry))]
           | Some declared \<Rightarrow>
               if declared \<noteq> configRef
               then [mk_diagnostic ''config-ref-mismatch''
                 (''inventory configRef '' @ quoted configRef @ '' does not match the manifest'' @ [CHR 0x27]
                   @ ''s '' @ quoted declared)
                 (of_plugin (mf_id m) (boundary_at index entry))]
               else []))"

definition boundary_entry :: "(string \<times> plugin_manifest) list option \<Rightarrow> nat \<Rightarrow> inventory_entry \<Rightarrow> diagnostic list" where
  "boundary_entry manifests index entry =
     (case ie_configRef entry of
        None \<Rightarrow> []
      | Some configRef \<Rightarrow>
          if CREDENTIAL_SHAPED configRef then [secret_value_diagnostic index entry]
          else
            (if list_ex isSecretLookingKey (split_on CHR ''.'' configRef)
             then [mk_diagnostic ''secret-looking-config-ref''
               (''configRef segment names a secret ('' @ quoted configRef @ ''). A configRef points at a config ''
                 @ ''branch; credentials belong in the environment, declared as manifest environment keys'')
               (boundary_at index entry)]
             else [])
            @ declared_ref_diagnostics
                (case manifests of None \<Rightarrow> None | Some ms \<Rightarrow> map_of ms (pluginIdOfRef (ie_plugin entry)))
                index entry configRef)"

definition checkConfigBoundary :: "inventory_entry list \<Rightarrow> (string \<times> plugin_manifest) list option \<Rightarrow> diagnostic list" where
  "checkConfigBoundary plugins manifests =
     concat (map (\<lambda>(index, entry). boundary_entry manifests index entry) (List.enumerate 0 plugins))"

section \<open>Environment keys\<close>

record environment_requirement =
  eq_pluginId :: string
  eq_key :: string
  eq_required :: bool
  eq_secret :: bool
  eq_description :: "string option"

definition requirements_of :: "plugin_manifest \<Rightarrow> environment_requirement list" where
  "requirements_of m =
     map (\<lambda>e. \<lparr>eq_pluginId = mf_id m, eq_key = env_key e, eq_required = env_required e,
            eq_secret = env_secret e,
            eq_description = (if truthy (env_description e) then env_description e else None)\<rparr>)
       (coalesce (mf_environment m) [])"

definition environmentRequirements :: "plugin_manifest list \<Rightarrow> environment_requirement list" where
  "environmentRequirements manifests =
     sort_key (\<lambda>r. join '' '' [eq_pluginId r, eq_key r]) (concat (map requirements_of manifests))"

section \<open>The config stub\<close>

definition em_dash :: string where
  "em_dash = [CHR 0xE2, CHR 0x80, CHR 0x94]"

definition describe :: "environment_entry \<Rightarrow> string" where
  "describe entry =
     (if truthy (env_description entry) then '' '' @ em_dash @ '' '' @ coalesce (env_description entry) [] else [])"

definition sortedEnvironment :: "environment_entry list \<Rightarrow> environment_entry list" where
  "sortedEnvironment environment = sort_key env_key environment"

definition configRefStub :: "string \<Rightarrow> string list" where
  "configRefStub configRef =
     (let segments = split_on CHR ''.'' configRef in
      map (\<lambda>(depth, segment). indent depth @ segment @ '': {'') (List.enumerate 0 segments)
      @ [indent (length segments) @ ''// TODO: values for this plugin'' @ [CHR 0x27] @ ''s config schema.'']
      @ map (\<lambda>depth. indent depth @ ''},'') (rev [0..<length segments]))"

definition environment_line :: "environment_entry \<Rightarrow> string" where
  "environment_line entry =
     ''//   '' @ env_key entry @ '' '' @ em_dash @ '' ''
     @ join '', '' [if env_required entry then ''required'' else ''optional'',
                    if env_secret entry then ''secret'' else ''public'']
     @ describe entry"

definition configStub :: "plugin_manifest \<Rightarrow> string" where
  "configStub m =
     join newline
       ([''// '' @ mf_displayName m @ '' ('' @ mf_id m @ '')'']
        @ (if truthy (mf_configSchema m)
           then [''// Add under `runtime` in appspine.config.ts:''] @ configRefStub (the (mf_configSchema m))
           else [''// No configSchema: this plugin takes no App config.''])
        @ (let environment = coalesce (mf_environment m) [] in
           if environment \<noteq> []
           then [''//'', ''// Environment keys (set by the operator, never in this file):'']
             @ map environment_line (sortedEnvironment environment)
           else []))
     @ newline"

section \<open>What the check refuses and what it tells\<close>

definition ref_refused :: "(string \<times> plugin_manifest) list option \<Rightarrow> inventory_entry \<Rightarrow> bool" where
  "ref_refused manifests entry \<longleftrightarrow>
     (\<exists>c. ie_configRef entry = Some c \<and>
       (CREDENTIAL_SHAPED c \<or> (\<exists>s\<in>set (split_on CHR ''.'' c). isSecretLookingKey s)
        \<or> (\<exists>ms m. manifests = Some ms \<and> map_of ms (pluginIdOfRef (ie_plugin entry)) = Some m
             \<and> mf_configSchema m \<noteq> Some c)))"

lemma boundary_at_severity [simp]: "dx_severity (boundary_at i e) = None"
  by (simp add: boundary_at_def)

lemma boundary_entry_errors: "hasErrors (boundary_entry ms i e) \<longleftrightarrow> ref_refused ms e"
  by (auto simp: boundary_entry_def ref_refused_def secret_value_diagnostic_def declared_ref_diagnostics_def
      list_ex_iff split: option.splits)

lemma checkConfigBoundary_errors:
  "hasErrors (checkConfigBoundary plugins ms) \<longleftrightarrow> (\<exists>e\<in>set plugins. ref_refused ms e)"
  unfolding checkConfigBoundary_def by (rule hasErrors_indexed) (rule boundary_entry_errors)

text \<open>Two entries that differ at most in the text of a credential.\<close>

definition same_but_credential :: "inventory_entry \<Rightarrow> inventory_entry \<Rightarrow> bool" where
  "same_but_credential a b \<longleftrightarrow>
     a = b \<or> (\<exists>c d. ie_configRef a = Some c \<and> ie_configRef b = Some d \<and> CREDENTIAL_SHAPED c \<and> CREDENTIAL_SHAPED d
       \<and> b = a\<lparr>ie_configRef := Some d\<rparr>)"

lemma boundary_entry_blind:
  assumes "same_but_credential a b"
  shows "boundary_entry ms i a = boundary_entry ms i b"
proof -
  consider "a = b" | c d where "ie_configRef a = Some c" "CREDENTIAL_SHAPED c" "CREDENTIAL_SHAPED d"
      "b = a\<lparr>ie_configRef := Some d\<rparr>"
    using assms by (auto simp: same_but_credential_def)
  then show ?thesis
    by cases (simp_all add: boundary_entry_def secret_value_diagnostic_def boundary_at_def)
qed

text \<open>
  The boundary check reports an error exactly when some entry's \<open>configRef\<close> looks like
  a credential, has a segment that names a secret, or is not the one its plugin's manifest declares.
\<close>

theorem boundary_refuses_exactly:
  "hasErrors (checkConfigBoundary plugins ms) =
     (\<exists>e\<in>set plugins. \<exists>c. ie_configRef e = Some c \<and>
       (CREDENTIAL_SHAPED c \<or> (\<exists>s\<in>set (split_on CHR ''.'' c). isSecretLookingKey s)
        \<or> (\<exists>tbl m. ms = Some tbl \<and> map_of tbl (pluginIdOfRef (ie_plugin e)) = Some m
             \<and> mf_configSchema m \<noteq> Some c)))"
  by (simp only: checkConfigBoundary_errors ref_refused_def)

text \<open>
  The text of a \<open>configRef\<close> that looks like a credential does not influence the
  diagnostics of the check: replacing it by any other text of that kind gives the same list, so no
  part of the pasted secret is echoed.
\<close>

theorem boundary_never_echoes_credentials:
  assumes "list_all2 same_but_credential plugins others"
  shows "checkConfigBoundary plugins ms = checkConfigBoundary others ms"
proof -
  have "map (\<lambda>(i, e). boundary_entry ms i e) (List.enumerate n plugins)
      = map (\<lambda>(i, e). boundary_entry ms i e) (List.enumerate n others)" for n
    using assms
    by (induction plugins others arbitrary: n rule: list_all2_induct) (simp_all add: boundary_entry_blind)
  then show ?thesis by (simp add: checkConfigBoundary_def)
qed

definition ex_secret_entry :: "string \<Rightarrow> inventory_entry" where
  "ex_secret_entry c =
     \<lparr>ie_plugin = ''oidc-auth'', ie_instanceId = ''default'', ie_enabled = True, ie_required = True,
      ie_configRef = Some c\<rparr>"

theorem boundary_never_echoes_credentials_witness:
  "checkConfigBoundary [ex_secret_entry ''ghp_A1b2''] None = checkConfigBoundary [ex_secret_entry ''sk-live-1''] None"
proof (rule boundary_never_echoes_credentials)
  have "CREDENTIAL_SHAPED ''ghp_A1b2''" "CREDENTIAL_SHAPED ''sk-live-1''" by code_simp+
  then show "list_all2 same_but_credential [ex_secret_entry ''ghp_A1b2''] [ex_secret_entry ''sk-live-1'']"
    by (simp add: same_but_credential_def ex_secret_entry_def)
qed

end
