(* ===== verification/ManifestSource.thy ===== *)
theory ManifestSource
  imports InventoryFile
begin

text \<open>
  Finding and reading plugin manifests: \<open>plugin-cli/src/manifest-source.ts\<close>.
  The lemmas show where a reference is looked up and with which precedence, and that reading the
  manifests of an inventory sorts every reference into loaded or missing.
\<close>

definition CLI_OFFICIAL_SCOPE :: string where
  "CLI_OFFICIAL_SCOPE = ''@appspine''"

record lookup_options =
  lk_localPluginDirs :: "string list option"
  lk_officialScope :: "string option"

definition default_lookup :: lookup_options where
  "default_lookup = \<lparr>lk_localPluginDirs = None, lk_officialScope = None\<rparr>"

record manifest_location =
  ml_ref :: string
  ml_packageDir :: "string option"
  ml_searched :: "string list"

definition candidateDirs :: "string \<Rightarrow> string \<Rightarrow> lookup_options \<Rightarrow> string list" where
  "candidateDirs appRoot ref opts =
     (let scope = coalesce (lk_officialScope opts) CLI_OFFICIAL_SCOPE;
          modules = path_join [appRoot, ''node_modules'']
      in (if starts_with ref ''@'' then [path_join [modules, ref]]
          else [path_join [modules, scope, ref], path_join [modules, ref]])
         @ map (\<lambda>dir. path_join [appRoot, dir, pluginIdOf ref]) (coalesce (lk_localPluginDirs opts) []))"

definition locateManifest :: "files \<Rightarrow> string \<Rightarrow> string \<Rightarrow> lookup_options \<Rightarrow> manifest_location" where
  "locateManifest fs appRoot ref opts =
     (let searched = candidateDirs appRoot ref opts in
      \<lparr>ml_ref = ref,
       ml_packageDir = find (\<lambda>dir. existsSync fs (path_join [dir, PLUGIN_MANIFEST_FILENAME])) searched,
       ml_searched = searched\<rparr>)"

definition node_of :: "cli_env \<Rightarrow> files \<Rightarrow> node_api" where
  "node_of env fs =
     \<lparr>na_readFile = (\<lambda>p. case readFileSync fs p of Inl code \<Rightarrow> Inl (Some code) | Inr t \<Rightarrow> Inr t),
      na_jsonParse = (\<lambda>t. case ce_parse env t of Inl _ \<Rightarrow> None | Inr v \<Rightarrow> Some v),
      na_pathJoin = (\<lambda>a b. path_join [a, b])\<rparr>"

definition no_load_options :: load_options where
  "no_load_options = \<lparr>lo_strict = False, lo_host = None, lo_expectedDigest = None, lo_manifestFilename = None\<rparr>"


text \<open>
  \<open>Inl ds\<close> is \<open>ok: false\<close>; otherwise the loaded manifest, the directory it
  was read from and its diagnostics. No host engine is passed to the loader.
\<close>

definition readManifestFor ::
    "cli_env \<Rightarrow> files \<Rightarrow> string \<Rightarrow> string \<Rightarrow> lookup_options \<Rightarrow>
     failure + (diagnostic list + loaded_manifest \<times> string \<times> diagnostic list)" where
  "readManifestFor env fs appRoot ref opts =
     (let location = locateManifest fs appRoot ref opts in
      case ml_packageDir location of
        None \<Rightarrow>
          let shown = map (\<lambda>dir. let r = path_relative (ce_cwd env) appRoot dir in if r = [] then dir else r)
                (ml_searched location)
          in Inr (Inl [mk_diagnostic ''plugin-package-not-found''
               (''no appspine.plugin.json for '' @ quoted ref @ ''. Looked in: '' @ join '', '' shown
                 @ ''. Install the package first'') (at_path ref)])
      | Some dir \<Rightarrow>
          bind_result (lift_exn (loadPluginManifest (node_of env fs) (ce_loader env) dir no_load_options)) (\<lambda>r.
            Inr (case r of
                Inl ds \<Rightarrow> Inl ds
              | Inr loaded \<Rightarrow> Inr (loaded, dir, lm_diagnostics loaded))))"

section \<open>All manifests of an inventory\<close>

record manifest_set =
  ms_byRef :: "(string \<times> loaded_manifest) list"
  ms_byPluginId :: "(string \<times> plugin_manifest) list"
  ms_packageDirs :: "(string \<times> string) list"
  ms_diagnostics :: "diagnostic list"
  ms_missing :: "string list"

definition empty_manifests :: manifest_set where
  "empty_manifests = \<lparr>ms_byRef = [], ms_byPluginId = [], ms_packageDirs = [], ms_diagnostics = [], ms_missing = []\<rparr>"

definition add_manifest ::
    "cli_env \<Rightarrow> files \<Rightarrow> string \<Rightarrow> lookup_options \<Rightarrow> string \<Rightarrow> manifest_set \<Rightarrow> failure + manifest_set" where
  "add_manifest env fs appRoot opts ref st =
     bind_result (readManifestFor env fs appRoot ref opts) (\<lambda>r.
       Inr (case r of
           Inl ds \<Rightarrow> st\<lparr>ms_diagnostics := ms_diagnostics st @ ds, ms_missing := ms_missing st @ [ref]\<rparr>
         | Inr (loaded, dir, ds) \<Rightarrow>
             st\<lparr>ms_byRef := map_put ref loaded (ms_byRef st),
                ms_byPluginId := map_put (mf_id (lm_manifest loaded)) (lm_manifest loaded) (ms_byPluginId st),
                ms_packageDirs := map_put (lm_packageName loaded) dir (ms_packageDirs st),
                ms_diagnostics := ms_diagnostics st @ ds\<rparr>))"

definition readManifestsFor ::
    "cli_env \<Rightarrow> files \<Rightarrow> string \<Rightarrow> string list \<Rightarrow> lookup_options \<Rightarrow> failure + manifest_set" where
  "readManifestsFor env fs appRoot refs opts =
     foldM (add_manifest env fs appRoot opts) (sort (set_of refs)) empty_manifests"

section \<open>What is found\<close>

text \<open>A reference is missing or loaded, never both, and the loaded ones are what reading them gives.\<close>

definition reads_as :: "cli_env \<Rightarrow> files \<Rightarrow> string \<Rightarrow> lookup_options \<Rightarrow> string \<Rightarrow> loaded_manifest \<Rightarrow> bool" where
  "reads_as env fs appRoot opts ref loaded \<longleftrightarrow>
     (\<exists>dir ds. readManifestFor env fs appRoot ref opts = Inr (Inr (loaded, dir, ds)))"

lemma foldM_add_manifest:
  "foldM (add_manifest env fs appRoot opts) refs st = Inr t \<Longrightarrow> distinct refs \<Longrightarrow>
     set refs \<inter> fst ` set (ms_byRef st) = {} \<Longrightarrow> set refs \<inter> set (ms_missing st) = {} \<Longrightarrow>
     set (ms_missing t) = set (ms_missing st) \<union> {r\<in>set refs. \<forall>l. \<not> reads_as env fs appRoot opts r l}
     \<and> (\<forall>r l. map_of (ms_byRef t) r = Some l \<longleftrightarrow>
          map_of (ms_byRef st) r = Some l \<or> r \<in> set refs \<and> reads_as env fs appRoot opts r l)"
proof (induction refs arbitrary: st)
  case Nil
  then show ?case by simp
next
  case (Cons ref refs)
  from Cons.prems(1) obtain u where u: "add_manifest env fs appRoot opts ref st = Inr u"
    "foldM (add_manifest env fs appRoot opts) refs u = Inr t" by (cases "add_manifest env fs appRoot opts ref st") auto
  from u(1) obtain r where r: "readManifestFor env fs appRoot ref opts = Inr r"
    by (cases "readManifestFor env fs appRoot ref opts") (auto simp: add_manifest_def)
  show ?case
  proof (cases r)
    case (Inl ds)
    have u': "ms_missing u = ms_missing st @ [ref]" "ms_byRef u = ms_byRef st"
      using u(1) r Inl by (auto simp: add_manifest_def)
    have n: "\<not> reads_as env fs appRoot opts ref l" for l using r Inl by (simp add: reads_as_def)
    have ih: "set (ms_missing t) = set (ms_missing u) \<union> {r\<in>set refs. \<forall>l. \<not> reads_as env fs appRoot opts r l}"
      "\<forall>r l. map_of (ms_byRef t) r = Some l \<longleftrightarrow>
          map_of (ms_byRef u) r = Some l \<or> r \<in> set refs \<and> reads_as env fs appRoot opts r l"
      using Cons.IH [OF u(2)] Cons.prems(2-4) by (auto simp: u')
    show ?thesis using ih n by (auto simp: u')
  next
    case (Inr ok)
    obtain loaded dir ds where ok: "ok = (loaded, dir, ds)" by (cases ok)
    have u': "ms_missing u = ms_missing st" "ms_byRef u = map_put ref loaded (ms_byRef st)"
      using u(1) r Inr ok by (auto simp: add_manifest_def)
    have y: "reads_as env fs appRoot opts ref l \<longleftrightarrow> l = loaded" for l using r Inr ok by (auto simp: reads_as_def)
    have k: "fst ` set (ms_byRef u) = insert ref (fst ` set (ms_byRef st))"
      using arg_cong [OF keys_map_put [of ref loaded "ms_byRef st"], of set] by (simp add: u')
    have ih: "set (ms_missing t) = set (ms_missing u) \<union> {r\<in>set refs. \<forall>l. \<not> reads_as env fs appRoot opts r l}"
      "\<forall>r l. map_of (ms_byRef t) r = Some l \<longleftrightarrow>
          map_of (ms_byRef u) r = Some l \<or> r \<in> set refs \<and> reads_as env fs appRoot opts r l"
      using Cons.IH [OF u(2)] Cons.prems(2-4) k by (auto simp: u')
    have "map_of (ms_byRef st) ref = None" using Cons.prems(3) by (auto simp: map_of_eq_None_iff)
    with ih y Cons.prems(2) show ?thesis by (auto simp: u' map_of_map_put)
  qed
qed

lemma readManifestsFor_byRef:
  assumes "readManifestsFor env fs appRoot refs opts = Inr ms"
  shows "map_of (ms_byRef ms) r = Some l \<longleftrightarrow> r \<in> set refs \<and> reads_as env fs appRoot opts r l"
    and "set (ms_missing ms) = {r\<in>set refs. \<forall>l. \<not> reads_as env fs appRoot opts r l}"
  using foldM_add_manifest [of env fs appRoot opts "sort (set_of refs)" empty_manifests ms] assms
  by (auto simp: readManifestsFor_def empty_manifests_def)

lemma readManifestsFor_cong: "set refs = set refs' \<Longrightarrow> readManifestsFor env fs appRoot refs opts = readManifestsFor env fs appRoot refs' opts"
  by (simp only: readManifestsFor_def sort_set_of_cong [of refs refs'])

text \<open>
  After reading the manifests of a list of references, every reference is either loaded or
  listed as missing and never both; a loaded one is exactly what reading that reference gives.
\<close>

theorem manifests_loaded_or_missing:
  assumes "readManifestsFor env fs appRoot refs opts = Inr ms"
  shows "set (ms_missing ms) \<union> fst ` set (ms_byRef ms) = set refs
    \<and> set (ms_missing ms) \<inter> fst ` set (ms_byRef ms) = {}
    \<and> (\<forall>r l. map_of (ms_byRef ms) r = Some l \<longrightarrow>
          (\<exists>dir ds. readManifestFor env fs appRoot r opts = Inr (Inr (l, dir, ds))))"
proof -
  have loaded: "r \<in> fst ` set (ms_byRef ms) \<longleftrightarrow> r \<in> set refs \<and> (\<exists>l. reads_as env fs appRoot opts r l)" for r
  proof -
    have "r \<in> fst ` set (ms_byRef ms) \<longleftrightarrow> (\<exists>l. map_of (ms_byRef ms) r = Some l)"
      using map_of_eq_None_iff [of "ms_byRef ms" r] by (cases "map_of (ms_byRef ms) r") simp_all
    also have "\<dots> \<longleftrightarrow> r \<in> set refs \<and> (\<exists>l. reads_as env fs appRoot opts r l)"
      by (simp add: readManifestsFor_byRef(1) [OF assms])
    finally show ?thesis .
  qed
  have missing: "r \<in> set (ms_missing ms) \<longleftrightarrow> r \<in> set refs \<and> \<not> (\<exists>l. reads_as env fs appRoot opts r l)" for r
    by (simp add: readManifestsFor_byRef(2) [OF assms])
  have "set (ms_missing ms) \<union> fst ` set (ms_byRef ms) = set refs"
    "set (ms_missing ms) \<inter> fst ` set (ms_byRef ms) = {}"
    using loaded missing by blast+
  then show ?thesis by (simp add: readManifestsFor_byRef(1) [OF assms] reads_as_def)
qed

section \<open>An example application\<close>

definition files_of :: "(string \<times> string) list \<Rightarrow> files" where
  "files_of ps p = map_option Text (map_of ps p)"

text \<open>\<open>JSON.parse\<close> on the texts of a table.\<close>

definition parse_table :: "(string \<times> jv) list \<Rightarrow> string \<Rightarrow> string + jv" where
  "parse_table ps t = (case map_of ps t of Some v \<Rightarrow> Inr v | None \<Rightarrow> Inl ''Unexpected end of JSON input'')"

definition table_env :: "(string \<times> jv) list \<Rightarrow> cli_env" where
  "table_env ps = \<lparr>ce_loader = ex_env, ce_parse = parse_table ps, ce_inventoryAjv = (\<lambda>_. []),
     ce_collate = (\<lambda>s. s), ce_processEnv = [], ce_cwd = ''/app''\<rparr>"

definition ex_modules :: "(string \<times> string) list" where
  "ex_modules =
     [(''/app/node_modules/@appspine/notes/appspine.plugin.json'', ''M''),
      (''/app/node_modules/@appspine/notes/package.json'', ''P'')]"

definition ex_package :: jv where
  "ex_package = JObj [(''name'', JStr ''@appspine/notes''), (''version'', JStr ''1.0.0'')]"

definition ex_texts :: "(string \<times> jv) list" where
  "ex_texts = [(''M'', ex_doc), (''P'', ex_package)]"

theorem manifests_loaded_or_missing_witness:
  "\<exists>ms. readManifestsFor (table_env ex_texts) (files_of ex_modules) ''/app'' [''rbac'', ''notes''] default_lookup = Inr ms
    \<and> set (ms_missing ms) \<union> fst ` set (ms_byRef ms) = {''rbac'', ''notes''}"
proof -
  have "is_ok (readManifestsFor (table_env ex_texts) (files_of ex_modules) ''/app'' [''rbac'', ''notes''] default_lookup)"
    by code_simp
  then obtain ms where ms: "readManifestsFor (table_env ex_texts) (files_of ex_modules) ''/app''
      [''rbac'', ''notes''] default_lookup = Inr ms"
    by (auto simp: is_ok_def split: sum.splits)
  from manifests_loaded_or_missing [OF ms] ms show ?thesis by auto
qed

end
