(* ===== verification/Presets.thy ===== *)
theory Presets
  imports InventoryFile
begin

text \<open>
  Preset expansion: \<open>plugin-cli/src/preset.ts\<close>.
  The lemmas show that an explicit entry always wins, that a preset only contributes entries and
  that the provenance names exactly the entries that came from a preset.
\<close>

definition PRESET_FILENAME :: string where
  "PRESET_FILENAME = ''appspine.preset.json''"

definition PRESET_SCHEMA_VERSION :: string where
  "PRESET_SCHEMA_VERSION = ''appspine.preset/v1''"

text \<open>
  A preset document is read without validation: it stays a JSON value until its fields are read.
\<close>

record loaded_preset =
  lp_packageName :: string
  lp_packageVersion :: string
  lp_document :: jv

record expanded_inventory =
  ex_entries :: "inventory_entry list"
  ex_provenance :: "(string \<times> string) list"
  ex_presets :: "loaded_preset list"
  ex_diagnostics :: "diagnostic list"

section \<open>Reading a preset\<close>

definition parse_file :: "cli_env \<Rightarrow> files \<Rightarrow> string \<Rightarrow> jv option" where
  "parse_file env fs p =
     (case readFileSync fs p of
        Inl _ \<Rightarrow> None
      | Inr t \<Rightarrow> (case ce_parse env t of Inl _ \<Rightarrow> None | Inr v \<Rightarrow> Some v))"

text \<open>
  \<open>packageJson.version\<close> of \<open>null\<close> throws, which the \<open>catch\<close> turns into
  \<open>null\<close> like every other failure. The version is a string by its declared type.
\<close>

definition readPreset :: "cli_env \<Rightarrow> files \<Rightarrow> string \<Rightarrow> string \<Rightarrow> loaded_preset option" where
  "readPreset env fs appRoot packageName =
     (let dir = path_join [appRoot, ''node_modules'', packageName];
          presetPath = path_join [dir, PRESET_FILENAME];
          packageJsonPath = path_join [dir, ''package.json'']
      in if \<not> existsSync fs presetPath \<or> \<not> existsSync fs packageJsonPath then None
         else (case (parse_file env fs presetPath, parse_file env fs packageJsonPath) of
             (Some document, Some packageJson) \<Rightarrow>
               if packageJson = JNull then None
               else Some \<lparr>lp_packageName = packageName,
                 lp_packageVersion =
                   (if nullish (jget ''version'' packageJson) then ''0.0.0-unknown''
                    else to_text (jget ''version'' packageJson)),
                 lp_document = document\<rparr>
           | _ \<Rightarrow> None))"

section \<open>Expansion\<close>

definition keyOf :: "inventory_entry \<Rightarrow> string" where
  "keyOf entry = instanceKey (pluginIdOf (ie_plugin entry)) (ie_instanceId entry)"

text \<open>
  An entry of a preset. Reading a field of \<open>null\<close> throws, and so does
  \<open>pluginIdOf\<close> of something that is not a string; the other fields have their declared types.
\<close>

definition preset_entry :: "jv \<Rightarrow> failure + inventory_entry" where
  "preset_entry v =
     (case jget ''plugin'' v of
        JStr plugin \<Rightarrow>
          Inr \<lparr>ie_plugin = plugin, ie_instanceId = as_string (jget ''instanceId'' v), ie_enabled = True,
               ie_required = as_bool (jget ''required'' v),
               ie_configRef = (if jtruthy (jget ''configRef'' v) then Some (as_string (jget ''configRef'' v)) else None)\<rparr>
      | _ \<Rightarrow> Inl (LoaderThrow TypeError))"

text \<open>The state of the loops: the entries by key, the provenance, the presets, the diagnostics.\<close>

record expansion =
  xp_byKey :: "(string \<times> inventory_entry) list"
  xp_provenance :: "(string \<times> string) list"
  xp_presets :: "loaded_preset list"
  xp_diagnostics :: "diagnostic list"

definition empty_expansion :: expansion where
  "empty_expansion = \<lparr>xp_byKey = [], xp_provenance = [], xp_presets = [], xp_diagnostics = []\<rparr>"

definition say :: "diagnostic \<Rightarrow> expansion \<Rightarrow> expansion" where
  "say d st = st\<lparr>xp_diagnostics := xp_diagnostics st @ [d]\<rparr>"

definition overlap_diagnostic :: "string \<Rightarrow> string \<Rightarrow> string \<Rightarrow> diagnostic" where
  "overlap_diagnostic key previous packageName =
     mk_diagnostic ''preset-overlap''
       (quoted key @ '' is contributed by both '' @ previous @ '' and '' @ packageName
         @ ''. Name it explicitly in appspine.plugins.json to say which you mean'')
       (at_path ''presets'')"

definition contribute :: "string \<Rightarrow> inventory_entry \<Rightarrow> expansion \<Rightarrow> expansion" where
  "contribute packageName entry st =
     (let key = keyOf entry in
      case map_of (xp_provenance st) key of
        Some previous \<Rightarrow>
          if previous \<noteq> [] \<and> previous \<noteq> packageName then say (overlap_diagnostic key previous packageName) st
          else st\<lparr>xp_byKey := map_put key entry (xp_byKey st),
                  xp_provenance := map_put key packageName (xp_provenance st)\<rparr>
      | None \<Rightarrow> st\<lparr>xp_byKey := map_put key entry (xp_byKey st),
                  xp_provenance := map_put key packageName (xp_provenance st)\<rparr>)"

definition contribute_value :: "string \<Rightarrow> jv \<Rightarrow> expansion \<Rightarrow> failure + expansion" where
  "contribute_value packageName v st = bind_result (preset_entry v) (\<lambda>e. Inr (contribute packageName e st))"

definition expand_preset :: "cli_env \<Rightarrow> files \<Rightarrow> string \<Rightarrow> string \<Rightarrow> expansion \<Rightarrow> failure + expansion" where
  "expand_preset env fs appRoot packageName st =
     (case readPreset env fs appRoot packageName of
        None \<Rightarrow> Inr (say (mk_diagnostic ''preset-not-found''
            (''no '' @ PRESET_FILENAME @ '' in node_modules/'' @ packageName @ ''. Install the preset package first'')
            (at_path ''presets'')) st)
      | Some preset \<Rightarrow>
          if lp_document preset = JNull then Inl (LoaderThrow TypeError)
          else if jget ''schemaVersion'' (lp_document preset) \<noteq> JStr PRESET_SCHEMA_VERSION
          then Inr (say (mk_diagnostic ''preset-schema-version-unsupported''
            (packageName @ '' declares '' @ to_text (jget ''schemaVersion'' (lp_document preset))
              @ ''; this CLI understands '' @ PRESET_SCHEMA_VERSION) (at_path ''presets'')) st)
          else bind_result (lift_exn (iterate (jget ''plugins'' (lp_document preset)))) (\<lambda>entries.
            foldM (contribute_value packageName) entries (st\<lparr>xp_presets := xp_presets st @ [preset]\<rparr>)))"

definition declare_entry :: "inventory_entry \<Rightarrow> expansion \<Rightarrow> expansion" where
  "declare_entry entry st =
     (let key = keyOf entry;
          st' = (case map_of (xp_provenance st) key of
              Some owner \<Rightarrow>
                (say (mk_diagnostic ''preset-entry-overridden''
                  (quoted key @ '' comes from '' @ owner @ '', and appspine.plugins.json overrides it'')
                  (with_severity SevInfo (at_path ''plugins''))) st)
                \<lparr>xp_provenance := map_del key (xp_provenance st)\<rparr>
            | None \<Rightarrow> st)
      in st'\<lparr>xp_byKey := map_put key entry (xp_byKey st')\<rparr>)"

definition expandPresets :: "cli_env \<Rightarrow> files \<Rightarrow> string \<Rightarrow> inventory_file \<Rightarrow> failure + expanded_inventory" where
  "expandPresets env fs appRoot inventory =
     bind_result (foldM (expand_preset env fs appRoot) (sort (coalesce (if_presets inventory) [])) empty_expansion) (\<lambda>st.
       let t = fold declare_entry (if_plugins inventory) st in
       Inr \<lparr>ex_entries = sort_key serial_key (map snd (xp_byKey t)), ex_provenance = xp_provenance t,
            ex_presets = xp_presets t, ex_diagnostics = xp_diagnostics t\<rparr>)"

section \<open>The summary\<close>

record preset_summary =
  psm_package :: string
  psm_version :: string
  psm_id :: jv
  psm_contributes :: "string list"

definition presetSummary :: "expanded_inventory \<Rightarrow> preset_summary list" where
  "presetSummary expanded =
     sort_key psm_package (map (\<lambda>preset.
       \<lparr>psm_package = lp_packageName preset, psm_version = lp_packageVersion preset,
        psm_id = jget ''id'' (lp_document preset),
        psm_contributes =
          sort (map fst (filter (\<lambda>(_, owner). owner = lp_packageName preset) (ex_provenance expanded)))\<rparr>)
       (ex_presets expanded))"

section \<open>The invariant of the expansion\<close>

text \<open>\<open>D\<close> is the set of instance keys the App has declared so far.\<close>

definition expansion_ok :: "string set \<Rightarrow> expansion \<Rightarrow> bool" where
  "expansion_ok D st \<longleftrightarrow>
     distinct (map fst (xp_byKey st)) \<and> (\<forall>p\<in>set (xp_byKey st). keyOf (snd p) = fst p)
     \<and> distinct (map fst (xp_provenance st)) \<and> fst ` set (xp_provenance st) = fst ` set (xp_byKey st) - D
     \<and> snd ` set (xp_provenance st) \<subseteq> lp_packageName ` set (xp_presets st)"

lemma keys_set_map_put: "fst ` set (map_put k v m) = insert k (fst ` set m)"
  using arg_cong [OF keys_map_put [of k v m], of set] by simp

lemma set_map_put_subset: "set (map_put k v m) \<subseteq> insert (k, v) (set m)"
  by (induction k v m rule: map_put.induct) auto

lemma vals_map_put: "snd ` set (map_put k v m) \<subseteq> insert v (snd ` set m)"
  by (induction k v m rule: map_put.induct) auto

lemma vals_map_del: "snd ` set (map_del k m) \<subseteq> snd ` set m"
  by (auto simp: map_del_def)

lemma distinct_map_put: "distinct (map fst m) \<Longrightarrow> distinct (map fst (map_put k v m))"
  by (simp add: keys_map_put)

lemma keys_set_map_del: "fst ` set (map_del k m) = fst ` set m - {k}"
  by (auto simp: map_del_def)

lemma say_sel [simp]:
  "xp_byKey (say d st) = xp_byKey st" "xp_provenance (say d st) = xp_provenance st"
  "xp_presets (say d st) = xp_presets st" "xp_diagnostics (say d st) = xp_diagnostics st @ [d]"
  by (simp_all add: say_def)

lemma expansion_ok_say [simp]: "expansion_ok D (say d st) = expansion_ok D st"
  by (simp add: expansion_ok_def)

lemma expansion_ok_put:
  assumes "expansion_ok {} st" "packageName \<in> lp_packageName ` set (xp_presets st)"
  shows "expansion_ok {} (st\<lparr>xp_byKey := map_put (keyOf e) e (xp_byKey st),
                  xp_provenance := map_put (keyOf e) packageName (xp_provenance st)\<rparr>)"
proof -
  have "\<forall>p\<in>set (map_put (keyOf e) e (xp_byKey st)). keyOf (snd p) = fst p"
    using assms(1) set_map_put_subset [of "keyOf e" e "xp_byKey st"] by (auto simp: expansion_ok_def)
  moreover have "snd ` set (map_put (keyOf e) packageName (xp_provenance st)) \<subseteq> lp_packageName ` set (xp_presets st)"
    using assms vals_map_put [of "keyOf e" packageName "xp_provenance st"]
    unfolding expansion_ok_def by blast
  ultimately show ?thesis
    using assms(1) by (simp add: expansion_ok_def distinct_map_put keys_set_map_put)
qed

lemma contribute_ok:
  assumes "expansion_ok {} st" "packageName \<in> lp_packageName ` set (xp_presets st)"
  shows "expansion_ok {} (contribute packageName e st) \<and> xp_presets (contribute packageName e st) = xp_presets st"
  using expansion_ok_put [OF assms, of e] assms(1)
  by (simp add: contribute_def Let_def split: option.split)

lemma foldM_contribute_ok:
  assumes "foldM (contribute_value packageName) es st = Inr t"
    and "expansion_ok {} st" "packageName \<in> lp_packageName ` set (xp_presets st)"
  shows "expansion_ok {} t"
proof -
  have "expansion_ok {} t \<and> packageName \<in> lp_packageName ` set (xp_presets t)"
  proof (rule foldM_invariant [OF assms(1)])
    show "expansion_ok {} st \<and> packageName \<in> lp_packageName ` set (xp_presets st)" using assms(2,3) by simp
  next
    fix v s s'
    assume s: "expansion_ok {} s \<and> packageName \<in> lp_packageName ` set (xp_presets s)"
      and v: "contribute_value packageName v s = Inr s'"
    from v obtain e where e: "s' = contribute packageName e s" by (auto simp: contribute_value_def bind_result_Inr_iff)
    show "expansion_ok {} s' \<and> packageName \<in> lp_packageName ` set (xp_presets s')"
      using contribute_ok [of s packageName e] s unfolding e by simp
  qed
  then show ?thesis by simp
qed

lemma readPreset_name: "readPreset env fs appRoot n = Some p \<Longrightarrow> lp_packageName p = n"
  by (auto simp: readPreset_def Let_def split: if_splits option.splits)

lemma expand_preset_ok:
  assumes "expand_preset env fs appRoot n st = Inr t" "expansion_ok {} st"
  shows "expansion_ok {} t"
proof (cases "readPreset env fs appRoot n")
  case None
  with assms show ?thesis by (auto simp: expand_preset_def)
next
  case (Some p)
  let ?u = "st\<lparr>xp_presets := xp_presets st @ [p]\<rparr>"
  have u: "expansion_ok {} ?u" "n \<in> lp_packageName ` set (xp_presets ?u)"
    using assms(2) readPreset_name [OF Some] by (auto simp: expansion_ok_def)
  from assms(1) Some consider d where "t = say d st"
    | es where "foldM (contribute_value n) es ?u = Inr t"
    by (auto simp: expand_preset_def bind_result_Inr_iff split: if_splits)
  then show ?thesis
    using assms(2) foldM_contribute_ok [OF _ u] by cases auto
qed

lemma foldM_expand_preset_ok:
  "foldM (expand_preset env fs appRoot) ns st = Inr t \<Longrightarrow> expansion_ok {} st \<Longrightarrow> expansion_ok {} t"
  by (erule foldM_invariant) (auto intro: expand_preset_ok)

lemma declare_entry_sel:
  "xp_byKey (declare_entry e st) = map_put (keyOf e) e (xp_byKey st)"
  "xp_provenance (declare_entry e st) =
     (if map_of (xp_provenance st) (keyOf e) = None then xp_provenance st else map_del (keyOf e) (xp_provenance st))"
  "xp_presets (declare_entry e st) = xp_presets st"
  by (simp_all add: declare_entry_def Let_def split: option.split)

lemma declare_entry_diagnostics: "\<exists>ds. xp_diagnostics (declare_entry e st) = xp_diagnostics st @ ds"
  by (simp add: declare_entry_def Let_def split: option.split)

lemma declare_entry_ok:
  assumes "expansion_ok D st"
  shows "expansion_ok (insert (keyOf e) D) (declare_entry e st)"
proof -
  have k: "\<forall>p\<in>set (map_put (keyOf e) e (xp_byKey st)). keyOf (snd p) = fst p"
    using assms set_map_put_subset [of "keyOf e" e "xp_byKey st"] by (auto simp: expansion_ok_def)
  have n: "map_of (xp_provenance st) (keyOf e) = None \<longleftrightarrow> keyOf e \<notin> fst ` set (xp_provenance st)"
    by (simp add: map_of_eq_None_iff)
  have d: "snd ` set (map_del (keyOf e) (xp_provenance st)) \<subseteq> lp_packageName ` set (xp_presets st)"
    by (rule subset_trans [OF vals_map_del]) (use assms in \<open>simp add: expansion_ok_def\<close>)
  show ?thesis
  proof (cases "keyOf e \<in> fst ` set (xp_provenance st)")
    case True
    have "fst ` set (xp_provenance st) - {keyOf e} = insert (keyOf e) (fst ` set (xp_byKey st)) - insert (keyOf e) D"
      using conjunct1 [OF conjunct2 [OF conjunct2 [OF conjunct2 [OF assms [unfolded expansion_ok_def]]]]]
      by (simp only:) blast
    moreover have "xp_provenance (declare_entry e st) = map_del (keyOf e) (xp_provenance st)"
      unfolding declare_entry_sel n using True by (simp only: not_True_eq_False if_False)
    ultimately show ?thesis
      using k d assms by (simp add: expansion_ok_def declare_entry_sel(1,3) distinct_map_put keys_set_map_put keys_set_map_del
          distinct_map_del)
  next
    case False
    have "fst ` set (xp_provenance st) = insert (keyOf e) (fst ` set (xp_byKey st)) - insert (keyOf e) D"
      using False conjunct1 [OF conjunct2 [OF conjunct2 [OF conjunct2 [OF assms [unfolded expansion_ok_def]]]]]
      by (simp only:) blast
    moreover have "xp_provenance (declare_entry e st) = xp_provenance st"
      unfolding declare_entry_sel n using False by (simp only: not_False_eq_True if_True)
    ultimately show ?thesis
      using k assms by (simp add: expansion_ok_def declare_entry_sel(1,3) distinct_map_put keys_set_map_put)
  qed
qed

lemma fold_declare_ok:
  "expansion_ok D st \<Longrightarrow> expansion_ok (keyOf ` set es \<union> D) (fold declare_entry es st)"
proof (induction es arbitrary: D st)
  case (Cons e es)
  from Cons.IH [OF declare_entry_ok [OF Cons.prems]] show ?case by (simp add: Un_insert_right)
qed simp

lemma fold_declare_byKey:
  "map_of (xp_byKey (fold declare_entry es st)) k =
     (case map_of (rev (map (\<lambda>e. (keyOf e, e)) es)) k of None \<Rightarrow> map_of (xp_byKey st) k | Some e \<Rightarrow> Some e)"
  by (induction es arbitrary: st)
     (auto simp: declare_entry_sel map_of_map_put map_add_def split: option.splits)

lemma fold_declare_keys: "fst ` set (xp_byKey (fold declare_entry es st)) = keyOf ` set es \<union> fst ` set (xp_byKey st)"
  by (induction es arbitrary: st) (auto simp: declare_entry_sel keys_set_map_put)

lemma fold_declare_presets: "xp_presets (fold declare_entry es st) = xp_presets st"
  by (induction es arbitrary: st) (simp_all add: declare_entry_sel)

lemma fold_declare_diagnostics: "\<exists>ds. xp_diagnostics (fold declare_entry es st) = xp_diagnostics st @ ds"
proof (induction es arbitrary: st)
  case (Cons e es)
  obtain as where "xp_diagnostics (declare_entry e st) = xp_diagnostics st @ as"
    using declare_entry_diagnostics by blast
  moreover obtain bs where "xp_diagnostics (fold declare_entry es (declare_entry e st)) =
      xp_diagnostics (declare_entry e st) @ bs" using Cons.IH by blast
  ultimately show ?case by simp
qed simp

lemma empty_expansion_ok [simp]: "expansion_ok {} empty_expansion"
  by (simp add: expansion_ok_def empty_expansion_def)

lemma expandPresets_state:
  assumes "expandPresets env fs appRoot inventory = Inr x"
  obtains st where "foldM (expand_preset env fs appRoot) (sort (coalesce (if_presets inventory) [])) empty_expansion = Inr st"
    and "expansion_ok {} st"
    and "x = (let t = fold declare_entry (if_plugins inventory) st in
       \<lparr>ex_entries = sort_key serial_key (map snd (xp_byKey t)), ex_provenance = xp_provenance t,
            ex_presets = xp_presets t, ex_diagnostics = xp_diagnostics t\<rparr>)"
  using assms foldM_expand_preset_ok [OF _ empty_expansion_ok]
  by (auto simp: expandPresets_def bind_result_Inr_iff Let_def)

section \<open>Properties\<close>

text \<open>
  After expansion every entry the App wrote is there unchanged, no two entries name the same
  instance, and the provenance names exactly the instances that come from a preset and not from the
  App, each with the package of a preset that was expanded: an explicit entry wins and a preset only
  contributes.
\<close>

theorem explicit_entries_win:
  assumes "expandPresets env fs appRoot inventory = Inr x" and "distinct (map keyOf (if_plugins inventory))"
  shows "set (if_plugins inventory) \<subseteq> set (ex_entries x) \<and> distinct (map keyOf (ex_entries x))
    \<and> fst ` set (ex_provenance x) = keyOf ` set (ex_entries x) - keyOf ` set (if_plugins inventory)
    \<and> snd ` set (ex_provenance x) \<subseteq> lp_packageName ` set (ex_presets x)"
proof -
  let ?ps = "if_plugins inventory"
  from assms(1) obtain st where st: "expansion_ok {} st" and
    x: "x = (let t = fold declare_entry ?ps st in
       \<lparr>ex_entries = sort_key serial_key (map snd (xp_byKey t)), ex_provenance = xp_provenance t,
            ex_presets = xp_presets t, ex_diagnostics = xp_diagnostics t\<rparr>)"
    by (rule expandPresets_state)
  define t where "t = fold declare_entry ?ps st"
  have ok: "expansion_ok (keyOf ` set ?ps) t" using fold_declare_ok [OF st, of ?ps] by (simp add: t_def)
  have keys: "map (keyOf \<circ> snd) (xp_byKey t) = map fst (xp_byKey t)"
    using ok by (simp add: expansion_ok_def)
  then have "distinct (map (keyOf \<circ> snd) (xp_byKey t))"
    unfolding keys using ok unfolding expansion_ok_def by blast
  then have dist: "distinct (map keyOf (ex_entries x))"
    by (simp add: x t_def [symmetric] Let_def distinct_sort_map)
  have image: "keyOf ` set (ex_entries x) = fst ` set (xp_byKey t)"
    using arg_cong [OF keys, of set] by (simp add: x t_def [symmetric] Let_def image_comp)
  have sub: "e \<in> set (ex_entries x)" if "e \<in> set ?ps" for e
  proof -
    have "map_of (rev (map (\<lambda>e. (keyOf e, e)) ?ps)) (keyOf e) = Some e"
      using that assms(2) by (intro map_of_is_SomeI) (auto simp: rev_map [symmetric] comp_def)
    then have "map_of (xp_byKey t) (keyOf e) = Some e" by (simp add: t_def fold_declare_byKey)
    then have "(keyOf e, e) \<in> set (xp_byKey t)" by (rule map_of_SomeD)
    then show ?thesis by (force simp: x t_def [symmetric] Let_def)
  qed
  then show ?thesis using dist image ok by (auto simp: x t_def [symmetric] Let_def expansion_ok_def)
qed

definition ex_preset_entry :: "string \<Rightarrow> jv" where
  "ex_preset_entry p = JObj [(''plugin'', JStr p), (''instanceId'', JStr ''default''), (''required'', JBool True)]"

definition ex_preset_doc :: jv where
  "ex_preset_doc = JObj [(''schemaVersion'', JStr PRESET_SCHEMA_VERSION), (''id'', JStr ''standard''),
     (''plugins'', JArr [ex_preset_entry ''rbac'', ex_preset_entry ''@appspine/audit-log''])]"

definition ex_preset_files :: files where
  "ex_preset_files p = (if p \<in> {''/app/node_modules/standard/appspine.preset.json'', ''/app/node_modules/rival/appspine.preset.json''}
     then Some (Text ''D'') else if p \<in> {''/app/node_modules/standard/package.json'', ''/app/node_modules/rival/package.json''}
     then Some (Text ''P'') else None)"

definition ex_preset_env :: cli_env where
  "ex_preset_env = (ex_cli_env ''D'' ex_preset_doc)\<lparr>ce_parse := (\<lambda>s. if s = ''D'' then Inr ex_preset_doc
     else Inr (JObj [(''version'', JStr ''1.0.0'')]))\<rparr>"

theorem explicit_entries_win_witness:
  "\<exists>x. expandPresets ex_preset_env ex_preset_files ''/app'' ex_inventory = Inr x
    \<and> set (if_plugins ex_inventory) \<subseteq> set (ex_entries x)"
proof -
  have "is_ok (expandPresets ex_preset_env ex_preset_files ''/app'' ex_inventory)" by code_simp
  then obtain x where x: "expandPresets ex_preset_env ex_preset_files ''/app'' ex_inventory = Inr x"
    by (auto simp: is_ok_def split: sum.splits)
  have "distinct (map keyOf (if_plugins ex_inventory))" by code_simp
  from explicit_entries_win [OF x this] x show ?thesis by simp
qed

text \<open>
  The error reported when two presets contribute the same instance stays whatever the App
  declares: following the advice of the message, to name the instance explicitly, does not remove it.
\<close>

theorem overlap_error_survives_explicit_entry:
  assumes "expandPresets env fs appRoot (inventory\<lparr>if_plugins := []\<rparr>) = Inr x"
    and "expandPresets env fs appRoot inventory = Inr y"
  shows "set (ex_diagnostics x) \<subseteq> set (ex_diagnostics y)"
proof -
  obtain st where st: "foldM (expand_preset env fs appRoot) (sort (coalesce (if_presets inventory) [])) empty_expansion = Inr st"
    and y: "ex_diagnostics y = xp_diagnostics (fold declare_entry (if_plugins inventory) st)"
    using assms(2) by (auto simp: expandPresets_def bind_result_Inr_iff Let_def)
  have "ex_diagnostics x = xp_diagnostics st"
    using assms(1) st by (auto simp: expandPresets_def bind_result_Inr_iff Let_def)
  with y fold_declare_diagnostics [of "if_plugins inventory" st] show ?thesis by auto
qed

theorem overlap_error_survives_explicit_entry_witness:
  "\<exists>y. expandPresets ex_preset_env ex_preset_files ''/app''
        (ex_inventory\<lparr>if_presets := Some [''rival'', ''standard'']\<rparr>) = Inr y
     \<and> overlap_diagnostic ''rbac'' ''rival'' ''standard'' \<in> set (ex_diagnostics y)"
proof -
  let ?i = "ex_inventory\<lparr>if_presets := Some [''rival'', ''standard'']\<rparr>"
  have "is_ok (expandPresets ex_preset_env ex_preset_files ''/app'' ?i)" by code_simp
  then obtain y where y: "expandPresets ex_preset_env ex_preset_files ''/app'' ?i = Inr y"
    by (auto simp: is_ok_def split: sum.splits)
  have "case expandPresets ex_preset_env ex_preset_files ''/app'' (?i\<lparr>if_plugins := []\<rparr>) of Inl _ \<Rightarrow> False
      | Inr x \<Rightarrow> overlap_diagnostic ''rbac'' ''rival'' ''standard'' \<in> set (ex_diagnostics x)"
    by code_simp
  then obtain x where x: "expandPresets ex_preset_env ex_preset_files ''/app'' (?i\<lparr>if_plugins := []\<rparr>) = Inr x"
    "overlap_diagnostic ''rbac'' ''rival'' ''standard'' \<in> set (ex_diagnostics x)"
    by (auto split: sum.splits)
  from overlap_error_survives_explicit_entry [OF x(1) y] x(2) y show ?thesis by auto
qed

text \<open>
  Without presets the expansion is the list of the App's own entries in canonical order.
\<close>

lemma expandPresets_none:
  assumes "coalesce (if_presets inventory) [] = []" "distinct (map keyOf (if_plugins inventory))"
  shows "expandPresets env fs appRoot inventory =
    Inr \<lparr>ex_entries = sort_key serial_key (if_plugins inventory), ex_provenance = [], ex_presets = [],
         ex_diagnostics = []\<rparr>"
proof -
  have "fold declare_entry es st =
      st\<lparr>xp_byKey := fold (\<lambda>p. map_put (fst p) (snd p)) (map (\<lambda>e. (keyOf e, e)) es) (xp_byKey st)\<rparr>"
    if "xp_provenance st = []" for es st
    using that by (induction es arbitrary: st) (simp_all add: declare_entry_def Let_def)
  moreover have "fold (\<lambda>p. map_put (fst p) (snd p)) (map (\<lambda>e. (keyOf e, e)) (if_plugins inventory)) []
      = map (\<lambda>e. (keyOf e, e)) (if_plugins inventory)"
    using assms(2) by (subst fold_map_put_new) (simp_all add: comp_def)
  ultimately show ?thesis
    using assms(1) by (simp add: expandPresets_def empty_expansion_def comp_def)
qed

end
