(* ===== verification/ChangePlan.thy ===== *)
theory ChangePlan
  imports InventoryFile
begin

text \<open>
  Change plans and their diffs: \<open>plugin-cli/src/plan.ts\<close>.
  The lemmas show that the line diff reproduces both files, that the lines it keeps form a longest
  common subsequence, that the rendered diff is empty exactly for an unchanged file, and that
  applying a plan writes exactly the files its summary names.
\<close>

record file_change =
  fc_file :: string
  fc_before :: "string option"
  fc_after :: string

record change_plan =
  cp_summary :: string
  cp_changes :: "file_change list"
  cp_diagnostics :: "diagnostic list"

definition inventoryChange :: "files \<Rightarrow> string \<Rightarrow> inventory_file option \<Rightarrow> inventory_file \<Rightarrow> file_change" where
  "inventoryChange fs appRoot before after =
     (let name = ''appspine.plugins.json'' in
      \<lparr>fc_file = name,
       fc_before = (case readFileSync fs (path_join [appRoot, name]) of
           Inr t \<Rightarrow> Some t
         | Inl _ \<Rightarrow> map_option serializeInventory before),
       fc_after = serializeInventory after\<rparr>)"

text \<open>
  The own properties a spread copies: those of an object, the indices of an array and of a string,
  none of anything else.
\<close>

definition own_properties :: "jv \<Rightarrow> (string \<times> jv) list" where
  "own_properties v =
     (case v of
        JObj kvs \<Rightarrow> kvs
      | JArr xs \<Rightarrow> map (\<lambda>(i, x). (show_nat i, x)) (List.enumerate 0 xs)
      | JStr s \<Rightarrow> map (\<lambda>(i, c). (show_nat i, JStr [c])) (List.enumerate 0 s)
      | _ \<Rightarrow> [])"

text \<open>A spread with one more computed property.\<close>

definition spread_with :: "jv \<Rightarrow> string \<Rightarrow> jv \<Rightarrow> (string \<times> jv) list" where
  "spread_with v k x = own_order (map_put k x (own_properties v))"

definition dependencies_with :: "jv \<Rightarrow> string \<Rightarrow> string \<Rightarrow> (string \<times> jv) list" where
  "dependencies_with parsed packageName version =
     (let dependencies = spread_with (jget ''dependencies'' parsed) packageName (JStr version) in
      obj_assign_all (sort_key fst dependencies) [])"

definition packageJsonChange ::
    "cli_env \<Rightarrow> files \<Rightarrow> string \<Rightarrow> string \<Rightarrow> string \<Rightarrow> failure + file_change option" where
  "packageJsonChange env fs appRoot packageName version =
     (let name = ''package.json'' in
      bind_result (or_errno (readFileSync fs (path_join [appRoot, name]))) (\<lambda>before.
      case ce_parse env before of
        Inl message \<Rightarrow> Inl (Thrown message)
      | Inr parsed \<Rightarrow>
          if parsed = JNull then Inl (LoaderThrow TypeError)
          else if jget packageName (jget ''dependencies'' parsed) \<noteq> JUndefined then Inr None
          else Inr (Some \<lparr>fc_file = name, fc_before = Some before,
            fc_after = pretty 0 (JObj (spread_with parsed ''dependencies''
                (JObj (dependencies_with parsed packageName version)))) @ newline\<rparr>)))"

section \<open>Applying a plan\<close>

definition changed :: "file_change \<Rightarrow> bool" where
  "changed c \<longleftrightarrow> fc_before c \<noteq> Some (fc_after c)"

text \<open>
  The names written, with the file system afterwards. A failed write throws and leaves what was
  written before it.
\<close>

fun apply_changes :: "string \<Rightarrow> file_change list \<Rightarrow> string list \<Rightarrow> files \<Rightarrow> (failure + string list) \<times> files" where
  "apply_changes appRoot [] written fs = (Inr written, fs)"
| "apply_changes appRoot (c # cs) written fs =
     (if \<not> changed c then apply_changes appRoot cs written fs
      else (case writeFileSync (path_join [appRoot, fc_file c]) (fc_after c) fs of
          Inl code \<Rightarrow> (Inl (Errno code), fs)
        | Inr gs \<Rightarrow> apply_changes appRoot cs (written @ [fc_file c]) gs))"

definition applyPlan :: "string \<Rightarrow> change_plan \<Rightarrow> files \<Rightarrow> (failure + string list) \<times> files" where
  "applyPlan appRoot plan fs = apply_changes appRoot (cp_changes plan) [] fs"

text \<open>\<open>planData\<close> of \<open>commands/add.ts\<close>.\<close>

definition planData :: "change_plan \<Rightarrow> jv" where
  "planData plan = JObj [(''summary'', JStr (cp_summary plan)),
     (''files'', JArr (map (\<lambda>c. JStr (fc_file c)) (filter changed (cp_changes plan))))]"

section \<open>The line diff\<close>

datatype diff_kind = Same | Add | Remove

record diff_op =
  op_kind :: diff_kind
  op_line :: string

text \<open>
  The entry of the table for the suffixes that start at a row and a column.
\<close>

fun lcs :: "string list \<Rightarrow> string list \<Rightarrow> nat" where
  "lcs (b # bs) (a # as) = (if b = a then lcs bs as + 1 else max (lcs bs (a # as)) (lcs (b # bs) as))"
| "lcs _ _ = 0"

fun diffLines :: "string list \<Rightarrow> string list \<Rightarrow> diff_op list" where
  "diffLines (b # bs) (a # as) =
     (if b = a then \<lparr>op_kind = Same, op_line = b\<rparr> # diffLines bs as
      else if lcs bs (a # as) \<ge> lcs (b # bs) as then \<lparr>op_kind = Remove, op_line = b\<rparr> # diffLines bs (a # as)
      else \<lparr>op_kind = Add, op_line = a\<rparr> # diffLines (b # bs) as)"
| "diffLines (b # bs) [] = \<lparr>op_kind = Remove, op_line = b\<rparr> # diffLines bs []"
| "diffLines [] (a # as) = \<lparr>op_kind = Add, op_line = a\<rparr> # diffLines [] as"
| "diffLines [] [] = []"

section \<open>Rendering\<close>

definition op_prefix :: "diff_kind \<Rightarrow> string" where
  "op_prefix k = (case k of Same \<Rightarrow> '' '' | Add \<Rightarrow> ''+'' | Remove \<Rightarrow> ''-'')"

definition op_text :: "diff_op \<Rightarrow> string" where
  "op_text d = op_prefix (op_kind d) @ op_line d"

definition interesting :: "diff_op list \<Rightarrow> nat list" where
  "interesting ops = map fst (filter (\<lambda>(_, d). op_kind d \<noteq> Same) (List.enumerate 0 ops))"

text \<open>An index is kept when a changed one is at most \<open>context\<close> away.\<close>

definition kept :: "nat \<Rightarrow> diff_op list \<Rightarrow> nat \<Rightarrow> bool" where
  "kept ctx ops i \<longleftrightarrow> list_ex (\<lambda>j. i \<le> j + ctx \<and> j \<le> i + ctx) (interesting ops)"

fun hunk_lines :: "nat option \<Rightarrow> (nat \<times> diff_op) list \<Rightarrow> string list" where
  "hunk_lines prev [] = []"
| "hunk_lines prev ((i, d) # ds) =
     (case prev of Some p \<Rightarrow> if i > p + 1 then [''@@''] else [] | None \<Rightarrow> [])
     @ op_text d # hunk_lines (Some i) ds"

definition diff_of :: "file_change \<Rightarrow> diff_op list" where
  "diff_of c =
     diffLines (case fc_before c of None \<Rightarrow> [] | Some t \<Rightarrow> split_on CHR 0x0A t) (split_on CHR 0x0A (fc_after c))"

definition renderDiff :: "file_change \<Rightarrow> nat \<Rightarrow> string" where
  "renderDiff c ctx =
     (let ops = diff_of c in
      if interesting ops = [] then []
      else join newline ([''--- a/'' @ fc_file c, ''+++ b/'' @ fc_file c]
        @ hunk_lines None (filter (\<lambda>(i, _). kept ctx ops i) (List.enumerate 0 ops))))"

definition renderPlan :: "change_plan \<Rightarrow> string" where
  "renderPlan plan =
     (let sections = filter (\<lambda>s. s \<noteq> []) (map (\<lambda>c. renderDiff c 3) (filter changed (cp_changes plan)))
      in if sections \<noteq> [] then join newline sections else ''no changes'')"

section \<open>What a diff shows\<close>

definition before_lines :: "diff_op list \<Rightarrow> string list" where
  "before_lines ops = map op_line (filter (\<lambda>d. op_kind d \<noteq> Add) ops)"

definition after_lines :: "diff_op list \<Rightarrow> string list" where
  "after_lines ops = map op_line (filter (\<lambda>d. op_kind d \<noteq> Remove) ops)"

definition same_lines :: "diff_op list \<Rightarrow> string list" where
  "same_lines ops = map op_line (filter (\<lambda>d. op_kind d = Same) ops)"

lemmas line_defs = before_lines_def after_lines_def same_lines_def

lemma diffLines_before: "before_lines (diffLines bs as) = bs"
  by (induction bs as rule: diffLines.induct) (simp_all add: line_defs)

lemma diffLines_after: "after_lines (diffLines bs as) = as"
  by (induction bs as rule: diffLines.induct) (simp_all add: line_defs)

lemma diffLines_same_length: "length (same_lines (diffLines bs as)) = lcs bs as"
  by (induction bs as rule: diffLines.induct) (simp_all add: line_defs max_def)

lemma same_lines_subseq:
  "subseq (same_lines ops) (before_lines ops)" "subseq (same_lines ops) (after_lines ops)"
  by (induction ops) (auto simp: line_defs)

lemma lcs_greatest: "subseq xs bs \<Longrightarrow> subseq xs as \<Longrightarrow> length xs \<le> lcs bs as"
proof (induction bs as arbitrary: xs rule: lcs.induct)
  case (1 b bs a as)
  show ?case
  proof (cases xs)
    case (Cons x xs')
    show ?thesis
    proof (cases "b = a")
      case True
      have "subseq xs' bs" "subseq xs' as"
        using 1(4,5) Cons by (metis subseq_Cons' subseq_Cons2_iff)+
      with 1(1) [OF True] True Cons show ?thesis by simp
    next
      case False
      then consider "x \<noteq> b" | "x \<noteq> a" by blast
      then show ?thesis
      proof cases
        case a: 1
        with 1(4) Cons have "subseq xs bs" by (simp add: subseq_Cons2_iff)
        with 1(2) [OF False this 1(5)] False show ?thesis by simp
      next
        case b: 2
        with 1(5) Cons have "subseq xs as" by (simp add: subseq_Cons2_iff)
        with 1(3) [OF False 1(4) this] False show ?thesis by simp
      qed
    qed
  qed simp
qed auto

lemma interesting_Nil_iff: "interesting ops = [] \<longleftrightarrow> before_lines ops = after_lines ops \<and> (\<forall>d\<in>set ops. op_kind d = Same)"
proof -
  have "map fst (filter (\<lambda>(_, d). op_kind d \<noteq> Same) (List.enumerate n ops)) = [] \<longleftrightarrow> (\<forall>d\<in>set ops. op_kind d = Same)" for n
    by (induction ops arbitrary: n) auto
  moreover have "before_lines ops = after_lines ops" if "\<forall>d\<in>set ops. op_kind d = Same"
    using that by (induction ops) (simp_all add: line_defs)
  ultimately show ?thesis by (auto simp: interesting_def)
qed

lemma diffLines_refl: "d \<in> set (diffLines ls ls) \<Longrightarrow> op_kind d = Same"
  by (induction ls) auto

lemma interesting_diff: "interesting (diffLines bs as) = [] \<longleftrightarrow> bs = as"
  by (auto simp: interesting_Nil_iff diffLines_before diffLines_after dest: diffLines_refl)

lemma interesting_diff_of: "interesting (diff_of c) = [] \<longleftrightarrow> \<not> changed c"
proof (cases "fc_before c")
  case None
  then show ?thesis by (simp add: diff_of_def interesting_diff changed_def split_on_ne [symmetric])
next
  case (Some t)
  have "split_on CHR 0x0A t = split_on CHR 0x0A (fc_after c) \<longleftrightarrow> t = fc_after c"
    by (metis join_split_on)
  with Some show ?thesis by (simp add: diff_of_def interesting_diff changed_def)
qed

lemma renderDiff_Nil: "renderDiff c ctx = [] \<longleftrightarrow> \<not> changed c"
  by (simp add: renderDiff_def Let_def interesting_diff_of)

section \<open>What applying a plan does\<close>

definition change_target :: "string \<Rightarrow> file_change \<Rightarrow> string" where
  "change_target appRoot c = path_join [appRoot, fc_file c]"

definition writable :: "files \<Rightarrow> string \<Rightarrow> bool" where
  "writable fs p \<longleftrightarrow> (\<forall>e. fs p \<noteq> Some (Unreadable e))"

definition written_files :: "string \<Rightarrow> file_change list \<Rightarrow> files \<Rightarrow> files" where
  "written_files appRoot cs fs = fold (\<lambda>c gs. gs(change_target appRoot c \<mapsto> Text (fc_after c))) cs fs"

lemma apply_changes_writes:
  "\<forall>c\<in>set cs. writable fs (change_target appRoot c) \<Longrightarrow>
     apply_changes appRoot cs w fs =
       (Inr (w @ map fc_file (filter changed cs)), written_files appRoot (filter changed cs) fs)"
proof (induction cs arbitrary: w fs)
  case (Cons c cs)
  obtain gs where gs: "gs = fs(change_target appRoot c \<mapsto> Text (fc_after c))" by blast
  have w: "writeFileSync (change_target appRoot c) (fc_after c) fs = Inr gs"
    using Cons.prems by (simp add: writeFileSync_Inr writable_def gs)
  have g: "\<forall>d\<in>set cs. writable gs (change_target appRoot d)" and f: "\<forall>d\<in>set cs. writable fs (change_target appRoot d)"
    using Cons.prems by (auto simp: writable_def gs)
  have "written_files appRoot (c # ds) fs = written_files appRoot ds gs" for ds
    by (simp add: written_files_def gs)
  with w Cons.IH [OF g] Cons.IH [OF f] show ?case by (simp add: change_target_def)
qed (simp add: written_files_def)

lemma written_files_other: "p \<notin> change_target appRoot ` set cs \<Longrightarrow> written_files appRoot cs fs p = fs p"
  unfolding written_files_def by (induction cs arbitrary: fs) auto

lemma written_files_target:
  "distinct (map (change_target appRoot) cs) \<Longrightarrow> c \<in> set cs \<Longrightarrow>
     written_files appRoot cs fs (change_target appRoot c) = Some (Text (fc_after c))"
proof (induction cs arbitrary: fs)
  case (Cons d cs)
  show ?case
  proof (cases "c \<in> set cs")
    case True
    with Cons show ?thesis by (simp add: written_files_def)
  next
    case False
    with Cons.prems have "c = d" "change_target appRoot d \<notin> change_target appRoot ` set cs" by auto
    then show ?thesis
      using written_files_other [of "change_target appRoot d" appRoot cs] by (simp add: written_files_def)
  qed
qed simp

lemma renderDiff_head: "renderDiff c ctx \<noteq> [] \<Longrightarrow> \<exists>r. renderDiff c ctx = CHR ''-'' # r"
  by (auto simp: renderDiff_def Let_def split: if_splits)

lemma join_head: "join s ((c # x) # xs) = c # (case join s (x # xs) of y \<Rightarrow> y)"
  by (cases xs) simp_all

lemma renderPlan_no_changes: "renderPlan plan = ''no changes'' \<longleftrightarrow> filter changed (cp_changes plan) = []"
proof (cases "filter changed (cp_changes plan)")
  case Nil
  then show ?thesis by (simp add: renderPlan_def)
next
  case (Cons c cs)
  have ne: "renderDiff d 3 \<noteq> []" if "d \<in> set (filter changed (cp_changes plan))" for d
    using that by (simp add: renderDiff_Nil)
  then have all: "filter (\<lambda>s. s \<noteq> []) (map (\<lambda>c. renderDiff c 3) (filter changed (cp_changes plan)))
      = map (\<lambda>c. renderDiff c 3) (c # cs)"
    by (simp add: filter_True Cons [symmetric])
  obtain r where "renderDiff c 3 = CHR ''-'' # r"
    using renderDiff_head [OF ne [of c]] Cons by auto
  with all Cons show ?thesis by (simp add: renderPlan_def Let_def join_head)
qed

section \<open>Properties\<close>

text \<open>
  C36. The line diff reproduces both files: its unchanged and removed lines are the file before, its
  unchanged and added lines the file after. The unchanged lines form a common subsequence, and no
  common subsequence of the two files is longer.
\<close>

theorem diff_is_exact_and_minimal:
  assumes "subseq xs bs" and "subseq xs as"
  shows "before_lines (diffLines bs as) = bs \<and> after_lines (diffLines bs as) = as
    \<and> subseq (same_lines (diffLines bs as)) bs \<and> subseq (same_lines (diffLines bs as)) as
    \<and> length xs \<le> length (same_lines (diffLines bs as))"
  using same_lines_subseq [of "diffLines bs as"] lcs_greatest [OF assms]
  by (simp add: diffLines_before diffLines_after diffLines_same_length)

theorem diff_is_exact_and_minimal_witness:
  "length [''a'', ''c''] \<le> length (same_lines (diffLines [''a'', ''b'', ''c''] [''a'', ''c'', ''d'']))"
  using diff_is_exact_and_minimal [of "[''a'', ''c'']" "[''a'', ''b'', ''c'']" "[''a'', ''c'', ''d'']"] by simp

text \<open>
  C35. When its files can be written, applying a plan writes exactly the files whose text changes,
  which are the files the plan's summary lists and a dry run shows a diff for, and touches no other
  file; the rendered plan reads \<open>no changes\<close> exactly when nothing is written.
\<close>

theorem applying_writes_what_the_diff_shows:
  assumes "\<forall>c\<in>set (cp_changes plan). writable fs (change_target appRoot c)"
    and "distinct (map (change_target appRoot) (cp_changes plan))"
  shows "\<exists>written gs. applyPlan appRoot plan fs = (Inr written, gs)
    \<and> jget ''files'' (planData plan) = JArr (map JStr written)
    \<and> written = map fc_file (filter (\<lambda>c. renderDiff c 3 \<noteq> []) (cp_changes plan))
    \<and> (renderPlan plan = ''no changes'' \<longleftrightarrow> written = [])
    \<and> (\<forall>c\<in>set (cp_changes plan). renderDiff c 3 \<noteq> [] \<longrightarrow> gs (change_target appRoot c) = Some (Text (fc_after c)))
    \<and> (\<forall>p. p \<notin> change_target appRoot ` {c\<in>set (cp_changes plan). renderDiff c 3 \<noteq> []} \<longrightarrow> gs p = fs p)"
proof -
  let ?cs = "filter changed (cp_changes plan)"
  let ?gs = "written_files appRoot ?cs fs"
  have "distinct (map (change_target appRoot) ?cs)" using assms(2) by (rule distinct_map_filter)
  then have "\<forall>c\<in>set ?cs. ?gs (change_target appRoot c) = Some (Text (fc_after c))"
    using written_files_target by blast
  moreover have "applyPlan appRoot plan fs = (Inr (map fc_file ?cs), ?gs)"
    using apply_changes_writes [OF assms(1), of "[]"] by (simp add: applyPlan_def)
  moreover have "filter (\<lambda>c. renderDiff c 3 \<noteq> []) (cp_changes plan) = ?cs" by (simp add: renderDiff_Nil)
  moreover have "{c\<in>set (cp_changes plan). renderDiff c 3 \<noteq> []} = set ?cs" by (auto simp: renderDiff_Nil)
  ultimately show ?thesis
    using written_files_other [of _ appRoot ?cs fs] renderPlan_no_changes [of plan]
    by (intro exI [of _ "map fc_file ?cs"] exI [of _ ?gs]) (simp add: planData_def jget_def renderDiff_Nil comp_def)
qed

definition ex_plan :: change_plan where
  "ex_plan = \<lparr>cp_summary = ''add rbac#default'', cp_changes =
     [\<lparr>fc_file = ''appspine.plugins.json'', fc_before = Some ''a'', fc_after = ''b''\<rparr>,
      \<lparr>fc_file = ''package.json'', fc_before = Some ''p'', fc_after = ''p''\<rparr>], cp_diagnostics = []\<rparr>"

theorem applying_writes_what_the_diff_shows_witness:
  "\<exists>written gs. applyPlan ''/app'' ex_plan (\<lambda>_. None) = (Inr written, gs) \<and> written \<noteq> []"
proof -
  have "\<forall>c\<in>set (cp_changes ex_plan). writable (\<lambda>_. None) (change_target ''/app'' c)" by (simp add: writable_def)
  moreover have "distinct (map (change_target ''/app'') (cp_changes ex_plan))" by code_simp
  ultimately obtain written gs where "applyPlan ''/app'' ex_plan (\<lambda>_. None) = (Inr written, gs)"
    "renderPlan ex_plan = ''no changes'' \<longleftrightarrow> written = []"
    using applying_writes_what_the_diff_shows [of ex_plan "\<lambda>_. None" "''/app''"] by blast
  moreover have "renderPlan ex_plan \<noteq> ''no changes''" by code_simp
  ultimately show ?thesis by blast
qed

section \<open>The dependency entry\<close>

lemma spread_with_get:
  "distinct (map fst (own_properties v)) \<Longrightarrow>
     map_of (spread_with v k x) = (map_of (own_properties v))(k \<mapsto> x) \<and> distinct (map fst (spread_with v k x))"
proof -
  assume d: "distinct (map fst (own_properties v))"
  then have "distinct (map fst (map_put k x (own_properties v)))" by (simp add: keys_map_put)
  then show ?thesis
    by (auto simp: spread_with_def map_of_own_order distinct_own_order map_of_map_put)
qed

lemma dependencies_with_get:
  assumes "distinct (map fst (own_properties (jget ''dependencies'' parsed)))" "k \<noteq> ''__proto__''"
  shows "map_of (dependencies_with parsed n v) k =
    (if k = n then Some (JStr v) else map_of (own_properties (jget ''dependencies'' parsed)) k)"
proof -
  note s = spread_with_get [OF assms(1), of n "JStr v"]
  have "distinct (map fst (sort_key fst (spread_with (jget ''dependencies'' parsed) n (JStr v))))"
    using s by (simp add: distinct_sort_map)
  moreover from this have "map_of (sort_key fst (spread_with (jget ''dependencies'' parsed) n (JStr v)))
      = map_of (spread_with (jget ''dependencies'' parsed) n (JStr v))"
    by (intro map_of_perm) simp_all
  ultimately show ?thesis
    using s assms(2) by (simp add: dependencies_with_def obj_assign_all_get)
qed

definition object_or_missing :: "jv \<Rightarrow> bool" where
  "object_or_missing v \<longleftrightarrow> v = JUndefined \<or> is_object v"

lemma jget_own_properties: "object_or_missing v \<Longrightarrow> jget k v = coalesce (map_of (own_properties v) k) JUndefined"
  by (cases v) (auto simp: object_or_missing_def is_object_def jget_def own_properties_def)

lemma wf_doc_jget: "wf_doc v \<Longrightarrow> jget k v = JUndefined \<or> wf_doc (jget k v)"
  by (cases v) (auto simp: jget_def coalesce_def wf_doc_fields_iff dest: map_of_SomeD split: option.splits)

lemma wf_doc_own_properties:
  "wf_doc v \<Longrightarrow> object_or_missing v \<Longrightarrow>
     distinct (map fst (own_properties v)) \<and> map_of (own_properties v) ''__proto__'' = None"
  by (cases v) (auto simp: object_or_missing_def is_object_def own_properties_def wf_doc_fields_iff map_of_eq_None_iff)

text \<open>
  Adding a dependency to a well-formed \<open>package.json\<close> changes nothing else: the new text
  is the serialisation of a document in which every other field and every other dependency has the
  value it had, and the added package has the requested range. Nothing is done when the package is
  already a dependency.
\<close>

theorem adding_a_dependency_changes_nothing_else:
  assumes "readFileSync fs (path_join [appRoot, ''package.json'']) = Inr before"
    and "ce_parse env before = Inr parsed" and "wf_doc parsed" and "is_object parsed"
    and "object_or_missing (jget ''dependencies'' parsed)" and "n \<noteq> ''__proto__''"
  shows "case packageJsonChange env fs appRoot n version of
      Inl _ \<Rightarrow> False
    | Inr None \<Rightarrow> jget n (jget ''dependencies'' parsed) \<noteq> JUndefined
    | Inr (Some c) \<Rightarrow> fc_before c = Some before \<and> (\<exists>doc. fc_after c = pretty 0 doc @ newline
        \<and> (\<forall>k. k = ''dependencies'' \<or> jget k doc = jget k parsed)
        \<and> (\<forall>k. jget k (jget ''dependencies'' doc) =
               (if k = n then JStr version else jget k (jget ''dependencies'' parsed))))"
proof -
  let ?deps = "jget ''dependencies'' parsed" and ?new = "dependencies_with parsed n version"
  let ?doc = "JObj (spread_with parsed ''dependencies'' (JObj ?new))"
  have obj: "object_or_missing parsed" using assms(4) by (simp add: object_or_missing_def)
  have dist: "distinct (map fst (own_properties parsed))" using wf_doc_own_properties [OF assms(3) obj] by simp
  have deps: "distinct (map fst (own_properties ?deps))" "map_of (own_properties ?deps) ''__proto__'' = None"
    using wf_doc_own_properties [OF _ assms(5)] wf_doc_jget [OF assms(3), of "''dependencies''"]
    by (auto simp: own_properties_def)
  have get: "jget k ?doc = (if k = ''dependencies'' then JObj ?new else jget k parsed)" for k
    using spread_with_get [OF dist, of "''dependencies''" "JObj ?new"] jget_own_properties [OF obj]
    by (simp add: jget_def)
  have new: "jget k (JObj ?new) = (if k = n then JStr version else jget k ?deps)" for k
  proof (cases "k = ''__proto__''")
    case True
    have "distinct (map fst (sort_key fst (spread_with ?deps n (JStr version))))"
      using spread_with_get [OF deps(1), of n "JStr version"] by (simp add: distinct_sort_map)
    then have "map_of ?new k = None" using True by (simp add: dependencies_with_def obj_assign_all_get)
    with True assms(6) deps(2) jget_own_properties [OF assms(5)] show ?thesis by (simp add: jget_def)
  next
    case False
    then show ?thesis
      using dependencies_with_get [OF deps(1) False] jget_own_properties [OF assms(5)] by (simp add: jget_def)
  qed
  have "parsed \<noteq> JNull" using assms(4) by (auto simp: is_object_def)
  then show ?thesis
    using assms(1,2) get new
    by (auto simp: packageJsonChange_def intro!: exI [of _ ?doc] split: if_splits)
qed

definition ex_package_json :: jv where
  "ex_package_json = JObj [(''name'', JStr ''app''), (''dependencies'', JObj [(''rxjs'', JStr ''^7.0.0'')])]"

theorem adding_a_dependency_changes_nothing_else_witness:
  "case packageJsonChange (ex_cli_env ''J'' ex_package_json) (\<lambda>_. Some (Text ''J'')) ''/app'' ''@appspine/rbac'' ''^1.0.0'' of
      Inl _ \<Rightarrow> False
    | Inr None \<Rightarrow> False
    | Inr (Some c) \<Rightarrow> fc_before c = Some ''J''"
proof -
  have w: "wf_doc ex_package_json" "is_object ex_package_json"
    "object_or_missing (jget ''dependencies'' ex_package_json)"
    "jget ''@appspine/rbac'' (jget ''dependencies'' ex_package_json) = JUndefined"
    by code_simp+
  have r: "readFileSync (\<lambda>_. Some (Text ''J'')) (path_join [''/app'', ''package.json'']) = Inr ''J''"
    and p: "ce_parse (ex_cli_env ''J'' ex_package_json) ''J'' = Inr ex_package_json"
    by (simp_all add: readFileSync_def ex_cli_env_def)
  from adding_a_dependency_changes_nothing_else [OF r p w(1-3), of "''@appspine/rbac''" "''^1.0.0''"] w(4)
  show ?thesis by (auto split: sum.splits option.splits)
qed

end
