(* ===== verification/Artifacts.thy ===== *)
theory Artifacts
  imports ManifestSource Presets Resolver
begin

text \<open>
  Generated artefacts and drift detection: \<open>plugin-cli/src/generate.ts\<close>.
  The lemmas show that the source digest of a generation moves with everything a generator may read,
  that the drift check reports exactly the files that differ, and that writing the artefacts removes
  every drift and is idempotent.
\<close>

definition GENERATED_DIR :: string where
  "GENERATED_DIR = ''.appspine/generated''"

definition CATALOG_ARTIFACT :: string where
  "CATALOG_ARTIFACT = GENERATED_DIR @ ''/catalog.json''"

record generated_artifact =
  ga_path :: string
  ga_contents :: string

record generation_input =
  gi_inventory :: inventory_file
  gi_manifests :: manifest_set
  gi_graph :: resolution_graph
  gi_presetProvenance :: "(string \<times> string) list option"
  gi_presets :: "preset_summary list option"
  gi_tool :: string
  gi_version :: string

text \<open>The manifests in the order of \<open>byRef.values()\<close>.\<close>

definition loaded_manifests :: "generation_input \<Rightarrow> loaded_manifest list" where
  "loaded_manifests input = map snd (ms_byRef (gi_manifests input))"

definition manifest_of :: "generation_input \<Rightarrow> string \<Rightarrow> loaded_manifest option" where
  "manifest_of input packageName = find (\<lambda>l. lm_packageName l = packageName) (loaded_manifests input)"

section \<open>The source digest\<close>

definition source_manifest :: "loaded_manifest \<Rightarrow> jv" where
  "source_manifest l = JObj [(''packageName'', JStr (lm_packageName l)),
     (''packageVersion'', JStr (lm_packageVersion l)), (''digest'', JStr (lm_digest l))]"

definition source_preset :: "preset_summary \<Rightarrow> jv" where
  "source_preset p = JObj [(''package'', JStr (psm_package p)), (''version'', JStr (psm_version p))]"

definition source_document :: "generation_input \<Rightarrow> jv" where
  "source_document input = JObj
     [(''inventory'', JArr (map entry_doc (if_plugins (gi_inventory input)))),
      (''presets'', JArr (map source_preset (coalesce (gi_presets input) []))),
      (''resolution'', JStr (rg_digest (gi_graph input))),
      (''manifests'', JArr (map source_manifest (sort_key lm_packageName (loaded_manifests input))))]"

definition sourceDigest :: "(string \<Rightarrow> string) \<Rightarrow> generation_input \<Rightarrow> contract_error + string" where
  "sourceDigest hash input =
     bind_result (canonicalJsonString (source_document input)) (\<lambda>canonical. Inr (''sha256:'' @ hash canonical))"

section \<open>The catalog\<close>

text \<open>
  The Prisma facet at the types the manifest schema gives it.
\<close>

record prisma_augmentation =
  au_targetModel :: string
  au_field :: string
  au_owner :: string
  au_type :: "string option"

record prisma_facet =
  pf_owns :: "string list option"
  pf_ownsEnums :: "string list option"
  pf_augments :: "prisma_augmentation list option"
  pf_augmentedBy :: "(string \<times> string) list option"
  pf_schemaFragment :: "string option"

definition as_augmentation :: "jv \<Rightarrow> prisma_augmentation" where
  "as_augmentation v =
     \<lparr>au_targetModel = as_string (jget ''targetModel'' v), au_field = as_string (jget ''field'' v),
      au_owner = as_string (jget ''owner'' v), au_type = opt_field as_string ''type'' v\<rparr>"

definition as_prisma :: "jv \<Rightarrow> prisma_facet" where
  "as_prisma v =
     \<lparr>pf_owns = opt_field as_strings ''owns'' v, pf_ownsEnums = opt_field as_strings ''ownsEnums'' v,
      pf_augments = opt_field (\<lambda>x. map as_augmentation (array_or_empty x)) ''augments'' v,
      pf_augmentedBy = opt_field (\<lambda>x. map (\<lambda>e. (as_string (jget ''plugin'' e), as_string (jget ''field'' e)))
        (array_or_empty x)) ''augmentedBy'' v,
      pf_schemaFragment = opt_field as_string ''schemaFragment'' v\<rparr>"

definition prisma_of :: "loaded_manifest \<Rightarrow> prisma_facet option" where
  "prisma_of l = map_option as_prisma (fc_prisma (mf_facets (lm_manifest l)))"

text \<open>\<open>x?.f ?? []\<close>\<close>

definition facet_list :: "'a option \<Rightarrow> ('a \<Rightarrow> 'b list option) \<Rightarrow> 'b list" where
  "facet_list x f = (case x of None \<Rightarrow> [] | Some a \<Rightarrow> coalesce (f a) [])"

definition environment_docs :: "plugin_manifest \<Rightarrow> jv" where
  "environment_docs m =
     JArr (map (\<lambda>e. JObj [(''key'', JStr (env_key e)), (''required'', JBool (env_required e)),
                          (''secret'', JBool (env_secret e))])
       (sort_key env_key (coalesce (mf_environment m) [])))"

definition nullable :: "string option \<Rightarrow> jv" where
  "nullable x = (case x of None \<Rightarrow> JNull | Some s \<Rightarrow> JStr s)"

definition entry_instance_key_of :: "loaded_manifest \<Rightarrow> inventory_entry \<Rightarrow> string" where
  "entry_instance_key_of l entry =
     (if ie_instanceId entry = ''default'' then mf_id (lm_manifest l)
      else mf_id (lm_manifest l) @ ''#'' @ ie_instanceId entry)"

definition resolved_by_key :: "resolution_graph \<Rightarrow> (string \<times> resolved_instance) list" where
  "resolved_by_key graph = entries_map (map (\<lambda>i. (rs_key i, i)) (rg_instances graph))"

definition provenance_of :: "generation_input \<Rightarrow> string \<Rightarrow> string option" where
  "provenance_of input key = (case gi_presetProvenance input of None \<Rightarrow> None | Some m \<Rightarrow> map_of m key)"

definition catalog_row :: "generation_input \<Rightarrow> inventory_entry \<Rightarrow> (string \<times> jv) list" where
  "catalog_row input entry =
     (case map_of (ms_byRef (gi_manifests input)) (ie_plugin entry) of
        None \<Rightarrow> []
      | Some l \<Rightarrow>
          let m = lm_manifest l; key = entry_instance_key_of l entry;
              resolved = map_of (resolved_by_key (gi_graph input)) key;
              backend = fc_backend (mf_facets m); operations = fc_operations (mf_facets m)
          in [(key, JObj
               [(''key'', JStr key), (''pluginId'', JStr (mf_id m)), (''instanceId'', JStr (ie_instanceId entry)),
                (''packageName'', JStr (lm_packageName l)), (''packageVersion'', JStr (lm_packageVersion l)),
                (''digest'', JStr (lm_digest l)), (''manifestDigest'', JStr (lm_manifestDigest l)),
                (''status'', JStr (if ie_enabled entry then ''enabled'' else ''disabled'')),
                (''required'', JBool (ie_required entry)),
                (''provides'', jstrs (case resolved of Some r \<Rightarrow> rs_provides r | None \<Rightarrow> mf_provides m)),
                (''requires'', jstrs (mf_requires m)),
                (''unresolvedOptional'', jstrs (case resolved of Some r \<Rightarrow> rs_unresolvedOptional r | None \<Rightarrow> [])),
                (''configRef'', nullable (ie_configRef entry)),
                (''fromPreset'', nullable (provenance_of input key)),
                (''environment'', environment_docs m),
                (''routes'', jstrs (sort (facet_list backend bf_controllerRoutes))),
                (''providerTokens'', jstrs (sort (facet_list backend bf_providerTokens))),
                (''prismaModels'', jstrs (sort (facet_list (prisma_of l) pf_owns))),
                (''healthIndicatorId'',
                  nullable (case operations of None \<Rightarrow> None | Some ops \<Rightarrow> of_healthIndicatorId ops))])])"

definition preset_doc :: "preset_summary \<Rightarrow> jv" where
  "preset_doc p = JObj [(''package'', JStr (psm_package p)), (''version'', JStr (psm_version p)),
     (''id'', psm_id p), (''contributes'', jstrs (psm_contributes p))]"

definition preset_docs :: "generation_input \<Rightarrow> jv" where
  "preset_docs input = JArr (map preset_doc (coalesce (gi_presets input) []))"

definition generated_by :: "generation_input \<Rightarrow> jv" where
  "generated_by input = JObj [(''tool'', JStr (gi_tool input)), (''version'', JStr (gi_version input))]"

text \<open>\<open>JSON.stringify(document, null, 2)\<close> and a newline.\<close>

definition json_text :: "jv \<Rightarrow> string" where
  "json_text v = pretty 0 v @ newline"

definition generateCatalog :: "(string \<Rightarrow> string) \<Rightarrow> generation_input \<Rightarrow> failure + generated_artifact" where
  "generateCatalog hash input =
     bind_result (lift_canon (sourceDigest hash input)) (\<lambda>digest.
       Inr \<lparr>ga_path = CATALOG_ARTIFACT, ga_contents = json_text (JObj
         [(''schemaVersion'', JStr ''appspine.catalog/v1''), (''generatedBy'', generated_by input),
          (''sourceDigest'', JStr digest), (''resolutionDigest'', JStr (rg_digest (gi_graph input))),
          (''order'', jstrs (rg_order (gi_graph input))), (''presets'', preset_docs input),
          (''entries'', JArr (map snd (sort_key fst
             (concat (map (catalog_row input) (if_plugins (gi_inventory input))))))),
          (''note'', JStr ''Generated by @appspine/plugin-cli. Do not edit; run `appspine build`.'')])\<rparr>)"

section \<open>Drift\<close>

datatype drift_reason = Missing | Stale

record drift_entry =
  dr_path :: string
  dr_reason :: drift_reason

definition drift_of :: "files \<Rightarrow> string \<Rightarrow> generated_artifact \<Rightarrow> failure + drift_entry list" where
  "drift_of fs appRoot a =
     (let absolute = path_join [appRoot, ga_path a] in
      if \<not> existsSync fs absolute then Inr [\<lparr>dr_path = ga_path a, dr_reason = Missing\<rparr>]
      else bind_result (or_errno (readFileSync fs absolute)) (\<lambda>t.
        Inr (if t \<noteq> ga_contents a then [\<lparr>dr_path = ga_path a, dr_reason = Stale\<rparr>] else [])))"

definition detectDrift :: "files \<Rightarrow> string \<Rightarrow> generated_artifact list \<Rightarrow> failure + drift_entry list" where
  "detectDrift fs appRoot artifacts =
     bind_result (collect (map (drift_of fs appRoot) artifacts)) (\<lambda>ds. Inr (concat ds))"

text \<open>
  The names written, with the file system afterwards; a failure leaves what was written before it.
\<close>

fun write_artifacts :: "string \<Rightarrow> generated_artifact list \<Rightarrow> string list \<Rightarrow> files \<Rightarrow> (failure + string list) \<times> files" where
  "write_artifacts appRoot [] written fs = (Inr written, fs)"
| "write_artifacts appRoot (a # as) written fs =
     (let absolute = path_join [appRoot, ga_path a] in
      case holds_text fs absolute (ga_contents a) of
        Inl e \<Rightarrow> (Inl e, fs)
      | Inr True \<Rightarrow> write_artifacts appRoot as written fs
      | Inr False \<Rightarrow>
          (case writeFileSync absolute (ga_contents a) fs of
             Inl code \<Rightarrow> (Inl (Errno code), fs)
           | Inr gs \<Rightarrow> write_artifacts appRoot as (written @ [ga_path a]) gs))"

definition writeArtifacts :: "string \<Rightarrow> generated_artifact list \<Rightarrow> files \<Rightarrow> (failure + string list) \<times> files" where
  "writeArtifacts appRoot artifacts fs = write_artifacts appRoot artifacts [] fs"

definition recordedSourceDigest :: "cli_env \<Rightarrow> files \<Rightarrow> string \<Rightarrow> string \<Rightarrow> string option" where
  "recordedSourceDigest env fs appRoot artifactPath =
     (let absolute = path_join [appRoot, artifactPath] in
      if \<not> existsSync fs absolute then None
      else (case parse_file env fs absolute of
          Some parsed \<Rightarrow> if parsed = JNull then None else jstr (jget ''sourceDigest'' parsed)
        | None \<Rightarrow> None))"

definition driftDiagnostic :: "drift_entry \<Rightarrow> string \<Rightarrow> string option \<Rightarrow> diagnostic" where
  "driftDiagnostic entry expected recorded =
     (let because =
        (if dr_reason entry = Missing then ''it has never been generated''
         else if recorded = None then ''it does not record the inputs it came from''
         else if recorded = Some expected then ''the generator changed since it was written''
         else ''the inventory or a manifest changed since it was written'')
      in mk_diagnostic (if dr_reason entry = Missing then ''artifact-missing'' else ''artifact-stale'')
           (dr_path entry @ '' is out of date: '' @ because @ ''. Run `appspine build`'')
           (at_path (dr_path entry)))"

section \<open>What the source digest covers\<close>

lemma jget_key_sorted:
  assumes "wf_doc v"
  shows "jget k (key_sorted v) = key_sorted (jget k v)"
proof (cases v)
  case (JObj kvs)
  let ?ps = "sort_key fst (key_sorted_fields kvs)"
  have d: "distinct (map fst (key_sorted_fields kvs))" using assms JObj by simp
  then have "distinct (map fst ?ps)" by (simp add: distinct_sort_map)
  moreover from d have "map_of ?ps = map_of (key_sorted_fields kvs)" by (intro map_of_perm [symmetric]) simp_all
  moreover have "map_of (key_sorted_fields kvs) k = map_option key_sorted (map_of kvs k)"
    by (induction kvs) auto
  moreover have "map_of kvs ''__proto__'' = None"
    using assms JObj by (auto simp: wf_doc_fields_iff map_of_eq_None_iff)
  ultimately show ?thesis
    using JObj by (cases "map_of kvs k") (auto simp: jget_def obj_assign_all_get)
qed (simp_all add: jget_def)

lemma jget_key_sorted_eq:
  "wf_doc v \<Longrightarrow> wf_doc w \<Longrightarrow> key_sorted v = key_sorted w \<Longrightarrow> key_sorted (jget k v) = key_sorted (jget k w)"
  by (metis jget_key_sorted)

text \<open>A document built from atomic fields is determined by its key-sorted copy.\<close>

lemma wf_entry_doc [simp]: "wf_doc (entry_doc e)"
  by (simp add: entry_doc_def wf_doc_fields_iff split: option.split)

lemma key_sorted_atom [simp]: "key_sorted (jget k (entry_doc e)) = jget k (entry_doc e)"
proof -
  have "jget k (entry_doc e) = JUndefined \<or> (\<exists>s. jget k (entry_doc e) = JStr s) \<or> (\<exists>b. jget k (entry_doc e) = JBool b)"
    by (cases "ie_configRef e") (simp_all add: entry_doc_def jget_def)
  then show ?thesis by (elim disjE exE) simp_all
qed

lemma key_sorted_entry_doc_inj: "key_sorted (entry_doc a) = key_sorted (entry_doc b) \<longleftrightarrow> a = b"
proof
  assume "key_sorted (entry_doc a) = key_sorted (entry_doc b)"
  then have "jget k (entry_doc a) = jget k (entry_doc b)" for k
    using jget_key_sorted_eq [OF wf_entry_doc wf_entry_doc, of a b k] by (simp only: key_sorted_atom)
  then have "as_inventory_entry (entry_doc a) = as_inventory_entry (entry_doc b)"
    by (simp add: as_inventory_entry_def opt_field_def)
  then show "a = b" by simp
qed simp

lemma flat_doc_inj:
  assumes "wf_doc v" "wf_doc w" "key_sorted v = key_sorted w" "jget k v = JStr s" "jget k w = JStr t"
  shows "s = t"
  using jget_key_sorted_eq [OF assms(1-3), of k] by (simp only: assms(4,5) key_sorted.simps jv.inject)

lemma key_sorted_source_manifest:
  assumes "key_sorted (source_manifest a) = key_sorted (source_manifest b)"
  shows "lm_packageName a = lm_packageName b \<and> lm_packageVersion a = lm_packageVersion b \<and> lm_digest a = lm_digest b"
proof -
  have w: "wf_doc (source_manifest l)" for l by (simp add: source_manifest_def)
  show ?thesis
    by (intro conjI flat_doc_inj [OF w w assms, of "''packageName''"] flat_doc_inj [OF w w assms, of "''packageVersion''"]
      flat_doc_inj [OF w w assms, of "''digest''"]) (simp_all add: source_manifest_def jget_def)
qed

lemma key_sorted_source_preset:
  assumes "key_sorted (source_preset a) = key_sorted (source_preset b)"
  shows "psm_package a = psm_package b \<and> psm_version a = psm_version b"
proof -
  have w: "wf_doc (source_preset p)" for p by (simp add: source_preset_def)
  show ?thesis
    by (intro conjI flat_doc_inj [OF w w assms, of "''package''"] flat_doc_inj [OF w w assms, of "''version''"])
       (simp_all add: source_preset_def jget_def)
qed

lemma map_key_sorted_inj:
  assumes "map key_sorted (map f xs) = map key_sorted (map f ys)"
    and "\<And>a b. key_sorted (f a) = key_sorted (f b) \<Longrightarrow> g a = g b"
  shows "map g xs = map g ys"
proof -
  from assms(1) have "length xs = length ys" by (metis length_map)
  then show ?thesis
    using assms(1)
  proof (induction xs ys rule: list_induct2)
    case (Cons x xs y ys)
    then have "key_sorted (f x) = key_sorted (f y)" "map g xs = map g ys" by simp_all
    with assms(2) [of x y] show ?case by simp
  qed simp
qed

text \<open>What a generator may read of a manifest.\<close>

definition manifest_identity :: "loaded_manifest \<Rightarrow> string \<times> string \<times> string" where
  "manifest_identity l = (lm_packageName l, lm_packageVersion l, lm_digest l)"

definition preset_identity :: "preset_summary \<Rightarrow> string \<times> string" where
  "preset_identity p = (psm_package p, psm_version p)"

lemma wf_source_document: "wf_doc (source_document input)"
  by (simp add: source_document_def wf_doc_items_iff source_manifest_def source_preset_def)

lemma sourceDigest_ok: "sourceDigest hash input = Inr (''sha256:'' @ hash (stringify (key_sorted (source_document input))))"
  by (simp add: sourceDigest_def canonicalJsonString_doc wf_doc_is_doc wf_source_document)

lemma source_document_inj:
  assumes "key_sorted (source_document a) = key_sorted (source_document b)"
  shows "if_plugins (gi_inventory a) = if_plugins (gi_inventory b)
    \<and> map preset_identity (coalesce (gi_presets a) []) = map preset_identity (coalesce (gi_presets b) [])
    \<and> rg_digest (gi_graph a) = rg_digest (gi_graph b)
    \<and> map manifest_identity (sort_key lm_packageName (loaded_manifests a))
        = map manifest_identity (sort_key lm_packageName (loaded_manifests b))"
proof -
  have g: "key_sorted (jget k (source_document a)) = key_sorted (jget k (source_document b))" for k
    by (rule jget_key_sorted_eq [OF wf_source_document wf_source_document assms])
  have i: "map key_sorted (map entry_doc (if_plugins (gi_inventory a)))
      = map key_sorted (map entry_doc (if_plugins (gi_inventory b)))"
    using g [of "''inventory''"] by (simp add: source_document_def jget_def key_sorted_items_map)
  have p: "map key_sorted (map source_preset (coalesce (gi_presets a) []))
      = map key_sorted (map source_preset (coalesce (gi_presets b) []))"
    using g [of "''presets''"] by (simp add: source_document_def jget_def key_sorted_items_map)
  have m: "map key_sorted (map source_manifest (sort_key lm_packageName (loaded_manifests a)))
      = map key_sorted (map source_manifest (sort_key lm_packageName (loaded_manifests b)))"
    using g [of "''manifests''"] by (simp add: source_document_def jget_def key_sorted_items_map)
  have r: "rg_digest (gi_graph a) = rg_digest (gi_graph b)"
    using g [of "''resolution''"] by (simp add: source_document_def jget_def)
  have "map (\<lambda>e. e) (if_plugins (gi_inventory a)) = map (\<lambda>e. e) (if_plugins (gi_inventory b))"
    by (rule map_key_sorted_inj [OF i]) (simp only: key_sorted_entry_doc_inj)
  then have "if_plugins (gi_inventory a) = if_plugins (gi_inventory b)" by (simp only: list.map_ident)
  moreover have "map preset_identity (coalesce (gi_presets a) []) = map preset_identity (coalesce (gi_presets b) [])"
    by (rule map_key_sorted_inj [OF p]) (drule key_sorted_source_preset, simp add: preset_identity_def)
  moreover have "map manifest_identity (sort_key lm_packageName (loaded_manifests a))
        = map manifest_identity (sort_key lm_packageName (loaded_manifests b))"
    by (rule map_key_sorted_inj [OF m]) (drule key_sorted_source_manifest, simp add: manifest_identity_def)
  ultimately show ?thesis using r by blast
qed

section \<open>What writing does\<close>

definition artifact_file :: "string \<Rightarrow> generated_artifact \<Rightarrow> string" where
  "artifact_file appRoot a = path_join [appRoot, ga_path a]"

definition accessible :: "files \<Rightarrow> string \<Rightarrow> bool" where
  "accessible fs p \<longleftrightarrow> (\<forall>e. fs p \<noteq> Some (Unreadable e))"

definition up_to_date :: "files \<Rightarrow> string \<Rightarrow> generated_artifact \<Rightarrow> bool" where
  "up_to_date fs appRoot a \<longleftrightarrow> fs (artifact_file appRoot a) = Some (Text (ga_contents a))"

definition store_artifacts :: "string \<Rightarrow> generated_artifact list \<Rightarrow> files \<Rightarrow> files" where
  "store_artifacts appRoot as fs = fold (\<lambda>a gs. gs(artifact_file appRoot a \<mapsto> Text (ga_contents a))) as fs"

lemma store_other: "p \<notin> artifact_file appRoot ` set as \<Longrightarrow> store_artifacts appRoot as fs p = fs p"
  unfolding store_artifacts_def by (induction as arbitrary: fs) auto

lemma store_current:
  "distinct (map (artifact_file appRoot) as) \<Longrightarrow> a \<in> set as \<Longrightarrow> up_to_date (store_artifacts appRoot as fs) appRoot a"
proof (induction as arbitrary: fs)
  case (Cons b as)
  show ?case
  proof (cases "a \<in> set as")
    case True
    with Cons show ?thesis by (simp add: store_artifacts_def)
  next
    case False
    with Cons.prems have "a = b" "artifact_file appRoot b \<notin> artifact_file appRoot ` set as" by auto
    then show ?thesis
      using store_other [of "artifact_file appRoot b" appRoot as] by (simp add: store_artifacts_def up_to_date_def)
  qed
qed simp

lemma write_artifacts_writes:
  "\<forall>a\<in>set as. accessible fs (artifact_file appRoot a) \<Longrightarrow> distinct (map (artifact_file appRoot) as) \<Longrightarrow>
     write_artifacts appRoot as w fs =
       (Inr (w @ map ga_path (filter (\<lambda>a. \<not> up_to_date fs appRoot a) as)), store_artifacts appRoot as fs)"
proof (induction as arbitrary: w fs)
  case (Cons a as)
  obtain gs where gs: "gs = fs(artifact_file appRoot a \<mapsto> Text (ga_contents a))" by blast
  have acc: "accessible fs (artifact_file appRoot a)" "\<forall>b\<in>set as. accessible gs (artifact_file appRoot b)"
    using Cons.prems(1) by (auto simp: accessible_def gs)
  have w: "writeFileSync (artifact_file appRoot a) (ga_contents a) fs = Inr gs"
    and h: "holds_text fs (artifact_file appRoot a) (ga_contents a) = Inr (up_to_date fs appRoot a)"
    using acc(1) by (simp_all add: writeFileSync_Inr gs accessible_def holds_text_readable up_to_date_def)
  have same: "up_to_date gs appRoot b = up_to_date fs appRoot b" if "b \<in> set as" for b
  proof -
    have "artifact_file appRoot b \<noteq> artifact_file appRoot a" using Cons.prems(2) that by (auto simp: image_iff)
    then show ?thesis by (simp add: up_to_date_def gs)
  qed
  have st: "store_artifacts appRoot (a # as) fs = store_artifacts appRoot as gs"
    by (simp add: store_artifacts_def gs)
  have ih: "write_artifacts appRoot as v gs =
      (Inr (v @ map ga_path (filter (\<lambda>a. \<not> up_to_date fs appRoot a) as)), store_artifacts appRoot as gs)" for v
    using Cons.IH [OF acc(2)] Cons.prems(2) same by (simp cong: filter_cong)
  show ?case
  proof (cases "up_to_date fs appRoot a")
    case True
    then have "gs = fs" by (auto simp: gs up_to_date_def)
    with True h ih st show ?thesis by (simp add: Let_def artifact_file_def)
  next
    case False
    with h w ih st show ?thesis by (simp add: Let_def artifact_file_def)
  qed
qed (simp add: store_artifacts_def)

definition drift_entry_of :: "files \<Rightarrow> string \<Rightarrow> generated_artifact \<Rightarrow> drift_entry" where
  "drift_entry_of fs appRoot a =
     \<lparr>dr_path = ga_path a, dr_reason = (if fs (artifact_file appRoot a) = None then Missing else Stale)\<rparr>"

lemma drift_of_accessible:
  "accessible fs (artifact_file appRoot a) \<Longrightarrow>
     drift_of fs appRoot a = Inr (if up_to_date fs appRoot a then [] else [drift_entry_of fs appRoot a])"
  by (auto simp: drift_of_def artifact_file_def [symmetric] accessible_def existsSync_def readFileSync_def
      up_to_date_def drift_entry_of_def split: option.split fs_entry.split)

lemma detectDrift_accessible:
  "\<forall>a\<in>set as. accessible fs (artifact_file appRoot a) \<Longrightarrow>
     detectDrift fs appRoot as = Inr (map (drift_entry_of fs appRoot) (filter (\<lambda>a. \<not> up_to_date fs appRoot a) as))"
proof -
  assume "\<forall>a\<in>set as. accessible fs (artifact_file appRoot a)"
  then have e: "map (drift_of fs appRoot) as =
      map (\<lambda>a. Inr (if up_to_date fs appRoot a then [] else [drift_entry_of fs appRoot a])) as"
    by (simp add: drift_of_accessible)
  have "detectDrift fs appRoot as =
      Inr (concat (map (\<lambda>a. if up_to_date fs appRoot a then [] else [drift_entry_of fs appRoot a]) as))"
    unfolding detectDrift_def e collect_map_Inr by simp
  moreover have "concat (map (\<lambda>a. if up_to_date fs appRoot a then [] else [drift_entry_of fs appRoot a]) as)
      = map (drift_entry_of fs appRoot) (filter (\<lambda>a. \<not> up_to_date fs appRoot a) as)"
    by (induction as) simp_all
  ultimately show ?thesis by simp
qed

lemma store_accessible:
  "distinct (map (artifact_file appRoot) as) \<Longrightarrow> a \<in> set as \<Longrightarrow>
     accessible (store_artifacts appRoot as fs) (artifact_file appRoot a)"
  using store_current [of appRoot as a fs] by (simp add: accessible_def up_to_date_def)

lemma artifact_file_inj: "plain_path (ga_path a) \<Longrightarrow> plain_path (ga_path b) \<Longrightarrow>
    artifact_file appRoot a = artifact_file appRoot b \<longleftrightarrow> ga_path a = ga_path b"
  by (simp add: artifact_file_def path_join_inj)

lemma distinct_artifact_files:
  "\<forall>a\<in>set as. plain_path (ga_path a) \<Longrightarrow> distinct (map ga_path as) \<Longrightarrow> distinct (map (artifact_file appRoot) as)"
  by (induction as) (auto simp: artifact_file_inj)

section \<open>Properties\<close>

text \<open>
  When the hash does not collide on the two inputs, two generations have the same source digest
  exactly when they agree on everything the digest is meant to cover: the entries of the inventory,
  the packages and versions of the presets, the digest of the resolution, and the name, version and
  digest of every manifest, disabled plugins included.
\<close>

theorem source_digest_covers_inputs:
  assumes "no_collision hash (stringify (key_sorted (source_document a))) (stringify (key_sorted (source_document b)))"
  shows "sourceDigest hash a = sourceDigest hash b \<longleftrightarrow>
    if_plugins (gi_inventory a) = if_plugins (gi_inventory b)
    \<and> map preset_identity (coalesce (gi_presets a) []) = map preset_identity (coalesce (gi_presets b) [])
    \<and> rg_digest (gi_graph a) = rg_digest (gi_graph b)
    \<and> map manifest_identity (sort_key lm_packageName (loaded_manifests a))
        = map manifest_identity (sort_key lm_packageName (loaded_manifests b))" (is "_ \<longleftrightarrow> ?same")
proof
  assume "sourceDigest hash a = sourceDigest hash b"
  then have "stringify (key_sorted (source_document a)) = stringify (key_sorted (source_document b))"
    using assms by (simp add: sourceDigest_ok no_collision_def)
  then have "key_sorted (source_document a) = key_sorted (source_document b)"
    by (simp only: stringify_inj is_doc_key_sorted(1) wf_doc_is_doc(1) wf_source_document)
  then show ?same by (rule source_document_inj)
next
  assume same: ?same
  have pre: "map source_preset ps = map (\<lambda>(n, v). JObj [(''package'', JStr n), (''version'', JStr v)])
      (map preset_identity ps)" for ps
    by (simp add: source_preset_def preset_identity_def)
  have man: "map source_manifest ls = map (\<lambda>(n, v, d). JObj [(''packageName'', JStr n),
      (''packageVersion'', JStr v), (''digest'', JStr d)]) (map manifest_identity ls)" for ls
    by (simp add: source_manifest_def manifest_identity_def)
  have "source_document a = source_document b" 
    unfolding source_document_def pre man using same by (simp only:)
  then show "sourceDigest hash a = sourceDigest hash b" by (simp add: sourceDigest_def)
qed

text \<open>
  C34. Writing the generated artefacts writes exactly the files the drift check reports, in their
  order, changes no other file, and afterwards the check reports nothing and writing again writes
  nothing. Hypotheses: the files are accessible and the artefacts have distinct plain relative paths.
\<close>

theorem writing_artifacts_removes_drift:
  assumes "\<forall>a\<in>set artifacts. accessible fs (artifact_file appRoot a)"
    and "\<forall>a\<in>set artifacts. plain_path (ga_path a)" and "distinct (map ga_path artifacts)"
  shows "\<exists>drift gs. detectDrift fs appRoot artifacts = Inr drift
    \<and> writeArtifacts appRoot artifacts fs = (Inr (map dr_path drift), gs)
    \<and> (\<forall>p. p \<in> artifact_file appRoot ` set artifacts \<or> gs p = fs p)
    \<and> detectDrift gs appRoot artifacts = Inr []
    \<and> writeArtifacts appRoot artifacts gs = (Inr [], gs)"
proof -
  let ?gs = "store_artifacts appRoot artifacts fs"
  have dist: "distinct (map (artifact_file appRoot) artifacts)"
    using distinct_artifact_files [OF assms(2,3)] .
  have cur: "\<forall>a\<in>set artifacts. up_to_date ?gs appRoot a" and acc: "\<forall>a\<in>set artifacts. accessible ?gs (artifact_file appRoot a)"
    using store_current [OF dist] store_accessible [OF dist] by blast+
  have none: "filter (\<lambda>a. \<not> up_to_date ?gs appRoot a) artifacts = []" using cur by (simp add: filter_empty_conv)
  have again: "store_artifacts appRoot artifacts ?gs = ?gs"
  proof
    fix p show "store_artifacts appRoot artifacts ?gs p = ?gs p"
      using store_other [of p appRoot artifacts ?gs] store_current [OF dist, of _ ?gs] cur
      by (cases "p \<in> artifact_file appRoot ` set artifacts") (auto simp: up_to_date_def)
  qed
  show ?thesis
    using write_artifacts_writes [OF assms(1) dist, of "[]"] write_artifacts_writes [OF acc dist, of "[]"]
      detectDrift_accessible [OF assms(1)] detectDrift_accessible [OF acc] none again
      store_other [of _ appRoot artifacts fs]
    by (intro exI [of _ "map (drift_entry_of fs appRoot) (filter (\<lambda>a. \<not> up_to_date fs appRoot a) artifacts)"]
        exI [of _ ?gs]) (auto simp: writeArtifacts_def drift_entry_of_def)
qed

definition ex_graph0 :: resolution_graph where
  "ex_graph0 = \<lparr>rg_order = [''notes''], rg_instances = [], rg_providers = [], rg_hostCapabilities = [], rg_disabled = [],
     rg_digest = ''sha256:g'', rg_diagnostics = []\<rparr>"

definition ex_input :: "string \<Rightarrow> generation_input" where
  "ex_input version = \<lparr>gi_inventory = ex_inventory, gi_manifests = empty_manifests, gi_graph = ex_graph0,
     gi_presetProvenance = None,
     gi_presets = Some [\<lparr>psm_package = ''standard'', psm_version = version, psm_id = JStr ''standard'', psm_contributes = []\<rparr>],
     gi_tool = ''cli'', gi_version = ''2.0.0''\<rparr>"

theorem source_digest_covers_inputs_witness:
  "sourceDigest rev (ex_input ''1.0.0'') \<noteq> sourceDigest rev (ex_input ''2.0.0'')"
proof -
  have n: "no_collision rev s t" for s t by (simp add: no_collision_def)
  have "map preset_identity (coalesce (gi_presets (ex_input ''1.0.0'')) [])
      \<noteq> map preset_identity (coalesce (gi_presets (ex_input ''2.0.0'')) [])"
    by (simp add: ex_input_def preset_identity_def)
  with source_digest_covers_inputs [OF n, of "ex_input ''1.0.0''" "ex_input ''2.0.0''"] show ?thesis by blast
qed

definition ex_artifacts :: "generated_artifact list" where
  "ex_artifacts = [\<lparr>ga_path = CATALOG_ARTIFACT, ga_contents = ''c''\<rparr>,
     \<lparr>ga_path = ''.appspine/generated/permissions.json'', ga_contents = ''p''\<rparr>]"

theorem writing_artifacts_removes_drift_witness:
  "\<exists>gs. fst (writeArtifacts ''/app'' ex_artifacts (\<lambda>_. None)) \<noteq> Inr []
    \<and> writeArtifacts ''/app'' ex_artifacts gs = (Inr [], gs)"
proof -
  have acc: "\<forall>a\<in>set ex_artifacts. accessible (\<lambda>_. None) (artifact_file ''/app'' a)"
    by (simp add: accessible_def)
  have plain: "\<forall>a\<in>set ex_artifacts. plain_path (ga_path a)" and dist: "distinct (map ga_path ex_artifacts)"
    by code_simp+
  obtain drift gs where "detectDrift (\<lambda>_. None) ''/app'' ex_artifacts = Inr drift"
    "writeArtifacts ''/app'' ex_artifacts (\<lambda>_. None) = (Inr (map dr_path drift), gs)"
    "writeArtifacts ''/app'' ex_artifacts gs = (Inr [], gs)"
    using writing_artifacts_removes_drift [OF acc plain dist] by blast
  moreover have "detectDrift (\<lambda>_. None) ''/app'' ex_artifacts \<noteq> Inr []" by code_simp
  ultimately show ?thesis by auto
qed

end
