(* ===== verification/Composition.thy ===== *)
theory Composition
  imports Artifacts ConfigBoundary
begin

text \<open>
  The generated backend composition: \<open>plugin-cli/src/composition.ts\<close>.
  The lemmas show that every resolved package is imported exactly once, in registration order, and
  that no two imports share a local name.
\<close>

definition COMPOSITION_ARTIFACT :: string where
  "COMPOSITION_ARTIFACT = GENERATED_DIR @ ''/backend/composition.ts''"

section \<open>Names\<close>

definition is_separator :: "char \<Rightarrow> bool" where
  "is_separator c \<longleftrightarrow> c = CHR ''-'' \<or> c = CHR ''_'' \<or> c = CHR ''.''"

lemma dropWhile_Cons_shorter: "dropWhile P cs = d # ds \<Longrightarrow> length ds < Suc (length cs)"
  using length_dropWhile_le [of P cs] by simp

text \<open>
  \<open>replace(/[-_.]+(.)/g, (_, c) => c.toUpperCase())\<close>. A run of separators that no further
  character follows gives its last separator back to the group, unless it is a single one.
\<close>

function camel :: "string \<Rightarrow> string" where
  "camel [] = []"
| "camel (c # cs) =
     (if \<not> is_separator c then c # camel cs
      else (case dropWhile is_separator cs of
          [] \<Rightarrow> [last (c # cs)]
        | d # ds \<Rightarrow>
            if d = CHR 0x0A \<or> d = CHR 0x0D
            then last (c # takeWhile is_separator cs) # d # camel ds
            else upper_char d # camel ds))"
  by pat_completeness auto
termination
  by (relation "measure length") (auto dest: dropWhile_Cons_shorter)

definition camel_case :: "string \<Rightarrow> string" where
  "camel_case s = camel s"

definition descriptorExportName :: "string \<Rightarrow> string" where
  "descriptorExportName pluginId = camel_case pluginId @ ''Plugin''"

definition localAlias :: "string \<Rightarrow> nat \<Rightarrow> string" where
  "localAlias pluginId index = descriptorExportName pluginId @ ''_'' @ show_nat index"

section \<open>Packages\<close>

record composed_package =
  cg_packageName :: string
  cg_pluginId :: string
  cg_packageVersion :: string

definition instance_of_key :: "resolution_graph \<Rightarrow> string \<Rightarrow> resolved_instance option" where
  "instance_of_key graph key = find (\<lambda>i. rs_key i = key) (rg_instances graph)"

text \<open>One iteration over the registration order; the packages seen are those already listed.\<close>

definition add_package :: "resolution_graph \<Rightarrow> string \<Rightarrow> composed_package list \<Rightarrow> composed_package list" where
  "add_package graph key ps =
     (case instance_of_key graph key of
        None \<Rightarrow> ps
      | Some i \<Rightarrow>
          if rs_packageName i \<in> set (map cg_packageName ps) then ps
          else ps @ [\<lparr>cg_packageName = rs_packageName i, cg_pluginId = rs_pluginId i,
                      cg_packageVersion = rs_packageVersion i\<rparr>])"

definition packagesInOrder :: "resolution_graph \<Rightarrow> composed_package list" where
  "packagesInOrder graph = fold (add_package graph) (rg_order graph) []"

definition aliases :: "resolution_graph \<Rightarrow> (string \<times> string) list" where
  "aliases graph =
     entries_map (map (\<lambda>(index, p). (cg_packageName p, localAlias (cg_pluginId p) index))
       (List.enumerate 0 (packagesInOrder graph)))"

definition alias_of :: "resolution_graph \<Rightarrow> composed_package \<Rightarrow> string" where
  "alias_of graph p = coalesce (map_of (aliases graph) (cg_packageName p)) ''undefined''"

section \<open>The file\<close>

definition generated_header :: "string list" where
  "generated_header =
     [''// GENERATED BY @appspine/plugin-cli '' @ em_dash @ '' DO NOT EDIT.'', ''//'',
      ''// Run `appspine build` to regenerate, and `appspine build --check` to verify.'']"

definition import_line :: "resolution_graph \<Rightarrow> composed_package \<Rightarrow> string" where
  "import_line graph p =
     ''import { '' @ descriptorExportName (cg_pluginId p) @ '' as '' @ alias_of graph p @ '' } from ''
     @ [CHR 0x27] @ cg_packageName p @ ''/plugin'' @ [CHR 0x27] @ '';''"

definition bool_text :: "bool \<Rightarrow> string" where
  "bool_text b = (if b then ''true'' else ''false'')"

definition inventory_line :: "inventory_entry \<Rightarrow> string" where
  "inventory_line entry =
     ''    { '' @ join '', ''
       ([''plugin: '' @ quote (ie_plugin entry), ''instanceId: '' @ quote (ie_instanceId entry),
         ''enabled: '' @ bool_text (ie_enabled entry), ''required: '' @ bool_text (ie_required entry)]
        @ (if truthy (ie_configRef entry) then [''configRef: '' @ quote (the (ie_configRef entry))] else []))
     @ '' },''"

definition plugin_line :: "resolution_graph \<Rightarrow> composed_package \<Rightarrow> string" where
  "plugin_line graph p =
     ''    { plugin: '' @ alias_of graph p @ '', packageName: '' @ quote (cg_packageName p)
     @ '', packageVersion: '' @ quote (cg_packageVersion p) @ '' },''"

definition composition_lines :: "generation_input \<Rightarrow> string \<Rightarrow> string list" where
  "composition_lines input digest =
     (let graph = gi_graph input; packages = packagesInOrder graph in
      generated_header
      @ [''// sourceDigest: '' @ digest, ''// resolutionDigest: '' @ rg_digest graph, ''//'',
         ''// Every plugin below is a static import. Nothing here resolves a package name at'',
         ''// runtime: the bundler, TypeScript and a dependency scanner must all see the edge.'', [],
         ''import type { GeneratedComposition } from '' @ [CHR 0x27] @ ''@appspine/plugin-host-nest'' @ [CHR 0x27] @ '';'']
      @ map (import_line graph) packages
      @ [[], ''export const composition: GeneratedComposition = {'',
         ''  schemaVersion: '' @ [CHR 0x27] @ ''appspine.composition/v1'' @ [CHR 0x27] @ '','',
         ''  resolutionDigest: '' @ quote (rg_digest graph) @ '','', ''  inventory: ['']
      @ map inventory_line
          (sort_key (\<lambda>e. ie_plugin e @ '' '' @ ie_instanceId e) (if_plugins (gi_inventory input)))
      @ [''  ],'', ''  plugins: ['']
      @ map (plugin_line graph) packages
      @ [''  ],'',
         ''  generatedBy: { tool: '' @ quote (gi_tool input) @ '', version: '' @ quote (gi_version input) @ '' },'',
         ''};'', [], ''export default composition;'', []])"

definition generateComposition :: "(string \<Rightarrow> string) \<Rightarrow> generation_input \<Rightarrow> failure + generated_artifact" where
  "generateComposition hash input =
     bind_result (lift_canon (sourceDigest hash input)) (\<lambda>digest.
       Inr \<lparr>ga_path = COMPOSITION_ARTIFACT, ga_contents = join newline (composition_lines input digest)\<rparr>)"

definition compositionPreflight :: "generation_input \<Rightarrow> diagnostic list" where
  "compositionPreflight input =
     concat (map (\<lambda>i.
       case manifest_of input (rs_packageName i) of
         None \<Rightarrow> []
       | Some l \<Rightarrow>
           if fc_backend (mf_facets (lm_manifest l)) = None
           then [mk_diagnostic ''composition-without-backend''
             (quoted (rs_pluginId i) @ '' has no backend facet, so it contributes nothing to the Nest composition'')
             (of_plugin (rs_pluginId i) (with_severity SevInfo no_extra))]
           else []) (rg_instances (gi_graph input)))"

section \<open>One import per package\<close>

lemma fold_add_package:
  "distinct (map cg_packageName ps) \<Longrightarrow>
     distinct (map cg_packageName (fold (add_package graph) keys ps))
     \<and> set (map cg_packageName (fold (add_package graph) keys ps)) =
         set (map cg_packageName ps)
         \<union> {rs_packageName i |i k. k \<in> set keys \<and> instance_of_key graph k = Some i}"
proof (induction keys arbitrary: ps)
  case (Cons k keys)
  let ?qs = "add_package graph k ps"
  have d: "distinct (map cg_packageName ?qs)"
    using Cons.prems by (auto simp: add_package_def split: option.split)
  have s: "set (map cg_packageName ?qs) =
      set (map cg_packageName ps) \<union> {rs_packageName i |i. instance_of_key graph k = Some i}"
    by (auto simp: add_package_def split: option.split)
  from Cons.IH [OF d] show ?case unfolding fold_Cons o_apply s by auto
qed simp

lemma localAlias_index: "localAlias p i = localAlias q j \<Longrightarrow> i = j"
proof -
  have u: "CHR ''_'' \<notin> set (show_nat n)" for n
    using show_nat_digits [of n] by (auto simp: list_all_iff is_digit_def)
  have a: "after_last CHR ''_'' (localAlias p n) = show_nat n" for p n
    using after_last_append [OF u, of "descriptorExportName p" n] by (simp add: localAlias_def)
  assume "localAlias p i = localAlias q j"
  then have "show_nat i = show_nat j" using a by metis
  then show "i = j" by (rule show_nat_inj)
qed

lemma distinct_packages: "distinct (map cg_packageName (packagesInOrder graph))"
  using fold_add_package [of "[]"] by (simp add: packagesInOrder_def)

text \<open>The table of aliases, numbered from an index on.\<close>

fun numbered_aliases :: "nat \<Rightarrow> composed_package list \<Rightarrow> (string \<times> string) list" where
  "numbered_aliases n [] = []"
| "numbered_aliases n (p # ps) = (cg_packageName p, localAlias (cg_pluginId p) n) # numbered_aliases (Suc n) ps"

lemma numbered_aliases_eq:
  "map (\<lambda>(index, p). (cg_packageName p, localAlias (cg_pluginId p) index)) (List.enumerate n ps) = numbered_aliases n ps"
  by (induction ps arbitrary: n) simp_all

lemma fst_numbered_aliases: "map fst (numbered_aliases n ps) = map cg_packageName ps"
  by (induction ps arbitrary: n) simp_all

lemma snd_numbered_aliases: "a \<in> snd ` set (numbered_aliases n ps) \<Longrightarrow> \<exists>m q. n \<le> m \<and> a = localAlias q m"
proof (induction ps arbitrary: n)
  case (Cons p ps)
  from Cons.prems consider "a = localAlias (cg_pluginId p) n" | "a \<in> snd ` set (numbered_aliases (Suc n) ps)"
    by auto
  then show ?case
  proof cases
    case 2
    from Cons.IH [OF 2] obtain m q where "Suc n \<le> m" "a = localAlias q m" by blast
    moreover from this have "n \<le> m" by simp
    ultimately show ?thesis by blast
  qed blast
qed simp

lemma distinct_numbered_aliases: "distinct (map snd (numbered_aliases n ps))"
proof (induction ps arbitrary: n)
  case (Cons p ps)
  have "localAlias (cg_pluginId p) n \<notin> snd ` set (numbered_aliases (Suc n) ps)"
  proof
    assume "localAlias (cg_pluginId p) n \<in> snd ` set (numbered_aliases (Suc n) ps)"
    then obtain m q where "Suc n \<le> m" "localAlias (cg_pluginId p) n = localAlias q m"
      using snd_numbered_aliases by blast
    then show False using localAlias_index by fastforce
  qed
  with Cons show ?case by simp
qed simp

lemma aliases_eq: "aliases graph = numbered_aliases 0 (packagesInOrder graph)"
  unfolding aliases_def numbered_aliases_eq
  by (rule entries_map_distinct) (simp only: fst_numbered_aliases distinct_packages)

lemma map_alias_of:
  assumes "distinct (map cg_packageName ps)"
  shows "map (\<lambda>p. coalesce (map_of (numbered_aliases n ps) (cg_packageName p)) d) ps = map snd (numbered_aliases n ps)"
  using assms
proof (induction ps arbitrary: n)
  case (Cons p ps)
  then have "cg_packageName p \<notin> cg_packageName ` set ps" by simp
  then have "\<forall>q\<in>set ps. cg_packageName q \<noteq> cg_packageName p" by (metis imageI)
  then have "map (\<lambda>q. coalesce (map_of (numbered_aliases n (p # ps)) (cg_packageName q)) d) ps
      = map (\<lambda>q. coalesce (map_of (numbered_aliases (Suc n) ps) (cg_packageName q)) d) ps"
    by simp
  also have "\<dots> = map snd (numbered_aliases (Suc n) ps)" using Cons by simp
  finally show ?case by simp
qed simp

lemma alias_of_distinct: "distinct (map (alias_of graph) (packagesInOrder graph))"
proof -
  have "map (alias_of graph) (packagesInOrder graph) = map snd (numbered_aliases 0 (packagesInOrder graph))"
    using map_alias_of [OF distinct_packages, of 0 graph "''undefined''"] by (simp add: alias_of_def [abs_def] aliases_eq)
  then show ?thesis using distinct_numbered_aliases by simp
qed

section \<open>Properties\<close>

text \<open>
  The generated composition imports the package of every instance in the registration order, each
  package once, and no two imports have the same local name, even when two plugin ids have the same
  camel-case form.
\<close>

theorem composition_imports_each_package_once:
  "distinct (map cg_packageName (packagesInOrder graph))
    \<and> set (map cg_packageName (packagesInOrder graph)) =
        {rs_packageName i |i k. k \<in> set (rg_order graph) \<and> instance_of_key graph k = Some i}
    \<and> distinct (map (alias_of graph) (packagesInOrder graph))"
  using fold_add_package [of "[]" graph "rg_order graph"] alias_of_distinct
  by (simp add: packagesInOrder_def)

end
