(* ===== verification/Lockfile.thy ===== *)
theory Lockfile
  imports Artifacts
begin

text \<open>
  The plugin lockfile: \<open>plugin-cli/src/lockfile.ts\<close>.
  The lemmas show when the comparison with a fresh lock is clean, what each kind of drift is reported
  as, and that a lock that was just written compares clean.
\<close>

definition LOCKFILE_NAME :: string where
  "LOCKFILE_NAME = ''appspine.plugin-lock.json''"

definition LOCK_SCHEMA_VERSION :: string where
  "LOCK_SCHEMA_VERSION = ''appspine.plugin-lock/v1''"

record locked_package =
  kp_name :: string
  kp_version :: string
  kp_digest :: string
  kp_manifestDigest :: string
  kp_schemaDigest :: "string option"
  kp_permissionDigest :: "string option"

record locked_instance =
  ki_key :: string
  ki_pluginId :: string
  ki_instanceId :: string
  ki_package :: string
  ki_enabled :: bool
  ki_required :: bool
  ki_configRef :: "string option"
  ki_fromPreset :: "string option"
  ki_provides :: "string list"
  ki_requires :: "string list"
  ki_optionalRequires :: "string list"
  ki_unresolvedOptional :: "string list"
  ki_dependsOn :: "string list"
  ki_environment :: jv

record locked_artifact =
  ka_path :: string
  ka_digest :: string

record plugin_lockfile =
  lk_presets :: "preset_summary list"
  lk_resolutionDigest :: string
  lk_order :: "string list"
  lk_capabilities :: "(string \<times> string list) list"
  lk_hostCapabilities :: "string list"
  lk_packages :: "locked_package list"
  lk_instances :: "locked_instance list"
  lk_artifacts :: "locked_artifact list"

section \<open>Building\<close>

definition artifactDigest :: "(string \<Rightarrow> string) \<Rightarrow> string \<Rightarrow> string" where
  "artifactDigest hash contents = ''sha256:'' @ hash contents"

text \<open>\<open>replace(/\r\n/g, '\n')\<close>\<close>

fun lf_normalised :: "string \<Rightarrow> string" where
  "lf_normalised (c # d # cs) =
     (if c = CHR 0x0D \<and> d = CHR 0x0A then CHR 0x0A # lf_normalised cs else c # lf_normalised (d # cs))"
| "lf_normalised cs = cs"

definition fragmentDigest ::
    "(string \<Rightarrow> string) \<Rightarrow> files \<Rightarrow> string \<Rightarrow> string option \<Rightarrow> failure + string option" where
  "fragmentDigest hash fs packageDir fragment =
     (if \<not> truthy fragment then Inr None
      else let absolute = path_join [packageDir, the fragment] in
        if \<not> existsSync fs absolute then Inr None
        else bind_result (or_errno (readFileSync fs absolute)) (\<lambda>t.
          Inr (Some (''sha256:'' @ hash (lf_normalised t)))))"

definition locked_package_of ::
    "(string \<Rightarrow> string) \<Rightarrow> files \<Rightarrow> (string \<times> string) list \<Rightarrow> loaded_manifest \<Rightarrow> failure + locked_package" where
  "locked_package_of hash fs packageDirs l =
     bind_result
       (case map_of packageDirs (lm_packageName l) of
          None \<Rightarrow> Inr None
        | Some dir \<Rightarrow>
            if dir = [] then Inr None
            else fragmentDigest hash fs dir (case prisma_of l of None \<Rightarrow> None | Some p \<Rightarrow> pf_schemaFragment p))
       (\<lambda>schema. Inr \<lparr>kp_name = lm_packageName l, kp_version = lm_packageVersion l, kp_digest = lm_digest l,
          kp_manifestDigest = lm_manifestDigest l, kp_schemaDigest = schema, kp_permissionDigest = None\<rparr>)"

definition locked_instance_of :: "generation_input \<Rightarrow> inventory_entry \<Rightarrow> locked_instance list" where
  "locked_instance_of input entry =
     (case map_of (ms_byRef (gi_manifests input)) (ie_plugin entry) of
        None \<Rightarrow> []
      | Some l \<Rightarrow>
          let m = lm_manifest l; key = entry_instance_key_of l entry;
              resolved = map_of (resolved_by_key (gi_graph input)) key
          in [\<lparr>ki_key = key, ki_pluginId = mf_id m, ki_instanceId = ie_instanceId entry,
               ki_package = lm_packageName l, ki_enabled = ie_enabled entry, ki_required = ie_required entry,
               ki_configRef = ie_configRef entry, ki_fromPreset = provenance_of input key,
               ki_provides = (case resolved of Some r \<Rightarrow> rs_provides r | None \<Rightarrow> []),
               ki_requires = (case resolved of Some r \<Rightarrow> rs_requires r | None \<Rightarrow> mf_requires m),
               ki_optionalRequires = (case resolved of Some r \<Rightarrow> rs_optionalRequires r
                 | None \<Rightarrow> coalesce (mf_optionalRequires m) []),
               ki_unresolvedOptional = (case resolved of Some r \<Rightarrow> rs_unresolvedOptional r | None \<Rightarrow> []),
               ki_dependsOn = (case resolved of Some r \<Rightarrow> rs_dependsOn r | None \<Rightarrow> []),
               ki_environment = environment_docs m\<rparr>])"

definition locked_artifact_of :: "(string \<Rightarrow> string) \<Rightarrow> generated_artifact \<Rightarrow> locked_artifact" where
  "locked_artifact_of hash a = \<lparr>ka_path = ga_path a, ka_digest = artifactDigest hash (ga_contents a)\<rparr>"

definition buildLockfile ::
    "(string \<Rightarrow> string) \<Rightarrow> files \<Rightarrow> generation_input \<Rightarrow> generated_artifact list \<Rightarrow> (string \<times> string) list
      \<Rightarrow> failure + plugin_lockfile" where
  "buildLockfile hash fs input artifacts packageDirs =
     bind_result (collect (map (locked_package_of hash fs packageDirs) (loaded_manifests input))) (\<lambda>packages.
       let graph = gi_graph input in
       Inr \<lparr>lk_presets = coalesce (gi_presets input) [], lk_resolutionDigest = rg_digest graph,
            lk_order = rg_order graph,
            lk_capabilities = own_order (sort_key fst (map (\<lambda>(c, keys). (c, sort keys)) (rg_providers graph))),
            lk_hostCapabilities = sort (rg_hostCapabilities graph),
            lk_packages = sort_key kp_name packages,
            lk_instances = sort_key ki_key (concat (map (locked_instance_of input) (if_plugins (gi_inventory input)))),
            lk_artifacts = sort_key ka_path (map (locked_artifact_of hash) artifacts)\<rparr>)"

section \<open>Serialisation\<close>

definition package_doc :: "locked_package \<Rightarrow> jv" where
  "package_doc p = JObj [(''name'', JStr (kp_name p)), (''version'', JStr (kp_version p)),
     (''digest'', JStr (kp_digest p)), (''manifestDigest'', JStr (kp_manifestDigest p)),
     (''schemaDigest'', nullable (kp_schemaDigest p)), (''permissionDigest'', nullable (kp_permissionDigest p))]"

definition instance_doc :: "locked_instance \<Rightarrow> jv" where
  "instance_doc i = JObj [(''key'', JStr (ki_key i)), (''pluginId'', JStr (ki_pluginId i)),
     (''instanceId'', JStr (ki_instanceId i)), (''package'', JStr (ki_package i)),
     (''enabled'', JBool (ki_enabled i)), (''required'', JBool (ki_required i)),
     (''configRef'', nullable (ki_configRef i)), (''fromPreset'', nullable (ki_fromPreset i)),
     (''provides'', jstrs (ki_provides i)), (''requires'', jstrs (ki_requires i)),
     (''optionalRequires'', jstrs (ki_optionalRequires i)),
     (''unresolvedOptional'', jstrs (ki_unresolvedOptional i)), (''dependsOn'', jstrs (ki_dependsOn i)),
     (''environment'', ki_environment i)]"

definition artifact_doc :: "locked_artifact \<Rightarrow> jv" where
  "artifact_doc a = JObj [(''path'', JStr (ka_path a)), (''digest'', JStr (ka_digest a))]"

definition LOCK_NOTE :: string where
  "LOCK_NOTE = ''Generated by @appspine/plugin-cli. Review this file as a diff; run `appspine build` to update it. ''
     @ ''Package resolution and integrity live in pnpm-lock.yaml, not here.''"

definition lock_document :: "plugin_lockfile \<Rightarrow> jv" where
  "lock_document lock = JObj
     [(''schemaVersion'', JStr LOCK_SCHEMA_VERSION), (''presets'', JArr (map preset_doc (lk_presets lock))),
      (''resolutionDigest'', JStr (lk_resolutionDigest lock)), (''order'', jstrs (lk_order lock)),
      (''capabilities'', JObj (map (\<lambda>(c, keys). (c, jstrs keys)) (lk_capabilities lock))),
      (''hostCapabilities'', jstrs (lk_hostCapabilities lock)),
      (''packages'', JArr (map package_doc (lk_packages lock))),
      (''instances'', JArr (map instance_doc (lk_instances lock))),
      (''artifacts'', JArr (map artifact_doc (lk_artifacts lock))), (''note'', JStr LOCK_NOTE)]"

definition serializeLockfile :: "plugin_lockfile \<Rightarrow> string" where
  "serializeLockfile lock = json_text (lock_document lock)"

definition lockfilePath :: "string \<Rightarrow> string" where
  "lockfilePath appRoot = path_join [appRoot, LOCKFILE_NAME]"

text \<open>The typed view of a lock on disk; only its schema version is checked when it is read.\<close>

definition opt_string :: "jv \<Rightarrow> string option" where
  "opt_string v = jstr v"

definition as_package :: "jv \<Rightarrow> locked_package" where
  "as_package v =
     \<lparr>kp_name = as_string (jget ''name'' v), kp_version = as_string (jget ''version'' v),
      kp_digest = as_string (jget ''digest'' v), kp_manifestDigest = as_string (jget ''manifestDigest'' v),
      kp_schemaDigest = opt_string (jget ''schemaDigest'' v),
      kp_permissionDigest = opt_string (jget ''permissionDigest'' v)\<rparr>"

definition as_instance :: "jv \<Rightarrow> locked_instance" where
  "as_instance v =
     \<lparr>ki_key = as_string (jget ''key'' v), ki_pluginId = as_string (jget ''pluginId'' v),
      ki_instanceId = as_string (jget ''instanceId'' v), ki_package = as_string (jget ''package'' v),
      ki_enabled = as_bool (jget ''enabled'' v), ki_required = as_bool (jget ''required'' v),
      ki_configRef = opt_string (jget ''configRef'' v), ki_fromPreset = opt_string (jget ''fromPreset'' v),
      ki_provides = as_strings (jget ''provides'' v), ki_requires = as_strings (jget ''requires'' v),
      ki_optionalRequires = as_strings (jget ''optionalRequires'' v),
      ki_unresolvedOptional = as_strings (jget ''unresolvedOptional'' v),
      ki_dependsOn = as_strings (jget ''dependsOn'' v), ki_environment = jget ''environment'' v\<rparr>"

definition as_artifact :: "jv \<Rightarrow> locked_artifact" where
  "as_artifact v = \<lparr>ka_path = as_string (jget ''path'' v), ka_digest = as_string (jget ''digest'' v)\<rparr>"

definition as_preset_summary :: "jv \<Rightarrow> preset_summary" where
  "as_preset_summary v =
     \<lparr>psm_package = as_string (jget ''package'' v), psm_version = as_string (jget ''version'' v),
      psm_id = jget ''id'' v, psm_contributes = as_strings (jget ''contributes'' v)\<rparr>"

definition as_lockfile :: "jv \<Rightarrow> plugin_lockfile" where
  "as_lockfile v =
     \<lparr>lk_presets = map as_preset_summary (array_or_empty (jget ''presets'' v)),
      lk_resolutionDigest = as_string (jget ''resolutionDigest'' v), lk_order = as_strings (jget ''order'' v),
      lk_capabilities = (case jget ''capabilities'' v of JObj kvs \<Rightarrow> map (\<lambda>(c, ks). (c, as_strings ks)) kvs | _ \<Rightarrow> []),
      lk_hostCapabilities = as_strings (jget ''hostCapabilities'' v),
      lk_packages = map as_package (array_or_empty (jget ''packages'' v)),
      lk_instances = map as_instance (array_or_empty (jget ''instances'' v)),
      lk_artifacts = map as_artifact (array_or_empty (jget ''artifacts'' v))\<rparr>"

definition readLockfile :: "cli_env \<Rightarrow> files \<Rightarrow> string \<Rightarrow> plugin_lockfile option" where
  "readLockfile env fs appRoot =
     (case parse_file env fs (lockfilePath appRoot) of
        None \<Rightarrow> None
      | Some parsed \<Rightarrow>
          if jget ''schemaVersion'' parsed = JStr LOCK_SCHEMA_VERSION then Some (as_lockfile parsed) else None)"

definition writeLockfile :: "string \<Rightarrow> plugin_lockfile \<Rightarrow> files \<Rightarrow> failure + bool \<times> files" where
  "writeLockfile appRoot lock fs =
     (let name = lockfilePath appRoot; contents = serializeLockfile lock in
      bind_result (holds_text fs name contents) (\<lambda>same.
        if same then Inr (False, fs)
        else bind_result (or_errno (writeFileSync name contents fs)) (\<lambda>gs. Inr (True, gs))))"

section \<open>Comparison\<close>

definition lock_path :: "string \<Rightarrow> diagnostic_extra" where
  "lock_path part = at_path (LOCKFILE_NAME @ ''#'' @ part)"

definition compare_package :: "(string \<times> locked_package) list \<Rightarrow> locked_package \<Rightarrow> diagnostic list" where
  "compare_package locked entry =
     (case map_of locked (kp_name entry) of
        None \<Rightarrow> [mk_diagnostic ''plugin-lock-package-added''
          (kp_name entry @ '' is installed but not in the lock'') (lock_path ''packages'')]
      | Some previous \<Rightarrow>
          if kp_version previous \<noteq> kp_version entry
          then [mk_diagnostic ''plugin-lock-version-drift''
            (kp_name entry @ '' is installed at '' @ kp_version entry @ '' but the lock records '' @ kp_version previous
              @ ''. The package manager ran without `appspine build`, so the reviewed capability graph describes the previous version'')
            (lock_path ''packages'')]
          else
            (if kp_manifestDigest previous \<noteq> kp_manifestDigest entry
             then [mk_diagnostic ''plugin-lock-manifest-tampered''
               (kp_name entry @ ''@'' @ kp_version entry
                 @ '' has a different manifest than the lock recorded for the same version. The installed package was modified after it was locked'')
               (lock_path ''packages'')]
             else [])
            @ (if kp_schemaDigest previous \<noteq> kp_schemaDigest entry
               then [mk_diagnostic ''plugin-lock-schema-drift''
                 (kp_name entry @ ''@'' @ kp_version entry @ '' ships a different Prisma fragment than the lock recorded'')
                 (lock_path ''packages'')]
               else []))"

definition compare_removed :: "locked_package list \<Rightarrow> locked_package \<Rightarrow> diagnostic list" where
  "compare_removed fresh entry =
     (if \<not> list_ex (\<lambda>c. kp_name c = kp_name entry) fresh
      then [mk_diagnostic ''plugin-lock-package-removed''
        (kp_name entry @ '' is in the lock but no longer referenced by the inventory'') (lock_path ''packages'')]
      else [])"

definition compare_artifact :: "locked_artifact list \<Rightarrow> locked_artifact \<Rightarrow> diagnostic list" where
  "compare_artifact on_disk artifact =
     (case find (\<lambda>c. ka_path c = ka_path artifact) on_disk of
        Some previous \<Rightarrow> if ka_digest previous \<noteq> ka_digest artifact
          then [mk_diagnostic ''plugin-lock-artifact-drift''
            (ka_path artifact @ '' does not match the digest recorded in the lock'') (lock_path ''artifacts'')]
          else []
      | None \<Rightarrow> [mk_diagnostic ''plugin-lock-artifact-drift''
            (ka_path artifact @ '' does not match the digest recorded in the lock'') (lock_path ''artifacts'')])"

definition compareLockfile :: "plugin_lockfile option \<Rightarrow> plugin_lockfile \<Rightarrow> diagnostic list" where
  "compareLockfile on_disk fresh =
     (case on_disk of
        None \<Rightarrow> [mk_diagnostic ''plugin-lock-missing''
          (LOCKFILE_NAME @ '' is missing or unreadable. Run `appspine build` and commit the result'')
          (at_path LOCKFILE_NAME)]
      | Some disk \<Rightarrow>
          concat (map (compare_package (entries_map (map (\<lambda>e. (kp_name e, e)) (lk_packages disk)))) (lk_packages fresh))
          @ concat (map (compare_removed (lk_packages fresh)) (lk_packages disk))
          @ (if lk_resolutionDigest disk \<noteq> lk_resolutionDigest fresh
             then [mk_diagnostic ''plugin-lock-resolution-drift''
               ''the resolved capability graph differs from the one in the lock. Run `appspine build` and review the diff''
               (lock_path ''resolutionDigest'')]
             else [])
          @ concat (map (compare_artifact (lk_artifacts disk)) (lk_artifacts fresh)))"

section \<open>When a lock is current\<close>

text \<open>What the comparison reads of a package.\<close>

definition package_identity :: "locked_package \<Rightarrow> string \<times> string \<times> string \<times> string option" where
  "package_identity p = (kp_name p, kp_version p, kp_manifestDigest p, kp_schemaDigest p)"

lemma distinct_map_same: "distinct (map f xs) \<Longrightarrow> x \<in> set xs \<Longrightarrow> y \<in> set xs \<Longrightarrow> f x = f y \<Longrightarrow> x = y"
  by (auto simp: distinct_map dest: inj_onD)

lemma map_of_by_name:
  "distinct (map kp_name ps) \<Longrightarrow> map_of (entries_map (map (\<lambda>e. (kp_name e, e)) ps)) n = Some e \<longleftrightarrow> e \<in> set ps \<and> kp_name e = n"
proof -
  assume "distinct (map kp_name ps)"
  then have d: "distinct (map fst (map (\<lambda>e. (kp_name e, e)) ps))" by (simp add: comp_def)
  show ?thesis unfolding entries_map_distinct [OF d] map_of_eq_Some_iff [OF d] by auto
qed

lemma compare_package_clean:
  assumes "distinct (map kp_name ps)"
  shows "compare_package (entries_map (map (\<lambda>e. (kp_name e, e)) ps)) e = [] \<longleftrightarrow> package_identity e \<in> package_identity ` set ps"
proof (cases "map_of (entries_map (map (\<lambda>e. (kp_name e, e)) ps)) (kp_name e)")
  case None
  have "kp_name f \<noteq> kp_name e" if "f \<in> set ps" for f
    using map_of_by_name [OF assms, of "kp_name e" f] None that by auto
  then have "package_identity e \<notin> package_identity ` set ps" by (metis (no_types) imageE package_identity_def prod.inject)
  with None show ?thesis by (simp add: compare_package_def)
next
  case (Some f)
  then have f: "f \<in> set ps" "kp_name f = kp_name e" using map_of_by_name [OF assms] by auto
  have uniq: "g = f" if "g \<in> set ps" "kp_name g = kp_name e" for g
    using distinct_map_same [OF assms that(1) f(1)] that(2) f(2) by simp
  have "compare_package (entries_map (map (\<lambda>e. (kp_name e, e)) ps)) e = [] \<longleftrightarrow> package_identity f = package_identity e"
    using Some f by (auto simp: compare_package_def package_identity_def)
  also have "\<dots> \<longleftrightarrow> package_identity e \<in> package_identity ` set ps"
  proof
    assume "package_identity e \<in> package_identity ` set ps"
    then obtain g where g: "g \<in> set ps" "package_identity e = package_identity g" by blast
    then have "g = f" by (intro uniq) (simp_all add: package_identity_def)
    with g show "package_identity f = package_identity e" by simp
  qed (use f(1) in \<open>metis imageI\<close>)
  finally show ?thesis .
qed

lemma compare_removed_clean: "compare_removed fresh e = [] \<longleftrightarrow> kp_name e \<in> kp_name ` set fresh"
  by (auto simp: compare_removed_def list_ex_iff image_iff intro: sym)

lemma compare_artifact_clean:
  assumes "distinct (map ka_path disk)"
  shows "compare_artifact disk a = [] \<longleftrightarrow> a \<in> set disk"
proof (cases "find (\<lambda>c. ka_path c = ka_path a) disk")
  case None
  moreover from None have "a \<notin> set disk" by (auto simp: find_None_iff)
  ultimately show ?thesis by (simp add: compare_artifact_def)
next
  case (Some c)
  then have c: "c \<in> set disk" "ka_path c = ka_path a" by (auto simp: find_Some_iff)
  have uniq: "g = c" if "g \<in> set disk" "ka_path g = ka_path a" for g
    using distinct_map_same [OF assms that(1) c(1)] that(2) c(2) by simp
  have "compare_artifact disk a = [] \<longleftrightarrow> ka_digest c = ka_digest a" using Some by (simp add: compare_artifact_def)
  also have "\<dots> \<longleftrightarrow> c = a" using c(2) by (cases c; cases a) simp
  also have "\<dots> \<longleftrightarrow> a \<in> set disk" using c(1) uniq [of a] by blast
  finally show ?thesis .
qed

lemma concat_map_Nil_iff: "concat (map f xs) = [] \<longleftrightarrow> (\<forall>x\<in>set xs. f x = [])"
  by (induction xs) auto

lemma identities_agree:
  assumes "distinct (map kp_name ps)" "distinct (map kp_name qs)"
  shows "(\<forall>q\<in>set qs. package_identity q \<in> package_identity ` set ps) \<and> (\<forall>p\<in>set ps. kp_name p \<in> kp_name ` set qs)
    \<longleftrightarrow> package_identity ` set ps = package_identity ` set qs" (is "?l \<longleftrightarrow> ?r")
proof
  assume l: ?l
  have "package_identity p \<in> package_identity ` set qs" if p: "p \<in> set ps" for p
  proof -
    from l p obtain q where q: "q \<in> set qs" "kp_name q = kp_name p" by force
    with l obtain p' where p': "p' \<in> set ps" "package_identity p' = package_identity q" by force
    then have "kp_name p' = kp_name p" using q by (simp add: package_identity_def)
    with distinct_map_same [OF assms(1) p'(1) p] have "p' = p" by simp
    with p' q show ?thesis by (metis imageI)
  qed
  with l show ?r by blast
next
  assume r: ?r
  have "kp_name p \<in> kp_name ` set qs" if p: "p \<in> set ps" for p
  proof -
    from p r have "package_identity p \<in> package_identity ` set qs" by blast
    then show ?thesis by (auto simp: package_identity_def)
  qed
  with r show ?l by blast
qed

lemma compare_clean:
  assumes "distinct (map kp_name (lk_packages disk))" "distinct (map kp_name (lk_packages fresh))"
    and "distinct (map ka_path (lk_artifacts disk))"
  shows "compareLockfile (Some disk) fresh = [] \<longleftrightarrow>
    package_identity ` set (lk_packages disk) = package_identity ` set (lk_packages fresh)
    \<and> lk_resolutionDigest disk = lk_resolutionDigest fresh \<and> set (lk_artifacts fresh) \<subseteq> set (lk_artifacts disk)"
  using identities_agree [OF assms(1,2)]
  by (auto simp: compareLockfile_def concat_map_Nil_iff compare_package_clean [OF assms(1)]
      compare_removed_clean compare_artifact_clean [OF assms(3)])

section \<open>Reading a lock back\<close>

lemma jstr_nullable [simp]: "opt_string (nullable x) = x"
  by (cases x) (simp_all add: opt_string_def nullable_def jstr_def)

lemma as_strings_jstrs [simp]: "as_strings (jstrs xs) = xs"
  by (simp add: jstrs_def)

lemma as_string_JStr [simp]: "as_string (JStr s) = s"
  by (simp add: as_string_def jstr_def)

lemma as_package_doc [simp]: "as_package (package_doc p) = p"
  by (cases p) (simp add: as_package_def package_doc_def jget_def)

lemma as_instance_doc [simp]: "as_instance (instance_doc i) = i"
  by (cases i) (simp add: as_instance_def instance_doc_def jget_def as_bool_def)

lemma as_artifact_doc [simp]: "as_artifact (artifact_doc a) = a"
  by (cases a) (simp add: as_artifact_def artifact_doc_def jget_def)

lemma as_preset_summary_doc [simp]: "as_preset_summary (preset_doc p) = p"
  by (cases p) (simp add: as_preset_summary_def preset_doc_def jget_def)

lemma as_lockfile_document: "as_lockfile (lock_document lock) = lock"
  by (cases lock) (simp add: as_lockfile_def lock_document_def jget_def array_or_empty_def comp_def case_prod_unfold)

section \<open>Properties\<close>

text \<open>
  The comparison of a committed lock with a fresh one is clean exactly when they agree on the
  name, version, manifest digest and schema digest of every package and on the digest of the
  resolution, and every generated artefact is recorded with its current digest. Nothing else of the
  committed lock is read: its instances, order, capabilities and presets are not compared.
\<close>

theorem lock_is_current_iff:
  assumes "distinct (map kp_name (lk_packages disk))" and "distinct (map kp_name (lk_packages fresh))"
    and "distinct (map ka_path (lk_artifacts disk))"
  shows "compareLockfile (Some disk) fresh = [] \<longleftrightarrow>
    package_identity ` set (lk_packages disk) = package_identity ` set (lk_packages fresh)
    \<and> lk_resolutionDigest disk = lk_resolutionDigest fresh \<and> set (lk_artifacts fresh) \<subseteq> set (lk_artifacts disk)"
  by (rule compare_clean [OF assms])

definition ex_locked_package :: "string \<Rightarrow> string \<Rightarrow> locked_package" where
  "ex_locked_package version digest = \<lparr>kp_name = ''@appspine/notes'', kp_version = version, kp_digest = ''sha256:r'',
     kp_manifestDigest = digest, kp_schemaDigest = None, kp_permissionDigest = None\<rparr>"

definition ex_lock :: "string \<Rightarrow> string \<Rightarrow> plugin_lockfile" where
  "ex_lock version digest = \<lparr>lk_presets = [], lk_resolutionDigest = ''sha256:g'', lk_order = [''notes''],
     lk_capabilities = [], lk_hostCapabilities = [], lk_packages = [ex_locked_package version digest],
     lk_instances = [], lk_artifacts = [\<lparr>ka_path = CATALOG_ARTIFACT, ka_digest = ''sha256:c''\<rparr>]\<rparr>"

theorem lock_is_current_iff_witness:
  "compareLockfile (Some ((ex_lock ''1.0.0'' ''d'')\<lparr>lk_order := [''other'']\<rparr>)) (ex_lock ''1.0.0'' ''d'') = []
   \<and> compareLockfile (Some (ex_lock ''1.0.0'' ''d'')) (ex_lock ''1.0.0'' ''e'') \<noteq> []"
  using lock_is_current_iff [of "(ex_lock ''1.0.0'' ''d'')\<lparr>lk_order := [''other'']\<rparr>" "ex_lock ''1.0.0'' ''d''"]
    lock_is_current_iff [of "ex_lock ''1.0.0'' ''d''" "ex_lock ''1.0.0'' ''e''"]
  by (simp add: ex_lock_def package_identity_def ex_locked_package_def)

text \<open>
  Writing a lock and reading it back gives the same lock, it compares clean with itself, and
  writing it again leaves the file alone. Hypotheses: the file is accessible, \<open>JSON.parse\<close>
  inverts \<open>JSON.stringify\<close> on the document, and packages and artefacts are listed once.
\<close>

theorem lock_write_read_compare:
  assumes "accessible fs (lockfilePath appRoot)"
    and "ce_parse env (serializeLockfile lock) = Inr (lock_document lock)"
    and "distinct (map kp_name (lk_packages lock))" and "distinct (map ka_path (lk_artifacts lock))"
  shows "\<exists>gs. writeLockfile appRoot lock fs = Inr (fs (lockfilePath appRoot) \<noteq> Some (Text (serializeLockfile lock)), gs)
    \<and> readLockfile env gs appRoot = Some lock \<and> compareLockfile (readLockfile env gs appRoot) lock = []
    \<and> writeLockfile appRoot lock gs = Inr (False, gs)"
proof -
  let ?p = "lockfilePath appRoot" and ?t = "serializeLockfile lock"
  let ?gs = "fs(?p \<mapsto> Text ?t)"
  have h: "holds_text fs ?p ?t = Inr (fs ?p = Some (Text ?t))" "holds_text ?gs ?p ?t = Inr True"
    using assms(1) by (auto simp: accessible_def intro!: holds_text_readable simp: holds_text_True)
  have w: "writeFileSync ?p ?t fs = Inr ?gs" using assms(1) by (simp add: writeFileSync_Inr accessible_def)
  have s: "jget ''schemaVersion'' (lock_document lock) = JStr LOCK_SCHEMA_VERSION"
    by (simp add: lock_document_def jget_def)
  have r: "readLockfile env ?gs appRoot = Some lock"
    using assms(2) s by (simp add: readLockfile_def parse_file_def readFileSync_def as_lockfile_document)
  have same: "fs ?p = Some (Text ?t) \<Longrightarrow> ?gs = fs" by auto
  have c: "compareLockfile (Some lock) lock = []" using compare_clean [OF assms(3,3,4)] by simp
  show ?thesis
    using h w r c same by (intro exI [of _ ?gs]) (auto simp: writeLockfile_def Let_def)
qed

theorem lock_write_read_compare_witness:
  "\<exists>gs. writeLockfile ''/app'' (ex_lock ''1.0.0'' ''d'') (\<lambda>_. None) = Inr (True, gs)
    \<and> readLockfile (ex_cli_env (serializeLockfile (ex_lock ''1.0.0'' ''d'')) (lock_document (ex_lock ''1.0.0'' ''d''))) gs ''/app''
        = Some (ex_lock ''1.0.0'' ''d'')"
  using lock_write_read_compare [of "\<lambda>_. None" "''/app''"
      "ex_cli_env (serializeLockfile (ex_lock ''1.0.0'' ''d'')) (lock_document (ex_lock ''1.0.0'' ''d''))" "ex_lock ''1.0.0'' ''d''"]
  by (simp add: accessible_def ex_cli_env_def ex_lock_def) blast

end
