(* ===== verification/CliShell.thy ===== *)
theory CliShell
  imports InventoryFile
begin

text \<open>
  The shell of the command line tool: \<open>plugin-cli/src/cli.ts\<close>, \<open>exit-codes.ts\<close> and
  \<open>diagnostics.ts\<close>. The state of a run is the file system with the lines printed so far.
  The lemmas show how arguments are parsed, that a run always ends with an exit code, and that a bad
  invocation reads and writes nothing.
\<close>

section \<open>Exit codes\<close>

datatype exit_code =
    ExitOK | INTERNAL_ERROR | USAGE | VALIDATION_FAILED | RESOLUTION_FAILED | DRIFT_DETECTED | NOT_FOUND | CONFLICT

fun exit_value :: "exit_code \<Rightarrow> int" where
  "exit_value ExitOK = 0"
| "exit_value INTERNAL_ERROR = 1"
| "exit_value USAGE = 2"
| "exit_value VALIDATION_FAILED = 3"
| "exit_value RESOLUTION_FAILED = 4"
| "exit_value DRIFT_DETECTED = 5"
| "exit_value NOT_FOUND = 6"
| "exit_value CONFLICT = 7"

fun exit_name :: "exit_code \<Rightarrow> string" where
  "exit_name ExitOK = ''OK''"
| "exit_name INTERNAL_ERROR = ''INTERNAL_ERROR''"
| "exit_name USAGE = ''USAGE''"
| "exit_name VALIDATION_FAILED = ''VALIDATION_FAILED''"
| "exit_name RESOLUTION_FAILED = ''RESOLUTION_FAILED''"
| "exit_name DRIFT_DETECTED = ''DRIFT_DETECTED''"
| "exit_name NOT_FOUND = ''NOT_FOUND''"
| "exit_name CONFLICT = ''CONFLICT''"

definition exit_codes :: "exit_code list" where
  "exit_codes = [ExitOK, INTERNAL_ERROR, USAGE, VALIDATION_FAILED, RESOLUTION_FAILED, DRIFT_DETECTED, NOT_FOUND, CONFLICT]"

definition NAME_BY_VALUE :: "(int \<times> string) list" where
  "NAME_BY_VALUE = entries_map (map (\<lambda>c. (exit_value c, exit_name c)) exit_codes)"

definition exitCodeName :: "int \<Rightarrow> string" where
  "exitCodeName v = coalesce (map_of NAME_BY_VALUE v) ''UNKNOWN''"

text \<open>What a command may throw: a \<open>CliError\<close> or any other error.\<close>

datatype cli_throw = CliError exit_code string | OtherError failure

section \<open>Results\<close>

record command_result =
  rc_command :: string
  rc_exitCode :: exit_code
  rc_diagnostics :: "diagnostic list"
  rc_data :: "jv option"

definition CLI_RESULT_SCHEMA_VERSION :: string where
  "CLI_RESULT_SCHEMA_VERSION = ''appspine.cli-result/v1''"

definition severity_name :: "severity \<Rightarrow> string" where
  "severity_name s = (case s of SevError \<Rightarrow> ''error'' | SevWarning \<Rightarrow> ''warning'' | SevInfo \<Rightarrow> ''info'')"

text \<open>A diagnostic as a document; the optional fields in the order the calls of \<open>diagnostic()\<close> give them.\<close>

definition optional_member :: "string \<Rightarrow> string option \<Rightarrow> (string \<times> jv) list" where
  "optional_member k x = (case x of None \<Rightarrow> [] | Some s \<Rightarrow> [(k, JStr s)])"

definition diagnostic_doc :: "diagnostic \<Rightarrow> jv" where
  "diagnostic_doc d = JObj
     ([(''code'', JStr (dg_code d)), (''severity'', JStr (severity_name (dg_severity d))),
       (''message'', JStr (dg_message d))]
      @ optional_member ''pluginId'' (dg_pluginId d) @ optional_member ''instanceId'' (dg_instanceId d)
      @ optional_member ''path'' (dg_path d))"

definition toJsonEnvelope :: "command_result \<Rightarrow> jv" where
  "toJsonEnvelope result = JObj
     ([(''schemaVersion'', JStr CLI_RESULT_SCHEMA_VERSION),
       (''ok'', JBool (exit_value (rc_exitCode result) = 0)),
       (''command'', JStr (rc_command result)), (''exitCode'', JNum (exit_value (rc_exitCode result))),
       (''exitCodeName'', JStr (exitCodeName (exit_value (rc_exitCode result)))),
       (''diagnostics'', JArr (map diagnostic_doc (rc_diagnostics result)))]
      @ (case rc_data result of None \<Rightarrow> [] | Some v \<Rightarrow> [(''data'', v)]))"

definition SEVERITY_LABEL :: "severity \<Rightarrow> string" where
  "SEVERITY_LABEL s = (case s of SevError \<Rightarrow> ''error'' | SevWarning \<Rightarrow> ''warn'' | SevInfo \<Rightarrow> ''info'')"

text \<open>\<open>xs.filter(Boolean)\<close>\<close>

definition truthy_strings :: "string option list \<Rightarrow> string list" where
  "truthy_strings xs = map the (filter truthy xs)"

definition render_line :: "diagnostic \<Rightarrow> string" where
  "render_line d =
     (let place = join ''#'' (truthy_strings [dg_pluginId d, dg_instanceId d]);
          location = join '' '' (truthy_strings [Some place, dg_path d])
      in SEVERITY_LABEL (dg_severity d) @ '' ['' @ dg_code d @ '']''
         @ (if location \<noteq> [] then '' '' @ location else []) @ '': '' @ dg_message d)"

definition renderText :: "command_result \<Rightarrow> string" where
  "renderText result = join newline (map render_line (rc_diagnostics result))"

definition countBySeverity :: "diagnostic list \<Rightarrow> severity \<Rightarrow> nat" where
  "countBySeverity ds s = length (filter (\<lambda>d. dg_severity d = s) ds)"

section \<open>Arguments\<close>

datatype flag_value = FText string | FBool bool

record parsed_args =
  pa_command :: "string option"
  pa_positionals :: "string list"
  pa_flags :: "(string \<times> flag_value) list"

definition CLI_NAME :: string where
  "CLI_NAME = ''appspine''"

definition GLOBAL_FLAGS :: "string list" where
  "GLOBAL_FLAGS = [''json'', ''cwd'', ''help'', ''version'']"

definition FLAGS_WITH_VALUES :: "string list" where
  "FLAGS_WITH_VALUES = [''cwd'', ''instance-id'', ''config-ref'', ''preset'']"

definition set_flag :: "string \<Rightarrow> flag_value \<Rightarrow> parsed_args \<Rightarrow> parsed_args" where
  "set_flag k v p = p\<lparr>pa_flags := map_put k v (pa_flags p)\<rparr>"

definition add_word :: "string \<Rightarrow> parsed_args \<Rightarrow> parsed_args" where
  "add_word w p =
     (if pa_command p = None then p\<lparr>pa_command := Some w\<rparr> else p\<lparr>pa_positionals := pa_positionals p @ [w]\<rparr>)"

text \<open>The token after a flag, when the flag takes it as its value.\<close>

definition flag_argument :: "string \<Rightarrow> string list \<Rightarrow> string option" where
  "flag_argument body rest =
     (case rest of
        [] \<Rightarrow> None
      | n # _ \<Rightarrow> if body \<in> set FLAGS_WITH_VALUES \<and> \<not> starts_with n ''-'' then Some n else None)"

function parse_args :: "string list \<Rightarrow> parsed_args \<Rightarrow> parsed_args" where
  "parse_args [] p = p"
| "parse_args (token # rest) p =
     (if token = ''--'' then p\<lparr>pa_positionals := pa_positionals p @ rest\<rparr>
      else if starts_with token ''--'' then
        (let body = drop 2 token in
         case index_of CHR ''='' body of
           Some i \<Rightarrow> parse_args rest (set_flag (take i body) (FText (drop (i + 1) body)) p)
         | None \<Rightarrow>
             if starts_with body ''no-'' then parse_args rest (set_flag (drop 3 body) (FBool False) p)
             else (case flag_argument body rest of
                 Some n \<Rightarrow> parse_args (tl rest) (set_flag body (FText n) p)
               | None \<Rightarrow> parse_args rest (set_flag body (FBool True) p)))
      else parse_args rest (add_word token p))"
  by pat_completeness auto
termination by (relation "measure (\<lambda>(ts, p). length ts)") auto

definition parseArgs :: "string list \<Rightarrow> parsed_args" where
  "parseArgs argv = parse_args argv \<lparr>pa_command = None, pa_positionals = [], pa_flags = []\<rparr>"

definition flag :: "parsed_args \<Rightarrow> string \<Rightarrow> flag_value option" where
  "flag args k = map_of (pa_flags args) k"

definition flag_set :: "parsed_args \<Rightarrow> string \<Rightarrow> bool" where
  "flag_set args k \<longleftrightarrow> flag args k = Some (FBool True)"

definition flag_text :: "parsed_args \<Rightarrow> string \<Rightarrow> string option" where
  "flag_text args k = (case flag args k of Some (FText s) \<Rightarrow> Some s | _ \<Rightarrow> None)"

section \<open>Running a command\<close>

record cli_world =
  cw_files :: files
  cw_out :: "string list"
  cw_err :: "string list"

definition stdout :: "string \<Rightarrow> cli_world \<Rightarrow> cli_world" where
  "stdout line w = w\<lparr>cw_out := cw_out w @ [line]\<rparr>"

definition stderr :: "string \<Rightarrow> cli_world \<Rightarrow> cli_world" where
  "stderr line w = w\<lparr>cw_err := cw_err w @ [line]\<rparr>"

record command_context =
  cx_appRoot :: string
  cx_args :: parsed_args
  cx_version :: string

type_synonym command_handler = "command_context \<Rightarrow> cli_world \<Rightarrow> (cli_throw + command_result) \<times> cli_world"

record command_definition =
  cd_name :: string
  cd_summary :: string
  cd_usage :: string
  cd_flags :: "string list option"
  cd_handler :: command_handler

definition pad_end :: "nat \<Rightarrow> string \<Rightarrow> string" where
  "pad_end n s = s @ replicate (n - length s) CHR '' ''"

definition usage :: "command_definition list \<Rightarrow> string" where
  "usage commands = join newline
     ([''Usage: '' @ CLI_NAME @ '' <command> [options]'', [], ''Commands:'']
      @ (if commands \<noteq> [] then map (\<lambda>d. ''  '' @ pad_end 10 (cd_name d) @ '' '' @ cd_summary d) commands
         else [''  (none registered)''])
      @ [[], ''Global options:'',
         ''  --json          emit one machine-readable JSON document instead of text'',
         ''  --cwd <path>    App root holding appspine.plugins.json (default: process.cwd())'',
         ''  --help          show this message'',
         ''  --version       print the CLI version''])"

definition emit :: "bool \<Rightarrow> command_result \<Rightarrow> string option \<Rightarrow> cli_world \<Rightarrow> exit_code \<times> cli_world" where
  "emit asJson result extraText w =
     (rc_exitCode result,
      if asJson then stdout (pretty 0 (toJsonEnvelope result)) w
      else
        let t = renderText result;
            w = (if t \<noteq> [] then (if rc_exitCode result = ExitOK then stdout t w else stderr t w) else w)
        in if truthy extraText then stderr (the extraText) w else w)"

text \<open>
  The message of an error the run time or the manifest loader throws is a parameter; an error of the
  tool carries its own.
\<close>

definition error_message :: "(failure \<Rightarrow> string) \<Rightarrow> failure \<Rightarrow> string" where
  "error_message describe f = (case f of Thrown m \<Rightarrow> m | _ \<Rightarrow> describe f)"

definition failed_result :: "string \<Rightarrow> exit_code \<Rightarrow> string \<Rightarrow> string \<Rightarrow> command_result" where
  "failed_result command exitCode code message =
     \<lparr>rc_command = command, rc_exitCode = exitCode,
      rc_diagnostics = [mk_diagnostic code message no_extra], rc_data = None\<rparr>"

definition unknown_flags :: "command_definition \<Rightarrow> parsed_args \<Rightarrow> string list" where
  "unknown_flags d args =
     filter (\<lambda>f. f \<notin> set GLOBAL_FLAGS \<and> f \<notin> set (coalesce (cd_flags d) [])) (map fst (pa_flags args))"

definition run_handler ::
    "(failure \<Rightarrow> string) \<Rightarrow> command_definition \<Rightarrow> command_context \<Rightarrow> cli_world \<Rightarrow> command_result \<times> cli_world" where
  "run_handler describe d cx w =
     (case cd_handler d cx w of (r, w') \<Rightarrow>
       ((case r of
           Inr result \<Rightarrow> result
         | Inl (CliError exitCode message) \<Rightarrow> failed_result (cd_name d) exitCode ''command-failed'' message
         | Inl (OtherError f) \<Rightarrow>
             failed_result (cd_name d) INTERNAL_ERROR ''internal-error'' (error_message describe f)), w'))"

definition runCli ::
    "(failure \<Rightarrow> string) \<Rightarrow> command_definition list \<Rightarrow> string \<Rightarrow> string \<Rightarrow> string list \<Rightarrow> cli_world
      \<Rightarrow> exit_code \<times> cli_world" where
  "runCli describe commands version cwd argv w =
     (let args = parseArgs argv; asJson = flag_set args ''json'' in
      if flag_set args ''version'' then (ExitOK, stdout version w)
      else if pa_command args = None \<or> flag_set args ''help''
      then (if flag_set args ''help'' then ExitOK else USAGE, stdout (usage commands) w)
      else
        let name = the (pa_command args) in
        case find (\<lambda>d. cd_name d = name) commands of
          None \<Rightarrow> emit asJson (failed_result name USAGE ''unknown-command''
              (''unknown command '' @ quoted name @ ''. Run `'' @ CLI_NAME @ '' --help` for the list''))
              (Some (usage commands)) w
        | Some d \<Rightarrow>
            if unknown_flags d args \<noteq> []
            then emit asJson \<lparr>rc_command = cd_name d, rc_exitCode = USAGE,
                rc_diagnostics = map (\<lambda>f. mk_diagnostic ''unknown-flag'' (''unknown flag '' @ quoted (''--'' @ f)) no_extra)
                  (unknown_flags d args), rc_data = None\<rparr> None w
            else
              let appRoot = (case flag_text args ''cwd'' of Some s \<Rightarrow> s | None \<Rightarrow> cwd) in
              (case run_handler describe d \<lparr>cx_appRoot = appRoot, cx_args = args, cx_version = version\<rparr> w of
                 (result, w') \<Rightarrow> emit asJson result None w'))"

section \<open>Arguments as a command line\<close>

fun flag_token :: "string \<times> flag_value \<Rightarrow> string" where
  "flag_token (k, FText v) = ''--'' @ k @ ''='' @ v"
| "flag_token (k, FBool True) = ''--'' @ k"
| "flag_token (k, FBool False) = ''--no-'' @ k"

definition command_line :: "string \<Rightarrow> (string \<times> flag_value) list \<Rightarrow> string list \<Rightarrow> string list" where
  "command_line command flags positionals = command # map flag_token flags @ ''--'' # positionals"

fun plain_flag :: "string \<times> flag_value \<Rightarrow> bool" where
  "plain_flag (k, v) = (CHR ''='' \<notin> set k \<and> (v = FBool True \<longrightarrow> k \<noteq> [] \<and> \<not> starts_with k ''no-''))"

lemma starts_with_Cons [simp]: "starts_with (c # s) (c # p) = starts_with s p"
  by (simp add: starts_with_def)

lemma starts_with_Nil [simp]: "starts_with s []"
  by (simp add: starts_with_def)

lemma flag_token_dash: "\<exists>s. flag_token f = CHR ''-'' # s"
  by (cases f rule: flag_token.cases) auto

lemma flag_argument_dash: "flag_argument body ((CHR ''-'' # s) # rest) = None"
  by (simp add: flag_argument_def)

lemma parse_flag:
  assumes "plain_flag (k, v)" and "\<exists>s rest'. rest = (CHR ''-'' # s) # rest'"
  shows "parse_args (flag_token (k, v) # rest) p = parse_args rest (set_flag k v p)"
proof (cases v)
  case (FText s)
  with assms show ?thesis by (simp add: index_of_append)
next
  case (FBool b)
  with assms show ?thesis by (cases b) (auto simp: index_of_None [THEN iffD2] flag_argument_dash)
qed

lemma parse_flags:
  "list_all plain_flag fs \<Longrightarrow> distinct (map fst (pa_flags p @ fs)) \<Longrightarrow>
    parse_args (map flag_token fs @ ''--'' # ps) p
      = p\<lparr>pa_flags := pa_flags p @ fs, pa_positionals := pa_positionals p @ ps\<rparr>"
proof (induction fs arbitrary: p)
  case (Cons f fs)
  obtain k v where f: "f = (k, v)" by (cases f)
  have "\<exists>s rest'. map flag_token fs @ ''--'' # ps = (CHR ''-'' # s) # rest'"
    using flag_token_dash by (cases fs) auto
  moreover have "plain_flag (k, v)" using Cons.prems(1) by (simp add: f)
  ultimately have "parse_args (map flag_token (f # fs) @ ''--'' # ps) p
      = parse_args (map flag_token fs @ ''--'' # ps) (set_flag k v p)"
    using parse_flag [of k v "map flag_token fs @ ''--'' # ps" p] by (simp only: f list.map append_Cons)
  also have "set_flag k v p = p\<lparr>pa_flags := pa_flags p @ [(k, v)]\<rparr>"
    using Cons.prems(2) by (auto simp: set_flag_def f map_put_new)
  finally show ?case using Cons.IH [of "p\<lparr>pa_flags := pa_flags p @ [(k, v)]\<rparr>"] Cons.prems by (simp add: f)
qed simp

text \<open>
  A command line that gives the command, then its flags, each as one token, then \<open>--\<close> and
  the positional arguments parses back to exactly these, whatever the flags and whatever the
  positional arguments look like.
\<close>

theorem arguments_roundtrip:
  assumes "\<not> starts_with command ''--''" and "list_all plain_flag flags" and "distinct (map fst flags)"
  shows "parseArgs (command_line command flags positionals)
    = \<lparr>pa_command = Some command, pa_positionals = positionals, pa_flags = flags\<rparr>"
proof -
  have "command \<noteq> ''--''" using assms(1) by (auto simp: starts_with_def)
  then show ?thesis
    using assms by (simp add: parseArgs_def command_line_def add_word_def parse_flags)
qed

theorem arguments_roundtrip_witness:
  "parseArgs (command_line ''add'' [(''instance-id'', FText ''a=b''), (''dry-run'', FBool True), (''json'', FBool False)] [''--x''])
    = \<lparr>pa_command = Some ''add'', pa_positionals = [''--x''],
       pa_flags = [(''instance-id'', FText ''a=b''), (''dry-run'', FBool True), (''json'', FBool False)]\<rparr>"
  by (rule arguments_roundtrip) code_simp+

section \<open>Runs\<close>

lemma emit_exit [simp]: "fst (emit asJson result extra w) = rc_exitCode result"
  by (simp add: emit_def)

lemma emit_files [simp]: "cw_files (snd (emit asJson result extra w)) = cw_files w"
  by (simp add: emit_def stdout_def stderr_def Let_def)

lemma print_files [simp]: "cw_files (stdout l w) = cw_files w" "cw_files (stderr l w) = cw_files w"
  by (simp_all add: stdout_def stderr_def)

text \<open>The invocation names a registered command and only flags it accepts.\<close>

definition good_invocation :: "command_definition list \<Rightarrow> parsed_args \<Rightarrow> bool" where
  "good_invocation commands args \<longleftrightarrow>
     \<not> flag_set args ''version'' \<and> \<not> flag_set args ''help''
     \<and> (\<exists>name d. pa_command args = Some name \<and> find (\<lambda>d. cd_name d = name) commands = Some d \<and> unknown_flags d args = [])"

text \<open>
  A run always ends with an exit code. Unless the invocation asks for the version or for help, it
  ends with \<open>USAGE\<close> and without running a command exactly for a missing or unknown command or
  an unknown flag, and then reads and writes no file: its outcome is the same on every file system,
  which it leaves as it was. Otherwise the exit code and the files are those of the command, a throw
  of anything but a \<open>CliError\<close> being reported as \<open>INTERNAL_ERROR\<close>.
\<close>

theorem run_ends_with_exit_code:
  "let args = parseArgs argv; run = runCli describe commands version cwd argv in
   if good_invocation commands args
   then \<exists>d r w'. d \<in> set commands \<and> cd_handler d \<lparr>cx_appRoot = coalesce (flag_text args ''cwd'') cwd, cx_args = args,
            cx_version = version\<rparr> w = (r, w')
      \<and> fst (run w) = (case r of Inr result \<Rightarrow> rc_exitCode result | Inl (CliError code _) \<Rightarrow> code | Inl _ \<Rightarrow> INTERNAL_ERROR)
      \<and> cw_files (snd (run w)) = cw_files w'
   else fst (run w) = (if flag_set args ''version'' \<or> flag_set args ''help'' then ExitOK else USAGE)
      \<and> cw_files (snd (run w)) = cw_files w
      \<and> snd (run (w\<lparr>cw_files := fs\<rparr>)) = (snd (run w))\<lparr>cw_files := fs\<rparr>"
proof -
  let ?a = "parseArgs argv"
  have c: "coalesce (flag_text ?a ''cwd'') cwd = (case flag_text ?a ''cwd'' of Some s \<Rightarrow> s | None \<Rightarrow> cwd)"
    by (simp add: coalesce_def split: option.split)
  have e: "snd (emit j r x (w\<lparr>cw_files := fs\<rparr>)) = (snd (emit j r x w))\<lparr>cw_files := fs\<rparr>" for j r x
    by (simp add: emit_def stdout_def stderr_def Let_def)
  show ?thesis
  proof (cases "good_invocation commands ?a")
    case True
    then obtain name d where g: "pa_command ?a = Some name" "find (\<lambda>d. cd_name d = name) commands = Some d"
      "unknown_flags d ?a = []" "\<not> flag_set ?a ''version''" "\<not> flag_set ?a ''help''"
      by (auto simp: good_invocation_def)
    have d: "d \<in> set commands" using g(2) by (auto simp: find_Some_iff)
    obtain r w' where h: "cd_handler d \<lparr>cx_appRoot = coalesce (flag_text ?a ''cwd'') cwd, cx_args = ?a, cx_version = version\<rparr> w
        = (r, w')" by fastforce
    have "fst (runCli describe commands version cwd argv w)
          = (case r of Inr result \<Rightarrow> rc_exitCode result | Inl (CliError code _) \<Rightarrow> code | Inl _ \<Rightarrow> INTERNAL_ERROR)
        \<and> cw_files (snd (runCli describe commands version cwd argv w)) = cw_files w'"
      using g h by (auto simp: runCli_def Let_def c run_handler_def failed_result_def split: sum.split cli_throw.split)
    with True d h show ?thesis by (auto simp: Let_def)
  next
    case False
    have "fst (runCli describe commands version cwd argv w)
          = (if flag_set ?a ''version'' \<or> flag_set ?a ''help'' then ExitOK else USAGE)
        \<and> cw_files (snd (runCli describe commands version cwd argv w)) = cw_files w
        \<and> snd (runCli describe commands version cwd argv (w\<lparr>cw_files := fs\<rparr>))
          = (snd (runCli describe commands version cwd argv w))\<lparr>cw_files := fs\<rparr>"
    proof (cases "flag_set ?a ''version'' \<or> pa_command ?a = None \<or> flag_set ?a ''help''")
      case True
      then show ?thesis by (auto simp: runCli_def Let_def stdout_def)
    next
      case other: False
      then obtain name where n: "pa_command ?a = Some name" by auto
      show ?thesis
      proof (cases "find (\<lambda>d. cd_name d = name) commands")
        case None
        with other n show ?thesis by (simp add: runCli_def Let_def e failed_result_def)
      next
        case (Some d)
        with False other n have "unknown_flags d ?a \<noteq> []" by (auto simp: good_invocation_def)
        with other n Some show ?thesis by (simp add: runCli_def Let_def e)
      qed
    qed
    with False show ?thesis by (simp add: Let_def)
  qed
qed

end
