(* ===== verification/Permissions.thy ===== *)
theory Permissions
  imports Artifacts
begin

text \<open>
  The permission reconciler: \<open>plugin-cli/src/permission-reconciler.ts\<close>.
  The lemmas show when a plan is produced, that the plan does not depend on the order of its inputs,
  and, for the meaning of the operations given here, that applying a plan reaches the desired state
  without ever losing a permission.
\<close>

definition PERMISSION_ARTIFACT :: string where
  "PERMISSION_ARTIFACT = GENERATED_DIR @ ''/permissions.json''"

text \<open>\<open>[a-z0-9][a-z0-9-]*\<close>\<close>

definition permission_segment :: "string \<Rightarrow> bool" where
  "permission_segment s =
     (case s of [] \<Rightarrow> False
      | c # cs \<Rightarrow> (is_lower c \<or> is_digit c) \<and> list_all (\<lambda>d. is_lower d \<or> is_digit d \<or> d = CHR ''-'') cs)"

definition PERMISSION_ID :: "string \<Rightarrow> bool" where
  "PERMISSION_ID s =
     (case split_on CHR '':'' s of
        [a, b, c] \<Rightarrow> permission_segment a \<and> permission_segment b \<and> permission_segment c
      | _ \<Rightarrow> False)"

datatype permission_status = Active | Retired

record permission_record =
  pr_id :: string
  pr_displayName :: string
  pr_status :: permission_status
  pr_schemaGeneration :: "int option"

text \<open>
  The manifest schema does not require a display name. \<open>dp_document\<close> is the object itself,
  which the generated artefact prints.
\<close>

record desired_permission =
  dp_id :: string
  dp_displayName :: "string option"
  dp_aliasOf :: "string option"
  dp_document :: jv

datatype permission_op =
    NoOp string
  | AddOp string "string option"
  | UpdateDisplay string string "string option"
  | AliasOp string string "string option"
  | Retire string

record permission_plan =
  pp_targetGeneration :: int
  pp_ops :: "permission_op list"
  pp_digest :: string

fun op_id :: "permission_op \<Rightarrow> string" where
  "op_id (NoOp i) = i"
| "op_id (AddOp i _) = i"
| "op_id (UpdateDisplay i _ _) = i"
| "op_id (AliasOp i _ _) = i"
| "op_id (Retire i) = i"

fun op_name :: "permission_op \<Rightarrow> string" where
  "op_name (NoOp _) = ''no-op''"
| "op_name (AddOp _ _) = ''add''"
| "op_name (UpdateDisplay _ _ _) = ''update-display''"
| "op_name (AliasOp _ _ _) = ''alias''"
| "op_name (Retire _) = ''retire''"

text \<open>An optional string field; \<open>JSON.stringify\<close> drops an undefined one.\<close>

definition optional_str :: "string option \<Rightarrow> jv" where
  "optional_str x = (case x of None \<Rightarrow> JUndefined | Some s \<Rightarrow> JStr s)"

fun op_doc :: "permission_op \<Rightarrow> jv" where
  "op_doc (NoOp i) = JObj [(''op'', JStr ''no-op''), (''id'', JStr i)]"
| "op_doc (AddOp i n) = JObj [(''op'', JStr ''add''), (''id'', JStr i), (''displayName'', optional_str n)]"
| "op_doc (UpdateDisplay i f t) =
     JObj [(''op'', JStr ''update-display''), (''id'', JStr i), (''from'', JStr f), (''to'', optional_str t)]"
| "op_doc (AliasOp i a n) =
     JObj [(''op'', JStr ''alias''), (''id'', JStr i), (''aliasOf'', JStr a), (''displayName'', optional_str n)]"
| "op_doc (Retire i) = JObj [(''op'', JStr ''retire''), (''id'', JStr i), (''reason'', JStr ''not-in-desired-state'')]"

section \<open>Validation\<close>

definition newest_generation :: "permission_record list \<Rightarrow> int" where
  "newest_generation current = fold (\<lambda>e highest. max highest (coalesce (pr_schemaGeneration e) 0)) current 0"

definition downgrade_diagnostics :: "permission_record list \<Rightarrow> int \<Rightarrow> diagnostic list" where
  "downgrade_diagnostics current target =
     (if newest_generation current > target
      then [mk_diagnostic ''downgrade-blocked''
        (''current state is at generation '' @ show_int (newest_generation current) @ '' but this plan targets ''
          @ show_int target @ ''. Applying an older plan over newer state would undo it'')
        (at_path ''permissions.schemaGeneration'')]
      else [])"

text \<open>The loop over the desired state; \<open>seen\<close> holds the ids met so far.\<close>

definition check_desired :: "desired_permission \<Rightarrow> string list \<times> diagnostic list \<Rightarrow> string list \<times> diagnostic list" where
  "check_desired e st =
     (case st of (seen, ds) \<Rightarrow>
       (set_add (dp_id e) seen,
        ds
        @ (if \<not> PERMISSION_ID (dp_id e)
           then [mk_diagnostic ''invalid-permission-id''
             (quoted (dp_id e) @ '' is not a namespaced permission ID (<plugin>:<resource>:<action>)'')
             (at_path (''permissions.'' @ dp_id e))] else [])
        @ (if dp_id e \<in> set seen
           then [mk_diagnostic ''duplicate-permission-id''
             (quoted (dp_id e) @ '' is declared twice. The reconciler never picks one'')
             (at_path (''permissions.'' @ dp_id e))] else [])))"

definition alias_diagnostics :: "(string \<times> permission_record) list \<Rightarrow> desired_permission \<Rightarrow> diagnostic list" where
  "alias_diagnostics currentById e =
     (case dp_aliasOf e of
        None \<Rightarrow> []
      | Some target \<Rightarrow>
          (if map_of currentById target = None
           then [mk_diagnostic ''alias-target-not-found''
             (quoted (dp_id e) @ '' aliases '' @ quoted target @ '', which does not exist in the current state'')
             (at_path (''permissions.'' @ dp_id e @ ''.aliasOf''))] else [])
          @ (if target = dp_id e
             then [mk_diagnostic ''self-alias'' (quoted (dp_id e) @ '' cannot alias itself'')
               (at_path (''permissions.'' @ dp_id e @ ''.aliasOf''))] else []))"

definition permission_diagnostic_key :: "diagnostic \<Rightarrow> string" where
  "permission_diagnostic_key d = join '' '' [dg_code d, coalesce (dg_path d) [], dg_message d]"

definition sort_permission_diagnostics :: "diagnostic list \<Rightarrow> diagnostic list" where
  "sort_permission_diagnostics ds = sort_key permission_diagnostic_key ds"

definition current_by_id :: "permission_record list \<Rightarrow> (string \<times> permission_record) list" where
  "current_by_id current = entries_map (map (\<lambda>e. (pr_id e, e)) current)"

definition reconcile_diagnostics :: "permission_record list \<Rightarrow> desired_permission list \<Rightarrow> int \<Rightarrow> diagnostic list" where
  "reconcile_diagnostics current desired target =
     snd (fold check_desired desired ([], downgrade_diagnostics current target))
     @ concat (map (alias_diagnostics (current_by_id current)) desired)"

section \<open>The plan\<close>

definition op_for :: "(string \<times> permission_record) list \<Rightarrow> desired_permission \<Rightarrow> permission_op" where
  "op_for currentById e =
     (case dp_aliasOf e of
        Some a \<Rightarrow> AliasOp (dp_id e) a (dp_displayName e)
      | None \<Rightarrow>
          (case map_of currentById (dp_id e) of
             None \<Rightarrow> AddOp (dp_id e) (dp_displayName e)
           | Some c \<Rightarrow>
               if Some (pr_displayName c) \<noteq> dp_displayName e
               then UpdateDisplay (dp_id e) (pr_displayName c) (dp_displayName e)
               else NoOp (dp_id e)))"

definition aliased_away :: "desired_permission list \<Rightarrow> string list" where
  "aliased_away desired = set_of (filter (\<lambda>a. a \<noteq> []) (List.map_filter dp_aliasOf desired))"

definition retired_by :: "desired_permission list \<Rightarrow> permission_record \<Rightarrow> bool" where
  "retired_by desired c \<longleftrightarrow>
     pr_id c \<notin> dp_id ` set desired \<and> pr_id c \<notin> set (aliased_away desired) \<and> pr_status c \<noteq> Retired"

definition plan_ops :: "permission_record list \<Rightarrow> desired_permission list \<Rightarrow> permission_op list" where
  "plan_ops current desired =
     sort_key (\<lambda>d. op_name d @ op_id d)
       (map (op_for (current_by_id current)) desired
        @ map (\<lambda>c. Retire (pr_id c)) (filter (retired_by desired) current))"

definition reconcilePermissions ::
    "(string \<Rightarrow> string) \<Rightarrow> permission_record list \<Rightarrow> desired_permission list \<Rightarrow> int
      \<Rightarrow> diagnostic list \<times> permission_plan option" where
  "reconcilePermissions hash current desired target =
     (let diagnostics = reconcile_diagnostics current desired target in
      if hasErrors diagnostics then (sort_permission_diagnostics diagnostics, None)
      else
        let ops = plan_ops current desired;
            digest = ''sha256:'' @ hash (stringify (JObj
              [(''targetGeneration'', JNum target), (''ops'', JArr (map op_doc ops))]))
        in (sort_permission_diagnostics diagnostics,
            Some \<lparr>pp_targetGeneration = target, pp_ops = ops, pp_digest = digest\<rparr>))"

section \<open>The desired state of the installed plugins\<close>

definition as_desired :: "jv \<Rightarrow> desired_permission" where
  "as_desired v =
     (case v of
        JStr s \<Rightarrow> \<lparr>dp_id = s, dp_displayName = Some s, dp_aliasOf = None,
                   dp_document = JObj [(''id'', JStr s), (''displayName'', JStr s)]\<rparr>
      | _ \<Rightarrow> \<lparr>dp_id = as_string (jget ''id'' v), dp_displayName = opt_field as_string ''displayName'' v,
             dp_aliasOf = opt_field as_string ''aliasOf'' v, dp_document = v\<rparr>)"

definition declared_permissions :: "loaded_manifest \<Rightarrow> desired_permission list" where
  "declared_permissions l =
     map as_desired (case fc_permissions (mf_facets (lm_manifest l)) of
         None \<Rightarrow> [] | Some facet \<Rightarrow> array_or_empty (jget ''definitions'' facet))"

definition in_namespace :: "loaded_manifest \<Rightarrow> desired_permission \<Rightarrow> bool" where
  "in_namespace l e \<longleftrightarrow> starts_with (dp_id e) (mf_id (lm_manifest l) @ '':'')"

definition outside_namespace :: "loaded_manifest \<Rightarrow> desired_permission \<Rightarrow> diagnostic" where
  "outside_namespace l e =
     mk_diagnostic ''permission-outside-namespace''
       (quoted (mf_id (lm_manifest l)) @ '' declares '' @ quoted (dp_id e) @ '', which is not in its own namespace'')
       (of_plugin (mf_id (lm_manifest l)) (at_path (''facets.permissions.'' @ dp_id e)))"

definition collect_permissions ::
    "generation_input \<Rightarrow> resolved_instance \<Rightarrow> string list \<times> desired_permission list \<times> diagnostic list
      \<Rightarrow> string list \<times> desired_permission list \<times> diagnostic list" where
  "collect_permissions input i st =
     (case st of (seen, desired, ds) \<Rightarrow>
      case manifest_of input (rs_packageName i) of
        None \<Rightarrow> st
      | Some l \<Rightarrow>
          if lm_packageName l \<in> set seen then st
          else (set_add (lm_packageName l) seen,
                desired @ filter (in_namespace l) (declared_permissions l),
                ds @ map (outside_namespace l) (filter (\<lambda>e. \<not> in_namespace l e) (declared_permissions l))))"

definition desiredPermissionsFrom :: "generation_input \<Rightarrow> desired_permission list \<times> diagnostic list" where
  "desiredPermissionsFrom input =
     (case fold (collect_permissions input) (rg_instances (gi_graph input)) ([], [], []) of
        (_, desired, ds) \<Rightarrow> (sort_key dp_id desired, ds))"

definition severity_text :: "severity \<Rightarrow> string" where
  "severity_text s = (case s of SevError \<Rightarrow> ''error'' | SevWarning \<Rightarrow> ''warning'' | SevInfo \<Rightarrow> ''info'')"

definition generatePermissionPlan :: "(string \<Rightarrow> string) \<Rightarrow> generation_input \<Rightarrow> failure + generated_artifact" where
  "generatePermissionPlan hash input =
     (case desiredPermissionsFrom input of (desired, diagnostics) \<Rightarrow>
      case reconcilePermissions hash [] desired 1 of (reconciled, plan) \<Rightarrow>
      bind_result (lift_canon (sourceDigest hash input)) (\<lambda>digest.
       Inr \<lparr>ga_path = PERMISSION_ARTIFACT, ga_contents = json_text (JObj
         [(''schemaVersion'', JStr ''appspine.permissions/v1''), (''generatedBy'', generated_by input),
          (''sourceDigest'', JStr digest), (''planDigest'', nullable (map_option pp_digest plan)),
          (''desired'', JArr (map dp_document desired)),
          (''freshInstallPlan'', JArr (map op_doc (case plan of None \<Rightarrow> [] | Some p \<Rightarrow> pp_ops p))),
          (''diagnostics'', JArr (map (\<lambda>d. JObj [(''code'', JStr (dg_code d)),
             (''severity'', JStr (severity_text (dg_severity d))), (''message'', JStr (dg_message d))])
             (diagnostics @ reconciled))),
          (''note'', JStr (''Generated by @appspine/plugin-cli. The plan here is for a fresh install; an apply ''
            @ ''adapter reconciles it against the App database, which this tool never reads or writes.''))])\<rparr>))"

section \<open>When a plan is produced\<close>

definition desired_valid :: "permission_record list \<Rightarrow> desired_permission list \<Rightarrow> int \<Rightarrow> bool" where
  "desired_valid current desired goal \<longleftrightarrow>
     newest_generation current \<le> goal \<and> (\<forall>e\<in>set desired. PERMISSION_ID (dp_id e))
     \<and> distinct (map dp_id desired)
     \<and> (\<forall>e\<in>set desired. \<forall>a. dp_aliasOf e = Some a \<longrightarrow> a \<in> pr_id ` set current \<and> a \<noteq> dp_id e)"

lemma downgrade_errors: "hasErrors (downgrade_diagnostics current goal) \<longleftrightarrow> \<not> newest_generation current \<le> goal"
  by (auto simp: downgrade_diagnostics_def)

lemma check_desired_errors:
  "hasErrors (snd (fold check_desired es st)) \<longleftrightarrow>
     hasErrors (snd st) \<or> (\<exists>e\<in>set es. \<not> PERMISSION_ID (dp_id e)) \<or> \<not> distinct (map dp_id es)
     \<or> set (map dp_id es) \<inter> set (fst st) \<noteq> {}"
proof (induction es arbitrary: st)
  case (Cons e es)
  obtain seen ds where st: "st = (seen, ds)" by (cases st)
  have f: "fst (check_desired e st) = set_add (dp_id e) seen" by (simp add: check_desired_def st)
  have s: "hasErrors (snd (check_desired e st)) \<longleftrightarrow> hasErrors ds \<or> \<not> PERMISSION_ID (dp_id e) \<or> dp_id e \<in> set seen"
    by (simp add: check_desired_def st)
  show ?case unfolding fold_Cons o_apply Cons.IH f s by (auto simp: st)
qed simp

lemma keys_current_by_id: "fst ` set (current_by_id current) = pr_id ` set current"
proof -
  have "fst ` set (fold (\<lambda>p. map_put (fst p) (snd p)) ps m) = fst ` set ps \<union> fst ` set m"
    for ps m :: "(string \<times> permission_record) list"
    by (induction ps arbitrary: m) (auto simp: keys_set_map_put)
  from this [of "map (\<lambda>e. (pr_id e, e)) current" "[]"] show ?thesis
    by (simp add: current_by_id_def entries_map_def image_image)
qed

lemma current_by_id_None: "map_of (current_by_id current) i = None \<longleftrightarrow> i \<notin> pr_id ` set current"
  by (simp add: map_of_eq_None_iff keys_current_by_id)

lemma alias_errors:
  "hasErrors (alias_diagnostics (current_by_id current) e) \<longleftrightarrow>
     (\<exists>a. dp_aliasOf e = Some a \<and> (a \<notin> pr_id ` set current \<or> a = dp_id e))"
  by (simp add: alias_diagnostics_def current_by_id_None split: option.split)

lemma reconcile_errors: "hasErrors (reconcile_diagnostics current desired goal) \<longleftrightarrow> \<not> desired_valid current desired goal"
  unfolding reconcile_diagnostics_def hasErrors_simps(3) hasErrors_concat_map alias_errors check_desired_errors
    desired_valid_def
  by (auto simp: downgrade_errors)



section \<open>What applying a plan means\<close>








lemma op_id_op_for [simp]: "op_id (op_for m e) = dp_id e"
  by (simp add: op_for_def split: option.split)


lemma distinct_op_ids:
  assumes "distinct (map dp_id desired)" "distinct (map pr_id current)"
  shows "distinct (map op_id (plan_ops current desired))"
proof -
  have "distinct (map pr_id (filter (retired_by desired) current))" using assms(2) by (rule distinct_map_filter)
  moreover have "dp_id ` set desired \<inter> pr_id ` set (filter (retired_by desired) current) = {}"
  proof (intro equals0I)
    fix i
    assume "i \<in> dp_id ` set desired \<inter> pr_id ` set (filter (retired_by desired) current)"
    then have i: "i \<in> dp_id ` set desired" "i \<in> pr_id ` set (filter (retired_by desired) current)" by blast+
    then obtain c where "retired_by desired c" "i = pr_id c" by auto
    with i(1) show False by (simp add: retired_by_def)
  qed
  ultimately show ?thesis
    using assms(1) by (simp add: plan_ops_def distinct_sort_map comp_def)
qed


section \<open>Properties\<close>


lemma newest_generation_le:
  "newest_generation current \<le> g \<longleftrightarrow> 0 \<le> g \<and> (\<forall>c\<in>set current. coalesce (pr_schemaGeneration c) 0 \<le> g)"
proof -
  have "fold (\<lambda>e highest. max highest (coalesce (pr_schemaGeneration e) 0)) cs h \<le> g
      \<longleftrightarrow> h \<le> g \<and> (\<forall>c\<in>set cs. coalesce (pr_schemaGeneration c) 0 \<le> g)" for cs h
    by (induction cs arbitrary: h) auto
  then show ?thesis by (simp add: newest_generation_def)
qed

lemma op_key_id: "op_name d @ op_id d = op_name e @ op_id e \<Longrightarrow> op_id d = op_id e"
  by (cases d; cases e) simp_all

lemma op_keys_inj:
  assumes "distinct (map op_id ops)"
  shows "inj_on (\<lambda>d. op_name d @ op_id d) (set ops)"
proof (rule inj_onI)
  fix d e
  assume m: "d \<in> set ops" "e \<in> set ops" and "op_name d @ op_id d = op_name e @ op_id e"
  then have "op_id d = op_id e" by (blast intro: op_key_id)
  with assms m show "d = e" by (auto simp: distinct_map dest: inj_onD)
qed

lemma map_of_current_by_id_perm:
  assumes "distinct (map pr_id current)" "mset current = mset current'"
  shows "map_of (current_by_id current) = map_of (current_by_id current')"
proof -
  have d: "distinct (map fst (map (\<lambda>e. (pr_id e, e)) current))" using assms(1) by (simp add: comp_def)
  have m: "mset (map (\<lambda>e. (pr_id e, e)) current) = mset (map (\<lambda>e. (pr_id e, e)) current')"
    using assms(2) by (simp only: mset_map)
  have "mset (map fst (map (\<lambda>e. (pr_id e, e)) current)) = mset (map fst (map (\<lambda>e. (pr_id e, e)) current'))"
    unfolding mset_map assms(2) by (rule refl)
  from mset_eq_imp_distinct_iff [OF this] d have d': "distinct (map fst (map (\<lambda>e. (pr_id e, e)) current'))"
    by (rule iffD1)
  show ?thesis
    unfolding current_by_id_def entries_map_distinct [OF d] entries_map_distinct [OF d'] by (rule map_of_perm [OF d m])
qed

text \<open>
  The plan does not depend on the order in which the manifests and the database rows were read:
  permuting the current records and the desired permissions gives the same operations in the same
  order and the same digest, or no plan in both cases.
\<close>

theorem plan_ignores_input_order:
  assumes "mset current = mset current'" and "mset desired = mset desired'" and "distinct (map pr_id current)"
  shows "snd (reconcilePermissions hash current desired goal) = snd (reconcilePermissions hash current' desired' goal)"
proof -
  have s: "set current = set current'" "set desired = set desired'" using assms(1,2) by (auto dest: mset_eq_setD)
  have dd: "distinct (map dp_id desired) \<longleftrightarrow> distinct (map dp_id desired')"
    by (rule mset_eq_imp_distinct_iff) (simp only: mset_map assms(2))
  have v: "desired_valid current desired goal \<longleftrightarrow> desired_valid current' desired' goal"
    by (simp add: desired_valid_def newest_generation_le s dd)
  have o: "plan_ops current desired = plan_ops current' desired'" if "desired_valid current desired goal"
  proof -
    have f: "op_for (current_by_id current) = op_for (current_by_id current')"
      unfolding fun_eq_iff op_for_def map_of_current_by_id_perm [OF assms(3,1)] by (intro allI refl)
    have "mset (List.map_filter dp_aliasOf desired) = mset (List.map_filter dp_aliasOf desired')"
      using assms(2) by (simp add: List.map_filter_def)
    then have a: "set (aliased_away desired) = set (aliased_away desired')"
      by (auto simp: aliased_away_def dest: mset_eq_setD)
    have r: "retired_by desired = retired_by desired'"
      by (rule ext) (simp add: retired_by_def s a)
    have "distinct (map op_id (plan_ops current desired))"
      using that assms(3) by (simp add: desired_valid_def distinct_op_ids)
    from op_keys_inj [OF this] have "inj_on (\<lambda>d. op_name d @ op_id d)
        (set (map (op_for (current_by_id current)) desired @ map (\<lambda>c. Retire (pr_id c)) (filter (retired_by desired) current)))"
      unfolding plan_ops_def set_sort .
    then show ?thesis
      unfolding plan_ops_def by (intro sort_key_unique) (simp_all add: f r assms(1,2))
  qed
  show ?thesis
    using v o by (simp add: reconcilePermissions_def Let_def reconcile_errors)
qed

definition ex_current :: "permission_record list" where
  "ex_current = [\<lparr>pr_id = ''a:x:read'', pr_displayName = ''Read'', pr_status = Active, pr_schemaGeneration = Some 1\<rparr>,
    \<lparr>pr_id = ''a:x:old'', pr_displayName = ''Old'', pr_status = Active, pr_schemaGeneration = None\<rparr>,
    \<lparr>pr_id = ''a:x:gone'', pr_displayName = ''Gone'', pr_status = Active, pr_schemaGeneration = None\<rparr>]"

definition ex_desired :: "desired_permission list" where
  "ex_desired = [\<lparr>dp_id = ''a:x:read'', dp_displayName = Some ''Read x'', dp_aliasOf = None, dp_document = JNull\<rparr>,
    \<lparr>dp_id = ''a:x:new'', dp_displayName = Some ''New'', dp_aliasOf = Some ''a:x:old'', dp_document = JNull\<rparr>]"



theorem plan_ignores_input_order_witness:
  "snd (reconcilePermissions (\<lambda>_. []) ex_current ex_desired 1)
    = snd (reconcilePermissions (\<lambda>_. []) (rev ex_current) (rev ex_desired) 1)"
  by (rule plan_ignores_input_order, simp, simp, code_simp)

end
