(* ===== verification/PrismaComposer.thy ===== *)
theory PrismaComposer
  imports Composition Permissions
begin

text \<open>
  The Prisma composer: \<open>plugin-cli/src/prisma-composer.ts\<close>.
  The lemmas show when a composition succeeds, what the injection of an augmentation does to the
  lines of a fragment, and that an augmentation whose model has no fragment text is left out of a
  successful composition.
\<close>

definition SCHEMA_ARTIFACT :: string where
  "SCHEMA_ARTIFACT = GENERATED_DIR @ ''/schema.prisma''"

section \<open>White space\<close>

text \<open>The text without the white space it starts with; \<open>ws\<close> are the encodings of the white space characters.\<close>

function strip_prefixes :: "string list \<Rightarrow> string \<Rightarrow> string" where
  "strip_prefixes ws s =
     (case find (\<lambda>w. w \<noteq> [] \<and> starts_with s w) ws of
        None \<Rightarrow> s
      | Some w \<Rightarrow> strip_prefixes ws (drop (length w) s))"
  by pat_completeness auto
termination
proof (relation "measure (\<lambda>(ws, s). length s)", goal_cases)
  case (2 ws s w)
  then have "w \<noteq> []" "take (length w) s = w" by (auto simp: find_Some_iff starts_with_def)
  then have "s \<noteq> []" "0 < length w" by auto
  then show ?case by simp
qed simp

declare strip_prefixes.simps [simp del]

definition strip_left :: "string \<Rightarrow> string" where
  "strip_left s = strip_prefixes js_spaces s"

definition strip_right :: "string \<Rightarrow> string" where
  "strip_right s = rev (strip_prefixes (map rev js_spaces) (rev s))"

definition is_blank :: "string \<Rightarrow> bool" where
  "is_blank line \<longleftrightarrow> strip_left line = []"

text \<open>\<open>replace(/\r\n/g, '\n')\<close> and \<open>replace(/\n+$/, '')\<close>\<close>

fun unix_lines :: "string \<Rightarrow> string" where
  "unix_lines (c # d # s) =
     (if c = CHR 0x0D \<and> d = CHR 0x0A then CHR 0x0A # unix_lines s else c # unix_lines (d # s))"
| "unix_lines s = s"

definition drop_final_newlines :: "string \<Rightarrow> string" where
  "drop_final_newlines s = rev (dropWhile (\<lambda>c. c = CHR 0x0A) (rev s))"

section \<open>Contributions\<close>

record prisma_contribution =
  pc_plugin :: string
  pc_packageName :: string
  pc_owns :: "string list"
  pc_ownsEnums :: "string list"
  pc_augments :: "prisma_augmentation list"
  pc_augmentedBy :: "(string \<times> string) list"
  pc_fragment :: "string option"
  pc_fragmentPath :: "string option"

definition read_fragment :: "files \<Rightarrow> string option \<Rightarrow> failure + string option" where
  "read_fragment fs absolute =
     (case absolute of
        None \<Rightarrow> Inr None
      | Some p \<Rightarrow> if existsSync fs p then bind_result (or_errno (readFileSync fs p)) (\<lambda>t. Inr (Some t)) else Inr None)"

definition fragment_file :: "string option \<Rightarrow> string option \<Rightarrow> string option" where
  "fragment_file dir fragmentPath =
     (if truthy dir \<and> truthy fragmentPath then Some (path_join [the dir, the fragmentPath]) else None)"

definition contribution_of ::
    "files \<Rightarrow> generation_input \<Rightarrow> loaded_manifest \<Rightarrow> prisma_facet \<Rightarrow> failure + prisma_contribution" where
  "contribution_of fs input l facet =
     bind_result (read_fragment fs
         (fragment_file (map_of (ms_packageDirs (gi_manifests input)) (lm_packageName l)) (pf_schemaFragment facet)))
       (\<lambda>fragment. Inr
         \<lparr>pc_plugin = mf_id (lm_manifest l), pc_packageName = lm_packageName l,
          pc_owns = coalesce (pf_owns facet) [], pc_ownsEnums = coalesce (pf_ownsEnums facet) [],
          pc_augments = coalesce (pf_augments facet) [], pc_augmentedBy = coalesce (pf_augmentedBy facet) [],
          pc_fragment = fragment, pc_fragmentPath = pf_schemaFragment facet\<rparr>)"

definition collect_contribution ::
    "files \<Rightarrow> generation_input \<Rightarrow> resolved_instance \<Rightarrow> prisma_contribution list \<Rightarrow> failure + prisma_contribution list" where
  "collect_contribution fs input i cs =
     (case manifest_of input (rs_packageName i) of
        None \<Rightarrow> Inr cs
      | Some l \<Rightarrow>
          if lm_packageName l \<in> set (map pc_packageName cs) then Inr cs
          else (case prisma_of l of
              None \<Rightarrow> Inr cs
            | Some facet \<Rightarrow> bind_result (contribution_of fs input l facet) (\<lambda>c. Inr (cs @ [c]))))"

definition collectPrismaContributions :: "files \<Rightarrow> generation_input \<Rightarrow> failure + prisma_contribution list" where
  "collectPrismaContributions fs input =
     bind_result (foldM (collect_contribution fs input) (rg_instances (gi_graph input)) [])
       (\<lambda>cs. Inr (sort_key pc_plugin cs))"

section \<open>Validation\<close>

text \<open>
  One claim of a name by a plugin; the loops over models and over enums differ in the diagnostic.
\<close>

definition claim_name ::
    "(string \<Rightarrow> string \<Rightarrow> string \<Rightarrow> diagnostic) \<Rightarrow> string \<times> string
      \<Rightarrow> (string \<times> string) list \<times> diagnostic list \<Rightarrow> (string \<times> string) list \<times> diagnostic list" where
  "claim_name collision c st =
     (case c of (name, plugin) \<Rightarrow> case st of (owners, ds) \<Rightarrow>
      let existing = map_of owners name in
      if truthy existing \<and> the existing \<noteq> plugin
      then (owners, ds @ [collision name (the existing) plugin])
      else (map_put name plugin owners, ds))"

definition owner_collision :: "string \<Rightarrow> string \<Rightarrow> string \<Rightarrow> diagnostic" where
  "owner_collision model existing plugin =
     mk_diagnostic ''owner-collision''
       (''model '' @ quoted model @ '' is claimed by '' @ join '' and '' (sort [existing, plugin])
        @ ''. A model has exactly one owner; the composer never picks'')
       (of_plugin plugin (at_path (''facets.prisma.owns.'' @ model)))"

definition enum_owner_collision :: "string \<Rightarrow> string \<Rightarrow> string \<Rightarrow> diagnostic" where
  "enum_owner_collision name existing plugin =
     mk_diagnostic ''enum-owner-collision''
       (''enum '' @ quoted name @ '' is claimed by '' @ join '' and '' (sort [existing, plugin]))
       (of_plugin plugin (at_path (''facets.prisma.ownsEnums.'' @ name)))"

definition claims :: "(prisma_contribution \<Rightarrow> string list) \<Rightarrow> prisma_contribution list \<Rightarrow> (string \<times> string) list" where
  "claims names cs = concat (map (\<lambda>c. map (\<lambda>n. (n, pc_plugin c)) (names c)) cs)"

definition owners_of :: "prisma_contribution list \<Rightarrow> (string \<times> string) list" where
  "owners_of cs = fst (fold (claim_name owner_collision) (claims pc_owns cs) ([], []))"

definition augment_path :: "prisma_augmentation \<Rightarrow> string" where
  "augment_path a = ''facets.prisma.augments.'' @ au_targetModel a @ ''.'' @ au_field a"

definition declared_augmenter :: "prisma_contribution list \<Rightarrow> string \<Rightarrow> prisma_contribution \<Rightarrow> prisma_augmentation \<Rightarrow> bool option" where
  "declared_augmenter cs owner c a =
     map_option (\<lambda>o'. list_ex (\<lambda>(plugin, field).
         field = au_field a \<and> (plugin = pc_plugin c \<or> plugin = pc_packageName c)) (pc_augmentedBy o'))
       (find (\<lambda>candidate. pc_plugin candidate = owner) cs)"

definition augment_diagnostics ::
    "prisma_contribution list \<Rightarrow> prisma_contribution \<Rightarrow> prisma_augmentation \<Rightarrow> diagnostic list" where
  "augment_diagnostics cs c a =
     (let owner = map_of (owners_of cs) (au_targetModel a) in
      if \<not> truthy owner
      then [mk_diagnostic ''missing-augmentation-target''
        (quoted (pc_plugin c) @ '' augments model '' @ quoted (au_targetModel a) @ '', which no installed plugin owns'')
        (of_plugin (pc_plugin c) (at_path (augment_path a)))]
      else
        (if au_owner a \<noteq> the owner
         then [mk_diagnostic ''augmentation-owner-mismatch''
           (quoted (pc_plugin c) @ '' declares '' @ quoted (au_targetModel a) @ '' as owned by '' @ quoted (au_owner a)
             @ '', but '' @ quoted (the owner) @ '' owns it'')
           (of_plugin (pc_plugin c) (at_path (''facets.prisma.augments.'' @ au_targetModel a)))] else [])
        @ (if \<not> truthy (au_type a)
         then [mk_diagnostic ''augmentation-without-type''
           (quoted (pc_plugin c) @ '' augments '' @ au_targetModel a @ ''.'' @ au_field a
             @ '' without declaring a Prisma type, so the composer cannot write the field'')
           (of_plugin (pc_plugin c) (at_path (augment_path a)))] else [])
        @ (if declared_augmenter cs (the owner) c a = Some False
         then [mk_diagnostic ''undeclared-augmentation''
           (quoted (the owner) @ '' does not list '' @ au_field a @ '' in facets.prisma.augmentedBy, but ''
             @ quoted (pc_plugin c) @ '' adds it'')
           (with_severity SevWarning (of_plugin (the owner)
             (at_path (''facets.prisma.augmentedBy.'' @ au_field a))))] else []))"

definition validateContributions :: "prisma_contribution list \<Rightarrow> diagnostic list" where
  "validateContributions cs =
     sort_permission_diagnostics
       (snd (fold (claim_name owner_collision) (claims pc_owns cs) ([], []))
        @ snd (fold (claim_name enum_owner_collision) (claims pc_ownsEnums cs) ([], []))
        @ concat (map (\<lambda>c. concat (map (augment_diagnostics cs c) (pc_augments c))) cs))"

section \<open>Injection\<close>

text \<open>
  The manifest schema restricts model names to letters and digits, so the name inside the regular
  expression matches itself.
\<close>

definition opens_model :: "string \<Rightarrow> string \<Rightarrow> bool" where
  "opens_model model line \<longleftrightarrow>
     (let s = strip_left line; r = drop 5 s; t = strip_left r in
      starts_with s ''model'' \<and> t \<noteq> r \<and> starts_with t model
      \<and> starts_with (strip_left (drop (length model) t)) ''{'')"

definition closes_block :: "string \<Rightarrow> bool" where
  "closes_block line \<longleftrightarrow> (let s = strip_left line in starts_with s ''}'' \<and> is_blank (drop 1 s))"

definition below_fields :: "string \<Rightarrow> bool" where
  "below_fields line \<longleftrightarrow> is_blank line \<or> starts_with (strip_left line) ''@@''"

text \<open>The index of the first line from \<open>i\<close> on that satisfies \<open>P\<close>.\<close>

fun find_index :: "(string \<Rightarrow> bool) \<Rightarrow> nat \<Rightarrow> string list \<Rightarrow> nat option" where
  "find_index P i [] = None"
| "find_index P i (l # ls) = (if P l then Some i else find_index P (Suc i) ls)"

fun insert_point :: "string list \<Rightarrow> nat \<Rightarrow> nat \<Rightarrow> nat" where
  "insert_point lines start 0 = 0"
| "insert_point lines start (Suc n) =
     (if Suc n > start + 1 \<and> below_fields (lines ! n) then insert_point lines start n else Suc n)"

record injected_field =
  ij_targetModel :: string
  ij_field :: string
  ij_plugin :: string
  ij_type :: string

definition injected_block :: "injected_field list \<Rightarrow> string list" where
  "injected_block added =
     [] # concat (map (\<lambda>e. [''  /// Contributed by @appspine/'' @ ij_plugin e @ '' (PL2-06 augmentation).'',
                            ''  '' @ ij_field e @ '' '' @ ij_type e]) added)"

definition injectAugmentations :: "string \<Rightarrow> string \<Rightarrow> injected_field list \<Rightarrow> string \<times> bool" where
  "injectAugmentations fragment model added =
     (let lines = split_on CHR 0x0A fragment in
      if added = [] then (fragment, False)
      else case find_index (opens_model model) 0 lines of
        None \<Rightarrow> (fragment, False)
      | Some start \<Rightarrow>
          (case find_index closes_block (start + 1) (drop (start + 1) lines) of
             None \<Rightarrow> (fragment, False)
           | Some close \<Rightarrow>
               let at = insert_point lines start close in
               (join newline (take at lines @ injected_block added @ drop at lines), True)))"

section \<open>Composition\<close>

record migration_plan =
  mp_models :: "(string \<times> string \<times> string option) list"
  mp_enums :: "(string \<times> string) list"
  mp_augmentations :: "injected_field list"
  mp_digest :: string

record compose_result =
  cr_diagnostics :: "diagnostic list"
  cr_schema :: "string option"
  cr_digest :: "string option"
  cr_plan :: "migration_plan option"

definition augmentation_key :: "(string \<Rightarrow> string) \<Rightarrow> injected_field \<Rightarrow> string list" where
  "augmentation_key collate a =
     [collate (ij_targetModel a), collate (ij_field a), collate (ij_plugin a), collate (ij_type a)]"

text \<open>Reached only when every augmentation has a type.\<close>

definition augmentations_of :: "(string \<Rightarrow> string) \<Rightarrow> prisma_contribution list \<Rightarrow> injected_field list" where
  "augmentations_of collate cs =
     sort_key (augmentation_key collate)
       (concat (map (\<lambda>c. map (\<lambda>a. \<lparr>ij_targetModel = au_targetModel a, ij_field = au_field a,
          ij_plugin = pc_plugin c, ij_type = coalesce (au_type a) []\<rparr>) (pc_augments c)) cs))"

definition inject_model :: "(string \<times> injected_field list) list \<Rightarrow> string \<Rightarrow> string \<Rightarrow> string" where
  "inject_model byTarget model t =
     (case map_of byTarget model of
        None \<Rightarrow> t
      | Some added \<Rightarrow> fst (injectAugmentations t model added))"

definition fragment_text :: "(string \<times> injected_field list) list \<Rightarrow> prisma_contribution \<Rightarrow> string \<Rightarrow> string" where
  "fragment_text byTarget c fragment =
     fold (inject_model byTarget) (sort (pc_owns c)) (strip_right (unix_lines fragment) @ newline)"

definition schema_sections :: "(string \<times> injected_field list) list \<Rightarrow> prisma_contribution list \<Rightarrow> string list" where
  "schema_sections byTarget cs =
     concat (map (\<lambda>c. if truthy (pc_fragment c)
       then [join newline
         [''// ---- '' @ pc_packageName c @ '' ('' @ coalesce (pc_fragmentPath c) ''inline'' @ '') ----'',
          drop_final_newlines (fragment_text byTarget c (the (pc_fragment c))), []]]
       else []) cs)"

definition models_of :: "(string \<Rightarrow> string) \<Rightarrow> prisma_contribution list \<Rightarrow> (string \<times> string \<times> string option) list" where
  "models_of collate cs =
     sort_key (\<lambda>m. collate (fst m))
       (map (\<lambda>(model, c). (model, pc_plugin c, pc_fragmentPath c))
         (entries_map (concat (map (\<lambda>c. map (\<lambda>m. (m, c)) (pc_owns c)) cs))))"

definition enums_of :: "(string \<Rightarrow> string) \<Rightarrow> prisma_contribution list \<Rightarrow> (string \<times> string) list" where
  "enums_of collate cs = sort_key (\<lambda>e. collate (fst e)) (claims pc_ownsEnums cs)"

definition schema_canonical ::
    "(string \<times> string \<times> string option) list \<Rightarrow> (string \<times> string) list \<Rightarrow> injected_field list \<Rightarrow> string" where
  "schema_canonical models enums augmentations =
     stringify (JObj
       [(''models'', JArr (map (\<lambda>(model, owner, fragment).
            JObj [(''model'', JStr model), (''owner'', JStr owner), (''fragment'', nullable fragment)]) models)),
        (''enums'', JArr (map (\<lambda>(name, owner). JObj [(''name'', JStr name), (''owner'', JStr owner)]) enums)),
        (''augmentations'', JArr (map (\<lambda>a. JObj
           [(''targetModel'', JStr (ij_targetModel a)), (''field'', JStr (ij_field a)),
            (''plugin'', JStr (ij_plugin a)), (''type'', JStr (ij_type a))]) augmentations))])"

text \<open>The right single quotation mark, the section sign and the two characters of the section title, as UTF-8.\<close>

definition right_quote :: string where
  "right_quote = [CHR 0xE2, CHR 0x80, CHR 0x99]"

definition section_2_3 :: string where
  "section_2_3 = ''051 '' @ [CHR 0xE6, CHR 0x8B, CHR 0x86, CHR 0xE8, CHR 0xA7, CHR 0xA3] @ '' '' @ [CHR 0xC2, CHR 0xA7] @ ''2.3''"

definition schema_header :: "string \<Rightarrow> string \<Rightarrow> string" where
  "schema_header source digest =
     join newline
       [''// GENERATED BY @appspine/plugin-cli '' @ em_dash @ '' DO NOT EDIT.'', ''//'',
        ''// Composed from each plugin package'' @ right_quote @ ''s own .prisma fragment. Run `appspine build` to'',
        ''// regenerate. This file is a schema, not a migration: nothing here has been applied to any'',
        ''// database, and installing or enabling a plugin never will ('' @ section_2_3 @ '').'',
        ''//'', ''// sourceDigest: '' @ source, ''// schemaDigest: '' @ digest, ''//'',
        ''// The datasource and generator blocks stay in the App'' @ right_quote @ ''s own schema: they are deployment'',
        ''// configuration, not a plugin contribution.'', []]"

definition compose_contributions ::
    "cli_env \<Rightarrow> (string \<Rightarrow> string) \<Rightarrow> generation_input \<Rightarrow> prisma_contribution list \<Rightarrow> failure + compose_result" where
  "compose_contributions env hash input cs =
     (let diagnostics = validateContributions cs in
      if hasErrors diagnostics
      then Inr \<lparr>cr_diagnostics = diagnostics, cr_schema = None, cr_digest = None, cr_plan = None\<rparr>
      else
        let augmentations = augmentations_of (ce_collate env) cs;
            byTarget = multi_of (map (\<lambda>a. (ij_targetModel a, a)) augmentations);
            sections = schema_sections byTarget cs;
            models = models_of (ce_collate env) cs;
            enums = enums_of (ce_collate env) cs;
            digest = ''sha256:'' @ hash (schema_canonical models enums augmentations)
        in bind_result (lift_canon (sourceDigest hash input)) (\<lambda>source. Inr
             \<lparr>cr_diagnostics = diagnostics, cr_schema = Some (schema_header source digest @ join newline sections),
              cr_digest = Some digest,
              cr_plan = Some \<lparr>mp_models = models, mp_enums = enums, mp_augmentations = augmentations,
                              mp_digest = digest\<rparr>\<rparr>))"

definition compose :: "cli_env \<Rightarrow> files \<Rightarrow> (string \<Rightarrow> string) \<Rightarrow> generation_input \<Rightarrow> failure + compose_result" where
  "compose env fs hash input =
     bind_result (collectPrismaContributions fs input) (compose_contributions env hash input)"

definition generatePrismaSchema ::
    "cli_env \<Rightarrow> files \<Rightarrow> (string \<Rightarrow> string) \<Rightarrow> generation_input \<Rightarrow> failure + generated_artifact" where
  "generatePrismaSchema env fs hash input =
     bind_result (compose env fs hash input) (\<lambda>r. Inr
       \<lparr>ga_path = SCHEMA_ARTIFACT,
        ga_contents = (if truthy (cr_schema r) then the (cr_schema r)
          else join newline ([''COMPOSITION FAILED - this is not a valid Prisma schema.'', []]
            @ map (\<lambda>d. dg_code d @ '': '' @ dg_message d) (cr_diagnostics r) @ [[]]))\<rparr>)"

section \<open>When a composition succeeds\<close>

definition agrees :: "(string \<times> string) list \<Rightarrow> (string \<times> string) list \<Rightarrow> bool" where
  "agrees owners cl \<longleftrightarrow> (\<forall>n p q. (n, p) \<in> set cl \<longrightarrow> map_of owners n = Some q \<longrightarrow> q = p)"

lemma agrees_Nil [simp]: "agrees owners []" "agrees [] cl"
  by (simp_all add: agrees_def)

lemma agrees_Cons: "agrees owners ((n, p) # cl) \<longleftrightarrow> map_of owners n \<in> {None, Some p} \<and> agrees owners cl"
  by (cases "map_of owners n") (auto simp: agrees_def)

lemma agrees_put:
  assumes "map_of owners n \<in> {None, Some p}"
  shows "agrees (map_put n p owners) cl \<longleftrightarrow> agrees owners cl \<and> (\<forall>q. (n, q) \<in> set cl \<longrightarrow> q = p)"
proof -
  have "(\<forall>q. map_of (map_put n p owners) m = Some q \<longrightarrow> q = r) \<longleftrightarrow>
      (\<forall>q. map_of owners m = Some q \<longrightarrow> q = r) \<and> (m = n \<longrightarrow> r = p)" for m r
    using assms by (cases "m = n") (auto simp: map_of_map_put)
  then show ?thesis unfolding agrees_def by blast
qed

lemma single_valued_Cons:
  "single_valued (insert (n, p) r) \<longleftrightarrow> (\<forall>q. (n, q) \<in> r \<longrightarrow> q = p) \<and> single_valued r"
  by (auto simp: single_valued_def)

lemma claim_new:
  "map_of owners n \<in> {None, Some p} \<Longrightarrow> claim_name col (n, p) (owners, ds) = (map_put n p owners, ds)"
  by (auto simp: claim_name_def truthy_def)

lemma claim_taken:
  "map_of owners n = Some q \<Longrightarrow> q \<noteq> p \<Longrightarrow> q \<noteq> [] \<Longrightarrow> claim_name col (n, p) (owners, ds) = (owners, ds @ [col n q p])"
  by (simp add: claim_name_def truthy_def)

lemma values_put: "p \<noteq> [] \<Longrightarrow> [] \<notin> ran (map_of owners) \<Longrightarrow> [] \<notin> ran (map_of (map_put n p owners))"
  by (auto simp: ran_def map_of_map_put split: if_splits)

lemma claim_fold:
  assumes "\<And>n e p. dg_severity (col n e p) = SevError"
  shows "[] \<notin> snd ` set cl \<Longrightarrow> [] \<notin> ran (map_of owners) \<Longrightarrow>
    \<not> hasErrors (snd (fold (claim_name col) cl (owners, ds))) \<longleftrightarrow>
      \<not> hasErrors ds \<and> agrees owners cl \<and> single_valued (set cl)"
proof (induction cl arbitrary: owners ds)
  case (Cons c cl)
  obtain n p where c: "c = (n, p)" by (cases c)
  show ?case
  proof (cases "map_of owners n \<in> {None, Some p}")
    case True
    from Cons.prems have "[] \<notin> ran (map_of (map_put n p owners))" by (intro values_put) (auto simp: c)
    with Cons True show ?thesis
      by (auto simp: c claim_new agrees_Cons agrees_put single_valued_Cons)
  next
    case False
    then obtain q where q: "map_of owners n = Some q" "q \<noteq> p" by auto
    with Cons.prems(2) have "q \<noteq> []" by (auto simp: ran_def)
    with q Cons False assms show ?thesis by (simp add: c claim_taken agrees_Cons)
  qed
qed simp

lemma claim_owners:
  "agrees owners cl \<Longrightarrow> single_valued (set cl) \<Longrightarrow>
    map_of (fst (fold (claim_name col) cl (owners, ds))) m = Some r \<longleftrightarrow> map_of owners m = Some r \<or> (m, r) \<in> set cl"
proof (induction cl arbitrary: owners ds)
  case (Cons c cl)
  obtain n p where c: "c = (n, p)" by (cases c)
  have n: "map_of owners n \<in> {None, Some p}" using Cons.prems by (simp add: c agrees_Cons)
  with Cons.prems have "agrees (map_put n p owners) cl" "single_valued (set cl)"
    by (auto simp: c agrees_Cons agrees_put single_valued_Cons)
  from Cons.IH [OF this] n show ?case by (auto simp: c claim_new map_of_map_put)
qed simp

definition one_owner :: "(prisma_contribution \<Rightarrow> string list) \<Rightarrow> prisma_contribution list \<Rightarrow> bool" where
  "one_owner names cs \<longleftrightarrow>
     (\<forall>c\<in>set cs. \<forall>d\<in>set cs. set (names c) \<inter> set (names d) \<noteq> {} \<longrightarrow> pc_plugin c = pc_plugin d)"

definition contributions_valid :: "prisma_contribution list \<Rightarrow> bool" where
  "contributions_valid cs \<longleftrightarrow>
     one_owner pc_owns cs \<and> one_owner pc_ownsEnums cs
     \<and> (\<forall>c\<in>set cs. \<forall>a\<in>set (pc_augments c). truthy (au_type a)
          \<and> (\<exists>d\<in>set cs. au_targetModel a \<in> set (pc_owns d) \<and> pc_plugin d = au_owner a))"

lemma claims_mem: "(n, p) \<in> set (claims names cs) \<longleftrightarrow> (\<exists>c\<in>set cs. n \<in> set (names c) \<and> p = pc_plugin c)"
  by (auto simp: claims_def)

lemma one_owner_claims: "one_owner names cs \<longleftrightarrow> single_valued (set (claims names cs))"
  unfolding one_owner_def single_valued_def claims_mem by blast

lemma claims_ne: "\<forall>c\<in>set cs. pc_plugin c \<noteq> [] \<Longrightarrow> [] \<notin> snd ` set (claims names cs)"
  by (force simp: claims_mem)

lemma collision_severity [simp]:
  "dg_severity (owner_collision m e p) = SevError" "dg_severity (enum_owner_collision m e p) = SevError"
  by (simp_all add: owner_collision_def enum_owner_collision_def)

lemma claims_errors:
  assumes "\<forall>c\<in>set cs. pc_plugin c \<noteq> []" "\<And>n e p. dg_severity (col n e p) = SevError"
  shows "hasErrors (snd (fold (claim_name col) (claims names cs) ([], []))) \<longleftrightarrow> \<not> one_owner names cs"
  using claim_fold [of col "claims names cs" "[]" "[]", OF assms(2) claims_ne [OF assms(1)]] by (auto simp: one_owner_claims)

lemma owners_of_get:
  assumes "one_owner pc_owns cs"
  shows "map_of (owners_of cs) m = Some p \<longleftrightarrow> (\<exists>c\<in>set cs. m \<in> set (pc_owns c) \<and> p = pc_plugin c)"
  using claim_owners [of "[]" "claims pc_owns cs"] assms by (simp add: owners_of_def claims_mem one_owner_claims)

lemma augment_errors:
  assumes "\<forall>c\<in>set cs. pc_plugin c \<noteq> []" "one_owner pc_owns cs"
  shows "hasErrors (augment_diagnostics cs c a) \<longleftrightarrow>
    \<not> (truthy (au_type a) \<and> (\<exists>d\<in>set cs. au_targetModel a \<in> set (pc_owns d) \<and> pc_plugin d = au_owner a))"
proof (cases "map_of (owners_of cs) (au_targetModel a)")
  case None
  then have "\<not> (\<exists>d\<in>set cs. au_targetModel a \<in> set (pc_owns d))"
    using owners_of_get [OF assms(2), of "au_targetModel a"] by fastforce
  with None show ?thesis by (auto simp: augment_diagnostics_def truthy_def)
next
  case (Some p)
  then have p: "p \<noteq> []" using owners_of_get [OF assms(2), of "au_targetModel a" p] assms(1) by auto
  have "(\<exists>d\<in>set cs. au_targetModel a \<in> set (pc_owns d) \<and> pc_plugin d = au_owner a) \<longleftrightarrow> au_owner a = p"
    using owners_of_get [OF assms(2), of "au_targetModel a"] Some by (metis option.inject)
  with Some p show ?thesis by (auto simp: augment_diagnostics_def truthy_def Let_def)
qed

lemma hasErrors_sort_permission [simp]: "hasErrors (sort_permission_diagnostics ds) = hasErrors ds"
  by (simp add: hasErrors_iff sort_permission_diagnostics_def)

lemma validate_errors:
  assumes "\<forall>c\<in>set cs. pc_plugin c \<noteq> []"
  shows "hasErrors (validateContributions cs) \<longleftrightarrow> \<not> contributions_valid cs"
proof (cases "one_owner pc_owns cs")
  case True
  then show ?thesis
    by (auto simp: validateContributions_def claims_errors [OF assms] augment_errors [OF assms True] contributions_valid_def)
next
  case False
  then show ?thesis by (simp add: validateContributions_def claims_errors [OF assms] contributions_valid_def)
qed

section \<open>What injection does\<close>

lemma find_index_Some:
  "find_index P i ls = Some j \<Longrightarrow>
    i \<le> j \<and> j < i + length ls \<and> P (ls ! (j - i)) \<and> (\<forall>k. i \<le> k \<longrightarrow> k < j \<longrightarrow> \<not> P (ls ! (k - i)))"
proof (induction ls arbitrary: i)
  case (Cons l ls)
  show ?case
  proof (cases "P l")
    case True
    with Cons.prems show ?thesis by simp
  next
    case False
    with Cons.IH [of "Suc i"] Cons.prems have I: "Suc i \<le> j" "j < Suc i + length ls" "P (ls ! (j - Suc i))"
      "\<And>k. Suc i \<le> k \<Longrightarrow> k < j \<Longrightarrow> \<not> P (ls ! (k - Suc i))" by auto
    have "\<not> P ((l # ls) ! (k - i))" if "i \<le> k" "k < j" for k
      using False I(4) [of k] that by (cases "k = i") (auto simp: nth_Cons')
    with I show ?thesis by (auto simp: nth_Cons')
  qed
qed simp

lemma find_index_None: "find_index P i ls = None \<longleftrightarrow> list_all (\<lambda>l. \<not> P l) ls"
  by (induction ls arbitrary: i) auto

lemma insert_point_bounds:
  "start < n \<Longrightarrow> start < insert_point lines start n \<and> insert_point lines start n \<le> n
    \<and> (\<forall>k. insert_point lines start n \<le> k \<longrightarrow> k < n \<longrightarrow> below_fields (lines ! k))
    \<and> (insert_point lines start n = start + 1 \<or> \<not> below_fields (lines ! (insert_point lines start n - 1)))"
proof (induction n)
  case (Suc n)
  show ?case
  proof (cases "Suc n > start + 1 \<and> below_fields (lines ! n)")
    case True
    with Suc show ?thesis by (auto simp: less_Suc_eq)
  next
    case False
    with Suc.prems show ?thesis by auto
  qed
qed simp

lemma split_on_no_sep: "list_all (\<lambda>l. c \<notin> set l) (split_on c s)"
  by (induction s) (auto split: list.splits)

lemma not_in_list_all: "list_all P xs \<Longrightarrow> list_all P (take n xs) \<and> list_all P (drop n xs)"
  by (auto simp: list_all_iff dest: in_set_takeD in_set_dropD)

definition one_line :: "injected_field \<Rightarrow> bool" where
  "one_line a \<longleftrightarrow> CHR 0x0A \<notin> set (ij_plugin a) \<and> CHR 0x0A \<notin> set (ij_field a) \<and> CHR 0x0A \<notin> set (ij_type a)"

lemma injected_block_lines: "list_all one_line added \<Longrightarrow> list_all (\<lambda>l. CHR 0x0A \<notin> set l) (injected_block added)"
  by (induction added) (auto simp: injected_block_def one_line_def)

text \<open>
  Injecting augmentations only adds lines. When a model is found, the new text is the old one with
  one block of lines, a comment and a field for each augmentation in the given order, inserted between
  the line that opens the first block of that model and the line that closes it; between the inserted
  block and the closing line there are only blank lines and block attributes, and the line before it
  is a field or the opening line. When no such block is found, or nothing is to be added, the text is
  unchanged and the result says so.
\<close>

theorem injection_adds_one_block:
  assumes "list_all one_line added"
  shows "case injectAugmentations fragment model added of
     (t, False) \<Rightarrow> t = fragment
       \<and> (added = [] \<or> \<not> (\<exists>i j. i < j \<and> j < length (split_on CHR 0x0A fragment)
           \<and> opens_model model (split_on CHR 0x0A fragment ! i) \<and> closes_block (split_on CHR 0x0A fragment ! j)
           \<and> (\<forall>k<i. \<not> opens_model model (split_on CHR 0x0A fragment ! k))))
   | (t, True) \<Rightarrow> (\<exists>start at close. let lines = split_on CHR 0x0A fragment in
         split_on CHR 0x0A t = take at lines @ injected_block added @ drop at lines
         \<and> start < at \<and> at \<le> close \<and> close < length lines
         \<and> opens_model model (lines ! start) \<and> (\<forall>k<start. \<not> opens_model model (lines ! k))
         \<and> closes_block (lines ! close) \<and> (\<forall>k. start < k \<longrightarrow> k < close \<longrightarrow> \<not> closes_block (lines ! k))
         \<and> (\<forall>k. at \<le> k \<longrightarrow> k < close \<longrightarrow> below_fields (lines ! k))
         \<and> (at = start + 1 \<or> \<not> below_fields (lines ! (at - 1))))"
proof -
  define lines where "lines = split_on CHR 0x0A fragment"
  consider "added = []" | "added \<noteq> []" "find_index (opens_model model) 0 lines = None"
    | start where "added \<noteq> []" "find_index (opens_model model) 0 lines = Some start"
        "find_index closes_block (start + 1) (drop (start + 1) lines) = None"
    | start close where "added \<noteq> []" "find_index (opens_model model) 0 lines = Some start"
        "find_index closes_block (start + 1) (drop (start + 1) lines) = Some close"
    by (metis option.exhaust)
  then show ?thesis
  proof cases
    case 1
    then show ?thesis by (simp add: injectAugmentations_def Let_def)
  next
    case 2
    then have "\<forall>i<length lines. \<not> opens_model model (lines ! i)" by (simp add: find_index_None list_all_length)
    with 2 show ?thesis by (auto simp: injectAugmentations_def Let_def lines_def)
  next
    case (3 start)
    have c: "\<not> closes_block (lines ! j)" if "start < j" "j < length lines" for j
    proof -
      from that have "lines ! j \<in> set (drop (start + 1) lines)"
        using nth_mem [of "j - (start + 1)" "drop (start + 1) lines"] by simp
      with 3(3) show ?thesis by (simp add: find_index_None list_all_iff)
    qed
    have "\<not> (i < j \<and> j < length lines \<and> opens_model model (lines ! i) \<and> closes_block (lines ! j)
        \<and> (\<forall>k<i. \<not> opens_model model (lines ! k)))" for i j
    proof
      assume a: "i < j \<and> j < length lines \<and> opens_model model (lines ! i) \<and> closes_block (lines ! j)
        \<and> (\<forall>k<i. \<not> opens_model model (lines ! k))"
      with find_index_Some [OF 3(2)] have "start = i" by (metis diff_zero le0 not_less_iff_gr_or_eq)
      with a c show False by blast
    qed
    with 3 show ?thesis by (simp add: injectAugmentations_def Let_def lines_def)
  next
    case (4 start close)
    define at where "at = insert_point lines start close"
    have s: "start < length lines" "opens_model model (lines ! start)" "\<forall>k<start. \<not> opens_model model (lines ! k)"
      using find_index_Some [OF 4(2)] by auto
    have d: "drop (start + 1) lines ! (k - (start + 1)) = lines ! k" if "start < k" for k
      using that s(1) by simp
    have c: "start < close" "close < length lines" "closes_block (lines ! close)"
      "\<And>k. start < k \<Longrightarrow> k < close \<Longrightarrow> \<not> closes_block (lines ! k)"
      using find_index_Some [OF 4(3)] d s(1) by auto
    have a: "start < at" "at \<le> close" "\<forall>k. at \<le> k \<longrightarrow> k < close \<longrightarrow> below_fields (lines ! k)"
      "at = start + 1 \<or> \<not> below_fields (lines ! (at - 1))"
      using insert_point_bounds [OF c(1), of lines] by (simp_all add: at_def)
    have e: "injectAugmentations fragment model added
        = (join newline (take at lines @ injected_block added @ drop at lines), True)"
      using 4 by (simp add: injectAugmentations_def Let_def lines_def [symmetric] at_def)
    have "list_all (\<lambda>l. CHR 0x0A \<notin> set l) (take at lines @ injected_block added @ drop at lines)"
      using injected_block_lines [OF assms] not_in_list_all [OF split_on_no_sep [of "CHR 0x0A" fragment]]
      by (simp add: lines_def)
    then have "split_on CHR 0x0A (join newline (take at lines @ injected_block added @ drop at lines))
        = take at lines @ injected_block added @ drop at lines"
      unfolding newline_def by (intro split_on_join) (simp add: injected_block_def)
    with a c s show ?thesis
      unfolding e prod.case Let_def lines_def [symmetric] bool.case by (intro exI [of _ start] exI [of _ at] exI [of _ close]) simp
  qed
qed

definition ex_fragment :: string where
  "ex_fragment = join newline [''model User {'', ''  id String @id'', [], ''  @@map('' @ quote ''users'' @ '')'', ''}'']"

definition ex_field :: injected_field where
  "ex_field = \<lparr>ij_targetModel = ''User'', ij_field = ''userRoles'', ij_plugin = ''rbac'', ij_type = ''UserRole[]''\<rparr>"

lemma ex_injection:
  "injectAugmentations ex_fragment ''User'' [ex_field] = (join newline
     [''model User {'', ''  id String @id'', [], ''  /// Contributed by @appspine/rbac (PL2-06 augmentation).'',
      ''  userRoles UserRole[]'', [], ''  @@map('' @ quote ''users'' @ '')'', ''}''], True)"
  by code_simp

theorem injection_adds_one_block_witness:
  "\<exists>t start at close. injectAugmentations ex_fragment ''User'' [ex_field] = (t, True)
     \<and> split_on CHR 0x0A t = take at (split_on CHR 0x0A ex_fragment) @ injected_block [ex_field]
         @ drop at (split_on CHR 0x0A ex_fragment) \<and> start < at \<and> at \<le> close"
proof -
  have "list_all one_line [ex_field]" by code_simp
  from injection_adds_one_block [OF this, of ex_fragment "''User''"] show ?thesis
    unfolding ex_injection prod.case bool.case Let_def by blast
qed

section \<open>Compositions\<close>

text \<open>
  The composer produces a schema exactly when every model and every enum has one owner and every
  augmentation has a type and names as its owner the plugin that owns its model; otherwise the result
  carries an error and no schema, digest or plan. It never throws.
\<close>

theorem composition_succeeds_iff_valid:
  assumes "\<forall>c\<in>set cs. pc_plugin c \<noteq> []"
  shows "\<exists>r. compose_contributions env hash input cs = Inr r
    \<and> (contributions_valid cs \<longleftrightarrow> \<not> hasErrors (cr_diagnostics r))
    \<and> (contributions_valid cs \<longleftrightarrow> cr_schema r \<noteq> None) \<and> (contributions_valid cs \<longleftrightarrow> cr_digest r \<noteq> None)
    \<and> (contributions_valid cs \<longleftrightarrow> cr_plan r \<noteq> None)"
  using validate_errors [OF assms]
  by (cases "contributions_valid cs") (simp_all add: compose_contributions_def Let_def sourceDigest_ok lift_canon_def)

definition ex_owner :: "string option \<Rightarrow> prisma_contribution" where
  "ex_owner fragment = \<lparr>pc_plugin = ''identity'', pc_packageName = ''@appspine/identity'', pc_owns = [''User''],
     pc_ownsEnums = [], pc_augments = [], pc_augmentedBy = [], pc_fragment = fragment, pc_fragmentPath = None\<rparr>"

definition ex_augmenter :: prisma_contribution where
  "ex_augmenter = \<lparr>pc_plugin = ''rbac'', pc_packageName = ''@appspine/rbac'', pc_owns = [''Role''], pc_ownsEnums = [],
     pc_augments = [\<lparr>au_targetModel = ''User'', au_field = ''userRoles'', au_owner = ''identity'',
       au_type = Some ''UserRole[]''\<rparr>], pc_augmentedBy = [], pc_fragment = None, pc_fragmentPath = None\<rparr>"

lemma ex_contributions_valid: "contributions_valid [ex_owner f, ex_augmenter]"
  by (auto simp: contributions_valid_def one_owner_def ex_owner_def ex_augmenter_def truthy_def)

theorem composition_succeeds_iff_valid_witness:
  "\<exists>r. compose_contributions (ex_cli_env [] JNull) (\<lambda>_. []) (ex_input ''1'') [ex_owner (Some ex_fragment), ex_augmenter] = Inr r
    \<and> cr_schema r \<noteq> None"
proof -
  have "\<forall>c\<in>set [ex_owner (Some ex_fragment), ex_augmenter]. pc_plugin c \<noteq> []"
    by (simp add: ex_owner_def ex_augmenter_def)
  from composition_succeeds_iff_valid [OF this] show ?thesis using ex_contributions_valid by blast
qed

lemma inject_nothing:
  "list_all (\<lambda>l. \<not> opens_model model l) (split_on CHR 0x0A t) \<Longrightarrow> inject_model byTarget model t = t"
  using find_index_None [of "opens_model model" 0 "split_on CHR 0x0A t"]
  by (simp add: inject_model_def injectAugmentations_def Let_def split: option.split)

text \<open>The lines of the fragment a contribution ships, as the composer reads it.\<close>

definition fragment_lines :: "prisma_contribution \<Rightarrow> string list" where
  "fragment_lines c = split_on CHR 0x0A (strip_right (unix_lines (coalesce (pc_fragment c) [])) @ newline)"

lemma fold_inject_nothing:
  "\<forall>m\<in>set ms. list_all (\<lambda>l. \<not> opens_model m l) (split_on CHR 0x0A t) \<Longrightarrow> fold (inject_model byTarget) ms t = t"
  by (induction ms) (simp_all add: inject_nothing)

text \<open>
  An augmentation of a model whose owner ships no fragment, or a fragment without a block that
  opens the model, is left out without any diagnostic: the composition succeeds and its schema has the
  sections it has without augmentations, although the plan lists every augmentation.
\<close>

theorem unplaced_augmentation_is_dropped:
  assumes "\<forall>c\<in>set cs. pc_plugin c \<noteq> []" and "contributions_valid cs"
    and "\<forall>c\<in>set cs. \<forall>m\<in>set (pc_owns c). truthy (pc_fragment c) \<longrightarrow> list_all (\<lambda>l. \<not> opens_model m l) (fragment_lines c)"
  shows "\<exists>r source digest plan. compose_contributions env hash input cs = Inr r \<and> \<not> hasErrors (cr_diagnostics r)
    \<and> cr_schema r = Some (schema_header source digest @ join newline (schema_sections [] cs))
    \<and> cr_plan r = Some plan \<and> mp_augmentations plan = augmentations_of (ce_collate env) cs"
proof -
  have "fragment_text b c (the (pc_fragment c)) = strip_right (unix_lines (the (pc_fragment c))) @ newline"
    if "c \<in> set cs" "truthy (pc_fragment c)" for b c
  proof -
    have "coalesce (pc_fragment c) [] = the (pc_fragment c)" using that(2) by (cases "pc_fragment c") (simp_all add: truthy_def)
    with assms(3) that show ?thesis
      unfolding fragment_text_def by (intro fold_inject_nothing) (auto simp: fragment_lines_def)
  qed
  then have sections: "schema_sections b cs = schema_sections [] cs" for b
    unfolding schema_sections_def by (intro arg_cong [of _ _ concat] map_cong refl) simp
  with validate_errors [OF assms(1)] assms(2) show ?thesis
    by (auto simp: compose_contributions_def Let_def sourceDigest_ok lift_canon_def) (intro exI, subst sections, rule refl)
qed

theorem unplaced_augmentation_is_dropped_witness:
  "\<exists>r header plan. compose_contributions (ex_cli_env [] JNull) (\<lambda>_. []) (ex_input ''1'') [ex_owner None, ex_augmenter] = Inr r
    \<and> \<not> hasErrors (cr_diagnostics r) \<and> cr_schema r = Some header \<and> cr_plan r = Some plan
    \<and> mp_augmentations plan = [ex_field]"
proof -
  have a: "\<forall>c\<in>set [ex_owner None, ex_augmenter]. pc_plugin c \<noteq> []" by (simp add: ex_owner_def ex_augmenter_def)
  have b: "\<forall>c\<in>set [ex_owner None, ex_augmenter]. \<forall>m\<in>set (pc_owns c). truthy (pc_fragment c) \<longrightarrow>
      list_all (\<lambda>l. \<not> opens_model m l) (fragment_lines c)"
    by (simp add: ex_owner_def ex_augmenter_def truthy_def)
  have "augmentations_of (ce_collate (ex_cli_env [] JNull)) [ex_owner None, ex_augmenter] = [ex_field]" by code_simp
  with unplaced_augmentation_is_dropped [OF a ex_contributions_valid b, of "ex_cli_env [] JNull" "\<lambda>_. []" "ex_input ''1''"]
  show ?thesis by auto
qed

end
