(* ===== verification/FrontendOrder.thy ===== *)
theory FrontendOrder
  imports Composition Topology
begin

text \<open>
  The ordering of frontend contributions: \<open>sortWithDependencies\<close> of
  \<open>plugin-cli/src/frontend-generator.ts\<close>.
  The lemmas show that for distinct ids the loop returns a permutation of the items that respects
  every constraint exactly when the constraints have no cycle, and that its result does not depend
  on the order of the items.
\<close>

text \<open>\<open>T extends SortableItem\<close>: the records that are ordered extend this one.\<close>

record sortable =
  so_id :: string
  so_order :: "int option"
  so_before :: "string option"
  so_after :: "string option"

definition item_map :: "'a sortable_scheme list \<Rightarrow> (string \<times> 'a sortable_scheme) list" where
  "item_map items = entries_map (map (\<lambda>i. (so_id i, i)) items)"

section \<open>The graph\<close>

text \<open>\<open>adj.get(u)\<close> gains \<open>v\<close>.\<close>

definition add_edge :: "string \<Rightarrow> string \<Rightarrow> dep_map \<Rightarrow> dep_map" where
  "add_edge u v adj = map_put u (set_add v (coalesce (map_of adj u) [])) adj"

definition is_item :: "(string \<times> 'b) list \<Rightarrow> string option \<Rightarrow> bool" where
  "is_item items x \<longleftrightarrow> truthy x \<and> map_of items (the x) \<noteq> None"

definition add_constraints :: "(string \<times> 'b) list \<Rightarrow> 'a sortable_scheme \<Rightarrow> dep_map \<Rightarrow> dep_map" where
  "add_constraints items i adj =
     (let adj = (if is_item items (so_before i) then add_edge (so_id i) (the (so_before i)) adj else adj)
      in if is_item items (so_after i) then add_edge (the (so_after i)) (so_id i) adj else adj)"

definition adjacency :: "'a sortable_scheme list \<Rightarrow> dep_map" where
  "adjacency items =
     fold (add_constraints (item_map items)) items (fold (\<lambda>i. map_put (so_id i) []) items [])"

definition count_in :: "string \<Rightarrow> (string \<times> int) list \<Rightarrow> (string \<times> int) list" where
  "count_in v degrees = map_put v (coalesce (map_of degrees v) 0 + 1) degrees"

definition in_degrees :: "'a sortable_scheme list \<Rightarrow> dep_map \<Rightarrow> (string \<times> int) list" where
  "in_degrees items adj =
     fold (\<lambda>(u, targets). fold count_in targets) adj (fold (\<lambda>i. map_put (so_id i) 0) items [])"

section \<open>The loop\<close>

definition ready_key :: "(string \<Rightarrow> string) \<Rightarrow> 'a sortable_scheme \<Rightarrow> int \<times> string" where
  "ready_key collate i = (coalesce (so_order i) 0, collate (so_id i))"

definition sort_ready :: "(string \<Rightarrow> string) \<Rightarrow> 'a sortable_scheme list \<Rightarrow> 'a sortable_scheme list" where
  "sort_ready collate items = sort_key (ready_key collate) items"

definition relax ::
    "(string \<times> 'a sortable_scheme) list \<Rightarrow> string \<Rightarrow> 'a sortable_scheme list \<times> (string \<times> int) list
      \<Rightarrow> 'a sortable_scheme list \<times> (string \<times> int) list" where
  "relax items v st =
     (case st of (ready, degrees) \<Rightarrow>
      let next = coalesce (map_of degrees v) 1 - 1 in
      ((if next = 0 then (case map_of items v of None \<Rightarrow> ready | Some i \<Rightarrow> ready @ [i]) else ready),
       map_put v next degrees))"

text \<open>The items that may still be pushed; it bounds the number of iterations.\<close>

definition pending :: "(string \<times> 'b) list \<Rightarrow> (string \<times> int) list \<Rightarrow> string list" where
  "pending items degrees = filter (\<lambda>v. coalesce (map_of degrees v) 1 > 0) (map fst items)"

lemma length_filter_imp: "(\<And>x. P x \<Longrightarrow> Q x) \<Longrightarrow> length (filter P xs) \<le> length (filter Q xs)"
  by (induction xs) auto

lemma filter_drops_one:
  "P v \<Longrightarrow> v \<in> set ks \<Longrightarrow> length (filter (\<lambda>w. w \<noteq> v \<and> P w) ks) < length (filter P ks)"
proof (induction ks)
  case (Cons k ks)
  moreover have "length (filter (\<lambda>w. w \<noteq> v \<and> P w) ks) \<le> length (filter P ks)"
    by (rule length_filter_imp) simp
  ultimately show ?case by (cases "k = v") auto
qed simp

lemma relax_measure:
  "length (fst (relax items v st)) + length (pending items (snd (relax items v st)))
    \<le> length (fst st) + length (pending items (snd st))"
proof -
  obtain ready degrees where st: "st = (ready, degrees)" by (cases st)
  let ?n = "coalesce (map_of degrees v) 1"
  have sub: "length (pending items (map_put v (?n - 1) degrees)) \<le> length (pending items degrees)"
    unfolding pending_def by (rule length_filter_imp) (auto simp: map_of_map_put split: if_splits)
  have strict: "length (pending items (map_put v 0 degrees)) < length (pending items degrees)"
    if "?n = 1" "map_of items v = Some i" for i
  proof -
    have "pending items (map_put v 0 degrees)
        = filter (\<lambda>w. w \<noteq> v \<and> coalesce (map_of degrees w) 1 > 0) (map fst items)"
      unfolding pending_def by (intro filter_cong) (auto simp: map_of_map_put)
    moreover have "v \<in> set (map fst items)" using that(2) by (force dest: map_of_SomeD)
    then have "length (filter (\<lambda>w. w \<noteq> v \<and> coalesce (map_of degrees w) 1 > 0) (map fst items))
        < length (pending items degrees)"
      unfolding pending_def by (intro filter_drops_one) (simp add: that(1))
    ultimately show ?thesis by simp
  qed
  show ?thesis
    using sub strict by (auto simp: relax_def st Let_def split: option.split)
qed

lemma relax_all_measure:
  "length (fst (fold (relax items) vs st)) + length (pending items (snd (fold (relax items) vs st)))
    \<le> length (fst st) + length (pending items (snd st))"
proof (induction vs arbitrary: st)
  case (Cons v vs)
  from Cons.IH [of "relax items v st"] relax_measure [of items v st] show ?case by simp
qed simp

function sort_loop ::
    "(string \<Rightarrow> string) \<Rightarrow> (string \<times> 'a sortable_scheme) list \<Rightarrow> dep_map
      \<Rightarrow> 'a sortable_scheme list \<Rightarrow> (string \<times> int) list \<Rightarrow> 'a sortable_scheme list \<Rightarrow> 'a sortable_scheme list" where
  "sort_loop collate items adj [] degrees result = result"
| "sort_loop collate items adj (i # ready) degrees result =
     (case fold (relax items) (coalesce (map_of adj (so_id i)) []) (ready, degrees) of
        (ready', degrees') \<Rightarrow> sort_loop collate items adj (sort_ready collate ready') degrees' (result @ [i]))"
  by pat_completeness auto
termination
proof (relation "measure (\<lambda>(collate, items, adj, ready, degrees, result). length ready + length (pending items degrees))",
    goal_cases)
  case (2 collate items adj i ready degrees result p)
  from relax_all_measure [of items "coalesce (map_of adj (so_id i)) []" "(ready, degrees)"] show ?case
    by (simp add: sort_ready_def 2(1) [symmetric])
qed simp

definition cyclic_error :: "'a sortable_scheme list \<Rightarrow> failure" where
  "cyclic_error items =
     Thrown (''Cyclic dependency detected in ordering items: '' @ join '', '' (map so_id items))"

definition sortWithDependencies ::
    "(string \<Rightarrow> string) \<Rightarrow> 'a sortable_scheme list \<Rightarrow> failure + 'a sortable_scheme list" where
  "sortWithDependencies collate items =
     (if length items \<le> 1 then Inr items
      else
        let adj = adjacency items; degrees = in_degrees items adj;
            ready = filter (\<lambda>i. map_of degrees (so_id i) = Some 0) items;
            result = sort_loop collate (item_map items) adj (sort_ready collate ready) degrees []
        in if length result \<noteq> length items then Inl (cyclic_error items) else Inr result)"

section \<open>The graph of the constraints\<close>

definition precedes :: "'a sortable_scheme list \<Rightarrow> string \<Rightarrow> string \<Rightarrow> bool" where
  "precedes items u v \<longleftrightarrow>
     u \<in> so_id ` set items \<and> v \<in> so_id ` set items
     \<and> (\<exists>i\<in>set items. so_id i = u \<and> so_before i = Some v \<and> v \<noteq> [] \<or> so_id i = v \<and> so_after i = Some u \<and> u \<noteq> [])"

definition succs :: "dep_map \<Rightarrow> string \<Rightarrow> string list" where
  "succs adj u = coalesce (map_of adj u) []"

lemma succs_add_edge [simp]: "succs (add_edge u v adj) w = (if w = u then set_add v (succs adj u) else succs adj w)"
  by (simp add: succs_def add_edge_def map_of_map_put)

lemma keys_add_edge [simp]: "fst ` set (add_edge u v adj) = insert u (fst ` set adj)"
  by (simp add: add_edge_def keys_set_map_put)

lemma distinct_add_edge [simp]: "distinct (map fst adj) \<Longrightarrow> distinct (map fst (add_edge u v adj))"
  by (simp add: add_edge_def keys_map_put)

definition links :: "(string \<times> 'b) list \<Rightarrow> 'a sortable_scheme \<Rightarrow> string \<Rightarrow> string \<Rightarrow> bool" where
  "links m i u v \<longleftrightarrow>
     so_id i = u \<and> so_before i = Some v \<and> is_item m (Some v) \<or> so_id i = v \<and> so_after i = Some u \<and> is_item m (Some u)"

lemma is_item_Some: "is_item m x \<Longrightarrow> x = Some (the x) \<and> map_of m (the x) \<noteq> None"
  by (auto simp: is_item_def truthy_def split: option.splits)

lemma is_item_None [simp]: "\<not> is_item m None"
  by (simp add: is_item_def truthy_def)

lemma set_succs_constraints:
  "set (succs (add_constraints m i adj) u) = set (succs adj u) \<union> {v. links m i u v}"
  by (cases "so_before i"; cases "so_after i") (auto simp: add_constraints_def Let_def links_def)

lemma distinct_succs_constraints:
  "(\<And>u. distinct (succs adj u)) \<Longrightarrow> distinct (succs (add_constraints m i adj) u)"
  by (simp add: add_constraints_def Let_def)

lemma keys_constraints:
  "so_id i \<in> fst ` set adj \<Longrightarrow> fst ` set m \<subseteq> fst ` set adj \<Longrightarrow>
    fst ` set (add_constraints m i adj) = fst ` set adj \<and> (distinct (map fst adj) \<longrightarrow> distinct (map fst (add_constraints m i adj)))"
  using is_item_Some [of m "so_after i"]
  by (auto simp: add_constraints_def Let_def insert_absorb map_of_eq_None_iff)

lemma fold_constraints:
  "so_id ` set is \<subseteq> fst ` set adj \<Longrightarrow> fst ` set m \<subseteq> fst ` set adj \<Longrightarrow> (\<And>u. distinct (succs adj u)) \<Longrightarrow>
    distinct (map fst adj) \<Longrightarrow>
    (\<forall>u. set (succs (fold (add_constraints m) is adj) u) = set (succs adj u) \<union> {v. \<exists>i\<in>set is. links m i u v})
    \<and> (\<forall>u. distinct (succs (fold (add_constraints m) is adj) u))
    \<and> fst ` set (fold (add_constraints m) is adj) = fst ` set adj
    \<and> distinct (map fst (fold (add_constraints m) is adj))"
proof (induction "is" arbitrary: adj)
  case (Cons i "is")
  from keys_constraints [of i adj m] Cons.prems have k: "fst ` set (add_constraints m i adj) = fst ` set adj"
    "distinct (map fst (add_constraints m i adj))" by auto
  have "distinct (succs (add_constraints m i adj) u)" for u
    using Cons.prems(3) by (rule distinct_succs_constraints)
  with Cons.IH [of "add_constraints m i adj"] Cons.prems k show ?case
    by (auto simp: set_succs_constraints)
qed auto

lemma empty_map: 
  "fst ` set (fold (\<lambda>i. map_put (so_id i) c) items m) = so_id ` set items \<union> fst ` set m
   \<and> (distinct (map fst m) \<longrightarrow> distinct (map fst (fold (\<lambda>i. map_put (so_id i) c) items m)))
   \<and> (\<forall>u. map_of (fold (\<lambda>i. map_put (so_id i) c) items m) u = (if u \<in> so_id ` set items then Some c else map_of m u))"
  by (induction items arbitrary: m) (auto simp: keys_set_map_put keys_map_put map_of_map_put)

lemma keys_item_map: "fst ` set (item_map items) = so_id ` set items"
proof -
  have "fst ` set (fold (\<lambda>p. map_put (fst p) (snd p)) ps m) = fst ` set ps \<union> fst ` set m" for ps m :: "(string \<times> 'a sortable_scheme) list"
    by (induction ps arbitrary: m) (auto simp: keys_set_map_put)
  then show ?thesis by (simp add: item_map_def entries_map_def image_image)
qed

lemma adjacency_graph:
  "set (succs (adjacency items) u) = {v. precedes items u v} \<and> distinct (succs (adjacency items) u)
    \<and> fst ` set (adjacency items) = so_id ` set items \<and> distinct (map fst (adjacency items))"
proof -
  let ?e = "fold (\<lambda>i. map_put (so_id i) []) items [] :: dep_map"
  have e: "fst ` set ?e = so_id ` set items" "distinct (map fst ?e)" "succs ?e u = []" for u
    using empty_map [of "[] :: string list" items "[]"] by (auto simp: succs_def)
  have "(\<exists>i\<in>set items. links (item_map items) i u v) \<longleftrightarrow> precedes items u v" for v
  proof -
    have "is_item (item_map items) (Some w) \<longleftrightarrow> w \<noteq> [] \<and> w \<in> so_id ` set items" for w
      by (auto simp: is_item_def truthy_def keys_item_map [symmetric] map_of_eq_None_iff)
    then show ?thesis unfolding links_def precedes_def by blast
  qed
  with fold_constraints [of items ?e "item_map items"] e show ?thesis
    by (simp add: adjacency_def keys_item_map)
qed

lemma count_all:
  "map_of (fold count_in ts d) v =
    (if v \<in> set ts \<or> map_of d v \<noteq> None then Some (coalesce (map_of d v) 0 + int (count_list ts v)) else None)"
  by (induction ts arbitrary: d) (auto simp: count_in_def map_of_map_put)

lemma count_distinct: "distinct ts \<Longrightarrow> count_list ts v = (if v \<in> set ts then 1 else 0)"
  by (induction ts) auto

lemma degrees_all:
  "\<forall>p\<in>set adj. distinct (snd p) \<Longrightarrow> map_of d v \<noteq> None \<Longrightarrow>
    map_of (fold (\<lambda>(u, ts). fold count_in ts) adj d) v
      = Some (coalesce (map_of d v) 0 + int (length (filter (\<lambda>p. v \<in> set (snd p)) adj)))"
  by (induction adj arbitrary: d) (auto simp: count_all count_distinct split: prod.splits)

lemma in_degrees_get:
  assumes "v \<in> so_id ` set items"
  shows "map_of (in_degrees items (adjacency items)) v = Some (int (card {u. precedes items u v}))"
proof -
  let ?a = "adjacency items"
  have d: "distinct (map fst ?a)" using adjacency_graph by blast
  then have s: "succs ?a (fst p) = snd p" if "p \<in> set ?a" for p
    using that by (cases p) (simp add: succs_def)
  have "distinct (snd p)" if "p \<in> set ?a" for p
    using s [OF that] adjacency_graph [of items "fst p"] by simp
  then have "map_of (in_degrees items ?a) v = Some (int (length (filter (\<lambda>p. v \<in> set (snd p)) ?a)))"
    unfolding in_degrees_def using assms empty_map [of "0 :: int" items "[]"] by (subst degrees_all) auto
  also have "length (filter (\<lambda>p. v \<in> set (snd p)) ?a) = card (fst ` set (filter (\<lambda>p. v \<in> set (snd p)) ?a))"
    using distinct_map_filter [OF d] by (metis distinct_card length_map list.set_map)
  also have "fst ` set (filter (\<lambda>p. v \<in> set (snd p)) ?a) = {u. precedes items u v}"
  proof -
    have "u \<in> fst ` set (filter (\<lambda>p. v \<in> set (snd p)) ?a) \<longleftrightarrow> precedes items u v" for u
    proof
      assume "precedes items u v"
      then have "u \<in> fst ` set ?a" "v \<in> set (succs ?a u)"
        using adjacency_graph [of items u] by (auto simp: precedes_def)
      then show "u \<in> fst ` set (filter (\<lambda>p. v \<in> set (snd p)) ?a)" using s by force
    qed (use s adjacency_graph in fastforce)
    then show ?thesis by blast
  qed
  finally show ?thesis .
qed

section \<open>The loop\<close>

text \<open>One round of the inner loop, in closed form.\<close>

lemma relax_all:
  "distinct vs \<Longrightarrow> \<forall>v\<in>set vs. map_of m v \<noteq> None \<and> map_of degrees v \<noteq> None \<Longrightarrow>
    fst (fold (relax m) vs (ready, degrees))
        = ready @ map (\<lambda>v. the (map_of m v)) (filter (\<lambda>v. map_of degrees v = Some 1) vs)
    \<and> (\<forall>w. map_of (snd (fold (relax m) vs (ready, degrees))) w
        = (if w \<in> set vs then map_option (\<lambda>d. d - 1) (map_of degrees w) else map_of degrees w))"
proof (induction vs arbitrary: ready degrees)
  case (Cons v vs)
  obtain d where d: "map_of degrees v = Some d" using Cons.prems(2) by auto
  obtain i where i: "map_of m v = Some i" using Cons.prems(2) by auto
  define ready' where "ready' = (if d = 1 then ready @ [i] else ready)"
  define degrees' where "degrees' = map_put v (d - 1) degrees"
  have r: "relax m v (ready, degrees) = (ready', degrees')"
    by (simp add: relax_def d i ready'_def degrees'_def)
  have g: "map_of degrees' w = (if w = v then Some (d - 1) else map_of degrees w)" for w
    by (simp add: degrees'_def map_of_map_put)
  have v: "v \<notin> set vs" "distinct vs" using Cons.prems(1) by auto
  have "\<forall>w\<in>set vs. map_of m w \<noteq> None \<and> map_of degrees' w \<noteq> None" using Cons.prems(2) by (auto simp: g)
  note IH = Cons.IH [OF v(2) this, of ready']
  have "filter (\<lambda>w. map_of degrees' w = Some 1) vs = filter (\<lambda>w. map_of degrees w = Some 1) vs"
    using v(1) by (intro filter_cong) (auto simp: g)
  with IH v(1) d i show ?case by (simp add: r g ready'_def)
qed simp

text \<open>What the loop relies on: distinct items, and a successor list for every item.\<close>

definition sort_graph :: "'a sortable_scheme list \<Rightarrow> (string \<times> 'a sortable_scheme) list \<Rightarrow> dep_map \<Rightarrow> (string \<times> string) set \<Rightarrow> bool" where
  "sort_graph items m adj E \<longleftrightarrow>
     distinct (map so_id items) \<and> (\<forall>i\<in>set items. map_of m (so_id i) = Some i)
     \<and> E \<subseteq> so_id ` set items \<times> so_id ` set items
     \<and> (\<forall>u. distinct (succs adj u) \<and> set (succs adj u) = {v. (u, v) \<in> E})"

definition open_preds :: "(string \<times> string) set \<Rightarrow> 'a sortable_scheme list \<Rightarrow> string \<Rightarrow> string set" where
  "open_preds E result v = {u. (u, v) \<in> E \<and> u \<notin> so_id ` set result}"

definition loop_ok ::
    "'a sortable_scheme list \<Rightarrow> (string \<times> string) set \<Rightarrow> 'a sortable_scheme list \<Rightarrow> (string \<times> int) list
      \<Rightarrow> 'a sortable_scheme list \<Rightarrow> bool" where
  "loop_ok items E ready degrees result \<longleftrightarrow>
     distinct (map so_id (result @ ready)) \<and> set (result @ ready) \<subseteq> set items
     \<and> (\<forall>v\<in>so_id ` set items. map_of degrees v = Some (int (card (open_preds E result v))))
     \<and> so_id ` set (result @ ready) = {v \<in> so_id ` set items. open_preds E result v = {}}
     \<and> (\<forall>(u, v)\<in>E. v \<in> so_id ` set result \<longrightarrow> before (map so_id result) u v)"

lemma before_prefix: "before xs a b \<Longrightarrow> before (xs @ ys) a b"
  unfolding before_def by (metis append.assoc append_Cons)

lemma finite_open_preds: "E \<subseteq> V \<times> V \<Longrightarrow> finite V \<Longrightarrow> finite (open_preds E result v)"
  by (rule finite_subset [of _ V]) (auto simp: open_preds_def)

lemma loop_step:
  assumes g: "sort_graph items m adj E" and ok: "loop_ok items E (i # ready) degrees result"
    and f: "fold (relax m) (coalesce (map_of adj (so_id i)) []) (ready, degrees) = (ready', degrees')"
  shows "loop_ok items E (sort_ready collate ready') degrees' (result @ [i])"
proof -
  let ?V = "so_id ` set items" and ?c = "so_id i" and ?vs = "succs adj (so_id i)"
  have E: "E \<subseteq> ?V \<times> ?V" and vs: "distinct ?vs" "set ?vs = {v. (?c, v) \<in> E}"
    and m: "\<And>j. j \<in> set items \<Longrightarrow> map_of m (so_id j) = Some j"
    using g by (auto simp: sort_graph_def)
  have fin: "finite (open_preds E r v)" for r :: "'a sortable_scheme list" and v using E by (rule finite_open_preds) simp
  have D: "\<And>v. v \<in> ?V \<Longrightarrow> map_of degrees v = Some (int (card (open_preds E result v)))"
    and Z: "so_id ` set (result @ i # ready) = {v \<in> ?V. open_preds E result v = {}}"
    and dist: "distinct (map so_id (result @ i # ready))" and sub: "set (result @ i # ready) \<subseteq> set items"
    and B: "\<And>u v. (u, v) \<in> E \<Longrightarrow> v \<in> so_id ` set result \<Longrightarrow> before (map so_id result) u v"
    using ok by (auto simp: loop_ok_def)
  have V: "v \<in> ?V" if "v \<in> set ?vs" for v using that vs E by auto
  have "\<forall>v\<in>set ?vs. map_of m v \<noteq> None \<and> map_of degrees v \<noteq> None"
    using D m V by fastforce
  from relax_all [OF vs(1) this, of ready] f have
    r': "ready' = ready @ map (\<lambda>v. the (map_of m v)) (filter (\<lambda>v. map_of degrees v = Some 1) ?vs)"
    and d': "\<And>w. map_of degrees' w = (if w \<in> set ?vs then map_option (\<lambda>d. d - 1) (map_of degrees w) else map_of degrees w)"
    by (auto simp: succs_def)
  define new where "new = filter (\<lambda>v. map_of degrees v = Some 1) ?vs"
  have newV: "set new \<subseteq> ?V" using V by (auto simp: new_def)
  have ids: "map so_id (map (\<lambda>v. the (map_of m v)) new) = new"
  proof -
    have "so_id (the (map_of m v)) = v" if "v \<in> set new" for v
      using newV m that by fastforce
    then show ?thesis by (simp add: map_idI)
  qed
  have c: "?c \<notin> so_id ` set result" using dist by auto
  have op: "open_preds E (result @ [i]) v = open_preds E result v - {?c}" for v
    by (auto simp: open_preds_def)
  have inc: "?c \<in> open_preds E result v \<longleftrightarrow> v \<in> set ?vs" for v using c vs by (auto simp: open_preds_def)
  have card: "int (card (open_preds E (result @ [i]) v))
      = (if v \<in> set ?vs then int (card (open_preds E result v)) - 1 else int (card (open_preds E result v)))" for v
  proof (cases "v \<in> set ?vs")
    case True
    then have "card (open_preds E result v) > 0" using inc fin [of result v] by (auto simp: card_gt_0_iff)
    with True inc show ?thesis unfolding op by (simp add: of_nat_diff)
  next
    case False
    with inc show ?thesis unfolding op by simp
  qed
  have new: "v \<in> set new \<longleftrightarrow> v \<in> ?V \<and> open_preds E result v = {?c}" for v
  proof -
    have "card (open_preds E result v) = 1 \<and> ?c \<in> open_preds E result v \<longleftrightarrow> open_preds E result v = {?c}"
    proof
      assume a: "card (open_preds E result v) = 1 \<and> ?c \<in> open_preds E result v"
      then obtain x where "open_preds E result v = {x}" by (elim conjE card_1_singletonE)
      with a show "open_preds E result v = {?c}" by simp
    qed simp
    moreover have "v \<in> set new \<longleftrightarrow> v \<in> ?V \<and> card (open_preds E result v) = 1 \<and> ?c \<in> open_preds E result v"
    proof (cases "v \<in> ?V")
      case True
      with D [OF True] inc [of v] show ?thesis by (simp add: new_def conj_commute)
    next
      case False
      with newV show ?thesis by blast
    qed
    ultimately show ?thesis by blast
  qed
  have sets: "so_id ` set (sort_ready collate ready') = so_id ` set ready \<union> set new"
  proof -
    have "so_id ` set (map (\<lambda>v. the (map_of m v)) new) = set new" by (simp only: set_map [symmetric] ids)
    then show ?thesis by (simp only: sort_ready_def set_sort r' new_def [symmetric] set_append image_Un)
  qed
  have n1: "map_of degrees' v = Some (int (card (open_preds E (result @ [i]) v)))" if "v \<in> ?V" for v
    using D [OF that] by (simp add: d' card)
  have n2: "so_id ` set ((result @ [i]) @ sort_ready collate ready') = {v \<in> ?V. open_preds E (result @ [i]) v = {}}"
  proof -
    have "v \<in> so_id ` set ((result @ [i]) @ sort_ready collate ready') \<longleftrightarrow> v \<in> so_id ` set (result @ i # ready) \<or> v \<in> set new" for v
      using sets by (auto simp: image_Un)
    also have "v \<in> so_id ` set (result @ i # ready) \<or> v \<in> set new \<longleftrightarrow> v \<in> ?V \<and> open_preds E (result @ [i]) v = {}" for v
      unfolding Z new op by auto
    finally show ?thesis by blast
  qed
  have n3: "distinct (map so_id ((result @ [i]) @ sort_ready collate ready'))"
  proof -
    have "set new \<inter> so_id ` set (result @ i # ready) = {}" unfolding Z using new by auto
    moreover have "distinct new" using vs(1) by (simp add: new_def)
    ultimately have "distinct (map so_id ((result @ [i]) @ ready'))"
      using dist unfolding r' new_def [symmetric] map_append ids by auto
    then show ?thesis by (simp add: sort_ready_def distinct_sort_map)
  qed
  have n4: "set ((result @ [i]) @ sort_ready collate ready') \<subseteq> set items"
  proof -
    have "the (map_of m v) \<in> set items" if "v \<in> set new" for v
    proof -
      from that newV obtain j where "j \<in> set items" "v = so_id j" by blast
      with m show ?thesis by simp
    qed
    with sub show ?thesis unfolding sort_ready_def r' new_def [symmetric] by auto
  qed
  have n5: "before (map so_id (result @ [i])) u v" if "(u, v) \<in> E" "v \<in> so_id ` set (result @ [i])" for u v
  proof (cases "v \<in> so_id ` set result")
    case True
    with B that(1) show ?thesis by (simp add: before_prefix)
  next
    case False
    with that(2) have v: "v = ?c" by auto
    have "?c \<in> so_id ` set (result @ i # ready)" by simp
    with v have "open_preds E result v = {}" unfolding Z by blast
    with that(1) have "u \<in> set (map so_id result)" by (auto simp: open_preds_def)
    with v show ?thesis by (auto intro: before_across)
  qed
  from n5 have n6: "\<forall>(u, v)\<in>E. v \<in> so_id ` set (result @ [i]) \<longrightarrow> before (map so_id (result @ [i])) u v"
    by (intro ballI, unfold split_paired_all prod.case) blast
  show ?thesis unfolding loop_ok_def by (intro conjI ballI n1 n2 n3 n4 n6) (assumption, rule n6 [THEN bspec])
qed

lemma loop_result:
  "sort_graph items m adj E \<Longrightarrow> loop_ok items E ready degrees result \<Longrightarrow>
    \<exists>degrees'. loop_ok items E [] degrees' (sort_loop collate m adj ready degrees result)"
proof (induction collate m adj ready degrees result rule: sort_loop.induct)
  case (2 collate m adj i ready degrees result)
  obtain ready' degrees' where f: "fold (relax m) (coalesce (map_of adj (so_id i)) []) (ready, degrees) = (ready', degrees')"
    by fastforce
  from 2(1) [OF f [symmetric] 2(2) loop_step [OF 2(2,3) f]] show ?case by (simp add: f)
qed auto

definition precedence :: "'a sortable_scheme list \<Rightarrow> (string \<times> string) set" where
  "precedence items = {(u, v). precedes items u v}"

lemma sort_graph_items:
  assumes "distinct (map so_id items)"
  shows "sort_graph items (item_map items) (adjacency items) (precedence items)"
proof -
  have d: "distinct (map fst (map (\<lambda>i. (so_id i, i)) items))" using assms by (simp add: comp_def)
  have "map_of (item_map items) (so_id i) = Some i" if "i \<in> set items" for i
    unfolding item_map_def entries_map_distinct [OF d] map_of_eq_Some_iff [OF d] using that by auto
  moreover have "precedence items \<subseteq> so_id ` set items \<times> so_id ` set items"
    by (auto simp: precedence_def precedes_def)
  ultimately show ?thesis
    using assms adjacency_graph [of items] by (simp add: sort_graph_def precedence_def)
qed

definition initial_ready :: "(string \<Rightarrow> string) \<Rightarrow> 'a sortable_scheme list \<Rightarrow> 'a sortable_scheme list" where
  "initial_ready collate items =
     sort_ready collate (filter (\<lambda>i. map_of (in_degrees items (adjacency items)) (so_id i) = Some 0) items)"

lemma loop_start:
  assumes "distinct (map so_id items)"
  shows "loop_ok items (precedence items) (initial_ready collate items) (in_degrees items (adjacency items)) []"
proof -
  have o: "open_preds (precedence items) ([] :: 'a sortable_scheme list) v = {u. precedes items u v}" for v
    by (simp add: open_preds_def precedence_def)
  have fin: "finite {u. precedes items u v}" for v
    by (rule finite_subset [of _ "so_id ` set items"]) (auto simp: precedes_def)
  have r: "set (initial_ready collate items) = {i \<in> set items. {u. precedes items u (so_id i)} = {}}"
    using fin by (auto simp: initial_ready_def sort_ready_def in_degrees_get)
  have "distinct (map so_id (initial_ready collate items))"
    using assms by (simp add: initial_ready_def sort_ready_def distinct_sort_map distinct_map_filter)
  then show ?thesis unfolding loop_ok_def o append_Nil r by (auto simp: in_degrees_get)
qed

lemma loop_end:
  assumes "sort_graph items m adj E" and "loop_ok items E [] degrees result"
  shows "(length result = length items \<longleftrightarrow> acyclic E)
    \<and> (length result = length items \<longrightarrow> mset result = mset items \<and> (\<forall>(u, v)\<in>E. before (map so_id result) u v))"
proof -
  let ?V = "so_id ` set items" and ?R = "so_id ` set result"
  have d: "distinct (map so_id items)" and E: "E \<subseteq> ?V \<times> ?V" using assms(1) by (simp_all add: sort_graph_def)
  have dr: "distinct (map so_id result)" and sub: "set result \<subseteq> set items"
    and R: "?R = {v \<in> ?V. open_preds E result v = {}}" and B: "\<forall>(u, v)\<in>E. v \<in> ?R \<longrightarrow> before (map so_id result) u v"
    using assms(2) unfolding loop_ok_def append_Nil2 by - (elim conjE, assumption)+
  have RV: "?R \<subseteq> ?V" using sub by (rule image_mono)
  have full: "length result = length items \<longleftrightarrow> ?R = ?V"
  proof -
    have "length result = card ?R" "length items = card ?V"
      using d dr by (metis distinct_card length_map list.set_map)+
    with RV show ?thesis by (metis List.finite_set card_subset_eq finite_imageI)
  qed
  have cycle: "\<not> acyclic E" if ne: "?R \<noteq> ?V"
  proof
    assume "acyclic E"
    moreover have "finite E" by (rule finite_subset [OF E]) simp
    ultimately have "wf E" using finite_acyclic_wf by blast
    moreover obtain v0 where "v0 \<in> ?V - ?R" using ne RV by blast
    ultimately obtain v where v: "v \<in> ?V - ?R" "\<And>u. (u, v) \<in> E \<Longrightarrow> u \<notin> ?V - ?R" by (metis wfE_min)
    have "v \<in> ?R \<longleftrightarrow> v \<in> ?V \<and> open_preds E result v = {}" by (subst R) simp
    with v(1) have "open_preds E result v \<noteq> {}" by blast
    then obtain u where "(u, v) \<in> E" "u \<notin> ?R" by (auto simp: open_preds_def)
    with v(2) E show False by blast
  qed
  have done': "mset result = mset items \<and> (\<forall>(u, v)\<in>E. before (map so_id result) u v) \<and> acyclic E" if V: "?R = ?V"
  proof -
    have "set result = set items"
    proof
      show "set items \<subseteq> set result"
      proof
        fix i assume i: "i \<in> set items"
        with V obtain j where "j \<in> set result" "so_id j = so_id i" by (metis image_eqI imageE)
        with sub i d show "i \<in> set result" by (metis distinct_map inj_onD subsetD)
      qed
    qed (rule sub)
    then have "mset result = mset items"
      using d dr by (metis distinct_of_map set_eq_iff_mset_eq_distinct)
    moreover have before: "\<forall>(u, v)\<in>E. before (map so_id result) u v" using B E V by blast
    moreover have "acyclic (E\<inverse>)" by (rule order_acyclic [OF dr]) (use before in auto)
    ultimately show ?thesis by (simp add: acyclic_converse)
  qed
  show ?thesis using full cycle done' by blast
qed

section \<open>Properties\<close>

text \<open>
  For items with distinct ids the ordering loop always returns. When the constraints
  \<open>before\<close> and \<open>after\<close> between the items have no cycle, the result is a
  permutation of the items in which every constraint holds; otherwise the function throws the error
  that lists the items. A constraint that names no item is ignored. A list of at most one item is
  returned as it is.
\<close>

theorem sorting_respects_constraints:
  assumes "distinct (map so_id items)"
  shows "if length items \<le> 1 then sortWithDependencies collate items = Inr items
    else if acyclic (precedence items)
    then \<exists>ys. sortWithDependencies collate items = Inr ys \<and> mset ys = mset items
      \<and> (\<forall>u v. precedes items u v \<longrightarrow> before (map so_id ys) u v)
    else sortWithDependencies collate items = Inl (cyclic_error items)"
proof -
  define result where "result = sort_loop collate (item_map items) (adjacency items) (initial_ready collate items)
    (in_degrees items (adjacency items)) []"
  obtain degrees where "loop_ok items (precedence items) [] degrees result"
    using loop_result [OF sort_graph_items [OF assms] loop_start [OF assms]] unfolding result_def by blast
  from loop_end [OF sort_graph_items [OF assms] this] have
    l: "length result = length items \<longleftrightarrow> acyclic (precedence items)"
    and r: "length result = length items \<Longrightarrow> mset result = mset items"
      "length result = length items \<Longrightarrow> precedes items u v \<Longrightarrow> before (map so_id result) u v" for u v
    by (auto simp: precedence_def)
  have "sortWithDependencies collate items = (if length items \<le> 1 then Inr items
      else if length result \<noteq> length items then Inl (cyclic_error items) else Inr result)"
    unfolding sortWithDependencies_def Let_def result_def initial_ready_def by (rule refl)
  with l r show ?thesis by auto
qed

section \<open>The order of the items\<close>

lemma sort_graph_item: "sort_graph items m adj E \<Longrightarrow> j \<in> set items \<Longrightarrow> map_of m (so_id j) = Some j"
  by (simp add: sort_graph_def)

lemma sort_graph_succs:
  "sort_graph items m adj E \<Longrightarrow> distinct (succs adj u) \<and> set (succs adj u) = {v. (u, v) \<in> E} \<and> set (succs adj u) \<subseteq> so_id ` set items"
  unfolding sort_graph_def by blast

lemma loop_ok_degree:
  "loop_ok items E ready degrees result \<Longrightarrow> v \<in> so_id ` set items \<Longrightarrow> map_of degrees v = Some (int (card (open_preds E result v)))"
  unfolding loop_ok_def by blast

lemma sort_loop_cong:
  assumes "sort_graph items m adj E" and "sort_graph items m' adj' E" and "inj_on (ready_key collate) (set items)"
  shows "loop_ok items E ready degrees result \<Longrightarrow>
    (\<forall>v\<in>so_id ` set items. map_of degrees2 v = map_of degrees v) \<Longrightarrow>
    sort_loop collate m' adj' ready degrees2 result = sort_loop collate m adj ready degrees result"
  using assms
proof (induction collate m adj ready degrees result arbitrary: degrees2 rule: sort_loop.induct)
  case (2 collate m adj i ready degrees result)
  note IH = 2(1) and ok = 2(2) and agree = 2(3) and g = 2(4) and g' = 2(5) and inj = 2(6)
  let ?V = "so_id ` set items"
  define vs where "vs = succs adj (so_id i)"
  define vs' where "vs' = succs adj' (so_id i)"
  obtain r1 d1 where f: "fold (relax m) (coalesce (map_of adj (so_id i)) []) (ready, degrees) = (r1, d1)" by fastforce
  obtain r2 d2 where f': "fold (relax m') (coalesce (map_of adj' (so_id i)) []) (ready, degrees2) = (r2, d2)" by fastforce
  have vs: "distinct vs" "distinct vs'" "set vs = set vs'" "set vs \<subseteq> ?V"
    using sort_graph_succs [OF g, of "so_id i"] sort_graph_succs [OF g', of "so_id i"] unfolding vs_def vs'_def by metis+
  have m: "map_of m v = map_of m' v \<and> map_of m v \<noteq> None" if "v \<in> ?V" for v
  proof -
    from that obtain j where "j \<in> set items" "v = so_id j" by blast
    with sort_graph_item [OF g] sort_graph_item [OF g'] show ?thesis by simp
  qed
  have deg: "map_of degrees v \<noteq> None" if "v \<in> ?V" for v using loop_ok_degree [OF ok that] by simp
  have known: "map_of m v = map_of m' v \<and> map_of m v \<noteq> None \<and> map_of degrees v \<noteq> None
      \<and> map_of degrees2 v = map_of degrees v" if "v \<in> set vs" for v
    using m [OF subsetD [OF vs(4) that]] deg [OF subsetD [OF vs(4) that]] bspec [OF agree subsetD [OF vs(4) that]]
    by metis
  have "\<forall>v\<in>set vs. map_of m v \<noteq> None \<and> map_of degrees v \<noteq> None" using known by blast
  from relax_all [OF vs(1) this, of ready] f have
    r1: "r1 = ready @ map (\<lambda>v. the (map_of m v)) (filter (\<lambda>v. map_of degrees v = Some 1) vs)"
    and d1: "\<And>w. map_of d1 w = (if w \<in> set vs then map_option (\<lambda>d. d - 1) (map_of degrees w) else map_of degrees w)"
    by (auto simp: vs_def succs_def)
  have "\<forall>v\<in>set vs'. map_of m' v \<noteq> None \<and> map_of degrees2 v \<noteq> None" using known unfolding vs(3) [symmetric] by metis
  from relax_all [OF vs(2) this, of ready] f' have
    r2: "r2 = ready @ map (\<lambda>v. the (map_of m' v)) (filter (\<lambda>v. map_of degrees2 v = Some 1) vs')"
    and d2: "\<And>w. map_of d2 w = (if w \<in> set vs' then map_option (\<lambda>d. d - 1) (map_of degrees2 w) else map_of degrees2 w)"
    by (auto simp: vs'_def succs_def)
  have ok': "loop_ok items E (sort_ready collate r1) d1 (result @ [i])" by (rule loop_step [OF g ok f])
  have vs_mset: "mset vs' = mset vs" using vs by (metis set_eq_iff_mset_eq_distinct)
  have "filter (\<lambda>v. map_of degrees2 v = Some 1) vs' = filter (\<lambda>v. map_of degrees v = Some 1) vs'"
    using known vs(3) by (intro filter_cong) simp_all
  moreover have "map (\<lambda>v. the (map_of m' v)) (filter (\<lambda>v. map_of degrees v = Some 1) vs')
      = map (\<lambda>v. the (map_of m v)) (filter (\<lambda>v. map_of degrees v = Some 1) vs')"
    using known vs(3) by (intro map_cong) simp_all
  ultimately have "r2 = ready @ map (\<lambda>v. the (map_of m v)) (filter (\<lambda>v. map_of degrees v = Some 1) vs')"
    by (simp only: r2)
  then have "mset r2 = mset r1" by (simp only: r1 mset_append mset_map mset_filter vs_mset)
  moreover have "set r1 \<subseteq> set items" using ok' by (simp add: loop_ok_def sort_ready_def)
  ultimately have s: "sort_ready collate r2 = sort_ready collate r1"
    unfolding sort_ready_def using inj by (intro sort_key_unique) (auto intro: inj_on_subset dest: mset_eq_setD)
  have "\<forall>v\<in>?V. map_of d2 v = map_of d1 v" using agree vs(3) by (simp add: d1 d2)
  from IH [OF f [symmetric] ok' this g g' inj] show ?case by (simp add: f f' s)
qed simp

lemma precedes_perm: "set items' = set items \<Longrightarrow> precedes items' = precedes items"
  by (simp add: precedes_def fun_eq_iff)

lemma ready_key_inj: "distinct (map so_id items) \<Longrightarrow> inj_on collate (so_id ` set items) \<Longrightarrow> inj_on (ready_key collate) (set items)"
  by (auto simp: ready_key_def inj_on_def distinct_map)

text \<open>
  When the ids of the items are distinct and collate differently, a sorted result does not depend
  on the order in which the plugins contributed the items.
\<close>

theorem sorting_ignores_contribution_order:
  assumes "distinct (map so_id items)" and "inj_on collate (so_id ` set items)" and "mset items' = mset items"
    and "sortWithDependencies collate items = Inr ys"
  shows "sortWithDependencies collate items' = Inr ys"
proof (cases "length items \<le> 1")
  case True
  then have "items' = items" using assms(3) by (cases items; cases items') (auto dest: mset_eq_length)
  with assms(4) show ?thesis by simp
next
  case False
  have sets: "set items' = set items" and len: "length items' = length items"
    using assms(3) by (auto dest: mset_eq_setD mset_eq_length)
  have d': "distinct (map so_id items')"
    using assms(1) by (rule iffD1 [OF mset_eq_imp_distinct_iff, rotated]) (simp only: mset_map assms(3))
  have E: "precedence items' = precedence items" by (simp add: precedence_def precedes_perm [OF sets])
  have g': "sort_graph items (item_map items') (adjacency items') (precedence items)"
    using sort_graph_items [OF d'] assms(1) unfolding E sort_graph_def sets by blast
  have deg: "map_of (in_degrees items' (adjacency items')) v = map_of (in_degrees items (adjacency items)) v"
    if "v \<in> so_id ` set items" for v
    using that in_degrees_get [of v items'] in_degrees_get [of v items] by (simp add: sets precedes_perm [OF sets])
  have "filter (\<lambda>i. map_of (in_degrees items' (adjacency items')) (so_id i) = Some 0) items'
      = filter (\<lambda>i. map_of (in_degrees items (adjacency items)) (so_id i) = Some 0) items'"
    using deg sets by (intro filter_cong) auto
  then have "initial_ready collate items' = initial_ready collate items"
    unfolding initial_ready_def sort_ready_def
    by (intro sort_key_unique inj_on_subset [OF ready_key_inj [OF assms(1,2)]]) (auto simp: assms(3) sets)
  moreover have "sort_loop collate (item_map items') (adjacency items') (initial_ready collate items)
      (in_degrees items' (adjacency items')) [] = sort_loop collate (item_map items) (adjacency items)
      (initial_ready collate items) (in_degrees items (adjacency items)) []"
    using deg by (intro sort_loop_cong [OF sort_graph_items [OF assms(1)] g' ready_key_inj [OF assms(1,2)] loop_start [OF assms(1)]]) blast
  ultimately show ?thesis
    using assms(4) False len
    unfolding sortWithDependencies_def Let_def initial_ready_def [symmetric] by (simp split: if_splits)
qed

definition ex_items :: "sortable list" where
  "ex_items = [\<lparr>so_id = ''users'', so_order = Some 1, so_before = None, so_after = None\<rparr>,
     \<lparr>so_id = ''audit'', so_order = Some 1, so_before = None, so_after = Some ''roles''\<rparr>,
     \<lparr>so_id = ''roles'', so_order = Some 2, so_before = None, so_after = None\<rparr>]"

lemma ex_items_sorted: "map_sum id (map so_id) (sortWithDependencies (\<lambda>s. s) ex_items) = Inr [''users'', ''roles'', ''audit'']"
  by code_simp

theorem sorting_respects_constraints_witness:
  "\<exists>ys. sortWithDependencies (\<lambda>s. s) ex_items = Inr ys \<and> mset ys = mset ex_items \<and> before (map so_id ys) ''roles'' ''audit''"
proof -
  have "distinct (map so_id ex_items)" and l: "\<not> length ex_items \<le> 1" and i: "isl (sortWithDependencies (\<lambda>s. s) ex_items) = False"
    by code_simp+
  from sorting_respects_constraints [OF this(1), of "\<lambda>s. s"] l i obtain ys where
    ys: "sortWithDependencies (\<lambda>s. s) ex_items = Inr ys" "mset ys = mset ex_items"
    "\<forall>u v. precedes ex_items u v \<longrightarrow> before (map so_id ys) u v"
    by (auto split: if_splits)
  have "precedes ex_items ''roles'' ''audit''" by (simp add: precedes_def ex_items_def)
  with ys show ?thesis by blast
qed

theorem sorting_ignores_contribution_order_witness:
  "\<exists>ys. sortWithDependencies (\<lambda>s. s) (rev ex_items) = Inr ys \<and> map so_id ys = [''users'', ''roles'', ''audit'']"
proof -
  obtain ys where ys: "sortWithDependencies (\<lambda>s. s) ex_items = Inr ys" "map so_id ys = [''users'', ''roles'', ''audit'']"
    using ex_items_sorted by (cases "sortWithDependencies (\<lambda>s. s) ex_items") auto
  have "distinct (map so_id ex_items)" by code_simp
  from sorting_ignores_contribution_order [OF this _ _ ys(1), of "rev ex_items"] ys(2) show ?thesis by simp
qed

end
