(* ===== verification/Frontend.thy ===== *)
theory Frontend
  imports FrontendOrder
begin

text \<open>
  The frontend generators: \<open>plugin-cli/src/frontend-generator.ts\<close>, less the ordering.
  The lemmas show when the generators throw and that the admin routes of a generated file are unique.
\<close>

definition FRONTEND_DIR :: string where
  "FRONTEND_DIR = GENERATED_DIR @ ''/frontend''"

definition FRONTEND_NAVIGATION_ARTIFACT :: string where
  "FRONTEND_NAVIGATION_ARTIFACT = FRONTEND_DIR @ ''/navigation.ts''"

definition FRONTEND_ADMIN_ROUTES_ARTIFACT :: string where
  "FRONTEND_ADMIN_ROUTES_ARTIFACT = FRONTEND_DIR @ ''/admin-routes.ts''"

definition FRONTEND_SLOTS_ARTIFACT :: string where
  "FRONTEND_SLOTS_ARTIFACT = FRONTEND_DIR @ ''/slots.tsx''"

definition FRONTEND_I18N_ARTIFACT :: string where
  "FRONTEND_I18N_ARTIFACT = FRONTEND_DIR @ ''/i18n.ts''"

section \<open>The plugins with a frontend\<close>

record active_plugin =
  av_key :: string
  av_pluginId :: string
  av_packageName :: string
  av_packageVersion :: string
  av_facet :: frontend_facet

definition active_plugin_of :: "generation_input \<Rightarrow> string \<Rightarrow> active_plugin list" where
  "active_plugin_of input key =
     (case instance_of_key (gi_graph input) key of
        None \<Rightarrow> []
      | Some i \<Rightarrow>
          (case map_of (ms_byRef (gi_manifests input)) (rs_packageName i) of
             None \<Rightarrow> []
           | Some l \<Rightarrow>
               (case fc_frontend (mf_facets (lm_manifest l)) of
                  None \<Rightarrow> []
                | Some facet \<Rightarrow> [\<lparr>av_key = rs_key i, av_pluginId = rs_pluginId i, av_packageName = rs_packageName i,
                    av_packageVersion = rs_packageVersion i, av_facet = facet\<rparr>])))"

definition getActiveFrontendPlugins :: "generation_input \<Rightarrow> active_plugin list" where
  "getActiveFrontendPlugins input = concat (map (active_plugin_of input) (rg_order (gi_graph input)))"

section \<open>Lines shared by the files\<close>

definition file_header :: "generation_input \<Rightarrow> string \<Rightarrow> string list" where
  "file_header input digest =
     generated_header @ [''// sourceDigest: '' @ digest, ''// resolutionDigest: '' @ rg_digest (gi_graph input), []]"

definition field :: "string \<Rightarrow> string \<Rightarrow> string list" where
  "field name value = [name @ '': '' @ quote value]"

definition field_if :: "string \<Rightarrow> string option \<Rightarrow> string list" where
  "field_if name value = (if truthy value then field name (the value) else [])"

definition order_field :: "int option \<Rightarrow> string list" where
  "order_field n = [''order: '' @ show_int (coalesce n 0)]"

definition braces :: "string list \<Rightarrow> string" where
  "braces fs = ''{ '' @ join '', '' fs @ '' },''"

definition frontend_file ::
    "(string \<Rightarrow> string) \<Rightarrow> generation_input \<Rightarrow> string \<Rightarrow> string list \<Rightarrow> failure + generated_artifact" where
  "frontend_file hash input path lines =
     bind_result (lift_canon (sourceDigest hash input)) (\<lambda>digest.
       Inr \<lparr>ga_path = path, ga_contents = join newline (file_header input digest @ lines)\<rparr>)"

section \<open>Navigation\<close>

record nav_row = sortable +
  nr_title :: string
  nr_href :: string
  nr_icon :: "string option"
  nr_section :: "string option"
  nr_requiredPermission :: "string option"
  nr_pluginId :: string

fun nav_row_of :: "string \<Rightarrow> navigation_item shorthand \<Rightarrow> nav_row" where
  "nav_row_of pluginId (Bare item) =
     \<lparr>so_id = item, so_order = Some 0, so_before = None, so_after = None, nr_title = item,
      nr_href = ''/dashboard/'' @ item, nr_icon = None, nr_section = None, nr_requiredPermission = None,
      nr_pluginId = pluginId\<rparr>"
| "nav_row_of pluginId (Full i) =
     \<lparr>so_id = ni_id i, so_order = Some (coalesce (ni_order i) 0), so_before = ni_before i, so_after = ni_after i,
      nr_title = coalesce (ni_title i) (ni_id i), nr_href = coalesce (ni_href i) (''/dashboard/'' @ ni_id i),
      nr_icon = ni_icon i, nr_section = ni_section i, nr_requiredPermission = ni_requiredPermission i,
      nr_pluginId = pluginId\<rparr>"

definition nav_rows :: "generation_input \<Rightarrow> nav_row list" where
  "nav_rows input =
     concat (map (\<lambda>p. map (nav_row_of (av_pluginId p)) (coalesce (ff_navigationItems (av_facet p)) []))
       (getActiveFrontendPlugins input))"

definition nav_line :: "nav_row \<Rightarrow> string" where
  "nav_line i = ''  '' @ braces
     (field ''id'' (so_id i) @ field ''title'' (nr_title i) @ field ''href'' (nr_href i) @ field_if ''icon'' (nr_icon i)
      @ order_field (so_order i) @ field_if ''section'' (nr_section i)
      @ field_if ''requiredPermission'' (nr_requiredPermission i) @ field ''pluginId'' (nr_pluginId i))"

definition generateFrontendNavigation ::
    "cli_env \<Rightarrow> (string \<Rightarrow> string) \<Rightarrow> generation_input \<Rightarrow> failure + generated_artifact" where
  "generateFrontendNavigation env hash input =
     bind_result (sortWithDependencies (ce_collate env) (nav_rows input)) (\<lambda>sorted.
       frontend_file hash input FRONTEND_NAVIGATION_ARTIFACT
         ([''export interface GeneratedNavigationItem {'', ''  id: string;'', ''  title: string;'', ''  href: string;'',
           ''  icon?: string;'', ''  order: number;'', ''  section?: string;'', ''  requiredPermission?: string;'',
           ''  pluginId: string;'', ''}'', [],
           ''export const navigationItems: readonly GeneratedNavigationItem[] = Object.freeze(['']
          @ map nav_line sorted @ [''])'' @ '';'', []]))"

section \<open>Admin routes\<close>

record admin_route =
  ar_id :: string
  ar_routePath :: string
  ar_title :: string
  ar_componentExport :: string
  ar_requiredPermission :: "string option"
  ar_breadcrumb :: "string option"
  ar_order :: int
  ar_pluginId :: string
  ar_packageName :: string

fun admin_route_of :: "active_plugin \<Rightarrow> admin_page shorthand \<Rightarrow> admin_route" where
  "admin_route_of p (Bare page) =
     \<lparr>ar_id = page, ar_routePath = ''/dashboard/'' @ page, ar_title = page,
      ar_componentExport = camel_case page @ ''AdminPage'', ar_requiredPermission = None, ar_breadcrumb = None,
      ar_order = 0, ar_pluginId = av_pluginId p, ar_packageName = av_packageName p\<rparr>"
| "admin_route_of p (Full page) =
     \<lparr>ar_id = ap_id page, ar_routePath = coalesce (ap_routePath page) (''/dashboard/'' @ ap_id page),
      ar_title = coalesce (ap_title page) (ap_id page),
      ar_componentExport = coalesce (ap_componentExport page) (camel_case (ap_id page) @ ''AdminPage''),
      ar_requiredPermission = ap_requiredPermission page, ar_breadcrumb = ap_breadcrumb page,
      ar_order = coalesce (ap_order page) 0, ar_pluginId = av_pluginId p, ar_packageName = av_packageName p\<rparr>"

text \<open>The routes so far, and the plugins that declared each path and each id.\<close>

record route_state =
  rt_routes :: "admin_route list"
  rt_paths :: "(string \<times> string) list"
  rt_ids :: "(string \<times> string) list"

definition duplicate_error :: "string \<Rightarrow> string \<Rightarrow> string \<Rightarrow> string \<Rightarrow> failure" where
  "duplicate_error what name first_plugin plugin =
     Thrown (''Duplicate '' @ what @ '' '' @ quoted name @ '' declared by plugins '' @ quoted first_plugin
       @ '' and '' @ quoted plugin)"

definition add_route :: "admin_route \<Rightarrow> route_state \<Rightarrow> failure + route_state" where
  "add_route r st =
     (case map_of (rt_paths st) (ar_routePath r) of
        Some owner \<Rightarrow> Inl (duplicate_error ''admin route path'' (ar_routePath r) owner (ar_pluginId r))
      | None \<Rightarrow>
          (case map_of (rt_ids st) (ar_id r) of
             Some owner \<Rightarrow> Inl (duplicate_error ''admin page ID'' (ar_id r) owner (ar_pluginId r))
           | None \<Rightarrow> Inr \<lparr>rt_routes = rt_routes st @ [r],
               rt_paths = map_put (ar_routePath r) (ar_pluginId r) (rt_paths st),
               rt_ids = map_put (ar_id r) (ar_pluginId r) (rt_ids st)\<rparr>))"

definition declared_routes :: "generation_input \<Rightarrow> admin_route list" where
  "declared_routes input =
     concat (map (\<lambda>p. map (admin_route_of p) (coalesce (ff_adminPages (av_facet p)) []))
       (getActiveFrontendPlugins input))"

definition admin_routes :: "(string \<Rightarrow> string) \<Rightarrow> generation_input \<Rightarrow> failure + admin_route list" where
  "admin_routes collate input =
     bind_result (foldM add_route (declared_routes input) \<lparr>rt_routes = [], rt_paths = [], rt_ids = []\<rparr>) (\<lambda>st.
       Inr (sort_key (\<lambda>r. (ar_order r, collate (ar_routePath r))) (rt_routes st)))"

definition route_line :: "admin_route \<Rightarrow> string" where
  "route_line r = ''  '' @ braces
     (field ''id'' (ar_id r) @ field ''routePath'' (ar_routePath r) @ field ''title'' (ar_title r)
      @ field ''componentExport'' (ar_componentExport r) @ field ''packageName'' (ar_packageName r)
      @ field_if ''requiredPermission'' (ar_requiredPermission r) @ field_if ''breadcrumb'' (ar_breadcrumb r)
      @ order_field (Some (ar_order r)) @ field ''pluginId'' (ar_pluginId r))"

definition generateFrontendAdminRoutes ::
    "cli_env \<Rightarrow> (string \<Rightarrow> string) \<Rightarrow> generation_input \<Rightarrow> failure + generated_artifact" where
  "generateFrontendAdminRoutes env hash input =
     bind_result (admin_routes (ce_collate env) input) (\<lambda>routes.
       frontend_file hash input FRONTEND_ADMIN_ROUTES_ARTIFACT
         ([''export interface GeneratedAdminRoute {'', ''  id: string;'', ''  routePath: string;'', ''  title: string;'',
           ''  componentExport: string;'', ''  packageName: string;'', ''  requiredPermission?: string;'',
           ''  breadcrumb?: string;'', ''  order: number;'', ''  pluginId: string;'', ''}'', [],
           ''export const adminRoutes: readonly GeneratedAdminRoute[] = Object.freeze(['']
          @ map route_line routes @ [''])'' @ '';'', []]))"

section \<open>Slots\<close>

record slot_row = sortable +
  sl_slot :: string
  sl_componentExport :: string
  sl_requiredPermission :: "string option"
  sl_pluginId :: string
  sl_packageName :: string

definition slot_row_of :: "active_plugin \<Rightarrow> slot_contribution \<Rightarrow> slot_row" where
  "slot_row_of p s =
     \<lparr>so_id = av_pluginId p @ ''.'' @ sc_componentExport s, so_order = sc_order s, so_before = sc_before s,
      so_after = sc_after s, sl_slot = sc_slot s, sl_componentExport = sc_componentExport s,
      sl_requiredPermission = sc_requiredPermission s, sl_pluginId = av_pluginId p, sl_packageName = av_packageName p\<rparr>"

definition slot_rows :: "generation_input \<Rightarrow> slot_row list" where
  "slot_rows input =
     concat (map (\<lambda>p. map (slot_row_of p) (coalesce (ff_slots (av_facet p)) [])) (getActiveFrontendPlugins input))"

definition slot_groups :: "(string \<Rightarrow> string) \<Rightarrow> generation_input \<Rightarrow> failure + (string \<times> slot_row list) list" where
  "slot_groups collate input =
     collect (map (\<lambda>(name, rows). bind_result (sortWithDependencies collate rows) (\<lambda>sorted. Inr (name, sorted)))
       (sort_key (\<lambda>g. collate (fst g)) (multi_of (map (\<lambda>r. (sl_slot r, r)) (slot_rows input)))))"

definition slot_line :: "slot_row \<Rightarrow> string" where
  "slot_line r = ''    '' @ braces
     (field ''slot'' (sl_slot r) @ field ''componentExport'' (sl_componentExport r)
      @ field ''packageName'' (sl_packageName r) @ order_field (so_order r)
      @ field_if ''requiredPermission'' (sl_requiredPermission r) @ field ''pluginId'' (sl_pluginId r))"

definition slot_group_lines :: "string \<times> slot_row list \<Rightarrow> string list" where
  "slot_group_lines g =
     [''  '' @ quote (fst g) @ '': Object.freeze([''] @ map slot_line (snd g) @ [''  ]),'']"

definition generateFrontendSlots ::
    "cli_env \<Rightarrow> (string \<Rightarrow> string) \<Rightarrow> generation_input \<Rightarrow> failure + generated_artifact" where
  "generateFrontendSlots env hash input =
     bind_result (slot_groups (ce_collate env) input) (\<lambda>groups.
       frontend_file hash input FRONTEND_SLOTS_ARTIFACT
         ([''export interface GeneratedSlotContribution {'', ''  slot: string;'', ''  componentExport: string;'',
           ''  packageName: string;'', ''  order: number;'', ''  requiredPermission?: string;'', ''  pluginId: string;'',
           ''}'', [],
           ''export const slotRegistry: Readonly<Record<string, readonly GeneratedSlotContribution[]>> = Object.freeze({'']
          @ concat (map slot_group_lines groups) @ [''});'', []]))"

section \<open>Translations\<close>

record i18n_row =
  ir_namespace :: string
  ir_pluginId :: string
  ir_locales :: "string list option"

definition namespace_of :: "frontend_facet \<Rightarrow> string option" where
  "namespace_of facet = or_else (ff_i18nNamespace facet) (map_option i18n_namespace (ff_i18n facet))"

definition add_namespace ::
    "active_plugin \<Rightarrow> i18n_row list \<times> (string \<times> string) list \<Rightarrow> failure + i18n_row list \<times> (string \<times> string) list" where
  "add_namespace p st =
     (case st of (rows, seen) \<Rightarrow>
      let ns = namespace_of (av_facet p) in
      if \<not> truthy ns then Inr st
      else (case map_of seen (the ns) of
          Some owner \<Rightarrow> Inl (duplicate_error ''i18n namespace'' (the ns) owner (av_pluginId p))
        | None \<Rightarrow> Inr (rows @ [\<lparr>ir_namespace = the ns, ir_pluginId = av_pluginId p,
              ir_locales = (case ff_i18n (av_facet p) of None \<Rightarrow> None | Some i \<Rightarrow> i18n_locales i)\<rparr>],
            map_put (the ns) (av_pluginId p) seen)))"

definition i18n_rows :: "(string \<Rightarrow> string) \<Rightarrow> generation_input \<Rightarrow> failure + i18n_row list" where
  "i18n_rows collate input =
     bind_result (foldM add_namespace (getActiveFrontendPlugins input) ([], [])) (\<lambda>st.
       Inr (sort_key (\<lambda>r. collate (ir_namespace r)) (fst st)))"

definition i18n_line :: "i18n_row \<Rightarrow> string" where
  "i18n_line r = ''  '' @ braces
     (field ''namespace'' (ir_namespace r) @ field ''pluginId'' (ir_pluginId r)
      @ (case ir_locales r of None \<Rightarrow> [] | Some ls \<Rightarrow> [''locales: Object.freeze('' @ stringify (jstrs ls) @ '')'']))"

definition generateFrontendI18n ::
    "cli_env \<Rightarrow> (string \<Rightarrow> string) \<Rightarrow> generation_input \<Rightarrow> failure + generated_artifact" where
  "generateFrontendI18n env hash input =
     bind_result (i18n_rows (ce_collate env) input) (\<lambda>rows.
       frontend_file hash input FRONTEND_I18N_ARTIFACT
         ([''export interface GeneratedI18nNamespace {'', ''  namespace: string;'', ''  pluginId: string;'',
           ''  locales?: readonly string[];'', ''}'', [],
           ''export const i18nNamespaces: readonly GeneratedI18nNamespace[] = Object.freeze(['']
          @ map i18n_line rows @ [''])'' @ '';'', []]))"

section \<open>Unique routes\<close>

definition routes_ok :: "admin_route list \<Rightarrow> bool" where
  "routes_ok rs \<longleftrightarrow> distinct (map ar_routePath rs) \<and> distinct (map ar_id rs)"

definition thrown :: "failure + 'a \<Rightarrow> bool" where
  "thrown r \<longleftrightarrow> (\<exists>m. r = Inl (Thrown m))"

definition holds_routes :: "admin_route list \<Rightarrow> route_state \<Rightarrow> bool" where
  "holds_routes rs st \<longleftrightarrow> rt_routes st = rs \<and> fst ` set (rt_paths st) = ar_routePath ` set rs
     \<and> fst ` set (rt_ids st) = ar_id ` set rs"

lemma add_route_step:
  assumes "holds_routes rs st"
  shows "if ar_routePath r \<in> ar_routePath ` set rs \<or> ar_id r \<in> ar_id ` set rs then thrown (add_route r st)
    else (\<exists>st'. add_route r st = Inr st' \<and> holds_routes (rs @ [r]) st')"
proof (cases "ar_routePath r \<in> ar_routePath ` set rs")
  case True
  then obtain o' where "map_of (rt_paths st) (ar_routePath r) = Some o'"
    using assms by (metis holds_routes_def map_of_eq_None_iff not_None_eq)
  with True show ?thesis by (simp add: add_route_def thrown_def duplicate_error_def)
next
  case path: False
  then have p: "map_of (rt_paths st) (ar_routePath r) = None" using assms by (simp add: holds_routes_def map_of_eq_None_iff)
  show ?thesis
  proof (cases "ar_id r \<in> ar_id ` set rs")
    case True
    then obtain o' where "map_of (rt_ids st) (ar_id r) = Some o'"
      using assms by (metis holds_routes_def map_of_eq_None_iff not_None_eq)
    with p True show ?thesis by (simp add: add_route_def thrown_def duplicate_error_def)
  next
    case False
    then have "map_of (rt_ids st) (ar_id r) = None" using assms by (simp add: holds_routes_def map_of_eq_None_iff)
    with p path False assms show ?thesis by (simp add: add_route_def holds_routes_def keys_set_map_put)
  qed
qed

lemma add_routes:
  "holds_routes rs st \<Longrightarrow> routes_ok rs \<Longrightarrow>
    if routes_ok (rs @ qs) then (\<exists>st'. foldM add_route qs st = Inr st' \<and> holds_routes (rs @ qs) st')
    else thrown (foldM add_route qs st)"
proof (induction qs arbitrary: rs st)
  case (Cons q qs)
  show ?case
  proof (cases "ar_routePath q \<in> ar_routePath ` set rs \<or> ar_id q \<in> ar_id ` set rs")
    case True
    then have "\<not> routes_ok (rs @ q # qs)" by (auto simp: routes_ok_def)
    moreover have "thrown (foldM add_route (q # qs) st)"
      using add_route_step [OF Cons.prems(1), of q] True by (auto simp: thrown_def)
    ultimately show ?thesis by simp
  next
    case False
    then obtain st' where st': "add_route q st = Inr st'" "holds_routes (rs @ [q]) st'"
      using add_route_step [OF Cons.prems(1), of q] by auto
    have "routes_ok (rs @ [q])" using Cons.prems(2) False by (auto simp: routes_ok_def)
    from Cons.IH [OF st'(2) this] st'(1) show ?thesis by (cases "routes_ok (rs @ q # qs)") simp_all
  qed
qed (auto simp: thrown_def)

lemma admin_routes_iff:
  "if routes_ok (declared_routes input)
   then \<exists>rs a. admin_routes collate input = Inr rs \<and> mset rs = mset (declared_routes input) \<and> routes_ok rs
     \<and> sorted (map (\<lambda>r. (ar_order r, collate (ar_routePath r))) rs)
     \<and> generateFrontendAdminRoutes (env\<lparr>ce_collate := collate\<rparr>) hash input = Inr a \<and> ga_path a = FRONTEND_ADMIN_ROUTES_ARTIFACT
   else thrown (generateFrontendAdminRoutes (env\<lparr>ce_collate := collate\<rparr>) hash input)"
proof -
  let ?s = "\<lparr>rt_routes = [], rt_paths = [], rt_ids = []\<rparr>" and ?d = "declared_routes input"
  have start: "holds_routes [] ?s" "routes_ok []" by (simp_all add: holds_routes_def routes_ok_def)
  show ?thesis
  proof (cases "routes_ok ?d")
    case True
    then obtain st where st: "foldM add_route ?d ?s = Inr st" "rt_routes st = ?d"
      using add_routes [OF start, of ?d] by (auto simp: holds_routes_def)
    define rs where "rs = sort_key (\<lambda>r. (ar_order r, collate (ar_routePath r))) ?d"
    have r: "admin_routes collate input = Inr rs" by (simp add: admin_routes_def st rs_def)
    have "routes_ok rs" using True by (simp add: routes_ok_def rs_def distinct_sort_map)
    moreover have "\<exists>a. generateFrontendAdminRoutes (env\<lparr>ce_collate := collate\<rparr>) hash input = Inr a \<and> ga_path a = FRONTEND_ADMIN_ROUTES_ARTIFACT"
      by (simp add: generateFrontendAdminRoutes_def r frontend_file_def sourceDigest_ok lift_canon_def)
    ultimately show ?thesis using True r by (auto simp: rs_def)
  next
    case False
    then show ?thesis
      using add_routes [OF start, of ?d] by (auto simp: generateFrontendAdminRoutes_def admin_routes_def thrown_def)
  qed
qed

text \<open>
  The admin routes of the enabled plugins are generated exactly when no two of them share a path
  and no two share an id; the file then lists each of them once, by order and path. Otherwise the
  generator throws.
\<close>

theorem admin_routes_unique_or_thrown:
  "if routes_ok (declared_routes input)
   then \<exists>rs a. admin_routes collate input = Inr rs \<and> mset rs = mset (declared_routes input) \<and> routes_ok rs
     \<and> sorted (map (\<lambda>r. (ar_order r, collate (ar_routePath r))) rs)
     \<and> generateFrontendAdminRoutes (env\<lparr>ce_collate := collate\<rparr>) hash input = Inr a \<and> ga_path a = FRONTEND_ADMIN_ROUTES_ARTIFACT
   else thrown (generateFrontendAdminRoutes (env\<lparr>ce_collate := collate\<rparr>) hash input)"
  by (rule admin_routes_iff)

lemma active_facet:
  assumes "p \<in> set (getActiveFrontendPlugins input)"
  shows "\<exists>l. map_of (ms_byRef (gi_manifests input)) (av_packageName p) = Some l \<and> fc_frontend (mf_facets (lm_manifest l)) = Some (av_facet p)"
  using assms by (auto simp: getActiveFrontendPlugins_def active_plugin_of_def split: option.splits)
    metis

lemma repeated_not_distinct: "ps = as @ p # bs @ q # cs \<Longrightarrow> f p = f q \<Longrightarrow> f p \<noteq> [] \<Longrightarrow> \<not> distinct (concat (map f ps))"
  by (cases "f q") auto

text \<open>
  A plugin with an admin page cannot have two enabled instances: the generator throws, although the
  resolver accepts the inventory.
\<close>

theorem two_instances_with_admin_page_throw:
  assumes "getActiveFrontendPlugins input = as @ p # bs @ q # cs" and "av_packageName p = av_packageName q"
    and "coalesce (ff_adminPages (av_facet p)) [] \<noteq> []"
  shows "thrown (generateFrontendAdminRoutes env hash input)"
proof -
  have "p \<in> set (getActiveFrontendPlugins input)" "q \<in> set (getActiveFrontendPlugins input)" by (simp_all add: assms(1))
  then have f: "av_facet q = av_facet p" using active_facet assms(2) by (metis option.inject)
  let ?f = "\<lambda>x. map (\<lambda>r. ar_id (admin_route_of x r)) (coalesce (ff_adminPages (av_facet x)) [])"
  have i: "ar_id (admin_route_of x r) = ar_id (admin_route_of p r)" for x r by (cases r) simp_all
  have "?f p = ?f q" unfolding f by (simp add: i [of q])
  moreover have "?f p \<noteq> []" using assms(3) by simp
  ultimately have "\<not> distinct (concat (map ?f (getActiveFrontendPlugins input)))"
    by (rule repeated_not_distinct [OF assms(1)])
  then have "\<not> routes_ok (declared_routes input)"
    by (simp add: routes_ok_def declared_routes_def map_concat comp_def)
  with admin_routes_iff [of input "ce_collate env" env hash] show ?thesis by simp
qed

end
