(* ===== verification/Commands.thy ===== *)
theory Commands
  imports CliShell ChangePlan Lockfile PrismaComposer Frontend
begin

text \<open>
  The commands of the tool: \<open>plugin-cli/src/commands/*.ts\<close> and \<open>generators.ts\<close>.
  What they do to the files of an App is proved in \<open>CommandEffects\<close>.
\<close>

definition AMBIENT_CAPABILITIES :: "string list" where
  "AMBIENT_CAPABILITIES =
     [''appspine.prisma'', ''appspine.principal-context'', ''appspine.authentication-strategy-registry'']"

section \<open>Loading the state of an App\<close>

record loaded_state =
  ls_inventory :: inventory_file
  ls_declared :: inventory_file
  ls_expanded :: expanded_inventory
  ls_manifests :: manifest_set
  ls_diagnostics :: "diagnostic list"

definition hash_of :: "cli_env \<Rightarrow> string \<Rightarrow> string" where
  "hash_of env = le_hash (ce_loader env)"

text \<open>\<open>Inl ds\<close> is the result without an inventory.\<close>

definition loadState :: "cli_env \<Rightarrow> files \<Rightarrow> string \<Rightarrow> failure + (diagnostic list + loaded_state)" where
  "loadState env fs appRoot =
     bind_result (readInventory env fs appRoot False) (\<lambda>read.
       case read of
         Inl ds \<Rightarrow> Inr (Inl ds)
       | Inr (declared, ds) \<Rightarrow>
           bind_result (expandPresets env fs appRoot declared) (\<lambda>expanded.
             let inventory = \<lparr>if_presets = None, if_plugins = ex_entries expanded\<rparr> in
             bind_result (readManifestsFor env fs appRoot (map ie_plugin (if_plugins inventory)) default_lookup) (\<lambda>manifests.
               Inr (Inr \<lparr>ls_inventory = inventory, ls_declared = declared, ls_expanded = expanded,
                 ls_manifests = manifests,
                 ls_diagnostics = ds @ ex_diagnostics expanded @ ms_diagnostics manifests\<rparr>))))"

section \<open>Checking an inventory\<close>

text \<open>Every call makes a new object, so the objects are told apart by their position.\<close>

definition toResolvable :: "nat \<Rightarrow> loaded_manifest \<Rightarrow> resolvable_manifest" where
  "toResolvable n l =
     \<lparr>rm_ref = n, rm_manifest = lm_manifest l, rm_packageName = lm_packageName l,
      rm_packageVersion = lm_packageVersion l, rm_manifestDigest = None, rm_digest = Some (lm_digest l)\<rparr>"

definition resolveInventory ::
    "cli_env \<Rightarrow> inventory_file \<Rightarrow> manifest_set \<Rightarrow> failure + resolution_graph option \<times> diagnostic list" where
  "resolveInventory env inventory manifests =
     (if ms_missing manifests \<noteq> []
      then Inr (None, [mk_diagnostic ''resolution-skipped''
        (''cannot resolve while '' @ show_nat (length (ms_missing manifests)) @ '' manifest(s) are missing: ''
          @ join '', '' (ms_missing manifests)) (with_severity SevInfo no_extra)])
      else
        bind_result (lift_canon (resolvePlugins (hash_of env)
          \<lparr>ro_inventory = if_plugins inventory,
           ro_manifests = map (\<lambda>(n, l). toResolvable n l) (List.enumerate 0 (map snd (ms_byRef manifests))),
           ro_hostCapabilities = Some AMBIENT_CAPABILITIES, ro_officialScope = None\<rparr>)) (\<lambda>result.
          Inr (case result of Inl ds \<Rightarrow> (None, ds) | Inr graph \<Rightarrow> (Some graph, rg_diagnostics graph))))"

definition checkInventory ::
    "cli_env \<Rightarrow> inventory_file \<Rightarrow> manifest_set \<Rightarrow> failure + resolution_graph option \<times> diagnostic list" where
  "checkInventory env inventory manifests =
     bind_result (resolveInventory env inventory manifests) (\<lambda>(graph, ds).
       Inr (graph, checkConfigBoundary (if_plugins inventory) (Some (ms_byPluginId manifests)) @ ds))"

section \<open>Results\<close>

definition result_of :: "string \<Rightarrow> exit_code \<Rightarrow> diagnostic list \<Rightarrow> (string \<times> jv) list option \<Rightarrow> command_result" where
  "result_of command exitCode ds members =
     \<lparr>rc_command = command, rc_exitCode = exitCode, rc_diagnostics = ds, rc_data = map_option JObj members\<rparr>"

definition info :: "string \<Rightarrow> string \<Rightarrow> diagnostic_extra \<Rightarrow> diagnostic" where
  "info code message x = mk_diagnostic code message (with_severity SevInfo x)"

text \<open>A handler that only reads, and one that may write.\<close>

definition reading :: "(command_context \<Rightarrow> files \<Rightarrow> failure + command_result) \<Rightarrow> command_handler" where
  "reading f cx w =
     (case f cx (cw_files w) of Inl e \<Rightarrow> (Inl (OtherError e), w) | Inr r \<Rightarrow> (Inr r, w))"

definition writing :: "(command_context \<Rightarrow> files \<Rightarrow> (failure + command_result) \<times> files) \<Rightarrow> command_handler" where
  "writing f cx w =
     (case f cx (cw_files w) of
        (Inl e, fs) \<Rightarrow> (Inl (OtherError e), w\<lparr>cw_files := fs\<rparr>)
      | (Inr r, fs) \<Rightarrow> (Inr r, w\<lparr>cw_files := fs\<rparr>))"

definition instance_flag :: "parsed_args \<Rightarrow> string" where
  "instance_flag args = coalesce (flag_text args ''instance-id'') DEFAULT_INSTANCE_ID"

text \<open>\<open>positionals[0]\<close>, when it is not empty.\<close>

definition first_positional :: "parsed_args \<Rightarrow> string option" where
  "first_positional args =
     (case pa_positionals args of [] \<Rightarrow> None | s # _ \<Rightarrow> if s = [] then None else Some s)"

section \<open>\<open>add\<close>\<close>

definition ADD_USAGE :: string where
  "ADD_USAGE = ''appspine add <package> [--instance-id <id>] [--optional] [--dry-run]''"

definition nextSteps :: "string \<Rightarrow> bool \<Rightarrow> string option \<Rightarrow> diagnostic list" where
  "nextSteps pluginId dependencyAdded configRef =
     (if dependencyAdded
      then [info ''install-required''
        ''package.json changed: run your package manager to install it. The CLI never runs it for you'' no_extra]
      else [])
     @ (if truthy configRef
        then [info ''config-stub-pending''
          (quoted pluginId @ '' reads config at '' @ quoted (the configRef) @ ''. Run `appspine config-stub '' @ pluginId
            @ ''` and paste the block into appspine.config.ts yourself '' @ em_dash
            @ '' the CLI does not rewrite TypeScript'') (of_plugin pluginId no_extra)]
        else [])"

definition added_entry :: "loaded_manifest \<Rightarrow> string \<Rightarrow> bool \<Rightarrow> inventory_entry" where
  "added_entry l instanceId optional =
     \<lparr>ie_plugin = lm_packageName l, ie_instanceId = instanceId, ie_enabled = True, ie_required = \<not> optional,
      ie_configRef = (if truthy (mf_configSchema (lm_manifest l)) then mf_configSchema (lm_manifest l) else None)\<rparr>"

definition with_manifest :: "loaded_manifest \<Rightarrow> manifest_set \<Rightarrow> manifest_set" where
  "with_manifest l ms =
     ms\<lparr>ms_byRef := map_put (lm_packageName l) l (ms_byRef ms),
        ms_byPluginId := map_put (mf_id (lm_manifest l)) (lm_manifest l) (ms_byPluginId ms)\<rparr>"

definition same_instance :: "string \<Rightarrow> string \<Rightarrow> inventory_entry \<Rightarrow> bool" where
  "same_instance pluginId instanceId e \<longleftrightarrow> pluginIdOf (ie_plugin e) = pluginId \<and> ie_instanceId e = instanceId"

definition plan_members :: "string \<Rightarrow> change_plan \<Rightarrow> (string \<times> jv) list" where
  "plan_members outcome plan =
     [(outcome, JBool False), (''dryRun'', JBool True), (''plan'', planData plan), (''diff'', JStr (renderPlan plan))]"

definition finish_plan ::
    "string \<Rightarrow> string \<Rightarrow> string \<Rightarrow> bool \<Rightarrow> change_plan \<Rightarrow> diagnostic list \<Rightarrow> files \<Rightarrow> (failure + command_result) \<times> files" where
  "finish_plan command outcome appRoot dryRun plan notes fs =
     (if dryRun
      then (Inr (result_of command ExitOK
             (cp_diagnostics plan @ [info ''dry-run'' (''would '' @ cp_summary plan) no_extra] @ notes)
             (Some (plan_members outcome plan))), fs)
      else (case applyPlan appRoot plan fs of
          (Inl e, gs) \<Rightarrow> (Inl e, gs)
        | (Inr written, gs) \<Rightarrow>
            (Inr (result_of command ExitOK (cp_diagnostics plan @ notes)
              (Some [(outcome, JBool True), (''written'', jstrs written), (''plan'', planData plan),
                     (''diff'', JStr (renderPlan plan))])), gs)))"

text \<open>The part of \<open>add\<close> that reads: a refusal, or the plan with its follow-up notes.\<close>

definition add_candidate ::
    "cli_env \<Rightarrow> files \<Rightarrow> string \<Rightarrow> loaded_state \<Rightarrow> loaded_manifest \<Rightarrow> string \<Rightarrow> bool
      \<Rightarrow> failure + (command_result + change_plan \<times> diagnostic list)" where
  "add_candidate env fs appRoot state l instanceId optional =
     (let m = lm_manifest l; entry = added_entry l instanceId optional;
          after = (ls_declared state)\<lparr>if_plugins := if_plugins (ls_declared state) @ [entry]\<rparr>
      in
      if find (same_instance (mf_id m) instanceId) (if_plugins (ls_inventory state)) \<noteq> None
      then Inr (Inl (result_of ''add'' CONFLICT
        [mk_diagnostic ''instance-already-present''
          (quoted (mf_id m) @ '' instance '' @ quoted instanceId @ '' is already in the inventory'')
          (of_plugin (mf_id m) (of_instance instanceId no_extra))] (Some [(''added'', JBool False)])))
      else if optional \<and> \<not> mf_optionalFailurePolicy m
      then Inr (Inl (result_of ''add'' VALIDATION_FAILED
        [mk_diagnostic ''optional-without-policy''
          (quoted (mf_id m) @ '' declares no optionalFailurePolicy, so it cannot be added as optional'')
          (of_plugin (mf_id m) (of_instance instanceId no_extra))] None))
      else
        bind_result (checkInventory env after (with_manifest l (ls_manifests state))) (\<lambda>(graph, ds).
          if hasErrors ds
          then Inr (Inl (result_of ''add'' RESOLUTION_FAILED ds (Some [(''added'', JBool False)])))
          else
            bind_result (packageJsonChange env fs appRoot (lm_packageName l) (''^'' @ lm_packageVersion l)) (\<lambda>dependency.
              let changes = inventoryChange fs appRoot (Some (ls_declared state)) after
                    # (case dependency of None \<Rightarrow> [] | Some c \<Rightarrow> [c])
              in Inr (Inr (\<lparr>cp_summary = ''add '' @ mf_id m @ ''#'' @ instanceId, cp_changes = changes, cp_diagnostics = ds\<rparr>,
                   nextSteps (mf_id m) (dependency \<noteq> None) (mf_configSchema m))))))"

definition add_prepare ::
    "cli_env \<Rightarrow> command_context \<Rightarrow> files \<Rightarrow> failure + (command_result + change_plan \<times> diagnostic list)" where
  "add_prepare env cx fs =
     (case first_positional (cx_args cx) of
        None \<Rightarrow> Inr (Inl (result_of ''add'' USAGE
          [mk_diagnostic ''missing-argument'' (''usage: '' @ ADD_USAGE) no_extra] None))
      | Some ref \<Rightarrow>
          bind_result (loadState env fs (cx_appRoot cx)) (\<lambda>loaded.
            case loaded of
              Inl ds \<Rightarrow> Inr (Inl (result_of ''add'' VALIDATION_FAILED ds None))
            | Inr state \<Rightarrow>
                bind_result (readManifestFor env fs (cx_appRoot cx) ref default_lookup) (\<lambda>manifest.
                  case manifest of
                    Inl ds \<Rightarrow> Inr (Inl (result_of ''add''
                      (if \<exists>d\<in>set ds. dg_code d = ''plugin-package-not-found'' then NOT_FOUND else VALIDATION_FAILED)
                      ds None))
                  | Inr (l, dir, ds) \<Rightarrow>
                      add_candidate env fs (cx_appRoot cx) state l (instance_flag (cx_args cx))
                        (flag_set (cx_args cx) ''optional''))))"

definition run_plan ::
    "string \<Rightarrow> string \<Rightarrow> (command_context \<Rightarrow> files \<Rightarrow> failure + (command_result + change_plan \<times> diagnostic list))
      \<Rightarrow> command_context \<Rightarrow> files \<Rightarrow> (failure + command_result) \<times> files" where
  "run_plan command outcome prepare cx fs =
     (case prepare cx fs of
        Inl e \<Rightarrow> (Inl e, fs)
      | Inr (Inl refusal) \<Rightarrow> (Inr refusal, fs)
      | Inr (Inr (plan, notes)) \<Rightarrow>
          finish_plan command outcome (cx_appRoot cx) (flag_set (cx_args cx) ''dry-run'') plan notes fs)"

definition add :: "cli_env \<Rightarrow> command_context \<Rightarrow> files \<Rightarrow> (failure + command_result) \<times> files" where
  "add env = run_plan ''add'' ''added'' (add_prepare env)"

section \<open>\<open>remove\<close>\<close>

definition REMOVE_USAGE :: string where
  "REMOVE_USAGE = ''appspine remove <plugin> [--instance-id <id>] [--dry-run]''"

text \<open>
  \<open>filter((entry) => entry !== target)\<close> compares objects. The keys of the declared entries are
  distinct and an expanded entry with the key of a declared one is that very object, so the objects
  differ exactly when the entries differ. An entry that only a preset contributes is no declared
  object, and nothing is filtered out.
\<close>

definition without_entry :: "inventory_entry \<Rightarrow> inventory_file \<Rightarrow> inventory_file" where
  "without_entry entry declared = declared\<lparr>if_plugins := filter (\<lambda>e. e \<noteq> entry) (if_plugins declared)\<rparr>"

definition remove_target ::
    "cli_env \<Rightarrow> files \<Rightarrow> string \<Rightarrow> loaded_state \<Rightarrow> string \<Rightarrow> string \<Rightarrow> inventory_entry
      \<Rightarrow> failure + (command_result + change_plan \<times> diagnostic list)" where
  "remove_target env fs appRoot state targetId instanceId entry =
     (let after = without_entry entry (ls_declared state) in
      bind_result (checkInventory env after (ls_manifests state)) (\<lambda>(graph, ds).
        if hasErrors ds
        then Inr (Inl (result_of ''remove'' CONFLICT
          (mk_diagnostic ''removal-breaks-inventory''
            (''removing '' @ quoted (targetId @ ''#'' @ instanceId)
              @ '' leaves the inventory unresolvable; disable the plugins that depend on it first'')
            (of_plugin targetId (of_instance instanceId no_extra)) # ds) (Some [(''removed'', JBool False)])))
        else Inr (Inr
          (\<lparr>cp_summary = ''remove '' @ targetId @ ''#'' @ instanceId,
            cp_changes = [inventoryChange fs appRoot (Some (ls_declared state)) after], cp_diagnostics = ds\<rparr>,
           [info ''data-retained''
             (''Removing a plugin does not delete its data or its Prisma tables (051 decision 13). ''
               @ ''Dropping them is a separate, reviewed migration'') (of_plugin targetId no_extra)]))))"

definition remove_prepare ::
    "cli_env \<Rightarrow> command_context \<Rightarrow> files \<Rightarrow> failure + (command_result + change_plan \<times> diagnostic list)" where
  "remove_prepare env cx fs =
     (case first_positional (cx_args cx) of
        None \<Rightarrow> Inr (Inl (result_of ''remove'' USAGE
          [mk_diagnostic ''missing-argument'' (''usage: '' @ REMOVE_USAGE) no_extra] None))
      | Some ref \<Rightarrow>
          bind_result (loadState env fs (cx_appRoot cx)) (\<lambda>loaded.
            case loaded of
              Inl ds \<Rightarrow> Inr (Inl (result_of ''remove'' VALIDATION_FAILED ds None))
            | Inr state \<Rightarrow>
                let instanceId = instance_flag (cx_args cx); targetId = pluginIdOf ref in
                (case find (same_instance targetId instanceId) (if_plugins (ls_inventory state)) of
                   None \<Rightarrow> Inr (Inl (result_of ''remove'' NOT_FOUND
                     [mk_diagnostic ''instance-not-found''
                       (''no inventory entry for '' @ quoted targetId @ '' instance '' @ quoted instanceId)
                       (of_plugin targetId (of_instance instanceId no_extra))] (Some [(''removed'', JBool False)])))
                 | Some entry \<Rightarrow> remove_target env fs (cx_appRoot cx) state targetId instanceId entry)))"

definition remove :: "cli_env \<Rightarrow> command_context \<Rightarrow> files \<Rightarrow> (failure + command_result) \<times> files" where
  "remove env = run_plan ''remove'' ''removed'' (remove_prepare env)"

section \<open>\<open>list\<close>\<close>

definition pluginId_of_entry :: "manifest_set \<Rightarrow> (string \<Rightarrow> string) \<Rightarrow> inventory_entry \<Rightarrow> string" where
  "pluginId_of_entry ms fallback e =
     (case map_of (ms_byRef ms) (ie_plugin e) of Some l \<Rightarrow> mf_id (lm_manifest l) | None \<Rightarrow> fallback (ie_plugin e))"

definition key_of_entry :: "manifest_set \<Rightarrow> (string \<Rightarrow> string) \<Rightarrow> inventory_entry \<Rightarrow> string" where
  "key_of_entry ms fallback e =
     (let pluginId = pluginId_of_entry ms fallback e in
      if ie_instanceId e = ''default'' then pluginId else pluginId @ ''#'' @ ie_instanceId e)"

definition entry_status :: "manifest_set \<Rightarrow> string list \<Rightarrow> (string \<Rightarrow> string) \<Rightarrow> string \<Rightarrow> inventory_entry \<Rightarrow> string" where
  "entry_status ms order fallback resolved_name e =
     (if map_of (ms_byRef ms) (ie_plugin e) = None then ''manifest-missing''
      else if \<not> ie_enabled e then ''disabled''
      else if key_of_entry ms fallback e \<in> set order then resolved_name else ''unresolved'')"

definition order_of :: "resolution_graph option \<Rightarrow> string list" where
  "order_of graph = (case graph of None \<Rightarrow> [] | Some g \<Rightarrow> rg_order g)"

record listed_entry =
  li_entry :: inventory_entry
  li_pluginId :: string
  li_loaded :: "loaded_manifest option"
  li_status :: string

definition listed_entries :: "loaded_state \<Rightarrow> resolution_graph option \<Rightarrow> listed_entry list" where
  "listed_entries state graph =
     sort_key (\<lambda>l. join '' '' [li_pluginId l, ie_instanceId (li_entry l)])
       (map (\<lambda>e. \<lparr>li_entry = e, li_pluginId = pluginId_of_entry (ls_manifests state) pluginIdOf e,
          li_loaded = map_of (ms_byRef (ls_manifests state)) (ie_plugin e),
          li_status = entry_status (ls_manifests state) (order_of graph) pluginIdOf ''resolved'' e\<rparr>)
        (if_plugins (ls_inventory state)))"

definition listed_doc :: "listed_entry \<Rightarrow> jv" where
  "listed_doc l = JObj
     ([(''plugin'', JStr (ie_plugin (li_entry l))), (''pluginId'', JStr (li_pluginId l)),
       (''instanceId'', JStr (ie_instanceId (li_entry l))), (''enabled'', JBool (ie_enabled (li_entry l))),
       (''required'', JBool (ie_required (li_entry l)))]
      @ (if truthy (ie_configRef (li_entry l)) then [(''configRef'', JStr (the (ie_configRef (li_entry l))))] else [])
      @ [(''packageVersion'', nullable (map_option lm_packageVersion (li_loaded l))),
         (''provides'', jstrs (case li_loaded l of Some m \<Rightarrow> mf_provides (lm_manifest m) | None \<Rightarrow> [])),
         (''requires'', jstrs (case li_loaded l of Some m \<Rightarrow> mf_requires (lm_manifest m) | None \<Rightarrow> [])),
         (''status'', JStr (li_status l))])"

definition listed_line :: "listed_entry \<Rightarrow> string" where
  "listed_line l =
     pad_end 16 (li_status l) @ '' '' @ li_pluginId l @ ''#'' @ ie_instanceId (li_entry l) @ '' ''
     @ coalesce (map_option lm_packageVersion (li_loaded l)) ''(version unknown)''
     @ (if ie_required (li_entry l) then [] else '' [optional]'')"

definition order_doc :: "resolution_graph option \<Rightarrow> jv" where
  "order_doc graph = (case graph of None \<Rightarrow> JNull | Some g \<Rightarrow> jstrs (rg_order g))"

definition list_command :: "cli_env \<Rightarrow> command_context \<Rightarrow> files \<Rightarrow> failure + command_result" where
  "list_command env cx fs =
     bind_result (loadState env fs (cx_appRoot cx)) (\<lambda>loaded.
       case loaded of
         Inl ds \<Rightarrow> Inr (result_of ''list'' VALIDATION_FAILED ds None)
       | Inr state \<Rightarrow>
           bind_result (checkInventory env (ls_inventory state) (ls_manifests state)) (\<lambda>(graph, checked).
             let entries = listed_entries state graph;
                 rendered = map listed_line entries;
                 diagnostics = ls_diagnostics state @ checked
                   @ [info ''inventory-listing''
                       (if rendered \<noteq> [] then newline @ join newline rendered else ''the inventory is empty'') no_extra]
             in Inr (result_of ''list'' (if hasErrors diagnostics then RESOLUTION_FAILED else ExitOK) diagnostics
                  (Some [(''entries'', JArr (map listed_doc entries)), (''order'', order_doc graph),
                         (''resolutionDigest'', nullable (map_option rg_digest graph))]))))"

section \<open>\<open>validate\<close> and \<open>config-stub\<close>\<close>

definition validate :: "cli_env \<Rightarrow> command_context \<Rightarrow> files \<Rightarrow> failure + command_result" where
  "validate env cx fs =
     bind_result (readInventory env fs (cx_appRoot cx) False) (\<lambda>read.
       case read of
         Inl ds \<Rightarrow> Inr (result_of ''validate'' VALIDATION_FAILED ds None)
       | Inr (inventory, ds) \<Rightarrow>
           bind_result (readManifestsFor env fs (cx_appRoot cx) (map ie_plugin (if_plugins inventory)) default_lookup) (\<lambda>ms.
             if ms_missing ms \<noteq> []
             then Inr (result_of ''validate'' VALIDATION_FAILED (ds @ ms_diagnostics ms)
               (Some [(''missing'', jstrs (ms_missing ms))]))
             else
               bind_result (checkInventory env inventory ms) (\<lambda>(graph, checked).
                 let diagnostics = ds @ ms_diagnostics ms @ checked in
                 if hasErrors diagnostics then Inr (result_of ''validate'' RESOLUTION_FAILED diagnostics None)
                 else Inr (result_of ''validate'' ExitOK
                   (diagnostics @ [info ''validated''
                     (show_nat (length (if_plugins inventory)) @ '' entrie(s) valid; ''
                       @ show_nat (length (order_of graph)) @ '' instance(s) resolve'') no_extra])
                   (Some [(''order'', order_doc graph), (''resolutionDigest'', nullable (map_option rg_digest graph))])))))"

definition config_stub :: "cli_env \<Rightarrow> command_handler" where
  "config_stub env cx w =
     (case first_positional (cx_args cx) of
        None \<Rightarrow> (Inr (result_of ''config-stub'' USAGE
          [mk_diagnostic ''missing-argument'' ''usage: appspine config-stub <plugin>'' no_extra] None), w)
      | Some ref \<Rightarrow>
          (case readManifestFor env (cw_files w) (cx_appRoot cx) ref default_lookup of
             Inl e \<Rightarrow> (Inl (OtherError e), w)
           | Inr (Inl ds) \<Rightarrow> (Inr (result_of ''config-stub'' NOT_FOUND ds None), w)
           | Inr (Inr (l, dir, ds)) \<Rightarrow>
               let stub = configStub (lm_manifest l) in
               (Inr (result_of ''config-stub'' ExitOK
                  [info ''stub-printed'' ''paste the block above into appspine.config.ts. The CLI will not edit it for you''
                    (of_plugin (pluginIdOf ref) no_extra)] (Some [(''stub'', JStr stub)])),
                stdout stub w)))"

section \<open>Generating every artefact\<close>

text \<open>The generators in the order of the registry; the first that throws ends the generation.\<close>

definition GENERATORS :: "cli_env \<Rightarrow> files \<Rightarrow> (generation_input \<Rightarrow> failure + generated_artifact) list" where
  "GENERATORS env fs =
     (let hash = hash_of env in
      [generateCatalog hash, generateComposition hash, generatePrismaSchema env fs hash, generatePermissionPlan hash,
       generateFrontendNavigation env hash, generateFrontendAdminRoutes env hash, generateFrontendSlots env hash,
       generateFrontendI18n env hash])"

definition generateAll :: "cli_env \<Rightarrow> files \<Rightarrow> generation_input \<Rightarrow> failure + generated_artifact list" where
  "generateAll env fs input =
     bind_result (collect (map (\<lambda>generate. generate input) (GENERATORS env fs))) (\<lambda>as. Inr (sort_key ga_path as))"

section \<open>\<open>build\<close>\<close>

definition CLI_TOOL_NAME :: string where
  "CLI_TOOL_NAME = ''@appspine/plugin-cli''"

definition generation_of :: "loaded_state \<Rightarrow> resolution_graph \<Rightarrow> string \<Rightarrow> generation_input" where
  "generation_of state graph version =
     \<lparr>gi_inventory = ls_inventory state, gi_manifests = ls_manifests state, gi_graph = graph,
      gi_presetProvenance = Some (ex_provenance (ls_expanded state)),
      gi_presets = Some (presetSummary (ls_expanded state)), gi_tool = CLI_TOOL_NAME, gi_version = version\<rparr>"

record generation =
  gn_artifacts :: "generated_artifact list"
  gn_lock :: plugin_lockfile
  gn_preflight :: "diagnostic list"
  gn_prisma :: compose_result
  gn_sourceDigest :: string

definition generate_from ::
    "cli_env \<Rightarrow> files \<Rightarrow> generation_input \<Rightarrow> failure + (command_result + generation)" where
  "generate_from env fs input =
     bind_result (compose env fs (hash_of env) input) (\<lambda>prisma.
       if cr_schema prisma = None
       then Inr (Inl (result_of ''build'' RESOLUTION_FAILED
         (mk_diagnostic ''prisma-composition-failed''
           ''the installed plugins cannot be composed into one Prisma schema, so nothing was generated'' no_extra
          # cr_diagnostics prisma) None))
       else
         bind_result (generateAll env fs input) (\<lambda>artifacts.
         bind_result (lift_canon (sourceDigest (hash_of env) input)) (\<lambda>expected.
         bind_result (buildLockfile (hash_of env) fs input artifacts (ms_packageDirs (gi_manifests input))) (\<lambda>lock.
           Inr (Inr \<lparr>gn_artifacts = artifacts, gn_lock = lock,
             gn_preflight = compositionPreflight input @ cr_diagnostics prisma, gn_prisma = prisma,
             gn_sourceDigest = expected\<rparr>)))))"

text \<open>Everything \<open>build\<close> does before it compares or writes.\<close>

definition build_prepare :: "cli_env \<Rightarrow> command_context \<Rightarrow> files \<Rightarrow> failure + (command_result + generation)" where
  "build_prepare env cx fs =
     bind_result (loadState env fs (cx_appRoot cx)) (\<lambda>loaded.
       case loaded of
         Inl ds \<Rightarrow> Inr (Inl (result_of ''build'' VALIDATION_FAILED ds None))
       | Inr state \<Rightarrow>
           if ms_missing (ls_manifests state) \<noteq> []
           then Inr (Inl (result_of ''build'' VALIDATION_FAILED
             (ls_diagnostics state @ ms_diagnostics (ls_manifests state)) None))
           else
             bind_result (checkInventory env (ls_inventory state) (ls_manifests state)) (\<lambda>(graph, ds).
               if graph = None \<or> hasErrors ds
               then Inr (Inl (result_of ''build'' RESOLUTION_FAILED
                 (mk_diagnostic ''generation-refused''
                   (''the inventory does not resolve, so no artefacts were generated. Generating from a broken ''
                     @ ''graph would produce files that describe something the App cannot boot'') no_extra # ds) None))
               else generate_from env fs (generation_of state (the graph) (cx_version cx))))"

definition drift_doc :: "drift_entry \<Rightarrow> jv" where
  "drift_doc d = JObj [(''path'', JStr (dr_path d)),
     (''reason'', JStr (case dr_reason d of Missing \<Rightarrow> ''missing'' | Stale \<Rightarrow> ''stale''))]"

definition drift_diagnostics :: "cli_env \<Rightarrow> files \<Rightarrow> string \<Rightarrow> string \<Rightarrow> drift_entry list \<Rightarrow> diagnostic list" where
  "drift_diagnostics env fs appRoot expected drift =
     map (\<lambda>d. driftDiagnostic d expected (recordedSourceDigest env fs appRoot (dr_path d))) drift"

definition check_generation ::
    "cli_env \<Rightarrow> files \<Rightarrow> string \<Rightarrow> generation \<Rightarrow> failure + command_result" where
  "check_generation env fs appRoot g =
     bind_result (detectDrift fs appRoot (gn_artifacts g)) (\<lambda>drift.
       let lockDiagnostics = compareLockfile (readLockfile env fs appRoot) (gn_lock g) in
       if drift = [] \<and> lockDiagnostics = []
       then Inr (result_of ''build'' ExitOK
         [info ''artifacts-current''
           (show_nat (length (gn_artifacts g)) @ '' artefact(s) and '' @ LOCKFILE_NAME @ '' up to date'') no_extra]
         (Some [(''checked'', jstrs (map ga_path (gn_artifacts g) @ [LOCKFILE_NAME])),
                (''sourceDigest'', JStr (gn_sourceDigest g)),
                (''resolutionDigest'', JStr (lk_resolutionDigest (gn_lock g)))]))
       else Inr (result_of ''build'' DRIFT_DETECTED
         (drift_diagnostics env fs appRoot (gn_sourceDigest g) drift @ lockDiagnostics)
         (Some [(''drift'', JArr (map drift_doc drift)), (''sourceDigest'', JStr (gn_sourceDigest g)),
                (''lockDrift'', jstrs (map dg_code lockDiagnostics))])))"

text \<open>The migration plan as a document.\<close>

definition migration_doc :: "migration_plan \<Rightarrow> jv" where
  "migration_doc p = JObj
     [(''models'', JArr (map (\<lambda>(model, owner, fragment).
         JObj [(''model'', JStr model), (''owner'', JStr owner), (''fragment'', nullable fragment)]) (mp_models p))),
      (''enums'', JArr (map (\<lambda>(name, owner). JObj [(''name'', JStr name), (''owner'', JStr owner)]) (mp_enums p))),
      (''augmentations'', JArr (map (\<lambda>a. JObj
         [(''targetModel'', JStr (ij_targetModel a)), (''field'', JStr (ij_field a)),
          (''plugin'', JStr (ij_plugin a)), (''type'', JStr (ij_type a))]) (mp_augmentations p))),
      (''digest'', JStr (mp_digest p))]"

definition build_result :: "generation \<Rightarrow> string list \<Rightarrow> command_result" where
  "build_result g written =
     result_of ''build'' ExitOK
       (gn_preflight g
        @ [info ''artifacts-written''
            (if written \<noteq> [] then ''wrote '' @ join '', '' written else ''everything was already up to date'') no_extra]
        @ (if LOCKFILE_NAME \<in> set written
           then [info ''lockfile-review''
             (LOCKFILE_NAME @ '' changed. It is committed and reviewed as a diff - read it before merging'')
             (at_path LOCKFILE_NAME)]
           else []))
       (Some [(''written'', jstrs written), (''artifacts'', jstrs (map ga_path (gn_artifacts g))),
              (''catalog'', JStr CATALOG_ARTIFACT), (''lockfile'', JStr LOCKFILE_NAME),
              (''schemaDigest'', nullable (cr_digest (gn_prisma g))),
              (''migrationPlan'', case cr_plan (gn_prisma g) of None \<Rightarrow> JNull | Some p \<Rightarrow> migration_doc p),
              (''sourceDigest'', JStr (gn_sourceDigest g)),
              (''resolutionDigest'', JStr (lk_resolutionDigest (gn_lock g)))])"

definition write_generation :: "string \<Rightarrow> generation \<Rightarrow> files \<Rightarrow> (failure + command_result) \<times> files" where
  "write_generation appRoot g fs =
     (case writeArtifacts appRoot (gn_artifacts g) fs of
        (Inl e, gs) \<Rightarrow> (Inl e, gs)
      | (Inr written, gs) \<Rightarrow>
          (case writeLockfile appRoot (gn_lock g) gs of
             Inl e \<Rightarrow> (Inl e, gs)
           | Inr (rewritten, hs) \<Rightarrow> (Inr (build_result g (written @ (if rewritten then [LOCKFILE_NAME] else []))), hs)))"

definition build :: "cli_env \<Rightarrow> command_context \<Rightarrow> files \<Rightarrow> (failure + command_result) \<times> files" where
  "build env cx fs =
     (case build_prepare env cx fs of
        Inl e \<Rightarrow> (Inl e, fs)
      | Inr (Inl refusal) \<Rightarrow> (Inr refusal, fs)
      | Inr (Inr g) \<Rightarrow>
          if flag_set (cx_args cx) ''check'' then (check_generation env fs (cx_appRoot cx) g, fs)
          else write_generation (cx_appRoot cx) g fs)"

section \<open>\<open>doctor\<close>\<close>

record doctor_entry =
  dc_key :: string
  dc_pluginId :: string
  dc_packageName :: string
  dc_packageVersion :: string
  dc_state :: string
  dc_required :: bool
  dc_missingEnvKeys :: "string list"
  dc_unresolvedOptional :: "string list"

definition missing_env_keys :: "cli_env \<Rightarrow> loaded_manifest option \<Rightarrow> string list" where
  "missing_env_keys env l =
     sort (map env_key (filter (\<lambda>e. env_required e \<and> env_key e \<notin> set (ce_processEnv env))
       (case l of None \<Rightarrow> [] | Some l \<Rightarrow> coalesce (mf_environment (lm_manifest l)) [])))"

definition doctor_entry_of :: "cli_env \<Rightarrow> loaded_state \<Rightarrow> resolution_graph option \<Rightarrow> inventory_entry \<Rightarrow> doctor_entry" where
  "doctor_entry_of env state graph e =
     (let ms = ls_manifests state; l = map_of (ms_byRef ms) (ie_plugin e); key = key_of_entry ms (\<lambda>r. r) e;
          resolved = (case graph of None \<Rightarrow> None | Some g \<Rightarrow> find (\<lambda>i. rs_key i = key) (rg_instances g))
      in \<lparr>dc_key = key, dc_pluginId = pluginId_of_entry ms (\<lambda>r. r) e,
          dc_packageName = coalesce (map_option lm_packageName l) (ie_plugin e),
          dc_packageVersion = coalesce (map_option lm_packageVersion l) ''unknown'',
          dc_state = entry_status ms (order_of graph) (\<lambda>r. r) ''enabled'' e, dc_required = ie_required e,
          dc_missingEnvKeys = missing_env_keys env l,
          dc_unresolvedOptional = (case resolved of Some i \<Rightarrow> rs_unresolvedOptional i | None \<Rightarrow> [])\<rparr>)"

definition env_diagnostics :: "cli_env \<Rightarrow> loaded_state \<Rightarrow> inventory_entry \<Rightarrow> diagnostic list" where
  "env_diagnostics env state e =
     (let pluginId = pluginId_of_entry (ls_manifests state) (\<lambda>r. r) e in
      map (\<lambda>missing. mk_diagnostic ''missing-required-env-key'' (quoted pluginId @ '' requires '' @ missing @ '' to be set'')
          (of_plugin pluginId (of_instance (ie_instanceId e)
            (with_severity (if ie_enabled e then SevError else SevWarning) no_extra))))
        (missing_env_keys env (map_of (ms_byRef (ls_manifests state)) (ie_plugin e))))"

definition doctor_doc :: "doctor_entry \<Rightarrow> jv" where
  "doctor_doc d = JObj
     [(''key'', JStr (dc_key d)), (''pluginId'', JStr (dc_pluginId d)), (''packageName'', JStr (dc_packageName d)),
      (''packageVersion'', JStr (dc_packageVersion d)), (''state'', JStr (dc_state d)),
      (''required'', JBool (dc_required d)), (''runtimeState'', JStr ''unknown-until-boot''),
      (''missingEnvKeys'', jstrs (dc_missingEnvKeys d)), (''unresolvedOptional'', jstrs (dc_unresolvedOptional d))]"

definition REBUILDABLE_CODES :: "string list" where
  "REBUILDABLE_CODES =
     [''artifact-stale'', ''artifact-missing'', ''plugin-lock-missing'', ''plugin-lock-package-added'',
      ''plugin-lock-package-removed'', ''plugin-lock-version-drift'', ''plugin-lock-schema-drift'',
      ''plugin-lock-resolution-drift'', ''plugin-lock-artifact-drift'']"

definition hasErrorsExcludingDrift :: "diagnostic list \<Rightarrow> bool" where
  "hasErrorsExcludingDrift ds \<longleftrightarrow> list_ex (\<lambda>d. dg_severity d = SevError \<and> dg_code d \<notin> set REBUILDABLE_CODES) ds"

text \<open>The drift and the findings of the lock, with the diagnostics of both.\<close>

definition doctor_drift ::
    "cli_env \<Rightarrow> command_context \<Rightarrow> files \<Rightarrow> loaded_state \<Rightarrow> resolution_graph option \<Rightarrow> diagnostic list
      \<Rightarrow> failure + drift_entry list \<times> diagnostic list \<times> diagnostic list" where
  "doctor_drift env cx fs state graph checked =
     (if graph = None \<or> ms_missing (ls_manifests state) \<noteq> [] \<or> hasErrors checked then Inr ([], [], [])
      else
        let input = generation_of state (the graph) (cx_version cx) in
        bind_result (generateAll env fs input) (\<lambda>artifacts.
        bind_result (lift_canon (sourceDigest (hash_of env) input)) (\<lambda>expected.
        bind_result (detectDrift fs (cx_appRoot cx) artifacts) (\<lambda>drift.
        bind_result (buildLockfile (hash_of env) fs input artifacts (ms_packageDirs (ls_manifests state))) (\<lambda>lock.
          Inr (drift, drift_diagnostics env fs (cx_appRoot cx) expected drift,
               compareLockfile (readLockfile env fs (cx_appRoot cx)) lock))))))"

definition count_state :: "string \<Rightarrow> doctor_entry list \<Rightarrow> nat" where
  "count_state s entries = length (filter (\<lambda>d. dc_state d = s) entries)"

definition doctor_result ::
    "doctor_entry list \<Rightarrow> diagnostic list \<Rightarrow> drift_entry list \<Rightarrow> diagnostic list \<Rightarrow> command_result" where
  "doctor_result entries ds drift lockDiagnostics =
     (let counts = map (\<lambda>s. count_state s entries) [''enabled'', ''disabled'', ''unresolved'', ''manifest-missing''];
          diagnostics = ds @ [info ''doctor-summary''
            (show_nat (counts ! 0) @ '' enabled, '' @ show_nat (counts ! 1) @ '' disabled, '' @ show_nat (counts ! 2)
              @ '' unresolved, '' @ show_nat (counts ! 3) @ '' without a manifest; '' @ show_nat (length drift)
              @ '' artefact(s) out of date; '' @ show_nat (length lockDiagnostics) @ '' lockfile finding(s)'') no_extra]
      in result_of ''doctor''
          (if hasErrors diagnostics
           then (if hasErrorsExcludingDrift diagnostics then RESOLUTION_FAILED else DRIFT_DETECTED) else ExitOK)
          diagnostics
          (Some [(''entries'', JArr (map doctor_doc entries)),
            (''summary'', JObj [(''enabled'', JNum (int (counts ! 0))), (''disabled'', JNum (int (counts ! 1))),
               (''unresolved'', JNum (int (counts ! 2))), (''manifestMissing'', JNum (int (counts ! 3)))]),
            (''drift'', JArr (map drift_doc drift)), (''lockfile'', jstrs (map dg_code lockDiagnostics)),
            (''catalog'', JStr CATALOG_ARTIFACT)]))"

text \<open>The expanded inventory names no presets, so the branch for presets that cannot be expanded is never taken.\<close>

definition preset_note :: "inventory_file \<Rightarrow> diagnostic list" where
  "preset_note inventory =
     (if coalesce (if_presets inventory) [] \<noteq> []
      then [mk_diagnostic ''preset-expansion-unavailable''
        (''inventory declares preset(s) '' @ join '', '' (coalesce (if_presets inventory) [])
          @ '', which cannot be expanded yet (051 PL2-08). Everything below ignores them, so it is incomplete'')
        (at_path ''presets'')]
      else [])"

definition doctor :: "cli_env \<Rightarrow> command_context \<Rightarrow> files \<Rightarrow> failure + command_result" where
  "doctor env cx fs =
     bind_result (loadState env fs (cx_appRoot cx)) (\<lambda>loaded.
       case loaded of
         Inl ds \<Rightarrow> Inr (result_of ''doctor'' VALIDATION_FAILED ds None)
       | Inr state \<Rightarrow>
           bind_result (checkInventory env (ls_inventory state) (ls_manifests state)) (\<lambda>(graph, checked).
             bind_result (doctor_drift env cx fs state graph checked) (\<lambda>(drift, driftDiagnostics, lockDiagnostics).
               Inr (doctor_result (map (doctor_entry_of env state graph) (if_plugins (ls_inventory state)))
                 (ls_diagnostics state @ preset_note (ls_inventory state) @ checked
                  @ concat (map (env_diagnostics env state) (if_plugins (ls_inventory state)))
                  @ driftDiagnostics @ lockDiagnostics)
                 drift lockDiagnostics))))"

section \<open>The command table\<close>

definition COMMANDS :: "cli_env \<Rightarrow> command_definition list" where
  "COMMANDS env =
     [\<lparr>cd_name = ''add'', cd_summary = ''add a plugin instance to appspine.plugins.json'', cd_usage = ADD_USAGE,
       cd_flags = Some [''instance-id'', ''optional'', ''dry-run''], cd_handler = writing (add env)\<rparr>,
      \<lparr>cd_name = ''remove'', cd_summary = ''remove a plugin instance from appspine.plugins.json'', cd_usage = REMOVE_USAGE,
       cd_flags = Some [''instance-id'', ''dry-run''], cd_handler = writing (remove env)\<rparr>,
      \<lparr>cd_name = ''list'', cd_summary = ''show the inventory and what it resolves to'',
       cd_usage = ''appspine list [--json]'', cd_flags = None, cd_handler = reading (list_command env)\<rparr>,
      \<lparr>cd_name = ''validate'', cd_summary = ''check the inventory, its manifests and whether they resolve'',
       cd_usage = ''appspine validate [--json]'', cd_flags = None, cd_handler = reading (validate env)\<rparr>,
      \<lparr>cd_name = ''build'', cd_summary = ''generate .appspine/generated artefacts from the inventory'',
       cd_usage = ''appspine build [--check]'', cd_flags = Some [''check''], cd_handler = writing (build env)\<rparr>,
      \<lparr>cd_name = ''doctor'', cd_summary = ''report everything wrong with the current plugin setup'',
       cd_usage = ''appspine doctor [--json]'', cd_flags = None, cd_handler = reading (doctor env)\<rparr>,
      \<lparr>cd_name = ''config-stub'', cd_summary = ''print a typed appspine.config.ts block for a plugin, to paste yourself'',
       cd_usage = ''appspine config-stub <plugin>'', cd_flags = None, cd_handler = config_stub env\<rparr>]"

end
