(* ===== verification/CommandEffects.thy ===== *)
theory CommandEffects
  imports Commands
begin

text \<open>
  What the commands of the tool do to the files of an App: which files each may write, what an
  accepted edit leaves on disk, and that a build is current right after it ran.
\<close>

lemma is_ok_exists: "is_ok r \<Longrightarrow> \<exists>a. r = Inr a"
  by (cases r) (simp_all add: is_ok_def)

section \<open>What a command may write\<close>

definition GENERATED_PATHS :: "string list" where
  "GENERATED_PATHS =
     [CATALOG_ARTIFACT, COMPOSITION_ARTIFACT, SCHEMA_ARTIFACT, PERMISSION_ARTIFACT, FRONTEND_NAVIGATION_ARTIFACT,
      FRONTEND_ADMIN_ROUTES_ARTIFACT, FRONTEND_SLOTS_ARTIFACT, FRONTEND_I18N_ARTIFACT]"

text \<open>The files a command may write, and the flag that makes it only report.\<close>

definition writes_only :: "string \<Rightarrow> string \<Rightarrow> string set" where
  "writes_only appRoot name =
     (if name = ''add'' then {path_join [appRoot, ''appspine.plugins.json''], path_join [appRoot, ''package.json'']}
      else if name = ''remove'' then {path_join [appRoot, ''appspine.plugins.json'']}
      else if name = ''build'' then insert (lockfilePath appRoot) ((\<lambda>p. path_join [appRoot, p]) ` set GENERATED_PATHS)
      else {})"

definition report_only :: "string \<Rightarrow> parsed_args \<Rightarrow> bool" where
  "report_only name args \<longleftrightarrow>
     (if name \<in> {''add'', ''remove''} then flag_set args ''dry-run''
      else name = ''build'' \<longrightarrow> flag_set args ''check'')"

lemma apply_changes_frame:
  "p \<notin> change_target appRoot ` set cs \<Longrightarrow> snd (apply_changes appRoot cs w fs) p = fs p"
  by (induction appRoot cs w fs rule: apply_changes.induct)
    (auto simp: change_target_def writeFileSync_Inr split: sum.split)

lemma write_artifacts_frame:
  "p \<notin> artifact_file appRoot ` set as \<Longrightarrow> snd (write_artifacts appRoot as w fs) p = fs p"
  by (induction appRoot as w fs rule: write_artifacts.induct)
    (auto simp: artifact_file_def writeFileSync_Inr Let_def split: sum.split bool.split)

lemma frontend_file_path: "frontend_file hash input path ls = Inr a \<Longrightarrow> ga_path a = path"
  by (auto simp: frontend_file_def bind_result_Inr_iff)

lemma generator_paths:
  assumes "generateAll env fs input = Inr as"
  shows "mset (map ga_path as) = mset GENERATED_PATHS"
proof -
  let ?h = "hash_of env"
  obtain bs where bs: "collect (map (\<lambda>g. g input) (GENERATORS env fs)) = Inr bs" and as: "as = sort_key ga_path bs"
    using assms by (auto simp: generateAll_def bind_result_Inr_iff)
  have "map ga_path bs = GENERATED_PATHS"
    using bs unfolding GENERATORS_def Let_def GENERATED_PATHS_def
    by (auto simp: bind_result_Inr_iff generateCatalog_def generateComposition_def generatePrismaSchema_def
        generatePermissionPlan_def generateFrontendNavigation_def generateFrontendAdminRoutes_def
        generateFrontendSlots_def generateFrontendI18n_def frontend_file_path split: prod.splits)
  with as show ?thesis by (metis mset_map mset_sort)
qed

lemma generated_files:
  "generateAll env fs input = Inr as \<Longrightarrow>
     artifact_file appRoot ` set as = (\<lambda>p. path_join [appRoot, p]) ` set GENERATED_PATHS"
proof -
  assume "generateAll env fs input = Inr as"
  from mset_eq_setD [OF generator_paths [OF this]] have "ga_path ` set as = set GENERATED_PATHS" by simp
  from this [symmetric] show ?thesis by (simp add: artifact_file_def [abs_def] image_image)
qed

lemma finish_plan_effect:
  assumes "finish_plan command outcome appRoot dryRun plan follow fs = (r, gs)"
  shows "(dryRun \<longrightarrow> gs = fs) \<and> (\<forall>result. r = Inr result \<longrightarrow> rc_exitCode result = ExitOK)
    \<and> (\<forall>p. p \<notin> change_target appRoot ` set (cp_changes plan) \<longrightarrow> gs p = fs p)"
proof -
  have "gs = (if dryRun then fs else snd (applyPlan appRoot plan fs))"
    using assms by (auto simp: finish_plan_def split: prod.splits sum.splits if_splits)
  moreover have "\<forall>result. r = Inr result \<longrightarrow> rc_exitCode result = ExitOK"
    using assms by (auto simp: finish_plan_def result_of_def split: prod.splits sum.splits if_splits)
  ultimately show ?thesis by (simp add: applyPlan_def apply_changes_frame)
qed

lemma run_plan_effect:
  assumes "run_plan command outcome prepare cx fs = (r, gs)"
    and "\<And>plan follow. prepare cx fs = Inr (Inr (plan, follow)) \<Longrightarrow> change_target (cx_appRoot cx) ` set (cp_changes plan) \<subseteq> A"
  shows "(flag_set (cx_args cx) ''dry-run'' \<longrightarrow> gs = fs)
    \<and> (\<forall>result. r = Inr result \<longrightarrow> rc_exitCode result \<noteq> ExitOK \<longrightarrow> gs = fs) \<and> (\<forall>p. p \<notin> A \<longrightarrow> gs p = fs p)"
proof (cases "\<exists>plan follow. prepare cx fs = Inr (Inr (plan, follow))")
  case True
  then obtain plan follow where p: "prepare cx fs = Inr (Inr (plan, follow))" by blast
  then have "finish_plan command outcome (cx_appRoot cx) (flag_set (cx_args cx) ''dry-run'') plan follow fs = (r, gs)"
    using assms(1) by (simp add: run_plan_def)
  from finish_plan_effect [OF this] assms(2) [OF p] show ?thesis by blast
next
  case False
  then have "gs = fs" using assms(1) by (auto simp: run_plan_def split: sum.splits prod.splits)
  then show ?thesis by simp
qed

section \<open>What an edit prepares\<close>

lemma loaded_inventory_on_disk:
  assumes "loadState env fs appRoot = Inr (Inr state)"
  shows "\<exists>t. fs (inventoryPath appRoot) = Some (Text t)"
proof (cases "readFileSync fs (inventoryPath appRoot)")
  case (Inl code)
  then show ?thesis using assms by (simp add: loadState_def readInventory_def split: if_splits)
next
  case (Inr t)
  then show ?thesis by (simp add: readFileSync_Inr)
qed

lemma add_candidate_plan:
  assumes "add_candidate env fs appRoot state l instanceId optional = Inr (Inr (plan, follow))"
  defines "entry \<equiv> added_entry l instanceId optional"
  defines "after \<equiv> (ls_declared state)\<lparr>if_plugins := if_plugins (ls_declared state) @ [entry]\<rparr>"
  shows "\<exists>graph dependency. find (same_instance (mf_id (lm_manifest l)) instanceId) (if_plugins (ls_inventory state)) = None
    \<and> (optional \<longrightarrow> mf_optionalFailurePolicy (lm_manifest l))
    \<and> checkInventory env after (with_manifest l (ls_manifests state)) = Inr (graph, cp_diagnostics plan)
    \<and> \<not> hasErrors (cp_diagnostics plan)
    \<and> packageJsonChange env fs appRoot (lm_packageName l) (''^'' @ lm_packageVersion l) = Inr dependency
    \<and> cp_changes plan = inventoryChange fs appRoot (Some (ls_declared state)) after
        # (case dependency of None \<Rightarrow> [] | Some c \<Rightarrow> [c])"
  using assms(1) by (auto simp: add_candidate_def Let_def bind_result_Inr_iff entry_def after_def split: if_splits prod.splits)

lemma add_prepare_plan:
  assumes "add_prepare env cx fs = Inr (Inr (plan, follow))"
  shows "\<exists>ref state l dir ds. first_positional (cx_args cx) = Some ref
    \<and> loadState env fs (cx_appRoot cx) = Inr (Inr state)
    \<and> readManifestFor env fs (cx_appRoot cx) ref default_lookup = Inr (Inr (l, dir, ds))
    \<and> add_candidate env fs (cx_appRoot cx) state l (instance_flag (cx_args cx)) (flag_set (cx_args cx) ''optional'')
        = Inr (Inr (plan, follow))"
  using assms
  by (auto simp: add_prepare_def bind_result_Inr_iff split_sum_ex split: option.splits sum.splits prod.splits)

lemma remove_prepare_plan:
  assumes "remove_prepare env cx fs = Inr (Inr (plan, follow))"
  shows "\<exists>ref state entry graph. first_positional (cx_args cx) = Some ref
    \<and> loadState env fs (cx_appRoot cx) = Inr (Inr state)
    \<and> find (same_instance (pluginIdOf ref) (instance_flag (cx_args cx))) (if_plugins (ls_inventory state)) = Some entry
    \<and> checkInventory env (without_entry entry (ls_declared state)) (ls_manifests state) = Inr (graph, cp_diagnostics plan)
    \<and> \<not> hasErrors (cp_diagnostics plan)
    \<and> cp_changes plan = [inventoryChange fs (cx_appRoot cx) (Some (ls_declared state)) (without_entry entry (ls_declared state))]"
  using assms
  by (auto simp: remove_prepare_def remove_target_def Let_def bind_result_Inr_iff split_sum_ex split: option.splits sum.splits if_splits prod.splits)

lemma packageJsonChange_file:
  assumes "packageJsonChange env fs appRoot n v = Inr (Some c)"
  shows "fc_file c = ''package.json''"
proof -
  obtain t where "readFileSync fs (path_join [appRoot, ''package.json'']) = Inr t"
    using assms by (auto simp: packageJsonChange_def Let_def bind_result_Inr_iff)
  with assms show ?thesis
    by (cases "ce_parse env t") (auto simp: packageJsonChange_def split: if_split_asm)
qed

lemma inventoryChange_file [simp]: "fc_file (inventoryChange fs appRoot b a) = ''appspine.plugins.json''"
  "fc_after (inventoryChange fs appRoot b a) = serializeInventory a"
  by (simp_all add: inventoryChange_def Let_def)

lemma add_targets:
  assumes "add_prepare env cx fs = Inr (Inr (plan, follow))"
  shows "change_target (cx_appRoot cx) ` set (cp_changes plan) \<subseteq> writes_only (cx_appRoot cx) ''add''"
  using add_prepare_plan [OF assms]
  by (auto dest!: add_candidate_plan packageJsonChange_file simp: change_target_def writes_only_def split: option.splits)

lemma remove_targets:
  assumes "remove_prepare env cx fs = Inr (Inr (plan, follow))"
  shows "change_target (cx_appRoot cx) ` set (cp_changes plan) \<subseteq> writes_only (cx_appRoot cx) ''remove''"
  using remove_prepare_plan [OF assms] by (auto simp: change_target_def writes_only_def)

lemma generate_from_Inr:
  assumes "generate_from env fs input = Inr (Inr g)"
  shows "\<exists>prisma. compose env fs (hash_of env) input = Inr prisma \<and> cr_schema prisma \<noteq> None
    \<and> generateAll env fs input = Inr (gn_artifacts g)
    \<and> lift_canon (sourceDigest (hash_of env) input) = Inr (gn_sourceDigest g)
    \<and> buildLockfile (hash_of env) fs input (gn_artifacts g) (ms_packageDirs (gi_manifests input)) = Inr (gn_lock g)
    \<and> gn_preflight g = compositionPreflight input @ cr_diagnostics prisma \<and> gn_prisma g = prisma"
  using assms by (auto simp: generate_from_def bind_result_Inr_iff split: if_split_asm)

lemma build_prepare_Inr:
  assumes "build_prepare env cx fs = Inr (Inr g)"
  shows "\<exists>state graph ds. loadState env fs (cx_appRoot cx) = Inr (Inr state) \<and> ms_missing (ls_manifests state) = []
    \<and> checkInventory env (ls_inventory state) (ls_manifests state) = Inr (Some graph, ds) \<and> \<not> hasErrors ds
    \<and> generate_from env fs (generation_of state graph (cx_version cx)) = Inr (Inr g)"
proof -
  obtain a where l: "loadState env fs (cx_appRoot cx) = Inr a"
    using assms by (auto simp: build_prepare_def bind_result_Inr_iff)
  then obtain state where a: "a = Inr state" using assms by (cases a) (simp_all add: build_prepare_def)
  have m: "ms_missing (ls_manifests state) = []"
    using assms by (simp add: build_prepare_def l a split: if_split_asm)
  obtain graph ds where "checkInventory env (ls_inventory state) (ls_manifests state) = Inr (graph, ds)"
    "\<not> (graph = None \<or> hasErrors ds)"
    "generate_from env fs (generation_of state (the graph) (cx_version cx)) = Inr (Inr g)"
    using assms by (simp add: build_prepare_def l a m bind_result_Inr_iff split: if_split_asm) auto
  with l a m show ?thesis by auto
qed

lemma build_prepare_artifacts:
  assumes "build_prepare env cx fs = Inr (Inr g)"
  shows "\<exists>input. generateAll env fs input = Inr (gn_artifacts g)
    \<and> buildLockfile (hash_of env) fs input (gn_artifacts g) (ms_packageDirs (gi_manifests input)) = Inr (gn_lock g)"
  using build_prepare_Inr [OF assms] generate_from_Inr by blast

lemma write_generation_effect:
  assumes "write_generation appRoot g fs = (r, gs)" and "generateAll env fs0 input = Inr (gn_artifacts g)"
  shows "(\<forall>result. r = Inr result \<longrightarrow> rc_exitCode result = ExitOK)
    \<and> (\<forall>p. p \<notin> writes_only appRoot ''build'' \<longrightarrow> gs p = fs p)"
proof -
  obtain ws hs where w: "writeArtifacts appRoot (gn_artifacts g) fs = (ws, hs)" by fastforce
  have hs: "hs p = fs p" if "p \<notin> writes_only appRoot ''build''" for p
    using write_artifacts_frame [of p appRoot "gn_artifacts g" "[]" fs] that w generated_files [OF assms(2)]
    by (simp add: writes_only_def writeArtifacts_def)
  have lock: "ks p = hs p" if "writeLockfile appRoot (gn_lock g) hs = Inr (b, ks)" "p \<noteq> lockfilePath appRoot" for b ks p
    using that by (auto simp: writeLockfile_def Let_def bind_result_Inr_iff writeFileSync_Inr split: if_splits)
  have "gs = hs \<or> (\<exists>b. writeLockfile appRoot (gn_lock g) hs = Inr (b, gs))"
    using assms(1) w by (auto simp: write_generation_def split: sum.splits prod.splits)
  moreover have "\<forall>result. r = Inr result \<longrightarrow> rc_exitCode result = ExitOK"
    using assms(1) w by (auto simp: write_generation_def build_result_def result_of_def split: sum.splits prod.splits)
  ultimately show ?thesis using hs lock by (auto simp: writes_only_def)
qed

lemma build_effect:
  assumes "build env cx fs = (r, gs)"
  shows "(flag_set (cx_args cx) ''check'' \<longrightarrow> gs = fs)
    \<and> (\<forall>result. r = Inr result \<longrightarrow> rc_exitCode result \<noteq> ExitOK \<longrightarrow> gs = fs)
    \<and> (\<forall>p. p \<notin> writes_only (cx_appRoot cx) ''build'' \<longrightarrow> gs p = fs p)"
proof (cases "\<exists>g. build_prepare env cx fs = Inr (Inr g) \<and> \<not> flag_set (cx_args cx) ''check''")
  case True
  then obtain g where g: "build_prepare env cx fs = Inr (Inr g)" "\<not> flag_set (cx_args cx) ''check''" by blast
  then have "write_generation (cx_appRoot cx) g fs = (r, gs)" using assms by (simp add: build_def)
  with build_prepare_artifacts [OF g(1)] write_generation_effect g(2) show ?thesis by blast
next
  case False
  then have "gs = fs" using assms by (auto simp: build_def split: sum.splits if_splits)
  then show ?thesis by simp
qed

text \<open>What every command keeps to.\<close>

definition keeps_to :: "string \<Rightarrow> command_context \<Rightarrow> files \<Rightarrow> 'e + command_result \<Rightarrow> files \<Rightarrow> bool" where
  "keeps_to name cx fs r gs \<longleftrightarrow>
     (report_only name (cx_args cx) \<longrightarrow> gs = fs)
     \<and> (\<forall>result. r = Inr result \<longrightarrow> rc_exitCode result \<noteq> ExitOK \<longrightarrow> gs = fs)
     \<and> (\<forall>p. p \<notin> writes_only (cx_appRoot cx) name \<longrightarrow> gs p = fs p)"

lemma keeps_to_same [simp]: "keeps_to name cx fs r fs"
  by (simp add: keeps_to_def)

lemma writing_keeps_to:
  "keeps_to name cx (cw_files w) (fst (f cx (cw_files w))) (snd (f cx (cw_files w))) \<Longrightarrow>
     keeps_to name cx (cw_files w) (fst (writing f cx w)) (cw_files (snd (writing f cx w)))"
  by (auto simp: writing_def keeps_to_def split: prod.split sum.split)

lemma reading_files [simp]: "cw_files (snd (reading f cx w)) = cw_files w"
  by (simp add: reading_def split: sum.split)

lemma config_stub_files [simp]: "cw_files (snd (config_stub env cx w)) = cw_files w"
  by (simp add: config_stub_def Let_def split: option.split sum.split prod.split)

lemma add_keeps_to: "keeps_to ''add'' cx fs (fst (add env cx fs)) (snd (add env cx fs))"
  using run_plan_effect [OF surjective_pairing add_targets] by (simp add: add_def keeps_to_def report_only_def)

lemma remove_keeps_to: "keeps_to ''remove'' cx fs (fst (remove env cx fs)) (snd (remove env cx fs))"
  using run_plan_effect [OF surjective_pairing remove_targets] by (simp add: remove_def keeps_to_def report_only_def)

lemma build_keeps_to: "keeps_to ''build'' cx fs (fst (build env cx fs)) (snd (build env cx fs))"
  using build_effect [OF surjective_pairing] by (simp add: keeps_to_def report_only_def)

lemma command_keeps_to:
  "d \<in> set (COMMANDS env) \<Longrightarrow>
     keeps_to (cd_name d) cx (cw_files w) (fst (cd_handler d cx w)) (cw_files (snd (cd_handler d cx w)))"
  by (auto simp: COMMANDS_def writing_keeps_to [where f = "add env", OF add_keeps_to]
      writing_keeps_to [where f = "remove env", OF remove_keeps_to] writing_keeps_to [where f = "build env", OF build_keeps_to])

text \<open>
  C38. Which files a command of the tool may change: \<open>add\<close> only the inventory and
  \<open>package.json\<close>, \<open>remove\<close> only the inventory, \<open>build\<close> only the eight
  generated files and the lock, and every other command none. A dry run and \<open>--check\<close>
  change nothing, and neither does any command that reports an exit code other than \<open>OK\<close>:
  a refused edit and a refused generation leave the App as it was.
\<close>

theorem commands_write_only_their_files:
  "\<forall>d\<in>set (COMMANDS env). case cd_handler d cx w of (r, w') \<Rightarrow>
     (report_only (cd_name d) (cx_args cx) \<longrightarrow> cw_files w' = cw_files w)
     \<and> (\<forall>result. r = Inr result \<longrightarrow> rc_exitCode result \<noteq> ExitOK \<longrightarrow> cw_files w' = cw_files w)
     \<and> (\<forall>p. p \<notin> writes_only (cx_appRoot cx) (cd_name d) \<longrightarrow> cw_files w' p = cw_files w p)"
  unfolding case_prod_beta by (intro ballI command_keeps_to [unfolded keeps_to_def])

section \<open>What an accepted edit leaves on disk\<close>

lemma inventory_path [simp]: "path_join [appRoot, ''appspine.plugins.json''] = inventoryPath appRoot"
  by (simp add: inventoryPath_def INVENTORY_FILENAME_def)

lemma package_json_other: "path_join [appRoot, ''package.json''] \<noteq> inventoryPath appRoot"
proof -
  have "plain_path ''package.json''" "plain_path ''appspine.plugins.json''" by code_simp+
  then show ?thesis by (simp add: path_join_inj flip: inventory_path)
qed

lemma apply_changes_ok:
  "apply_changes appRoot cs w fs = (Inr ws, gs) \<Longrightarrow> gs = written_files appRoot (filter changed cs) fs"
  by (induction appRoot cs w fs rule: apply_changes.induct)
    (auto simp: written_files_def change_target_def writeFileSync_Inr split: if_split_asm sum.split_asm)

text \<open>The inventory on disk after a plan that was applied.\<close>

lemma applied_inventory:
  assumes "loadState env fs appRoot = Inr (Inr state)" and "applyPlan appRoot plan fs = (Inr ws, gs)"
    and "cp_changes plan = inventoryChange fs appRoot (Some old) after # (case d of None \<Rightarrow> [] | Some c \<Rightarrow> [c])"
    and "\<forall>c. d = Some c \<longrightarrow> fc_file c = ''package.json''"
  shows "gs (inventoryPath appRoot) = Some (Text (serializeInventory after))"
proof -
  let ?i = "inventoryChange fs appRoot (Some old) after" and ?cs = "filter changed (cp_changes plan)"
  obtain t where t: "fs (inventoryPath appRoot) = Some (Text t)" using loaded_inventory_on_disk [OF assms(1)] by blast
  then have c: "changed ?i \<longleftrightarrow> t \<noteq> serializeInventory after"
    by (simp add: changed_def inventoryChange_def readFileSync_def)
  have gs: "gs = written_files appRoot ?cs fs" using assms(2) by (auto simp: applyPlan_def dest: apply_changes_ok)
  have p: "change_target appRoot ?i = inventoryPath appRoot" by (simp add: change_target_def)
  show ?thesis
  proof (cases "changed ?i")
    case True
    then have "?cs = ?i # filter changed (case d of None \<Rightarrow> [] | Some c \<Rightarrow> [c])" by (simp add: assms(3))
    with assms(4) p show ?thesis
      by (cases d) (auto simp: gs written_files_def change_target_def package_json_other [symmetric] package_json_other)
  next
    case False
    then have "inventoryPath appRoot \<notin> change_target appRoot ` set ?cs"
      using assms(4) package_json_other [of appRoot] by (cases d) (auto simp: assms(3) change_target_def)
    with False t c show ?thesis by (simp add: gs written_files_other)
  qed
qed

lemma finish_plan_applied:
  "finish_plan command outcome appRoot False plan follow fs = (Inr result, gs) \<Longrightarrow>
     \<exists>ws. applyPlan appRoot plan fs = (Inr ws, gs)"
  by (auto simp: finish_plan_def split: prod.splits sum.splits)


text \<open>
  What an accepted \<open>remove\<close> did: the entry it found in the expanded inventory is taken
  out of the declared one, which passed the checks without it, and the file on disk is the canonical
  serialisation. When only a preset contributes the entry, the declared inventory is the one before:
  the command reports the removal and the instance is still there.
\<close>

theorem accepted_remove_is_on_disk:
  assumes "remove env cx fs = (Inr result, gs)" and "remove_prepare env cx fs = Inr (Inr plan)"
    and "\<not> flag_set (cx_args cx) ''dry-run''"
  shows "\<exists>ref state entry graph checked.
    first_positional (cx_args cx) = Some ref \<and> loadState env fs (cx_appRoot cx) = Inr (Inr state)
    \<and> entry \<in> set (if_plugins (ls_inventory state))
    \<and> same_instance (pluginIdOf ref) (instance_flag (cx_args cx)) entry
    \<and> checkInventory env (without_entry entry (ls_declared state)) (ls_manifests state) = Inr (graph, checked)
    \<and> \<not> hasErrors checked
    \<and> gs (inventoryPath (cx_appRoot cx)) = Some (Text (serializeInventory (without_entry entry (ls_declared state))))
    \<and> (entry \<notin> set (if_plugins (ls_declared state)) \<longrightarrow> without_entry entry (ls_declared state) = ls_declared state)
    \<and> jget ''removed'' (the (rc_data result)) = JBool True"
proof -
  obtain p follow where plan: "plan = (p, follow)" by fastforce
  obtain ref state entry graph where r: "first_positional (cx_args cx) = Some ref"
      "loadState env fs (cx_appRoot cx) = Inr (Inr state)"
    and f: "find (same_instance (pluginIdOf ref) (instance_flag (cx_args cx))) (if_plugins (ls_inventory state)) = Some entry"
    and k: "checkInventory env (without_entry entry (ls_declared state)) (ls_manifests state) = Inr (graph, cp_diagnostics p)"
      "\<not> hasErrors (cp_diagnostics p)"
      "cp_changes p = [inventoryChange fs (cx_appRoot cx) (Some (ls_declared state)) (without_entry entry (ls_declared state))]"
    using remove_prepare_plan assms(2) unfolding plan by blast
  have fin: "finish_plan ''remove'' ''removed'' (cx_appRoot cx) False p follow fs = (Inr result, gs)"
    using assms plan by (simp add: remove_def run_plan_def)
  then obtain ws where "applyPlan (cx_appRoot cx) p fs = (Inr ws, gs)" using finish_plan_applied by blast
  then have disk: "gs (inventoryPath (cx_appRoot cx)) = Some (Text (serializeInventory (without_entry entry (ls_declared state))))"
    using applied_inventory [OF r(2), where d = None] k(3) by simp
  have e: "entry \<in> set (if_plugins (ls_inventory state))" "same_instance (pluginIdOf ref) (instance_flag (cx_args cx)) entry"
    using f by (auto simp: find_Some_iff)
  have same: "entry \<notin> set (if_plugins (ls_declared state)) \<longrightarrow> without_entry entry (ls_declared state) = ls_declared state"
  proof
    assume "entry \<notin> set (if_plugins (ls_declared state))"
    then have "filter (\<lambda>e. e \<noteq> entry) (if_plugins (ls_declared state)) = if_plugins (ls_declared state)"
      by (auto intro: filter_True)
    then show "without_entry entry (ls_declared state) = ls_declared state" by (simp add: without_entry_def)
  qed
  have "jget ''removed'' (the (rc_data result)) = JBool True"
    using fin by (auto simp: finish_plan_def result_of_def jget_def split: prod.splits sum.splits)
  with r e k(1,2) disk same show ?thesis by blast
qed

section \<open>Building twice\<close>

lemma lock_file_apart: "lockfilePath appRoot \<notin> (\<lambda>p. path_join [appRoot, p]) ` set GENERATED_PATHS"
proof -
  have "list_all plain_path (LOCKFILE_NAME # GENERATED_PATHS)" "LOCKFILE_NAME \<notin> set GENERATED_PATHS" by code_simp+
  then show ?thesis by (auto simp: lockfilePath_def path_join_inj list_all_iff)
qed

lemma generated_distinct:
  assumes "generateAll env fs input = Inr as"
  shows "distinct (map (artifact_file appRoot) as)"
proof -
  have g: "list_all plain_path GENERATED_PATHS" "distinct GENERATED_PATHS" by code_simp+
  have m: "mset (map ga_path as) = mset GENERATED_PATHS" using generator_paths [OF assms] .
  have "distinct (map ga_path as)" using g(2) mset_eq_imp_distinct_iff [OF m] by simp
  moreover have "\<forall>a\<in>set as. plain_path (ga_path a)"
    using g(1) mset_eq_setD [OF m] by (auto simp: list_all_iff)
  ultimately show ?thesis by (intro distinct_artifact_files)
qed

lemma locked_artifacts_distinct:
  assumes "generateAll env fs input = Inr as" and "buildLockfile hash fs input as dirs = Inr lock"
  shows "distinct (map ka_path (lk_artifacts lock))"
proof -
  have "distinct GENERATED_PATHS" by code_simp
  then have "distinct (map ga_path as)"
    using mset_eq_imp_distinct_iff [OF generator_paths [OF assms(1)]] by simp
  moreover have "lk_artifacts lock = sort_key ka_path (map (locked_artifact_of hash) as)"
    using assms(2) by (auto simp: buildLockfile_def bind_result_Inr_iff Let_def)
  moreover have "map ka_path (map (locked_artifact_of hash) as) = map ga_path as"
    by (simp add: locked_artifact_of_def)
  ultimately show ?thesis by (simp only: distinct_sort_map)
qed

text \<open>Every output of a generation is on disk.\<close>

definition generation_stored :: "string \<Rightarrow> generation \<Rightarrow> files \<Rightarrow> bool" where
  "generation_stored appRoot g fs \<longleftrightarrow>
     list_all (up_to_date fs appRoot) (gn_artifacts g)
     \<and> fs (lockfilePath appRoot) = Some (Text (serializeLockfile (gn_lock g)))"

definition store_generation :: "string \<Rightarrow> generation \<Rightarrow> files \<Rightarrow> files" where
  "store_generation appRoot g fs =
     (store_artifacts appRoot (gn_artifacts g) fs)(lockfilePath appRoot \<mapsto> Text (serializeLockfile (gn_lock g)))"

lemma up_to_date_accessible: "up_to_date fs appRoot a \<Longrightarrow> accessible fs (artifact_file appRoot a)"
  by (simp add: up_to_date_def accessible_def)

lemma store_artifacts_current:
  "list_all (up_to_date fs appRoot) as \<Longrightarrow> store_artifacts appRoot as fs = fs"
  by (induction as) (auto simp: store_artifacts_def up_to_date_def map_upd_triv)

lemma write_stored_generation:
  assumes "generation_stored appRoot g fs" and "distinct (map (artifact_file appRoot) (gn_artifacts g))"
  shows "write_generation appRoot g fs = (Inr (build_result g []), fs)"
proof -
  have cur: "list_all (up_to_date fs appRoot) (gn_artifacts g)"
    and l: "fs (lockfilePath appRoot) = Some (Text (serializeLockfile (gn_lock g)))"
    using assms(1) by (simp_all add: generation_stored_def)
  then have acc: "\<forall>a\<in>set (gn_artifacts g). accessible fs (artifact_file appRoot a)"
    and none: "filter (\<lambda>a. \<not> up_to_date fs appRoot a) (gn_artifacts g) = []"
    by (auto simp: list_all_iff up_to_date_accessible filter_empty_conv)
  have "writeArtifacts appRoot (gn_artifacts g) fs = (Inr [], fs)"
    using write_artifacts_writes [OF acc assms(2), of "[]"] none store_artifacts_current [OF cur]
    by (simp add: writeArtifacts_def)
  moreover have "writeLockfile appRoot (gn_lock g) fs = Inr (False, fs)"
    using l by (simp add: writeLockfile_def Let_def holds_text_True [THEN iffD2])
  ultimately show ?thesis by (simp add: write_generation_def)
qed

lemma write_new_generation:
  assumes "\<forall>p\<in>writes_only appRoot ''build''. accessible fs p" and "generateAll env fs0 input = Inr (gn_artifacts g)"
  shows "(\<exists>written. write_generation appRoot g fs = (Inr (build_result g written), store_generation appRoot g fs))
    \<and> generation_stored appRoot g (store_generation appRoot g fs)"
proof -
  let ?as = "gn_artifacts g" and ?p = "lockfilePath appRoot" and ?t = "serializeLockfile (gn_lock g)"
  let ?gs = "store_artifacts appRoot ?as fs"
  have d: "distinct (map (artifact_file appRoot) ?as)" by (rule generated_distinct [OF assms(2)])
  have files: "artifact_file appRoot ` set ?as = (\<lambda>p. path_join [appRoot, p]) ` set GENERATED_PATHS"
    by (rule generated_files [OF assms(2)])
  have acc: "\<forall>a\<in>set ?as. accessible fs (artifact_file appRoot a)"
    using assms(1) files by (fastforce simp: writes_only_def)
  have p: "?p \<notin> artifact_file appRoot ` set ?as" using lock_file_apart files by simp
  then have lp: "?gs ?p = fs ?p" by (rule store_other)
  then have la: "\<forall>c. ?gs ?p \<noteq> Some (Unreadable c)" using assms(1) by (simp add: writes_only_def accessible_def)
  obtain ws where w: "writeArtifacts appRoot ?as fs = (Inr ws, ?gs)"
    using write_artifacts_writes [OF acc d, of "[]"] by (simp add: writeArtifacts_def)
  have "\<exists>b. writeLockfile appRoot (gn_lock g) ?gs = Inr (b, store_generation appRoot g fs)"
    using holds_text_readable [of ?gs ?p ?t] la
    by (auto simp: writeLockfile_def Let_def store_generation_def writeFileSync_def split: option.split fs_entry.split)
  then have "\<exists>written. write_generation appRoot g fs = (Inr (build_result g written), store_generation appRoot g fs)"
    using w by (auto simp: write_generation_def)
  moreover have "up_to_date (store_generation appRoot g fs) appRoot a" if "a \<in> set ?as" for a
  proof -
    have "artifact_file appRoot a \<noteq> ?p" using p that by (metis imageI)
    then show ?thesis using store_current [OF d that, of fs] by (simp add: up_to_date_def store_generation_def)
  qed
  ultimately show ?thesis by (simp add: generation_stored_def list_all_iff store_generation_def)
qed

lemma stored_lock_is_read:
  assumes "fs (lockfilePath appRoot) = Some (Text (serializeLockfile lock))"
    and "ce_parse env (serializeLockfile lock) = Inr (lock_document lock)"
  shows "readLockfile env fs appRoot = Some lock"
proof -
  have "jget ''schemaVersion'' (lock_document lock) = JStr LOCK_SCHEMA_VERSION"
    by (simp add: lock_document_def jget_def)
  with assms show ?thesis by (simp add: readLockfile_def parse_file_def readFileSync_def as_lockfile_document)
qed

lemma check_stored_generation:
  assumes "generation_stored appRoot g fs"
    and "ce_parse env (serializeLockfile (gn_lock g)) = Inr (lock_document (gn_lock g))"
    and "distinct (map kp_name (lk_packages (gn_lock g)))" and "distinct (map ka_path (lk_artifacts (gn_lock g)))"
  shows "\<exists>result. check_generation env fs appRoot g = Inr result \<and> rc_exitCode result = ExitOK"
proof -
  have cur: "list_all (up_to_date fs appRoot) (gn_artifacts g)"
    and l: "fs (lockfilePath appRoot) = Some (Text (serializeLockfile (gn_lock g)))"
    using assms(1) by (simp_all add: generation_stored_def)
  then have acc: "\<forall>a\<in>set (gn_artifacts g). accessible fs (artifact_file appRoot a)"
    and none: "filter (\<lambda>a. \<not> up_to_date fs appRoot a) (gn_artifacts g) = []"
    by (auto simp: list_all_iff up_to_date_accessible filter_empty_conv)
  have "detectDrift fs appRoot (gn_artifacts g) = Inr []" using detectDrift_accessible [OF acc] none by simp
  moreover have "readLockfile env fs appRoot = Some (gn_lock g)" using l assms(2) by (rule stored_lock_is_read)
  moreover have "compareLockfile (Some (gn_lock g)) (gn_lock g) = []" using compare_clean [OF assms(3,3,4)] by simp
  ultimately show ?thesis by (simp add: check_generation_def result_of_def)
qed

text \<open>
  The generation reads none of the files it writes: changing these leaves what it prepares as it is.
\<close>

definition outputs_are_no_inputs :: "cli_env \<Rightarrow> command_context \<Rightarrow> files \<Rightarrow> bool" where
  "outputs_are_no_inputs env cx fs \<longleftrightarrow>
     (\<forall>hs. (\<forall>p. p \<in> writes_only (cx_appRoot cx) ''build'' \<or> hs p = fs p) \<longrightarrow> build_prepare env cx hs = build_prepare env cx fs)"

text \<open>
  C39. A \<open>build\<close> that is not refused writes every generated file and the lock, and is then
  up to date: \<open>build --check\<close> on the result reports \<open>OK\<close>, and a second
  \<open>build\<close> writes nothing. Hypotheses: the outputs can be read and written and are no inputs
  of the generation, \<open>JSON.parse\<close> inverts \<open>JSON.stringify\<close> on the lock, and no package
  is installed under two names.
\<close>

theorem build_is_current_after_build:
  assumes "build_prepare env cx fs = Inr (Inr g)" and "\<not> flag_set (cx_args cx) ''check''"
    and "outputs_are_no_inputs env cx fs" and "\<forall>p\<in>writes_only (cx_appRoot cx) ''build''. accessible fs p"
    and "ce_parse env (serializeLockfile (gn_lock g)) = Inr (lock_document (gn_lock g))"
    and "distinct (map kp_name (lk_packages (gn_lock g)))"
    and "cx_appRoot check = cx_appRoot cx" and "cx_version check = cx_version cx" and "flag_set (cx_args check) ''check''"
  shows "\<exists>result gs checked. build env cx fs = (Inr result, gs) \<and> rc_exitCode result = ExitOK
    \<and> build env check gs = (Inr checked, gs) \<and> rc_exitCode checked = ExitOK
    \<and> build env cx gs = (Inr (build_result g []), gs)"
proof -
  let ?root = "cx_appRoot cx"
  obtain input where i: "generateAll env fs input = Inr (gn_artifacts g)"
      "buildLockfile (hash_of env) fs input (gn_artifacts g) (ms_packageDirs (gi_manifests input)) = Inr (gn_lock g)"
    using build_prepare_artifacts [OF assms(1)] by blast
  let ?gs = "store_generation ?root g fs"
  obtain written where w: "write_generation ?root g fs = (Inr (build_result g written), ?gs)"
    and st: "generation_stored ?root g ?gs"
    using write_new_generation [OF assms(4) i(1)] by blast
  have "?gs p = fs p" if "p \<notin> writes_only ?root ''build''" for p
    using that generated_files [OF i(1), of ?root]
    by (simp add: store_generation_def writes_only_def store_other)
  then have prep: "build_prepare env cx ?gs = Inr (Inr g)"
    using assms(1,3) unfolding outputs_are_no_inputs_def by metis
  moreover have "build_prepare env check ?gs = build_prepare env cx ?gs"
    unfolding build_prepare_def assms(7,8) by (rule refl)
  ultimately have prep': "build_prepare env check ?gs = Inr (Inr g)" by simp
  obtain checked where c: "check_generation env ?gs ?root g = Inr checked" "rc_exitCode checked = ExitOK"
    using check_stored_generation [OF st assms(5,6) locked_artifacts_distinct [OF i]] by blast
  have "build env cx fs = (Inr (build_result g written), ?gs)" using assms(1,2) w by (simp add: build_def)
  moreover have "build env check ?gs = (Inr checked, ?gs)" using prep' assms(7,9) c by (simp add: build_def)
  moreover have "build env cx ?gs = (Inr (build_result g []), ?gs)"
    using prep assms(2) write_stored_generation [OF st generated_distinct [OF i(1)]] by (simp add: build_def)
  ultimately show ?thesis using c(2) by (auto simp: build_result_def result_of_def)
qed

section \<open>An App with one plugin\<close>

definition ex_app_files :: files where
  "ex_app_files = files_of
     (ex_modules @ [(''/app/appspine.plugins.json'', ''I''), (''/app/package.json'', ''K'')])"

definition ex_app_env :: "jv list \<Rightarrow> cli_env" where
  "ex_app_env plugins = table_env
     (ex_texts @ [(''I'', JObj [(''plugins'', JArr plugins)]), (''K'', JObj [(''name'', JStr ''app'')])])"

definition ex_cx :: "string list \<Rightarrow> command_context" where
  "ex_cx argv = \<lparr>cx_appRoot = ''/app'', cx_args = parseArgs argv, cx_version = ''2.0.0''\<rparr>"

definition ex_notes_entry :: inventory_entry where
  "ex_notes_entry = \<lparr>ie_plugin = ''notes'', ie_instanceId = ''default'', ie_enabled = True, ie_required = True,
     ie_configRef = None\<rparr>"

definition prepared :: "failure + 'b + 'a \<Rightarrow> bool" where
  "prepared r = (case r of Inr (Inr _) \<Rightarrow> True | _ \<Rightarrow> False)"

lemma prepared_iff: "prepared r \<longleftrightarrow> (\<exists>a. r = Inr (Inr a))"
  by (auto simp: prepared_def split: sum.split)


lemma ex_remove_prepared:
  "prepared (remove_prepare (ex_app_env [entry_doc ex_notes_entry]) (ex_cx [''remove'', ''notes'']) ex_app_files)"
  by code_simp

lemma ex_not_dry: "\<not> flag_set (cx_args (ex_cx [''add'', ''notes''])) ''dry-run''"
  "\<not> flag_set (cx_args (ex_cx [''remove'', ''notes''])) ''dry-run''"
  by code_simp+

theorem commands_write_only_their_files_witness:
  "\<forall>env w. cw_files (snd (writing (add env) (ex_cx [''add'', ''notes'', ''--dry-run'']) w)) = cw_files w"
proof (intro allI)
  fix env :: cli_env and w
  have dry: "report_only ''add'' (cx_args (ex_cx [''add'', ''notes'', ''--dry-run'']))" by code_simp
  have "COMMANDS env ! 0 \<in> set (COMMANDS env)" by (simp add: COMMANDS_def)
  from bspec [OF commands_write_only_their_files this, of "ex_cx [''add'', ''notes'', ''--dry-run'']" w] dry
  show "cw_files (snd (writing (add env) (ex_cx [''add'', ''notes'', ''--dry-run'']) w)) = cw_files w"
    by (simp add: COMMANDS_def split: prod.splits)
qed

lemma run_plan_writes:
  assumes "prepare cx fs = Inr (Inr plan)" and "\<forall>p e. fs p \<noteq> Some (Unreadable e)"
  shows "\<exists>result gs. run_plan command outcome prepare cx fs = (Inr result, gs)"
proof -
  have "\<exists>ws gs. applyPlan (cx_appRoot cx) (fst plan) fs = (Inr ws, gs)"
    using apply_changes_writes [of "cp_changes (fst plan)" fs "cx_appRoot cx" "[]"] assms(2)
    by (simp add: applyPlan_def writable_def)
  then show ?thesis using assms(1) by (auto simp: run_plan_def finish_plan_def split: prod.split)
qed

lemma ex_app_files_readable: "\<forall>p e. ex_app_files p \<noteq> Some (Unreadable e)"
  by (simp add: ex_app_files_def files_of_def)


theorem accepted_remove_is_on_disk_witness:
  "\<exists>result. fst (remove (ex_app_env [entry_doc ex_notes_entry]) (ex_cx [''remove'', ''notes'']) ex_app_files) = Inr result
     \<and> jget ''removed'' (the (rc_data result)) = JBool True"
proof -
  let ?env = "ex_app_env [entry_doc ex_notes_entry]" and ?cx = "ex_cx [''remove'', ''notes'']"
  obtain plan where p: "remove_prepare ?env ?cx ex_app_files = Inr (Inr plan)"
    using ex_remove_prepared by (auto simp: prepared_iff)
  then obtain result gs where r: "remove ?env ?cx ex_app_files = (Inr result, gs)"
    unfolding remove_def using run_plan_writes ex_app_files_readable by blast
  from accepted_remove_is_on_disk [OF r p ex_not_dry(2)] r show ?thesis by auto
qed

section \<open>An App without plugins\<close>

definition no_plugins :: jv where
  "no_plugins = JObj [(''plugins'', JArr [])]"

text \<open>\<open>JSON.parse\<close> knows the text \<open>I\<close> of the inventory; any other text is the document of a lock.\<close>

definition empty_env :: "plugin_lockfile \<Rightarrow> cli_env" where
  "empty_env lock = (table_env [])\<lparr>ce_loader := ex_env\<lparr>le_hash := (\<lambda>_. ''h'')\<rparr>,
     ce_parse := (\<lambda>t. Inr (if t = ''I'' then no_plugins else lock_document lock))\<rparr>"

definition empty_files :: files where
  "empty_files = files_of [(''/app/appspine.plugins.json'', ''I'')]"

definition empty_state :: loaded_state where
  "empty_state = \<lparr>ls_inventory = emptyInventory, ls_declared = emptyInventory,
     ls_expanded = \<lparr>ex_entries = [], ex_provenance = [], ex_presets = [], ex_diagnostics = []\<rparr>,
     ls_manifests = empty_manifests, ls_diagnostics = []\<rparr>"

definition build_cx :: "string list \<Rightarrow> command_context" where
  "build_cx argv = \<lparr>cx_appRoot = ''/app'', cx_args = parseArgs argv, cx_version = ''2.0.0''\<rparr>"

lemma empty_loads:
  assumes "fs (inventoryPath ''/app'') = Some (Text ''I'')"
  shows "loadState (empty_env lock) fs ''/app'' = Inr (Inr empty_state)"
proof -
  have "parseInventory (empty_env lock) no_plugins = Inr (emptyInventory, [])"
    by (simp add: parseInventory_def empty_env_def table_env_def no_plugins_def semanticDiagnostics_def) code_simp
  then have "readInventory (empty_env lock) fs ''/app'' False = Inr (Inr (emptyInventory, []))"
    using assms by (simp add: readInventory_def readFileSync_def empty_env_def)
  moreover have "expandPresets (empty_env lock) fs ''/app'' emptyInventory
      = Inr \<lparr>ex_entries = [], ex_provenance = [], ex_presets = [], ex_diagnostics = []\<rparr>"
    by (simp add: expandPresets_def emptyInventory_def empty_expansion_def)
  moreover have "readManifestsFor (empty_env lock) fs ''/app'' [] default_lookup = Inr empty_manifests"
    by (simp add: readManifestsFor_def set_of_def)
  ultimately show ?thesis
    by (simp add: loadState_def empty_state_def emptyInventory_def empty_manifests_def)
qed

definition empty_graph :: resolution_graph where
  "empty_graph = (case resolvePlugins (\<lambda>_. ''h'') \<lparr>ro_inventory = [], ro_manifests = [],
       ro_hostCapabilities = Some AMBIENT_CAPABILITIES, ro_officialScope = None\<rparr> of Inr (Inr g) \<Rightarrow> g | _ \<Rightarrow> ex_graph0)"

lemma empty_resolves:
  "resolvePlugins (\<lambda>_. ''h'') \<lparr>ro_inventory = [], ro_manifests = [],
       ro_hostCapabilities = Some AMBIENT_CAPABILITIES, ro_officialScope = None\<rparr> = Inr (Inr empty_graph)"
  "rg_diagnostics empty_graph = []" "rg_instances empty_graph = []" "rg_order empty_graph = []"
proof -
  have "case resolvePlugins (\<lambda>_. ''h'') \<lparr>ro_inventory = [], ro_manifests = [],
      ro_hostCapabilities = Some AMBIENT_CAPABILITIES, ro_officialScope = None\<rparr> of
      Inr (Inr g) \<Rightarrow> rg_diagnostics g = [] \<and> rg_instances g = [] \<and> rg_order g = [] | _ \<Rightarrow> False"
    by code_simp
  then show "resolvePlugins (\<lambda>_. ''h'') \<lparr>ro_inventory = [], ro_manifests = [],
       ro_hostCapabilities = Some AMBIENT_CAPABILITIES, ro_officialScope = None\<rparr> = Inr (Inr empty_graph)"
    "rg_diagnostics empty_graph = []" "rg_instances empty_graph = []" "rg_order empty_graph = []"
    by (auto simp: empty_graph_def split: sum.splits)
qed

lemma empty_check:
  "checkInventory (empty_env lock) (ls_inventory empty_state) (ls_manifests empty_state) = Inr (Some empty_graph, [])"
  by (simp add: checkInventory_def resolveInventory_def empty_state_def empty_manifests_def emptyInventory_def
      hash_of_def empty_env_def empty_resolves checkConfigBoundary_def)

definition empty_input :: generation_input where
  "empty_input = generation_of empty_state empty_graph ''2.0.0''"

lemma empty_input_fields [simp]:
  "gi_graph empty_input = empty_graph" "loaded_manifests empty_input = []"
  "gi_manifests empty_input = empty_manifests" "rg_instances empty_graph = []" "rg_order empty_graph = []"
  by (simp_all add: empty_input_def generation_of_def loaded_manifests_def empty_state_def empty_manifests_def
      empty_resolves)

lemma empty_frontend [simp]: "getActiveFrontendPlugins empty_input = []"
  by (simp add: getActiveFrontendPlugins_def)

lemma empty_sorted [simp]: "sortWithDependencies collate [] = Inr []"
  by (simp add: sortWithDependencies_def)

lemma empty_frontend_rows [simp]:
  "nav_rows empty_input = []" "admin_routes collate empty_input = Inr []"
  "slot_groups collate empty_input = Inr []" "i18n_rows collate empty_input = Inr []"
  by (simp_all add: nav_rows_def admin_routes_def declared_routes_def slot_groups_def slot_rows_def i18n_rows_def multi_of_def)

lemma empty_composes:
  "\<exists>r. (\<forall>lock fs. compose (empty_env lock) fs (\<lambda>_. ''h'') empty_input = Inr r) \<and> cr_schema r \<noteq> None"
  by (simp add: compose_def collectPrismaContributions_def compose_contributions_def validateContributions_def
      claims_def sourceDigest_ok empty_env_def table_env_def Let_def)

lemma pretty_object: "pretty 0 (JObj kvs) @ t \<noteq> ''I''"
  by (simp add: bracketed_def)

lemma lock_text_is_object: "serializeLockfile lock \<noteq> ''I''"
  unfolding serializeLockfile_def json_text_def lock_document_def by (rule pretty_object)

lemma empty_hash: "hash_of (empty_env lock) = (\<lambda>_. ''h'')"
  by (simp add: hash_of_def empty_env_def)

lemma empty_frontend_file: "is_ok (frontend_file hash empty_input path ls)"
  by (simp add: frontend_file_def sourceDigest_ok is_ok_def)

lemma empty_generates: "\<exists>as. \<forall>lock fs. generateAll (empty_env lock) fs empty_input = Inr as"
proof -
  let ?h = "\<lambda>_::string. ''h''"
  obtain r where r: "\<And>lock fs. compose (empty_env lock) fs ?h empty_input = Inr r" using empty_composes by blast
  obtain a b c where abc: "generateCatalog ?h empty_input = Inr a" "generateComposition ?h empty_input = Inr b"
      "generatePermissionPlan ?h empty_input = Inr c"
    by (simp add: generateCatalog_def generateComposition_def generatePermissionPlan_def sourceDigest_ok split_beta)
  obtain p where p: "\<And>lock fs. generatePrismaSchema (empty_env lock) fs ?h empty_input = Inr p"
    by (simp add: generatePrismaSchema_def r)
  have n: "\<exists>x. \<forall>lock. generateFrontendNavigation (empty_env lock) ?h empty_input = Inr x"
    and m: "\<exists>x. \<forall>lock. generateFrontendAdminRoutes (empty_env lock) ?h empty_input = Inr x"
    and s: "\<exists>x. \<forall>lock. generateFrontendSlots (empty_env lock) ?h empty_input = Inr x"
    and i: "\<exists>x. \<forall>lock. generateFrontendI18n (empty_env lock) ?h empty_input = Inr x"
    by (simp_all add: generateFrontendNavigation_def generateFrontendAdminRoutes_def generateFrontendSlots_def
        generateFrontendI18n_def is_ok_exists [OF empty_frontend_file])
  from n obtain x where x: "\<And>lock. generateFrontendNavigation (empty_env lock) ?h empty_input = Inr x" by blast
  from m obtain y where y: "\<And>lock. generateFrontendAdminRoutes (empty_env lock) ?h empty_input = Inr y" by blast
  from s obtain z where z: "\<And>lock. generateFrontendSlots (empty_env lock) ?h empty_input = Inr z" by blast
  from i obtain w where w: "\<And>lock. generateFrontendI18n (empty_env lock) ?h empty_input = Inr w" by blast
  have "generateAll (empty_env lock) fs empty_input = Inr (sort_key ga_path [a, b, p, c, x, y, z, w])" for lock fs
    unfolding generateAll_def GENERATORS_def Let_def empty_hash by (simp only: list.map abc p x y z w collect.simps bind_result_simps)
  then show ?thesis by blast
qed

lemma empty_builds:
  "\<exists>g. (\<forall>lock fs argv. fs (inventoryPath ''/app'') = Some (Text ''I'') \<longrightarrow>
       build_prepare (empty_env lock) (build_cx argv) fs = Inr (Inr g)) \<and> lk_packages (gn_lock g) = []"
proof -
  obtain r where r: "\<And>lock fs. compose (empty_env lock) fs (\<lambda>_. ''h'') empty_input = Inr r" "cr_schema r \<noteq> None"
    using empty_composes by blast
  obtain as where as: "\<And>lock fs. generateAll (empty_env lock) fs empty_input = Inr as" using empty_generates by blast
  obtain l where l: "\<And>fs. buildLockfile (\<lambda>_. ''h'') fs empty_input as (ms_packageDirs empty_manifests) = Inr l"
    "lk_packages l = []"
    by (simp add: buildLockfile_def)
  obtain d where d: "sourceDigest (\<lambda>_. ''h'') empty_input = Inr d" by (simp add: sourceDigest_ok)
  let ?g = "\<lparr>gn_artifacts = as, gn_lock = l, gn_preflight = compositionPreflight empty_input @ cr_diagnostics r,
     gn_prisma = r, gn_sourceDigest = d\<rparr>"
  have g: "generate_from (empty_env lock) fs empty_input = Inr (Inr ?g)" for lock fs
    using r(2) by (simp add: generate_from_def empty_hash r(1) as l(1) d)
  have "build_prepare (empty_env lock) (build_cx argv) fs = Inr (Inr ?g)"
    if "fs (inventoryPath ''/app'') = Some (Text ''I'')" for lock fs argv
  proof -
    have "loadState (empty_env lock) fs (cx_appRoot (build_cx argv)) = Inr (Inr empty_state)"
      using that by (simp add: build_cx_def empty_loads)
    moreover have "ms_missing (ls_manifests empty_state) = []" by (simp add: empty_state_def empty_manifests_def)
    moreover have "generation_of empty_state empty_graph (cx_version (build_cx argv)) = empty_input"
      by (simp add: build_cx_def empty_input_def)
    ultimately show ?thesis by (simp add: build_prepare_def empty_check g)
  qed
  with l(2) show ?thesis by (intro exI [of _ ?g]) simp
qed

theorem build_is_current_after_build_witness:
  "\<exists>env result gs checked. build env (build_cx [''build'']) empty_files = (Inr result, gs) \<and> rc_exitCode result = ExitOK
    \<and> build env (build_cx [''build'', ''--check'']) gs = (Inr checked, gs) \<and> rc_exitCode checked = ExitOK"
proof -
  obtain g where g: "\<And>lock fs argv. fs (inventoryPath ''/app'') = Some (Text ''I'') \<Longrightarrow>
      build_prepare (empty_env lock) (build_cx argv) fs = Inr (Inr g)" and p: "lk_packages (gn_lock g) = []"
    using empty_builds by blast
  let ?env = "empty_env (gn_lock g)" and ?cx = "build_cx [''build'']" and ?check = "build_cx [''build'', ''--check'']"
  have i: "inventoryPath ''/app'' = ''/app/appspine.plugins.json''" by code_simp
  have "list_all (\<lambda>p. path_join [''/app'', p] \<noteq> ''/app/appspine.plugins.json'') (LOCKFILE_NAME # GENERATED_PATHS)" by code_simp
  then have out: "inventoryPath ''/app'' \<notin> writes_only (cx_appRoot ?cx) ''build''" 
    by (auto simp: i writes_only_def list_all_iff build_cx_def lockfilePath_def)
  have f: "empty_files (inventoryPath ''/app'') = Some (Text ''I'')" by (simp add: i empty_files_def files_of_def)
  have prep: "build_prepare ?env ?cx empty_files = Inr (Inr g)" using f by (rule g)
  have apart: "outputs_are_no_inputs ?env ?cx empty_files"
    unfolding outputs_are_no_inputs_def using f out by (metis g)
  have acc: "\<forall>p\<in>writes_only (cx_appRoot ?cx) ''build''. accessible empty_files p"
    by (simp add: accessible_def empty_files_def files_of_def)
  have parse: "ce_parse ?env (serializeLockfile (gn_lock g)) = Inr (lock_document (gn_lock g))"
    by (simp add: empty_env_def lock_text_is_object)
  have flags: "\<not> flag_set (cx_args ?cx) ''check''" "flag_set (cx_args ?check) ''check''"
    "cx_appRoot ?check = cx_appRoot ?cx" "cx_version ?check = cx_version ?cx"
    by code_simp+
  show ?thesis
    using build_is_current_after_build [OF prep flags(1) apart acc parse _ flags(3,4,2)] p by auto
qed

end
