(* ===== verification/Contracts.thy ===== *)
theory Contracts
  imports Complex_Main Canonicalize
begin

text \<open>
  Contracts between applications: \<open>integration-contracts/src/canonical.ts\<close>,
  \<open>envelope.ts\<close>, \<open>delivery.ts\<close> and \<open>manifest.ts\<close>.
  The lemmas show which values have a canonical text and when two texts agree, how this text is
  related to the one of \<open>@appspine/plugin-api\<close>, that frozen metadata carries the digest of
  its payload, and how a delivery outcome follows from an HTTP response.
\<close>

section \<open>Canonical JSON\<close>

text \<open>An error is the message of the exception that is thrown.\<close>

definition unsupported :: "string \<Rightarrow> string \<Rightarrow> string" where
  "unsupported t path =
     (if t = ''bigint'' then ''BigInt is not JSON data at '' @ path
      else if t = ''object'' then ''Non-plain object is not JSON data at '' @ path
      else ''Unsupported JSON value at '' @ path)"

fun canonical_text :: "jv \<Rightarrow> string \<Rightarrow> string + string"
  and canonical_items :: "jv list \<Rightarrow> string \<Rightarrow> nat \<Rightarrow> (string + string) list"
  and canonical_fields :: "(string \<times> jv) list \<Rightarrow> string \<Rightarrow> (string \<times> (string + string)) list" where
  "canonical_text JNull path = Inr ''null''"
| "canonical_text (JStr s) path = Inr (quote s)"
| "canonical_text (JBool b) path = Inr (if b then ''true'' else ''false'')"
| "canonical_text (JNum n) path = Inr (show_int n)"
| "canonical_text (JNonFinite s) path = Inl (''Non-finite number at '' @ path)"
| "canonical_text JUndefined path = Inl (''Undefined is not JSON data at '' @ path)"
| "canonical_text (JOpaque t) path = Inl (unsupported t path)"
| "canonical_text (JArr xs) path =
     bind_result (collect (canonical_items xs path 0)) (\<lambda>ts. Inr (''['' @ join '','' ts @ '']''))"
| "canonical_text (JObj kvs) path =
     bind_result (collect (map (\<lambda>(k, r). bind_result r (\<lambda>t. Inr (quote k @ '':'' @ t)))
         (sort_key fst (canonical_fields kvs path))))
       (\<lambda>ts. Inr (''{'' @ join '','' ts @ ''}''))"
| "canonical_items [] path i = []"
| "canonical_items (x # xs) path i =
     canonical_text x (path @ ''['' @ show_nat i @ '']'') # canonical_items xs path (Suc i)"
| "canonical_fields [] path = []"
| "canonical_fields ((k, x) # kvs) path = (k, canonical_text x (path @ ''.'' @ k)) # canonical_fields kvs path"

definition canonicalJson :: "jv \<Rightarrow> string + string" where
  "canonicalJson v = canonical_text v ''$''"

definition sha256Digest :: "(string \<Rightarrow> string) \<Rightarrow> jv \<Rightarrow> string + string" where
  "sha256Digest hash v = bind_result (canonicalJson v) (\<lambda>t. Inr (''sha256:'' @ hash t))"

text \<open>
  What \<open>JSON.parse\<close> makes of a canonical text: the keys of every object arrive sorted, and
  the object enumerates them with the array indices first.
\<close>

fun reparsed :: "jv \<Rightarrow> jv"
  and reparsed_items :: "jv list \<Rightarrow> jv list"
  and reparsed_fields :: "(string \<times> jv) list \<Rightarrow> (string \<times> jv) list" where
  "reparsed (JArr xs) = JArr (reparsed_items xs)"
| "reparsed (JObj kvs) = JObj (own_order (sort_key fst (reparsed_fields kvs)))"
| "reparsed v = v"
| "reparsed_items [] = []"
| "reparsed_items (x # xs) = reparsed x # reparsed_items xs"
| "reparsed_fields [] = []"
| "reparsed_fields ((k, x) # kvs) = (k, reparsed x) # reparsed_fields kvs"

definition canonicalJsonValue :: "jv \<Rightarrow> string + jv" where
  "canonicalJsonValue v = bind_result (canonicalJson v) (\<lambda>_. Inr (reparsed v))"

section \<open>Frozen metadata and envelopes\<close>

text \<open>Freezing has no effect on values that are never updated.\<close>

definition freezeJsonValue :: "jv \<Rightarrow> string + jv" where
  "freezeJsonValue v = canonicalJsonValue v"

record integration_metadata =
  im_capabilityId :: string
  im_capabilityVersion :: string
  im_capabilityDigest :: "string option"
  im_bindingId :: string
  im_bindingVersion :: string
  im_envelopeVersion :: "string option"
  im_sourceApp :: string
  im_payload :: jv
  im_payloadDigest :: "string option"
  im_payloadSchema :: "jv option"

text \<open>A digest that is given must be the one of the payload; an empty one counts as not given.\<close>

definition checked_payload ::
    "(string \<Rightarrow> string) \<Rightarrow> string \<Rightarrow> jv \<Rightarrow> string option \<Rightarrow> string + jv \<times> string" where
  "checked_payload hash what payload given =
     bind_result (freezeJsonValue payload) (\<lambda>frozen.
     bind_result (sha256Digest hash frozen) (\<lambda>digest.
       if truthy given \<and> the given \<noteq> digest
       then Inl (what @ '' payload digest mismatch: expected '' @ the given @ '', got '' @ digest)
       else Inr (frozen, digest)))"

definition freezeIntegrationMetadata ::
    "(string \<Rightarrow> string) \<Rightarrow> integration_metadata \<Rightarrow> string + integration_metadata" where
  "freezeIntegrationMetadata hash input =
     bind_result (checked_payload hash ''Integration'' (im_payload input) (im_payloadDigest input)) (\<lambda>(payload, digest).
       Inr (input\<lparr>im_envelopeVersion := Some (coalesce (im_envelopeVersion input) ''2''),
                  im_payload := payload, im_payloadDigest := Some digest\<rparr>))"

record event_envelope =
  en_eventId :: string
  en_eventType :: string
  en_capabilityId :: string
  en_capabilityVersion :: string
  en_capabilityDigest :: string
  en_bindingId :: string
  en_bindingVersion :: string
  en_envelopeVersion :: string
  en_sourceApp :: string
  en_occurredAt :: string
  en_aggregateType :: string
  en_aggregateId :: string
  en_correlationId :: "string option"
  en_actorUserId :: "string option"
  en_payload :: jv
  en_payloadDigest :: string

text \<open>
  The input has the fields of the envelope, of which the version and the digest may be missing:
  they are separate arguments.
\<close>

definition buildExternalEventEnvelope ::
    "(string \<Rightarrow> string) \<Rightarrow> event_envelope \<Rightarrow> string option \<Rightarrow> string option \<Rightarrow> string + event_envelope" where
  "buildExternalEventEnvelope hash input version given =
     bind_result (checked_payload hash ''External event'' (en_payload input) given) (\<lambda>(payload, digest).
       Inr (input\<lparr>en_envelopeVersion := coalesce version ''2'', en_payload := payload,
                  en_payloadDigest := digest\<rparr>))"

section \<open>Delivery outcomes\<close>

text \<open>
  What the run time makes of a header: \<open>Number\<close> of a string when it is finite, and
  \<open>Date.parse\<close> when it is not NaN.
\<close>

record js_numbers =
  js_number :: "string \<Rightarrow> rat option"
  js_date :: "string \<Rightarrow> int option"

datatype outcome_kind = Processed | Retryable | Terminal

record delivery_outcome =
  do_kind :: outcome_kind
  do_status :: int
  do_eventId :: "string option"
  do_retryAfterMs :: "int option"
  do_reason :: "string option"

definition js_round :: "rat \<Rightarrow> int" where
  "js_round q = \<lfloor>q + 1 / 2\<rfloor>"

definition boundedRetryAfter :: "js_numbers \<Rightarrow> string option \<Rightarrow> int \<Rightarrow> int \<Rightarrow> int option" where
  "boundedRetryAfter js v maxMs nowMs =
     (if \<not> truthy v then None
      else case js_number js (the v) of
        Some seconds \<Rightarrow>
          if seconds \<ge> 0 then Some (min (js_round (seconds * 1000)) maxMs)
          else map_option (\<lambda>t. min (max (t - nowMs) 0) maxMs) (js_date js (the v))
      | None \<Rightarrow> map_option (\<lambda>t. min (max (t - nowMs) 0) maxMs) (js_date js (the v)))"

definition MAX_RETRY_AFTER :: int where
  "MAX_RETRY_AFTER = 86400000"

definition isAlreadyProcessed :: "jv \<Rightarrow> string option \<Rightarrow> bool" where
  "isAlreadyProcessed v expected \<longleftrightarrow>
     jget ''status'' v = JStr ''already_processed''
     \<and> (case jget ''eventId'' v of JStr e \<Rightarrow> expected = None \<or> expected = Some e | _ \<Rightarrow> False)"

definition outcome :: "outcome_kind \<Rightarrow> int \<Rightarrow> delivery_outcome" where
  "outcome kind status =
     \<lparr>do_kind = kind, do_status = status, do_eventId = None, do_retryAfterMs = None, do_reason = None\<rparr>"

definition classifyHttpOutcome ::
    "js_numbers \<Rightarrow> int \<Rightarrow> int \<Rightarrow> (string \<times> string) list \<Rightarrow> jv \<Rightarrow> string option \<Rightarrow> delivery_outcome" where
  "classifyHttpOutcome js nowMs status headers body expected =
     (if 200 \<le> status \<and> status < 300 then outcome Processed status
      else if status = 409 \<and> isAlreadyProcessed body expected
      then (outcome Processed status)\<lparr>do_eventId := jstr (jget ''eventId'' body), do_reason := Some ''already_processed''\<rparr>
      else if status \<in> {408, 425, 429} \<or> status \<ge> 500
      then (outcome Retryable status)\<lparr>do_retryAfterMs :=
             boundedRetryAfter js (map_of headers ''retry-after'') MAX_RETRY_AFTER nowMs\<rparr>
      else outcome Terminal status)"

section \<open>Contract manifests\<close>

record contract_manifest =
  cm_contractId :: string
  cm_version :: string
  cm_kind :: string
  cm_digest :: string
  cm_canonicalSource :: string
  cm_artifacts :: "(string \<times> string) list"

definition sortRecord :: "(string \<times> string) list \<Rightarrow> (string \<times> string) list" where
  "sortRecord r = own_order (sort_key fst r)"

definition unsigned_manifest :: "contract_manifest \<Rightarrow> jv" where
  "unsigned_manifest input = JObj
     [(''contractId'', JStr (cm_contractId input)), (''version'', JStr (cm_version input)),
      (''kind'', JStr (cm_kind input)), (''canonicalSource'', JStr (cm_canonicalSource input)),
      (''artifacts'', JObj (map (\<lambda>(k, v). (k, JStr v)) (sortRecord (cm_artifacts input))))]"

definition createContractManifest :: "(string \<Rightarrow> string) \<Rightarrow> contract_manifest \<Rightarrow> string + contract_manifest" where
  "createContractManifest hash input =
     bind_result (sha256Digest hash (unsigned_manifest input)) (\<lambda>digest.
       Inr (input\<lparr>cm_artifacts := sortRecord (cm_artifacts input), cm_digest := digest\<rparr>))"

definition verifyContractManifest :: "(string \<Rightarrow> string) \<Rightarrow> contract_manifest \<Rightarrow> string + bool" where
  "verifyContractManifest hash manifest =
     bind_result (createContractManifest hash manifest) (\<lambda>m. Inr (cm_digest m = cm_digest manifest))"

definition canonicalManifestInput :: "contract_manifest \<Rightarrow> string + string" where
  "canonicalManifestInput input = canonicalJson (unsigned_manifest input)"

definition isContractKind :: "jv \<Rightarrow> bool" where
  "isContractKind v \<longleftrightarrow> v = JStr ''capability'' \<or> v = JStr ''binding''"

section \<open>The canonical text of a document\<close>

fun plain_sorted :: "jv \<Rightarrow> jv"
  and plain_sorted_items :: "jv list \<Rightarrow> jv list"
  and plain_sorted_fields :: "(string \<times> jv) list \<Rightarrow> (string \<times> jv) list" where
  "plain_sorted (JArr xs) = JArr (plain_sorted_items xs)"
| "plain_sorted (JObj kvs) = JObj (sort_key fst (plain_sorted_fields kvs))"
| "plain_sorted v = v"
| "plain_sorted_items [] = []"
| "plain_sorted_items (x # xs) = plain_sorted x # plain_sorted_items xs"
| "plain_sorted_fields [] = []"
| "plain_sorted_fields ((k, v) # kvs) = (k, plain_sorted v) # plain_sorted_fields kvs"

lemma plain_sorted_items_map: "plain_sorted_items xs = map plain_sorted xs"
  by (induction xs) auto

lemma plain_sorted_fields_map: "plain_sorted_fields kvs = map (\<lambda>(k, v). (k, plain_sorted v)) kvs"
  by (induction kvs) auto

lemma is_doc_plain_sorted:
  "is_doc v \<Longrightarrow> is_doc (plain_sorted v)" "is_doc_items xs \<Longrightarrow> is_doc_items (plain_sorted_items xs)"
  "is_doc_fields kvs \<Longrightarrow> is_doc_fields (plain_sorted_fields kvs)"
  by (induction v and xs and kvs rule: plain_sorted_plain_sorted_items_plain_sorted_fields.induct)
    (auto simp: is_doc_fields_iff)

lemma stringify_doc_items: "is_doc_items xs \<Longrightarrow> stringify_items xs = map stringify xs"
  by (induction xs) (auto simp: is_doc_not_absent)

lemma stringify_doc_fields:
  "is_doc_fields kvs \<Longrightarrow> stringify_fields kvs = map (\<lambda>(k, v). quote k @ '':'' @ stringify v) kvs"
  by (induction kvs) (auto simp: is_doc_not_absent)

lemma canonical_text_doc:
  "is_doc v \<Longrightarrow> canonical_text v path = Inr (stringify (plain_sorted v))"
  "is_doc_items xs \<Longrightarrow> canonical_items xs path i = map (\<lambda>v. Inr (stringify v)) (plain_sorted_items xs)"
  "is_doc_fields kvs \<Longrightarrow> canonical_fields kvs path = map (\<lambda>(k, v). (k, Inr (stringify v))) (plain_sorted_fields kvs)"
proof (induction v path and xs path i and kvs path rule: canonical_text_canonical_items_canonical_fields.induct)
  case (8 xs path)
  then show ?case by (simp add: stringify_doc_items is_doc_plain_sorted)
next
  case (9 kvs path)
  let ?ps = "sort_key fst (plain_sorted_fields kvs)"
  have d: "is_doc_fields ?ps" using 9(2) is_doc_plain_sorted(3) by (simp add: is_doc_fields_iff)
  have "sort_key fst (canonical_fields kvs path) = map (\<lambda>(k, v). (k, Inr (stringify v))) ?ps"
    using 9 by (simp add: sort_key_fst_map)
  then have "map (\<lambda>(k, r). bind_result r (\<lambda>t. Inr (quote k @ '':'' @ t))) (sort_key fst (canonical_fields kvs path))
      = map (\<lambda>p. Inr (case p of (k, v) \<Rightarrow> quote k @ '':'' @ stringify v)) ?ps"
    by (simp add: comp_def split_beta)
  with d show ?case by (simp add: stringify_doc_fields)
qed auto

lemma canonicalJson_doc: "is_doc v \<Longrightarrow> canonicalJson v = Inr (stringify (plain_sorted v))"
  by (simp add: canonicalJson_def canonical_text_doc)

lemma canonical_text_not_doc:
  "canonical_text v path = Inr t \<Longrightarrow> is_doc v"
  "canonical_items xs path i = map Inr ts \<Longrightarrow> is_doc_items xs"
  "(\<forall>p\<in>set (canonical_fields kvs path). is_ok (snd p)) \<Longrightarrow> is_doc_fields kvs"
proof (induction v path and xs path i and kvs path arbitrary: t and ts
    rule: canonical_text_canonical_items_canonical_fields.induct)
  case (8 xs path)
  then show ?case by (auto simp: bind_result_Inr_iff collect_Inr_iff)
next
  case (9 kvs path)
  from 9(2) obtain ps where ps:
    "map (\<lambda>(k, r). bind_result r (\<lambda>t. Inr (quote k @ '':'' @ t))) (sort_key fst (canonical_fields kvs path)) = map Inr ps"
    by (auto simp: bind_result_Inr_iff collect_Inr_iff)
  have "is_ok (snd p)" if "p \<in> set (canonical_fields kvs path)" for p
    using map_Inr_all_ok [OF ps, of p] that by (cases p; cases "snd p") auto
  with 9(1) show ?case by simp
next
  case (11 x xs path i)
  then show ?case by (cases ts) auto
next
  case (13 k x kvs path)
  then show ?case by (cases "canonical_text x (path @ ''.'' @ k)") auto
qed auto

lemma canonicalJson_ok_iff: "(\<exists>t. canonicalJson v = Inr t) \<longleftrightarrow> is_doc v"
  using canonicalJson_doc canonical_text_not_doc(1) by (auto simp: canonicalJson_def)

section \<open>When two canonical texts agree\<close>

text \<open>The keys of every object are distinct; any key is allowed.\<close>

fun distinct_doc :: "jv \<Rightarrow> bool"
  and distinct_doc_items :: "jv list \<Rightarrow> bool"
  and distinct_doc_fields :: "(string \<times> jv) list \<Rightarrow> bool" where
  "distinct_doc (JArr xs) = distinct_doc_items xs"
| "distinct_doc (JObj kvs) = (distinct (map fst kvs) \<and> distinct_doc_fields kvs)"
| "distinct_doc v = is_doc v"
| "distinct_doc_items [] = True"
| "distinct_doc_items (x # xs) = (distinct_doc x \<and> distinct_doc_items xs)"
| "distinct_doc_fields [] = True"
| "distinct_doc_fields ((k, v) # kvs) = (distinct_doc v \<and> distinct_doc_fields kvs)"

lemma distinct_doc_items_iff: "distinct_doc_items xs \<longleftrightarrow> (\<forall>x\<in>set xs. distinct_doc x)"
  by (induction xs) auto

lemma distinct_doc_fields_iff: "distinct_doc_fields kvs \<longleftrightarrow> (\<forall>p\<in>set kvs. distinct_doc (snd p))"
  by (induction kvs) auto

lemma distinct_doc_is_doc:
  "distinct_doc v \<Longrightarrow> is_doc v" "distinct_doc_items xs \<Longrightarrow> is_doc_items xs" "distinct_doc_fields kvs \<Longrightarrow> is_doc_fields kvs"
  by (induction v and xs and kvs rule: distinct_doc_distinct_doc_items_distinct_doc_fields.induct) auto

lemma map_fst_plain_sorted [simp]: "map fst (plain_sorted_fields kvs) = map fst kvs"
  by (induction kvs) auto

lemma plain_sorted_object_cong:
  assumes "mset (plain_sorted_fields kvs) = mset (plain_sorted_fields lvs)" "distinct (map fst kvs)"
  shows "sort_key fst (plain_sorted_fields kvs) = sort_key fst (plain_sorted_fields lvs)"
proof -
  have "inj_on fst (set (plain_sorted_fields kvs))"
    using assms(2) by (metis distinct_map map_fst_plain_sorted)
  from sort_key_unique [OF assms(1) this] show ?thesis .
qed

lemma same_doc_plain_sorted: "same_doc v w \<Longrightarrow> distinct_doc v \<Longrightarrow> plain_sorted v = plain_sorted w"
proof (induction rule: same_doc.induct)
  case (arr xs ys)
  from arr(1,2) have "map plain_sorted xs = map plain_sorted ys"
    by (induction rule: list_all2_induct) auto
  then show ?case by (simp add: plain_sorted_items_map)
next
  case (obj lvs mvs kvs)
  from obj(2,3) have "plain_sorted_fields kvs = plain_sorted_fields mvs"
    by (induction rule: list_all2_induct) (auto split: prod.splits)
  then have "mset (plain_sorted_fields kvs) = mset (plain_sorted_fields lvs)"
    using obj(1) by (simp add: plain_sorted_fields_map)
  with obj(3) show ?case by (simp add: plain_sorted_object_cong)
qed simp

lemma plain_sorted_eq_atom [simp]:
  "JNull = plain_sorted w \<longleftrightarrow> w = JNull" "JBool b = plain_sorted w \<longleftrightarrow> w = JBool b"
  "JNum n = plain_sorted w \<longleftrightarrow> w = JNum n" "JStr s = plain_sorted w \<longleftrightarrow> w = JStr s"
  by (cases w; auto)+

lemma plain_sorted_same_doc:
  "distinct_doc v \<Longrightarrow> distinct_doc w \<Longrightarrow> plain_sorted v = plain_sorted w \<Longrightarrow> same_doc v w"
  "distinct_doc_items xs \<Longrightarrow> distinct_doc_items ys \<Longrightarrow> plain_sorted_items xs = plain_sorted_items ys \<Longrightarrow>
     list_all2 same_doc xs ys"
  "distinct_doc_fields kvs \<Longrightarrow> distinct_doc_fields mvs \<Longrightarrow> plain_sorted_fields kvs = plain_sorted_fields mvs \<Longrightarrow>
     list_all2 (\<lambda>p q. fst p = fst q \<and> same_doc (snd p) (snd q)) kvs mvs"
proof (induction v and xs and kvs arbitrary: w and ys and mvs
    rule: distinct_doc_distinct_doc_items_distinct_doc_fields.induct)
  case (1 xs)
  then show ?case by (cases w) (auto intro: same_doc.arr)
next
  case (2 kvs)
  then obtain lvs where w: "w = JObj lvs" by (cases w) auto
  let ?f = "\<lambda>(k, v). (k, plain_sorted v)"
  have "mset (plain_sorted_fields kvs) = mset (plain_sorted_fields lvs)"
    using 2(4) w by (metis jv.inject(6) mset_sort plain_sorted.simps(2))
  then have "mset (map ?f lvs) = mset (map ?f kvs)" by (simp add: plain_sorted_fields_map)
  from mset_map_split [OF this] obtain mvs where
    m: "mset mvs = mset lvs" "plain_sorted_fields kvs = plain_sorted_fields mvs"
    by (auto simp: plain_sorted_fields_map)
  have "distinct_doc_fields mvs"
    using 2(3) w m(1) by (metis mset_eq_setD distinct_doc.simps(2) distinct_doc_fields_iff)
  with 2(1) m(2) have "list_all2 (\<lambda>p q. fst p = fst q \<and> same_doc (snd p) (snd q)) kvs mvs"
    using 2(2) by simp
  then show ?case unfolding w by (rule same_doc.obj [OF m(1) [symmetric]])
next
  case (5 x xs)
  then show ?case by (cases ys) auto
next
  case (7 k v kvs)
  then show ?case by (cases mvs) auto
next
  case 4
  then show ?case by (cases ys) auto
next
  case 6
  then show ?case by (cases mvs) auto
qed (auto intro: same_doc.atom)

lemma same_doc_iff: "distinct_doc v \<Longrightarrow> distinct_doc w \<Longrightarrow> same_doc v w \<longleftrightarrow> plain_sorted v = plain_sorted w"
  using same_doc_plain_sorted plain_sorted_same_doc(1) by blast

lemma canonicalJson_eq_iff:
  "distinct_doc v \<Longrightarrow> distinct_doc w \<Longrightarrow> canonicalJson v = canonicalJson w \<longleftrightarrow> same_doc v w"
  by (simp add: same_doc_iff canonicalJson_doc distinct_doc_is_doc stringify_inj is_doc_plain_sorted)

text \<open>
  The canonical text of \<open>integration-contracts\<close> exists exactly for JSON documents, and
  two documents have the same text exactly when they are the same document up to the order of
  the keys of their objects. Any key is allowed, \<open>__proto__\<close> and array indices included.
\<close>

theorem contract_text_decides_equality:
  assumes "distinct_doc v" and "distinct_doc w"
  shows "((\<exists>t. canonicalJson u = Inr t) \<longleftrightarrow> is_doc u) \<and> (canonicalJson v = canonicalJson w \<longleftrightarrow> same_doc v w)"
  using assms by (simp add: canonicalJson_ok_iff canonicalJson_eq_iff)

definition proto_doc :: "int \<Rightarrow> jv" where
  "proto_doc n = JObj [(''b'', JArr []), (''__proto__'', JNum n)]"

theorem contract_text_decides_equality_witness:
  "canonicalJson (proto_doc 1) \<noteq> canonicalJson (proto_doc 2) \<and> \<not> (\<exists>t. canonicalJson JUndefined = Inr t)"
proof -
  have "distinct_doc (proto_doc 1)" "distinct_doc (proto_doc 2)"
    by (simp_all add: proto_doc_def)
  moreover have "plain_sorted (proto_doc 1) \<noteq> plain_sorted (proto_doc 2)" by code_simp
  ultimately have "distinct_doc (proto_doc 1)" "distinct_doc (proto_doc 2)"
    "\<not> same_doc (proto_doc 1) (proto_doc 2)" by (simp_all add: same_doc_iff)
  with contract_text_decides_equality [of "proto_doc 1" "proto_doc 2" JUndefined] show ?thesis by auto
qed

section \<open>A frozen value has the digest of the value it copies\<close>

lemma reparsed_items_map: "reparsed_items xs = map reparsed xs"
  by (induction xs) auto

lemma reparsed_fields_map: "reparsed_fields kvs = map (\<lambda>(k, v). (k, reparsed v)) kvs"
  by (induction kvs) auto

lemma map_fst_reparsed [simp]: "map fst (reparsed_fields kvs) = map fst kvs"
  by (induction kvs) auto

lemma distinct_map_fst_sort: "distinct (map fst (sort_key fst kvs)) = distinct (map fst kvs)"
  using mset_eq_imp_distinct_iff [of "map fst (sort_key fst kvs)" "map fst kvs"] by simp

lemma distinct_doc_reparsed:
  "distinct_doc v \<Longrightarrow> distinct_doc (reparsed v)" "distinct_doc_items xs \<Longrightarrow> distinct_doc_items (reparsed_items xs)"
  "distinct_doc_fields kvs \<Longrightarrow> distinct_doc_fields (reparsed_fields kvs)"
  by (induction v and xs and kvs rule: reparsed_reparsed_items_reparsed_fields.induct)
    (auto simp: distinct_doc_fields_iff distinct_own_order distinct_map_fst_sort)

lemma plain_sorted_reparsed:
  "distinct_doc v \<Longrightarrow> plain_sorted (reparsed v) = plain_sorted v"
  "distinct_doc_items xs \<Longrightarrow> plain_sorted_items (reparsed_items xs) = plain_sorted_items xs"
  "distinct_doc_fields kvs \<Longrightarrow> plain_sorted_fields (reparsed_fields kvs) = plain_sorted_fields kvs"
proof (induction v and xs and kvs rule: reparsed_reparsed_items_reparsed_fields.induct)
  case (2 kvs)
  let ?rs = "own_order (sort_key fst (reparsed_fields kvs))"
  have "mset (plain_sorted_fields ?rs) = mset (plain_sorted_fields (reparsed_fields kvs))"
    by (simp add: plain_sorted_fields_map)
  then have "mset (plain_sorted_fields kvs) = mset (plain_sorted_fields ?rs)" using 2 by simp
  from plain_sorted_object_cong [OF this] 2(2) show ?case by simp
qed auto

lemma canonicalJsonValue_doc: "is_doc v \<Longrightarrow> canonicalJsonValue v = Inr (reparsed v)"
  by (simp add: canonicalJsonValue_def canonicalJson_doc)

lemma canonicalJson_reparsed: "distinct_doc v \<Longrightarrow> canonicalJson (reparsed v) = canonicalJson v"
  by (simp add: canonicalJson_doc distinct_doc_is_doc distinct_doc_reparsed plain_sorted_reparsed)

lemma sha256Digest_reparsed: "distinct_doc v \<Longrightarrow> sha256Digest hash (reparsed v) = sha256Digest hash v"
  by (simp add: sha256Digest_def canonicalJson_reparsed)

lemma sha256Digest_doc: "is_doc v \<Longrightarrow> \<exists>d. sha256Digest hash v = Inr d"
  by (simp add: sha256Digest_def canonicalJson_doc)

lemma checked_payload_doc:
  "distinct_doc v \<Longrightarrow> sha256Digest hash v = Inr d \<Longrightarrow> checked_payload hash what v given =
     (if truthy given \<and> the given \<noteq> d
      then Inl (what @ '' payload digest mismatch: expected '' @ the given @ '', got '' @ d)
      else Inr (reparsed v, d))"
  by (simp add: checked_payload_def freezeJsonValue_def canonicalJsonValue_doc distinct_doc_is_doc
      sha256Digest_reparsed)

lemma mset_reparsed_fields: "mset kvs = mset lvs \<Longrightarrow> mset (reparsed_fields kvs) = mset (reparsed_fields lvs)"
  by (simp add: reparsed_fields_map)

lemma reparsed_idem:
  "distinct_doc v \<Longrightarrow> reparsed (reparsed v) = reparsed v"
  "distinct_doc_items xs \<Longrightarrow> reparsed_items (reparsed_items xs) = reparsed_items xs"
  "distinct_doc_fields kvs \<Longrightarrow> reparsed_fields (reparsed_fields kvs) = reparsed_fields kvs"
proof (induction v and xs and kvs rule: reparsed_reparsed_items_reparsed_fields.induct)
  case (2 kvs)
  let ?s = "sort_key fst (reparsed_fields kvs)"
  have "mset (reparsed_fields (own_order ?s)) = mset (reparsed_fields (reparsed_fields kvs))"
    by (rule mset_reparsed_fields) simp
  with 2 have m: "mset (reparsed_fields (own_order ?s)) = mset (reparsed_fields kvs)" by simp
  have "inj_on fst (set (reparsed_fields kvs))"
    using 2(2) by (metis distinct_doc.simps(2) distinct_map map_fst_reparsed)
  then have "sort_key fst (reparsed_fields (own_order ?s)) = ?s"
    using m by (intro sort_key_unique) (auto dest: mset_eq_setD)
  then show ?case by simp
qed auto

text \<open>
  Freezing the metadata of an event. The payload is replaced by its canonical copy, which is
  the same document with the same digest, the digest is recorded, and an unset envelope version
  becomes 2; a digest that is given is checked against the one of the payload, and freezing frozen
  metadata again changes nothing.
\<close>

theorem frozen_metadata_carries_payload_digest:
  assumes "distinct_doc (im_payload m)"
  shows "\<exists>d. sha256Digest hash (im_payload m) = Inr d
     \<and> (if truthy (im_payloadDigest m) \<and> the (im_payloadDigest m) \<noteq> d
         then \<exists>e. freezeIntegrationMetadata hash m = Inl e
         else \<exists>f. freezeIntegrationMetadata hash m = Inr f \<and> same_doc (im_payload m) (im_payload f)
           \<and> sha256Digest hash (im_payload f) = Inr d \<and> im_payloadDigest f = Some d
           \<and> im_envelopeVersion f = Some (coalesce (im_envelopeVersion m) ''2'')
           \<and> freezeIntegrationMetadata hash f = Inr f)"
proof -
  obtain d where d: "sha256Digest hash (im_payload m) = Inr d"
    using sha256Digest_doc distinct_doc_is_doc(1) [OF assms] by blast
  note c = checked_payload_doc [OF assms d]
  let ?f = "m\<lparr>im_envelopeVersion := Some (coalesce (im_envelopeVersion m) ''2''),
    im_payload := reparsed (im_payload m), im_payloadDigest := Some d\<rparr>"
  have r: "distinct_doc (reparsed (im_payload m))" using assms by (rule distinct_doc_reparsed)
  have s: "same_doc (im_payload m) (reparsed (im_payload m))"
    using assms r by (simp add: same_doc_iff plain_sorted_reparsed)
  have "sha256Digest hash (reparsed (im_payload m)) = Inr d" using d assms by (simp add: sha256Digest_reparsed)
  from checked_payload_doc [OF r this] have "freezeIntegrationMetadata hash ?f = Inr ?f"
    by (simp add: freezeIntegrationMetadata_def reparsed_idem assms)
  with d s \<open>sha256Digest hash (reparsed (im_payload m)) = Inr d\<close> show ?thesis
    by (simp add: freezeIntegrationMetadata_def c)
qed

definition ex_metadata :: integration_metadata where
  "ex_metadata = \<lparr>im_capabilityId = ''c'', im_capabilityVersion = ''1'', im_capabilityDigest = None,
     im_bindingId = ''b'', im_bindingVersion = ''1'', im_envelopeVersion = None, im_sourceApp = ''app'',
     im_payload = proto_doc 1, im_payloadDigest = Some ''sha256:x'', im_payloadSchema = None\<rparr>"

theorem frozen_metadata_carries_payload_digest_witness:
  "\<exists>e. freezeIntegrationMetadata (\<lambda>_. ''y'') ex_metadata = Inl e"
proof -
  have "distinct_doc (im_payload ex_metadata)" by (simp add: ex_metadata_def proto_doc_def)
  from frozen_metadata_carries_payload_digest [OF this, of "\<lambda>_. ''y''"] obtain d where d:
    "sha256Digest (\<lambda>_. ''y'') (im_payload ex_metadata) = Inr d"
    "truthy (im_payloadDigest ex_metadata) \<and> the (im_payloadDigest ex_metadata) \<noteq> d
      \<longrightarrow> (\<exists>e. freezeIntegrationMetadata (\<lambda>_. ''y'') ex_metadata = Inl e)" by (auto split: if_splits)
  have "d = ''sha256:y''" using d(1) by (auto simp: sha256Digest_def bind_result_Inr_iff)
  with d(2) show ?thesis by (simp add: ex_metadata_def truthy_def)
qed

section \<open>A manifest verifies exactly while its content is the one that was signed\<close>

lemma distinct_unsigned: "distinct (map fst (cm_artifacts m)) \<Longrightarrow> distinct_doc (unsigned_manifest m)"
  by (auto simp: unsigned_manifest_def distinct_doc_fields_iff sortRecord_def comp_def split_beta
      distinct_own_order distinct_map_fst_sort)

definition same_content :: "contract_manifest \<Rightarrow> contract_manifest \<Rightarrow> bool" where
  "same_content a b \<longleftrightarrow> cm_contractId a = cm_contractId b \<and> cm_version a = cm_version b \<and> cm_kind a = cm_kind b
     \<and> cm_canonicalSource a = cm_canonicalSource b \<and> mset (cm_artifacts a) = mset (cm_artifacts b)"

lemma plain_sorted_artifacts:
  "plain_sorted_fields (map (\<lambda>(k, v). (k, JStr v)) kvs) = map (\<lambda>(k, v). (k, JStr v)) kvs"
  by (induction kvs) auto

lemma plain_sorted_unsigned:
  "plain_sorted (unsigned_manifest m) = JObj
     [(''artifacts'', JObj (map (\<lambda>(k, v). (k, JStr v)) (sort_key fst (sortRecord (cm_artifacts m))))),
      (''canonicalSource'', JStr (cm_canonicalSource m)), (''contractId'', JStr (cm_contractId m)),
      (''kind'', JStr (cm_kind m)), (''version'', JStr (cm_version m))]"
proof -
  have s: "sort_key fst [(''contractId'', a), (''version'', b), (''kind'', c), (''canonicalSource'', d), (''artifacts'', e)] =
      [(''artifacts'', e), (''canonicalSource'', d), (''contractId'', a), (''kind'', c), (''version'', b :: jv)]"
    for a b c d e by simp
  show ?thesis by (simp add: unsigned_manifest_def s sort_key_fst_map plain_sorted_artifacts del: sort_key_simps)
qed

lemma sorted_records_eq_iff:
  assumes "distinct (map fst kvs)"
  shows "sort_key fst (sortRecord kvs) = sort_key fst (sortRecord lvs) \<longleftrightarrow> mset kvs = mset lvs"
proof
  assume "sort_key fst (sortRecord kvs) = sort_key fst (sortRecord lvs)"
  then have "mset (sort_key fst (sortRecord kvs)) = mset (sort_key fst (sortRecord lvs))" by simp
  then show "mset kvs = mset lvs" by (simp add: sortRecord_def)
next
  assume m: "mset kvs = mset lvs"
  have "inj_on fst (set (sortRecord kvs))" using assms by (simp add: sortRecord_def distinct_map)
  with m show "sort_key fst (sortRecord kvs) = sort_key fst (sortRecord lvs)"
    by (intro sort_key_unique) (simp_all add: sortRecord_def)
qed

lemma inj_string_field: "inj (\<lambda>(k, v). (k, JStr v))"
  by (auto simp: inj_def)

lemma canonical_manifest_eq_iff:
  assumes "distinct (map fst (cm_artifacts a))" "distinct (map fst (cm_artifacts b))"
  shows "canonicalManifestInput a = canonicalManifestInput b \<longleftrightarrow> same_content a b"
proof -
  have "canonicalManifestInput a = canonicalManifestInput b
      \<longleftrightarrow> plain_sorted (unsigned_manifest a) = plain_sorted (unsigned_manifest b)"
    using assms by (simp add: canonicalManifestInput_def canonicalJson_eq_iff same_doc_iff distinct_unsigned)
  also have "\<dots> \<longleftrightarrow> same_content a b"
    using sorted_records_eq_iff [OF assms(1), of "cm_artifacts b"]
    by (auto simp: plain_sorted_unsigned same_content_def inj_map_eq_map [OF inj_string_field])
  finally show ?thesis .
qed

text \<open>
  Signing a manifest and verifying it. The manifest that is signed verifies, whatever the order
  of its artifacts, and a manifest with the digest of a signed one verifies exactly when its
  identity, version, kind, source and artifacts are the signed ones (the hash does not collide on
  the two canonical texts): any tampering is found.
\<close>

theorem signed_manifest_verifies_untampered:
  assumes "distinct (map fst (cm_artifacts m))" and "distinct (map fst (cm_artifacts t))"
    and "\<And>x y. canonicalManifestInput m = Inr x \<Longrightarrow> canonicalManifestInput t = Inr y \<Longrightarrow> no_collision hash x y"
  shows "\<exists>signed. createContractManifest hash m = Inr signed \<and> verifyContractManifest hash signed = Inr True
     \<and> (cm_digest t = cm_digest signed \<longrightarrow> verifyContractManifest hash t = Inr (same_content m t))"
proof -
  have e: "\<exists>x. canonicalManifestInput u = Inr x" if "distinct (map fst (cm_artifacts u))" for u
    using canonicalJson_doc distinct_doc_is_doc(1) distinct_unsigned [OF that] by (auto simp: canonicalManifestInput_def)
  from e [OF assms(1)] e [OF assms(2)] obtain x y where x: "canonicalManifestInput m = Inr x"
    and y: "canonicalManifestInput t = Inr y" by blast
  let ?s = "m\<lparr>cm_artifacts := sortRecord (cm_artifacts m), cm_digest := ''sha256:'' @ hash x\<rparr>"
  have s: "createContractManifest hash m = Inr ?s"
    using x by (simp add: createContractManifest_def sha256Digest_def canonicalManifestInput_def)
  have "distinct (map fst (cm_artifacts ?s))"
    using assms(1) by (simp add: sortRecord_def distinct_own_order distinct_map_fst_sort)
  moreover have "same_content ?s m" by (simp add: same_content_def sortRecord_def)
  ultimately have "canonicalManifestInput ?s = Inr x" using canonical_manifest_eq_iff assms(1) x by metis
  then have "verifyContractManifest hash ?s = Inr True"
    by (simp add: verifyContractManifest_def createContractManifest_def sha256Digest_def canonicalManifestInput_def)
  moreover have "verifyContractManifest hash t = Inr (hash y = hash x)" if "cm_digest t = cm_digest ?s"
    using y that by (simp add: verifyContractManifest_def createContractManifest_def sha256Digest_def canonicalManifestInput_def)
  moreover have "hash y = hash x \<longleftrightarrow> same_content m t"
    using assms(3) [OF x y] canonical_manifest_eq_iff [OF assms(1,2)] x y by (auto simp: no_collision_def)
  ultimately show ?thesis using s by auto
qed

definition ex_contract :: "(string \<times> string) list \<Rightarrow> string \<Rightarrow> contract_manifest" where
  "ex_contract artifacts digest = \<lparr>cm_contractId = ''orders'', cm_version = ''1.0.0'', cm_kind = ''capability'',
     cm_digest = digest, cm_canonicalSource = ''contracts/orders'', cm_artifacts = artifacts\<rparr>"

theorem signed_manifest_verifies_untampered_witness:
  "\<exists>signed. createContractManifest id (ex_contract [(''b'', ''2''), (''a'', ''1'')] []) = Inr signed
     \<and> verifyContractManifest id signed = Inr True
     \<and> verifyContractManifest id (ex_contract [(''a'', ''1'')] (cm_digest signed)) = Inr False"
proof -
  let ?m = "ex_contract [(''b'', ''2''), (''a'', ''1'')] []"
  obtain signed where s: "createContractManifest id ?m = Inr signed"
    by (auto simp: createContractManifest_def sha256Digest_def canonicalJson_doc distinct_doc_is_doc distinct_unsigned
        ex_contract_def)
  let ?t = "ex_contract [(''a'', ''1'')] (cm_digest signed)"
  have "\<not> same_content ?m ?t" by (simp add: same_content_def ex_contract_def)
  with signed_manifest_verifies_untampered [of ?m ?t id] s show ?thesis
    by (auto simp: ex_contract_def no_collision_def)
qed

section \<open>Outcomes of a response\<close>

lemma boundedRetryAfter_range:
  assumes "boundedRetryAfter js v maxMs nowMs = Some ms" and "0 \<le> maxMs"
  shows "0 \<le> ms \<and> ms \<le> maxMs"
proof -
  have "0 \<le> js_round (s * 1000)" if "0 \<le> s" for s
    using that by (simp add: js_round_def)
  with assms show ?thesis by (auto simp: boundedRetryAfter_def split: if_splits option.splits)
qed

text \<open>
  What a delivery makes of an HTTP response. It counts as processed exactly for a 2xx status or
  a 409 whose body says that this very event was processed already, it is retried exactly for 408,
  425, 429 and the 5xx, and everything else is terminal. A delay that the receiver asks for is
  passed on for retries only, and it always lies between zero and a day.
\<close>

theorem http_outcome_is_bounded:
  "case classifyHttpOutcome js nowMs status headers body expected of r \<Rightarrow>
     do_status r = status
     \<and> (do_kind r = Processed \<longleftrightarrow> 200 \<le> status \<and> status < 300 \<or> status = 409 \<and> isAlreadyProcessed body expected)
     \<and> (do_kind r = Retryable \<longleftrightarrow> status \<in> {408, 425, 429} \<or> status \<ge> 500)
     \<and> (\<forall>ms. do_retryAfterMs r = Some ms \<longrightarrow> do_kind r = Retryable \<and> 0 \<le> ms \<and> ms \<le> 24 * 60 * 60 * 1000)
     \<and> (\<forall>e. do_eventId r = Some e \<longrightarrow> expected = None \<or> expected = Some e)"
  using boundedRetryAfter_range [of js "map_of headers ''retry-after''" MAX_RETRY_AFTER nowMs]
  by (auto simp: classifyHttpOutcome_def outcome_def MAX_RETRY_AFTER_def isAlreadyProcessed_def jstr_def
      split: if_splits jv.splits)

theorem http_outcome_is_bounded_witness:
  "\<exists>ms. do_retryAfterMs (classifyHttpOutcome \<lparr>js_number = (\<lambda>_. Some 100000), js_date = (\<lambda>_. None)\<rparr> 0 503
       [(''retry-after'', ''100000'')] JUndefined None) = Some ms \<and> ms \<le> 24 * 60 * 60 * 1000"
proof -
  let ?js = "\<lparr>js_number = (\<lambda>_. Some 100000), js_date = (\<lambda>_. None)\<rparr>"
  let ?r = "classifyHttpOutcome ?js 0 503 [(''retry-after'', ''100000'')] JUndefined None"
  have "do_retryAfterMs ?r \<noteq> None"
    by (simp add: classifyHttpOutcome_def outcome_def boundedRetryAfter_def MAX_RETRY_AFTER_def)
  then obtain ms where "do_retryAfterMs ?r = Some ms" by blast
  with http_outcome_is_bounded [of ?js 0 503 "[(''retry-after'', ''100000'')]" JUndefined None] show ?thesis
    by (cases ?r) auto
qed

end
