(* ===== verification/Webhook.thy ===== *)
theory Webhook
  imports Contracts
begin

text \<open>
  Signed webhooks: \<open>integration-contracts/src/webhook.ts\<close>. The HMAC, the hash and
  \<open>Date.parse\<close> are parameters. The lemmas show that a request built with a key verifies under
  that key, and that a request that verifies is, up to its key id, the one that was signed.
\<close>

section \<open>Signing\<close>

definition WEBHOOK_V2_VERSION :: string where
  "WEBHOOK_V2_VERSION = ''2''"

record verification_context =
  vc_keyId :: string
  vc_sourceApp :: string
  vc_capabilityId :: string
  vc_capabilityVersion :: string
  vc_capabilityDigest :: string
  vc_bindingId :: string
  vc_bindingVersion :: string

record webhook_key = verification_context +
  wk_secret :: string
  wk_previousSecret :: "string option"
  wk_previousKeyExpiresAt :: "string option"

record webhook_message = verification_context +
  wm_eventId :: string
  wm_method :: string
  wm_requestTarget :: string
  wm_timestamp :: string
  wm_body :: string

text \<open>What the run time provides: the hexadecimal digests and \<open>Date.parse\<close>, None for NaN.\<close>

record webhook_env =
  we_hash :: "string \<Rightarrow> string"
  we_hmac :: "string \<Rightarrow> string \<Rightarrow> string"
  we_parseDate :: "string \<Rightarrow> int option"

definition to_upper :: "string \<Rightarrow> string" where
  "to_upper s = map upper_char s"

definition signed_lines :: "webhook_env \<Rightarrow> webhook_message \<Rightarrow> string list" where
  "signed_lines env m =
     [''v'' @ WEBHOOK_V2_VERSION, to_upper (wm_method m), wm_requestTarget m, wm_timestamp m, wm_eventId m,
      vc_capabilityId m, vc_capabilityVersion m, vc_bindingId m, vc_bindingVersion m, we_hash env (wm_body m)]"

definition buildWebhookV2SigningInput :: "webhook_env \<Rightarrow> webhook_message \<Rightarrow> string" where
  "buildWebhookV2SigningInput env m = join [CHR 10] (signed_lines env m)"

definition createWebhookV2Signature :: "webhook_env \<Rightarrow> string \<Rightarrow> webhook_message \<Rightarrow> string" where
  "createWebhookV2Signature env secret m = we_hmac env secret (buildWebhookV2SigningInput env m)"

definition signature_value :: "string \<Rightarrow> string" where
  "signature_value signature = ''sha256='' @ signature"

type_synonym headers = "(string \<times> string) list"

definition buildWebhookV2Headers :: "webhook_env \<Rightarrow> string \<Rightarrow> webhook_message \<Rightarrow> headers" where
  "buildWebhookV2Headers env secret m =
     [(''content-type'', ''application/json''),
      (''X-Appspine-Webhook-Version'', WEBHOOK_V2_VERSION),
      (''X-Appspine-Key-Id'', vc_keyId m),
      (''X-Appspine-Event-Id'', wm_eventId m),
      (''X-Appspine-Capability-Id'', vc_capabilityId m),
      (''X-Appspine-Capability-Version'', vc_capabilityVersion m),
      (''X-Appspine-Binding-Id'', vc_bindingId m),
      (''X-Appspine-Binding-Version'', vc_bindingVersion m),
      (''X-Appspine-Timestamp'', wm_timestamp m),
      (''X-Appspine-Signature'', signature_value (createWebhookV2Signature env secret m))]"

section \<open>Verifying\<close>

record webhook_error =
  er_code :: string
  er_message :: string
  er_retryable :: bool
  er_status :: nat

definition webhook_refusal :: "string \<Rightarrow> string \<Rightarrow> webhook_error" where
  "webhook_refusal code message =
     \<lparr>er_code = code, er_message = message, er_retryable = False, er_status = 401\<rparr>"

text \<open>A body is the raw request body, or whatever a middleware has made of it.\<close>

datatype request_body = Raw string | Parsed jv

record verify_input =
  vi_method :: string
  vi_requestTarget :: string
  vi_body :: request_body
  vi_headers :: "(string \<times> string option) list"
  vi_now :: int
  vi_maxAgeMs :: "int option"
  vi_maxBodyBytes :: "nat option"
  vi_keyResolver :: "string \<Rightarrow> webhook_key option"

record verified_webhook = verification_context +
  vw_eventId :: string
  vw_timestamp :: string

text \<open>\<open>Object.fromEntries\<close> of the defined headers in lower case: a later one wins.\<close>

definition normalizeHeaders :: "(string \<times> string option) list \<Rightarrow> headers" where
  "normalizeHeaders hs =
     fold (\<lambda>(k, v). map_put (to_lower k) v) (concat (map (\<lambda>(k, v). case v of None \<Rightarrow> [] | Some s \<Rightarrow> [(k, s)]) hs)) []"

definition requiredHeader :: "headers \<Rightarrow> string \<Rightarrow> webhook_error + string" where
  "requiredHeader hs name =
     (if truthy (map_of hs name) then Inr (the (map_of hs name))
      else Inl (webhook_refusal ''missing_header'' (''Missing required header '' @ name)))"

definition refuse_if :: "bool \<Rightarrow> webhook_error \<Rightarrow> webhook_error + unit" where
  "refuse_if c e = (if c then Inl e else Inr ())"

definition raw_body :: "request_body \<Rightarrow> webhook_error + string" where
  "raw_body b = (case b of Raw s \<Rightarrow> Inr s | Parsed _ \<Rightarrow>
     Inl (webhook_refusal ''raw_body_required'' ''Webhook verification requires the original raw request body''))"

definition configured_key :: "webhook_key option \<Rightarrow> webhook_error + webhook_key" where
  "configured_key k =
     (case k of None \<Rightarrow> Inl (webhook_refusal ''unknown_key'' ''Webhook key is not configured'')
      | Some key \<Rightarrow>
          if vc_capabilityDigest key = []
          then Inl (webhook_refusal ''missing_capability_digest'' ''Webhook key is missing the pinned capability digest'')
          else Inr key)"

text \<open>The message that the request claims to be.\<close>

definition expected_message :: "verify_input \<Rightarrow> string \<Rightarrow> headers \<Rightarrow> string \<Rightarrow> webhook_key \<Rightarrow>
    webhook_error + webhook_message" where
  "expected_message inp body hs keyId key =
     bind_result (requiredHeader hs ''x-appspine-capability-id'') (\<lambda>capabilityId.
     bind_result (requiredHeader hs ''x-appspine-capability-version'') (\<lambda>capabilityVersion.
     bind_result (requiredHeader hs ''x-appspine-binding-id'') (\<lambda>bindingId.
     bind_result (requiredHeader hs ''x-appspine-binding-version'') (\<lambda>bindingVersion.
     bind_result (requiredHeader hs ''x-appspine-timestamp'') (\<lambda>timestamp.
     bind_result (requiredHeader hs ''x-appspine-event-id'') (\<lambda>eventId.
       Inr \<lparr>vc_keyId = keyId, vc_sourceApp = vc_sourceApp key, vc_capabilityId = capabilityId,
            vc_capabilityVersion = capabilityVersion, vc_capabilityDigest = vc_capabilityDigest key,
            vc_bindingId = bindingId, vc_bindingVersion = bindingVersion, wm_eventId = eventId,
            wm_method = vi_method inp, wm_requestTarget = vi_requestTarget inp, wm_timestamp = timestamp,
            wm_body = body\<rparr>))))))"

definition binding_differs :: "webhook_message \<Rightarrow> webhook_key \<Rightarrow> bool" where
  "binding_differs m key \<longleftrightarrow>
     vc_sourceApp m \<noteq> vc_sourceApp key \<or> vc_capabilityId m \<noteq> vc_capabilityId key
     \<or> vc_capabilityVersion m \<noteq> vc_capabilityVersion key \<or> vc_bindingId m \<noteq> vc_bindingId key
     \<or> vc_bindingVersion m \<noteq> vc_bindingVersion key"

definition is_stale :: "webhook_env \<Rightarrow> verify_input \<Rightarrow> string \<Rightarrow> bool" where
  "is_stale env inp timestamp =
     (case we_parseDate env timestamp of None \<Rightarrow> True
      | Some t \<Rightarrow> \<bar>vi_now inp - t\<bar> > coalesce (vi_maxAgeMs inp) 300000)"

definition accepted_secrets :: "webhook_env \<Rightarrow> int \<Rightarrow> webhook_key \<Rightarrow> string list" where
  "accepted_secrets env now key =
     wk_secret key #
     (if truthy (wk_previousSecret key) \<and> truthy (wk_previousKeyExpiresAt key)
         \<and> (case we_parseDate env (the (wk_previousKeyExpiresAt key)) of None \<Rightarrow> False | Some t \<Rightarrow> t \<ge> now)
      then [the (wk_previousSecret key)] else [])"

definition supplied_signature :: "string \<Rightarrow> string" where
  "supplied_signature signature =
     (if starts_with signature ''sha256='' then drop (length ''sha256='') signature else [])"

definition safeEqual :: "string \<Rightarrow> string \<Rightarrow> bool" where
  "safeEqual left right \<longleftrightarrow> length left = length right \<and> left = right"

definition verifyWebhookV2 :: "webhook_env \<Rightarrow> verify_input \<Rightarrow> webhook_error + verified_webhook" where
  "verifyWebhookV2 env inp =
     bind_result (raw_body (vi_body inp)) (\<lambda>body.
     let hs = normalizeHeaders (vi_headers inp); now = vi_now inp in
     bind_result (refuse_if (vi_maxBodyBytes inp \<noteq> None \<and> length body > the (vi_maxBodyBytes inp))
       ((webhook_refusal ''body_too_large'' ''Webhook body exceeds the configured limit'')\<lparr>er_status := 413\<rparr>)) (\<lambda>_.
     bind_result (refuse_if (map_of hs ''x-appspine-webhook-version'' \<noteq> Some WEBHOOK_V2_VERSION)
       (webhook_refusal ''unsupported_version'' ''Unsupported webhook protocol version'')) (\<lambda>_.
     bind_result (requiredHeader hs ''x-appspine-key-id'') (\<lambda>keyId.
     bind_result (configured_key (vi_keyResolver inp keyId)) (\<lambda>key.
     bind_result (expected_message inp body hs keyId key) (\<lambda>expected.
     bind_result (refuse_if (binding_differs expected key)
       (webhook_refusal ''binding_mismatch'' ''Webhook binding metadata does not match the configured key'')) (\<lambda>_.
     bind_result (refuse_if (is_stale env inp (wm_timestamp expected))
       (webhook_refusal ''stale_timestamp'' ''Webhook timestamp is outside the freshness window'')) (\<lambda>_.
     bind_result (requiredHeader hs ''x-appspine-signature'') (\<lambda>signature.
     bind_result (refuse_if (\<not> list_ex (\<lambda>secret. safeEqual (supplied_signature signature)
                                              (createWebhookV2Signature env secret expected)) (accepted_secrets env now key))
       (webhook_refusal ''invalid_signature'' ''Webhook signature is invalid'')) (\<lambda>_.
       Inr \<lparr>vc_keyId = keyId, vc_sourceApp = vc_sourceApp key, vc_capabilityId = vc_capabilityId expected,
            vc_capabilityVersion = vc_capabilityVersion expected, vc_capabilityDigest = vc_capabilityDigest key,
            vc_bindingId = vc_bindingId expected, vc_bindingVersion = vc_bindingVersion expected,
            vw_eventId = wm_eventId expected, vw_timestamp = wm_timestamp expected\<rparr>))))))))))"

section \<open>The signing input determines the signed fields\<close>

definition line_safe :: "webhook_env \<Rightarrow> webhook_message \<Rightarrow> bool" where
  "line_safe env m \<longleftrightarrow> (\<forall>l\<in>set (signed_lines env m). CHR 10 \<notin> set l)"

text \<open>Two messages agree in everything a signature covers.\<close>

definition same_signed_fields :: "webhook_message \<Rightarrow> webhook_message \<Rightarrow> bool" where
  "same_signed_fields m n \<longleftrightarrow>
     to_upper (wm_method m) = to_upper (wm_method n) \<and> wm_requestTarget m = wm_requestTarget n
     \<and> wm_timestamp m = wm_timestamp n \<and> wm_eventId m = wm_eventId n
     \<and> vc_capabilityId m = vc_capabilityId n \<and> vc_capabilityVersion m = vc_capabilityVersion n
     \<and> vc_bindingId m = vc_bindingId n \<and> vc_bindingVersion m = vc_bindingVersion n \<and> wm_body m = wm_body n"

lemma signing_input_eq_iff:
  assumes "line_safe env m" "line_safe env n" "no_collision (we_hash env) (wm_body m) (wm_body n)"
  shows "buildWebhookV2SigningInput env m = buildWebhookV2SigningInput env n \<longleftrightarrow> same_signed_fields m n"
proof -
  have "signed_lines env k = split_on (CHR 10) (buildWebhookV2SigningInput env k)" if "line_safe env k" for k
    using that split_on_join [of "signed_lines env k" "CHR 10"]
    by (simp add: buildWebhookV2SigningInput_def line_safe_def signed_lines_def list_all_iff)
  then have "buildWebhookV2SigningInput env m = buildWebhookV2SigningInput env n
      \<longleftrightarrow> signed_lines env m = signed_lines env n"
    using assms(1,2) by (metis buildWebhookV2SigningInput_def)
  also have "\<dots> \<longleftrightarrow> same_signed_fields m n"
    using assms(3) by (auto simp: signed_lines_def same_signed_fields_def no_collision_def)
  finally show ?thesis .
qed

section \<open>What a request that verifies has shown\<close>

lemma refuse_if_Inr [simp]: "refuse_if c e = Inr u \<longleftrightarrow> \<not> c"
  by (simp add: refuse_if_def)

lemma requiredHeader_Inr: "requiredHeader hs name = Inr v \<longleftrightarrow> map_of hs name = Some v \<and> v \<noteq> []"
  by (cases "map_of hs name") (auto simp: requiredHeader_def)

lemma raw_body_Inr [simp]: "raw_body b = Inr s \<longleftrightarrow> b = Raw s"
  by (auto simp: raw_body_def split: request_body.splits)

lemma configured_key_Inr [simp]:
  "configured_key k = Inr key \<longleftrightarrow> k = Some key \<and> vc_capabilityDigest key \<noteq> []"
  by (auto simp: configured_key_def split: option.splits if_splits)

text \<open>The message a verified request carries.\<close>

definition request_message :: "verify_input \<Rightarrow> verified_webhook \<Rightarrow> string \<Rightarrow> webhook_message" where
  "request_message inp r body =
     \<lparr>vc_keyId = vc_keyId r, vc_sourceApp = vc_sourceApp r, vc_capabilityId = vc_capabilityId r,
      vc_capabilityVersion = vc_capabilityVersion r, vc_capabilityDigest = vc_capabilityDigest r,
      vc_bindingId = vc_bindingId r, vc_bindingVersion = vc_bindingVersion r, wm_eventId = vw_eventId r,
      wm_method = vi_method inp, wm_requestTarget = vi_requestTarget inp, wm_timestamp = vw_timestamp r,
      wm_body = body\<rparr>"

definition header :: "verify_input \<Rightarrow> string \<Rightarrow> string" where
  "header inp name = coalesce (map_of (normalizeHeaders (vi_headers inp)) name) []"

lemma verifyWebhookV2_Inr:
  assumes "verifyWebhookV2 env inp = Inr r"
  obtains body key where
    "vi_body inp = Raw body" "vi_keyResolver inp (vc_keyId r) = Some key"
    "vc_keyId r = header inp ''x-appspine-key-id''" "vw_eventId r = header inp ''x-appspine-event-id''"
    "vw_timestamp r = header inp ''x-appspine-timestamp''"
    "verification_context.truncate r = (verification_context.truncate key)\<lparr>vc_keyId := vc_keyId r\<rparr>"
    "\<not> is_stale env inp (vw_timestamp r)"
    "\<exists>secret\<in>set (accepted_secrets env (vi_now inp) key).
       supplied_signature (header inp ''x-appspine-signature'')
       = createWebhookV2Signature env secret (request_message inp r body)"
  using assms
  by (fastforce simp: verifyWebhookV2_def Let_def bind_result_Inr_iff requiredHeader_Inr expected_message_def
      binding_differs_def request_message_def verification_context.defs list_ex_iff safeEqual_def header_def)

text \<open>
  C12. What a webhook request that verifies has shown. Its key id is configured, the source, the
  capability with its pinned digest and the binding that are reported are the ones of that key,
  the timestamp is inside the freshness window, and the signature is the HMAC of the request under
  an accepted secret of that key. If the holder of the secret made this signature for a message,
  then method, target, timestamp, event id, capability, binding and body of the request are the ones
  of that message (no line breaks in the signed lines, no collision of the HMAC and the hash).
\<close>

theorem verified_webhook_is_authentic:
  assumes "verifyWebhookV2 env inp = Inr r"
  shows "\<exists>body key. vi_body inp = Raw body \<and> vi_keyResolver inp (vc_keyId r) = Some key
     \<and> verification_context.truncate r = (verification_context.truncate key)\<lparr>vc_keyId := vc_keyId r\<rparr>
     \<and> (\<exists>t. we_parseDate env (vw_timestamp r) = Some t \<and> \<bar>vi_now inp - t\<bar> \<le> coalesce (vi_maxAgeMs inp) 300000)
     \<and> (\<exists>secret\<in>set (accepted_secrets env (vi_now inp) key).
          supplied_signature (header inp ''x-appspine-signature'')
            = createWebhookV2Signature env secret (request_message inp r body)
          \<and> (\<forall>m. supplied_signature (header inp ''x-appspine-signature'') = createWebhookV2Signature env secret m
               \<longrightarrow> line_safe env m \<longrightarrow> line_safe env (request_message inp r body)
               \<longrightarrow> no_collision (we_hmac env secret) (buildWebhookV2SigningInput env m)
                    (buildWebhookV2SigningInput env (request_message inp r body))
               \<longrightarrow> no_collision (we_hash env) (wm_body m) body
               \<longrightarrow> same_signed_fields m (request_message inp r body)))"
proof (rule verifyWebhookV2_Inr [OF assms], goal_cases)
  case (1 body key)
  let ?n = "request_message inp r body"
  obtain secret where s: "secret \<in> set (accepted_secrets env (vi_now inp) key)"
    "supplied_signature (header inp ''x-appspine-signature'') = createWebhookV2Signature env secret ?n"
    using 1(8) by blast
  have fresh: "\<exists>t. we_parseDate env (vw_timestamp r) = Some t \<and> \<bar>vi_now inp - t\<bar> \<le> coalesce (vi_maxAgeMs inp) 300000"
    using 1(7) by (auto simp: is_stale_def split: option.splits)
  have same: "same_signed_fields m ?n"
    if "supplied_signature (header inp ''x-appspine-signature'') = createWebhookV2Signature env secret m"
      "line_safe env m" "line_safe env ?n"
      "no_collision (we_hmac env secret) (buildWebhookV2SigningInput env m) (buildWebhookV2SigningInput env ?n)"
      "no_collision (we_hash env) (wm_body m) body" for m
  proof -
    have b: "wm_body ?n = body" by (simp add: request_message_def)
    have "createWebhookV2Signature env secret m = createWebhookV2Signature env secret ?n" using that(1) s(2) by metis
    then have "buildWebhookV2SigningInput env m = buildWebhookV2SigningInput env ?n"
      using that(4) unfolding createWebhookV2Signature_def no_collision_def by (rule rev_mp)
    with signing_input_eq_iff [OF that(2,3)] that(5) b show ?thesis by metis
  qed
  show ?case
    by (rule exI [of _ body], rule exI [of _ key], intro conjI 1(1,2,6) fresh, rule bexI [OF _ s(1)],
        intro conjI allI impI s same)
qed

section \<open>A signed request verifies\<close>

lemma supplied_signature_of [simp]: "supplied_signature (signature_value s) = s" "signature_value s \<noteq> []"
  by (simp_all add: signature_value_def supplied_signature_def starts_with_def)

lemma lower_header_names [simp]:
  "to_lower ''content-type'' = ''content-type''"
  "to_lower ''X-Appspine-Webhook-Version'' = ''x-appspine-webhook-version''"
  "to_lower ''X-Appspine-Key-Id'' = ''x-appspine-key-id''"
  "to_lower ''X-Appspine-Event-Id'' = ''x-appspine-event-id''"
  "to_lower ''X-Appspine-Capability-Id'' = ''x-appspine-capability-id''"
  "to_lower ''X-Appspine-Capability-Version'' = ''x-appspine-capability-version''"
  "to_lower ''X-Appspine-Binding-Id'' = ''x-appspine-binding-id''"
  "to_lower ''X-Appspine-Binding-Version'' = ''x-appspine-binding-version''"
  "to_lower ''X-Appspine-Timestamp'' = ''x-appspine-timestamp''"
  "to_lower ''X-Appspine-Signature'' = ''x-appspine-signature''"
  by code_simp+

definition sent_headers :: "webhook_env \<Rightarrow> string \<Rightarrow> webhook_message \<Rightarrow> (string \<times> string option) list" where
  "sent_headers env secret m = map (\<lambda>(k, v). (k, Some v)) (buildWebhookV2Headers env secret m)"

lemma sent_header:
  "map_of (normalizeHeaders (sent_headers env secret m)) ''x-appspine-webhook-version'' = Some WEBHOOK_V2_VERSION"
  "map_of (normalizeHeaders (sent_headers env secret m)) ''x-appspine-key-id'' = Some (vc_keyId m)"
  "map_of (normalizeHeaders (sent_headers env secret m)) ''x-appspine-event-id'' = Some (wm_eventId m)"
  "map_of (normalizeHeaders (sent_headers env secret m)) ''x-appspine-capability-id'' = Some (vc_capabilityId m)"
  "map_of (normalizeHeaders (sent_headers env secret m)) ''x-appspine-capability-version'' = Some (vc_capabilityVersion m)"
  "map_of (normalizeHeaders (sent_headers env secret m)) ''x-appspine-binding-id'' = Some (vc_bindingId m)"
  "map_of (normalizeHeaders (sent_headers env secret m)) ''x-appspine-binding-version'' = Some (vc_bindingVersion m)"
  "map_of (normalizeHeaders (sent_headers env secret m)) ''x-appspine-timestamp'' = Some (wm_timestamp m)"
  "map_of (normalizeHeaders (sent_headers env secret m)) ''x-appspine-signature''
     = Some (signature_value (createWebhookV2Signature env secret m))"
  by (simp_all add: normalizeHeaders_def sent_headers_def buildWebhookV2Headers_def map_of_map_put)

text \<open>The request that carries a signed message.\<close>

definition sent_request :: "webhook_env \<Rightarrow> string \<Rightarrow> webhook_message \<Rightarrow> int \<Rightarrow> int option \<Rightarrow> nat option \<Rightarrow>
    (string \<Rightarrow> webhook_key option) \<Rightarrow> verify_input" where
  "sent_request env secret m now maxAge maxBytes resolver =
     \<lparr>vi_method = wm_method m, vi_requestTarget = wm_requestTarget m, vi_body = Raw (wm_body m),
      vi_headers = sent_headers env secret m, vi_now = now, vi_maxAgeMs = maxAge, vi_maxBodyBytes = maxBytes,
      vi_keyResolver = resolver\<rparr>"

definition complete_message :: "webhook_message \<Rightarrow> bool" where
  "complete_message m \<longleftrightarrow> vc_keyId m \<noteq> [] \<and> wm_eventId m \<noteq> [] \<and> vc_capabilityId m \<noteq> []
     \<and> vc_capabilityVersion m \<noteq> [] \<and> vc_capabilityDigest m \<noteq> [] \<and> vc_bindingId m \<noteq> []
     \<and> vc_bindingVersion m \<noteq> [] \<and> wm_timestamp m \<noteq> []"

text \<open>
  C13. A signed webhook verifies: when the receiver has configured the key of the message with an
  accepted secret, the message is complete, small enough and fresh, the request built for it is
  accepted and reports the context, the event id and the timestamp of the message. A secret that was
  rotated out keeps verifying until it expires.
\<close>

theorem signed_webhook_verifies:
  assumes "resolver (vc_keyId m) = Some key"
    and "verification_context.truncate m = (verification_context.truncate key)\<lparr>vc_keyId := vc_keyId m\<rparr>"
    and "complete_message m" and "secret \<in> set (accepted_secrets env now key)"
    and "we_parseDate env (wm_timestamp m) = Some t" and "\<bar>now - t\<bar> \<le> coalesce maxAge 300000"
    and "\<forall>limit. maxBytes = Some limit \<longrightarrow> length (wm_body m) \<le> limit"
  shows "\<exists>r. verifyWebhookV2 env (sent_request env secret m now maxAge maxBytes resolver) = Inr r
     \<and> verification_context.truncate r = verification_context.truncate m
     \<and> vw_eventId r = wm_eventId m \<and> vw_timestamp r = wm_timestamp m"
proof -
  let ?inp = "sent_request env secret m now maxAge maxBytes resolver"
  have hs [simp]: "vi_headers ?inp = sent_headers env secret m" and
    [simp]: "vi_body ?inp = Raw (wm_body m)" "vi_now ?inp = now" "vi_maxBodyBytes ?inp = maxBytes" "vi_maxAgeMs ?inp = maxAge"
      "vi_keyResolver ?inp = resolver" "vi_method ?inp = wm_method m" "vi_requestTarget ?inp = wm_requestTarget m"
    by (simp_all add: sent_request_def)
  have c: "vc_sourceApp m = vc_sourceApp key" "vc_capabilityId m = vc_capabilityId key"
    "vc_capabilityVersion m = vc_capabilityVersion key" "vc_capabilityDigest m = vc_capabilityDigest key"
    "vc_bindingId m = vc_bindingId key" "vc_bindingVersion m = vc_bindingVersion key"
    using assms(2) by (simp_all add: verification_context.defs)
  have e: "expected_message ?inp (wm_body m) (normalizeHeaders (sent_headers env secret m)) (vc_keyId m) key
      = Inr (webhook_message.truncate m)"
    using assms(3) by (simp add: expected_message_def requiredHeader_def sent_header complete_message_def
        webhook_message.defs c)
  have sig: "createWebhookV2Signature env secret (webhook_message.truncate m) = createWebhookV2Signature env secret m"
    by (simp add: createWebhookV2Signature_def buildWebhookV2SigningInput_def signed_lines_def webhook_message.defs)
  have k: "configured_key (resolver (vc_keyId m)) = Inr key"
    using assms(1,3) by (simp add: complete_message_def c)
  have stale: "\<not> is_stale env ?inp (wm_timestamp m)" using assms(5,6) by (simp add: is_stale_def)
  have signed: "list_ex (\<lambda>s. safeEqual (supplied_signature (signature_value (createWebhookV2Signature env secret m)))
      (createWebhookV2Signature env s (webhook_message.truncate m))) (accepted_secrets env now key)"
    unfolding supplied_signature_of list_ex_iff safeEqual_def
    using assms(4) by (intro bexI [of _ secret]) (simp_all add: sig)
  have "\<not> binding_differs (webhook_message.truncate m) key"
    by (simp add: binding_differs_def webhook_message.defs c)
  moreover have "\<not> (maxBytes \<noteq> None \<and> length (wm_body m) > the maxBytes)" using assms(7) by auto
  moreover have "wm_timestamp (webhook_message.truncate m) = wm_timestamp m" by (simp add: webhook_message.defs)
  moreover have "vc_keyId m \<noteq> []" using assms(3) by (simp add: complete_message_def)
  ultimately have "verifyWebhookV2 env ?inp = Inr
      \<lparr>vc_keyId = vc_keyId m, vc_sourceApp = vc_sourceApp key, vc_capabilityId = vc_capabilityId m,
       vc_capabilityVersion = vc_capabilityVersion m, vc_capabilityDigest = vc_capabilityDigest key,
       vc_bindingId = vc_bindingId m, vc_bindingVersion = vc_bindingVersion m,
       vw_eventId = wm_eventId m, vw_timestamp = wm_timestamp m\<rparr>"
    using stale signed e k
    by (simp add: verifyWebhookV2_def Let_def sent_header requiredHeader_def refuse_if_def raw_body_def
        webhook_message.defs del: configured_key_Inr)
  then show ?thesis by (simp add: verification_context.defs c)
qed

section \<open>An example\<close>

definition ex_webhook_env :: webhook_env where
  "ex_webhook_env = \<lparr>we_hash = (\<lambda>s. ''h'' @ s), we_hmac = (\<lambda>k s. k @ s),
     we_parseDate = (\<lambda>s. if s = ''1970-01-01T00:00:00.000Z'' then Some 0 else None)\<rparr>"

definition ex_key :: webhook_key where
  "ex_key = \<lparr>vc_keyId = ''k1'', vc_sourceApp = ''shop'', vc_capabilityId = ''orders'', vc_capabilityVersion = ''1'',
     vc_capabilityDigest = ''sha256:c'', vc_bindingId = ''b'', vc_bindingVersion = ''1'', wk_secret = ''new'',
     wk_previousSecret = Some ''old'', wk_previousKeyExpiresAt = Some ''1970-01-01T00:00:00.000Z''\<rparr>"

definition ex_message :: webhook_message where
  "ex_message = \<lparr>vc_keyId = ''k1'', vc_sourceApp = ''shop'', vc_capabilityId = ''orders'', vc_capabilityVersion = ''1'',
     vc_capabilityDigest = ''sha256:c'', vc_bindingId = ''b'', vc_bindingVersion = ''1'', wm_eventId = ''e1'',
     wm_method = ''post'', wm_requestTarget = ''/hook'', wm_timestamp = ''1970-01-01T00:00:00.000Z'', wm_body = ''{}''\<rparr>"

definition ex_request :: "string \<Rightarrow> int \<Rightarrow> verify_input" where
  "ex_request secret now = sent_request ex_webhook_env secret ex_message now None (Some 2) (map_of [(''k1'', ex_key)])"

theorem signed_webhook_verifies_witness:
  "is_ok (verifyWebhookV2 ex_webhook_env (ex_request ''old'' (- 5)))"
proof -
  have "map_of [(''k1'', ex_key)] (vc_keyId ex_message) = Some ex_key" by (simp add: ex_message_def)
  moreover have "verification_context.truncate ex_message
      = (verification_context.truncate ex_key)\<lparr>vc_keyId := vc_keyId ex_message\<rparr>"
    by (simp add: ex_message_def ex_key_def verification_context.defs)
  moreover have "complete_message ex_message" by (simp add: complete_message_def ex_message_def)
  moreover have "''old'' \<in> set (accepted_secrets ex_webhook_env (- 5) ex_key)" by code_simp
  moreover have "we_parseDate ex_webhook_env (wm_timestamp ex_message) = Some 0" by code_simp
  moreover have "\<bar>- 5 - 0\<bar> \<le> coalesce None (300000 :: int)" by simp
  moreover have "\<forall>limit. Some 2 = Some limit \<longrightarrow> length (wm_body ex_message) \<le> limit" by (simp add: ex_message_def)
  ultimately have "\<exists>r. verifyWebhookV2 ex_webhook_env (sent_request ex_webhook_env ''old'' ex_message (- 5) None (Some 2)
      (map_of [(''k1'', ex_key)])) = Inr r \<and> verification_context.truncate r = verification_context.truncate ex_message
      \<and> vw_eventId r = wm_eventId ex_message \<and> vw_timestamp r = wm_timestamp ex_message"
    by (rule signed_webhook_verifies)
  then show ?thesis by (auto simp: ex_request_def is_ok_def)
qed

lemma ex_request_verified: "is_ok (verifyWebhookV2 ex_webhook_env (ex_request ''new'' 300000))"
  by code_simp

theorem verified_webhook_is_authentic_witness:
  "\<exists>r. verifyWebhookV2 ex_webhook_env (ex_request ''new'' 300000) = Inr r
     \<and> (\<exists>t. we_parseDate ex_webhook_env (vw_timestamp r) = Some t \<and> \<bar>300000 - t\<bar> \<le> 300000)"
proof -
  obtain r where r: "verifyWebhookV2 ex_webhook_env (ex_request ''new'' 300000) = Inr r"
    using ex_request_verified by (cases "verifyWebhookV2 ex_webhook_env (ex_request ''new'' 300000)") simp_all
  have "vi_now (ex_request ''new'' 300000) = 300000" "vi_maxAgeMs (ex_request ''new'' 300000) = None"
    by (simp_all add: ex_request_def sent_request_def)
  with verified_webhook_is_authentic [OF r] r show ?thesis by auto
qed

end
