(* ===== verification/EventRegistry.thy ===== *)
theory EventRegistry
  imports PrismaComposer
begin

text \<open>
  The registry of domain event handlers: \<open>domain-events/src/domain-event-registry.ts\<close> and
  \<open>domain-event-subscriber.decorator.ts\<close>. An invariant of every reachable registry gives that
  the keys an event fans out to are distinct and resolve to the handlers that were registered for
  it, also after any later registration; the locale \<open>delivery_routing\<close> is the contract the
  outbox relies on.
\<close>

section \<open>Handlers and the registry\<close>

datatype event_types = OneType string | TypeList "string list"

record subscriber_options =
  so_eventType :: event_types
  so_key :: string
  so_description :: string

text \<open>A handler object: its identity, its key, and the class with its decorator metadata.\<close>

record event_handler =
  eh_ref :: nat
  eh_key :: string
  eh_class :: string
  eh_options :: "subscriber_options option"

record subscriber_descriptor =
  sd_eventTypes :: "string list"
  sd_key :: string
  sd_description :: string

text \<open>A contributor runs in the transaction \<open>'tx\<close> and may reject.\<close>

record 'tx event_registry =
  rg_exact :: "(string \<times> event_handler list) list"
  rg_prefixes :: "(string \<times> (string \<Rightarrow> event_handler option)) list"
  rg_byKey :: "(string \<times> event_handler) list"
  rg_contributors :: "('tx \<Rightarrow> string \<Rightarrow> string + string list) list"
  rg_descriptors :: "(string \<times> subscriber_descriptor) list"

definition empty_event_registry :: "'tx event_registry" where
  "empty_event_registry = \<lparr>rg_exact = [], rg_prefixes = [], rg_byKey = [], rg_contributors = [], rg_descriptors = []\<rparr>"

section \<open>Registration\<close>

definition assertValidHandlerKey :: "string \<Rightarrow> string + unit" where
  "assertValidHandlerKey handlerKey =
     (if CHR '':'' \<in> set handlerKey
      then Inl (''Domain event handler key must not contain '' @ [CHR 39] @ '':'' @ [CHR 39] @ '': '' @ handlerKey)
      else Inr ())"

definition on :: "string \<Rightarrow> event_handler \<Rightarrow> 'tx event_registry \<Rightarrow> string + 'tx event_registry" where
  "on eventType handler reg =
     bind_result (assertValidHandlerKey (eh_key handler)) (\<lambda>_.
     let handlers = coalesce (map_of (rg_exact reg) eventType) [] in
     if (case map_of (rg_byKey reg) (eh_key handler) of None \<Rightarrow> False
         | Some existing \<Rightarrow> eh_ref existing \<noteq> eh_ref handler)
     then Inl (''Domain event handler key already registered to a different handler: '' @ eh_key handler)
     else if list_ex (\<lambda>candidate. eh_key candidate = eh_key handler) handlers
     then Inl (''Domain event handler key already registered for '' @ eventType @ '': '' @ eh_key handler)
     else Inr (reg\<lparr>rg_byKey := map_put (eh_key handler) handler (rg_byKey reg),
                   rg_exact := map_put eventType (handlers @ [handler]) (rg_exact reg)\<rparr>))"

definition registerPrefix ::
    "string \<Rightarrow> (string \<Rightarrow> event_handler option) \<Rightarrow> 'tx event_registry \<Rightarrow> string + 'tx event_registry" where
  "registerPrefix pre resolver reg =
     (if map_of (rg_prefixes reg) pre \<noteq> None
      then Inl (''Domain event handler prefix already registered: '' @ pre)
      else Inr (reg\<lparr>rg_prefixes := map_put pre resolver (rg_prefixes reg)\<rparr>))"

definition registerHandlerKeyContributor ::
    "('tx \<Rightarrow> string \<Rightarrow> string + string list) \<Rightarrow> 'tx event_registry \<Rightarrow> 'tx event_registry" where
  "registerHandlerKeyContributor contributor reg =
     reg\<lparr>rg_contributors := rg_contributors reg @ [contributor]\<rparr>"

definition describeSubscriber ::
    "subscriber_descriptor \<Rightarrow> 'tx event_registry \<Rightarrow> string + 'tx event_registry" where
  "describeSubscriber descriptor reg =
     (if map_of (rg_descriptors reg) (sd_key descriptor) \<noteq> None
      then Inl (''Domain event subscriber already described for key: '' @ sd_key descriptor)
      else Inr (reg\<lparr>rg_descriptors := map_put (sd_key descriptor) descriptor (rg_descriptors reg)\<rparr>))"

section \<open>Lookup\<close>

definition matchingHandlerKeys :: "'tx event_registry \<Rightarrow> string \<Rightarrow> string list" where
  "matchingHandlerKeys reg eventType = map eh_key (coalesce (map_of (rg_exact reg) eventType) [])"

definition contributeHandlerKeys :: "'tx event_registry \<Rightarrow> 'tx \<Rightarrow> string \<Rightarrow> string + string list" where
  "contributeHandlerKeys reg tx eventType =
     bind_result (collect (map (\<lambda>contributor. contributor tx eventType) (rg_contributors reg)))
       (\<lambda>contributed. Inr (concat contributed))"

fun resolve_prefix :: "string \<Rightarrow> (string \<times> (string \<Rightarrow> event_handler option)) list \<Rightarrow> event_handler option" where
  "resolve_prefix handlerKey [] = None"
| "resolve_prefix handlerKey ((pre, resolver) # ps) =
     (if \<not> starts_with handlerKey pre then resolve_prefix handlerKey ps
      else case resolver handlerKey of Some h \<Rightarrow> Some h | None \<Rightarrow> resolve_prefix handlerKey ps)"

definition resolve_handler :: "'tx event_registry \<Rightarrow> string \<Rightarrow> event_handler option" where
  "resolve_handler reg handlerKey =
     (case map_of (rg_byKey reg) handlerKey of Some exact \<Rightarrow> Some exact
      | None \<Rightarrow> resolve_prefix handlerKey (rg_prefixes reg))"

record registry_description =
  rd_subscribers :: "subscriber_descriptor list"
  rd_dataDrivenPrefixes :: "string list"
  rd_hasHandlerKeyContributors :: bool

definition describe_registry :: "'tx event_registry \<Rightarrow> registry_description" where
  "describe_registry reg =
     \<lparr>rd_subscribers = map snd (rg_descriptors reg), rd_dataDrivenPrefixes = map fst (rg_prefixes reg),
      rd_hasHandlerKeyContributors = (rg_contributors reg \<noteq> [])\<rparr>"

section \<open>Registering decorated subscribers\<close>

text \<open>
  Steps that may throw, one after the other: the result is the error, if any, and the state that
  the steps before it have left.
\<close>

fun run_steps :: "('s \<Rightarrow> 'e + 's) list \<Rightarrow> 's \<Rightarrow> 'e option \<times> 's" where
  "run_steps [] s = (None, s)"
| "run_steps (f # fs) s = (case f s of Inl e \<Rightarrow> (Some e, s) | Inr s' \<Rightarrow> run_steps fs s')"

definition event_type_list :: "event_types \<Rightarrow> string list" where
  "event_type_list t = (case t of OneType x \<Rightarrow> [x] | TypeList xs \<Rightarrow> xs)"

definition throw_unless :: "bool \<Rightarrow> string \<Rightarrow> 's \<Rightarrow> string + 's" where
  "throw_unless c message s = (if c then Inr s else Inl message)"

definition subscriber_steps :: "event_handler \<Rightarrow> ('tx event_registry \<Rightarrow> string + 'tx event_registry) list" where
  "subscriber_steps h =
     (case eh_options h of
        None \<Rightarrow> [throw_unless False (eh_class h
          @ '' is missing @DomainEventSubscriber(...) '' @ [CHR 0xE2, CHR 0x80, CHR 0x94]
          @ '' every domain event handler must be decorated.'')]
      | Some options \<Rightarrow>
          [throw_unless (so_key options = eh_key h)
             (''@DomainEventSubscriber key '' @ quoted (so_key options) @ '' on '' @ eh_class h
              @ '' does not match its handler.key '' @ quoted (eh_key h) @ ''.''),
           throw_unless (\<not> is_blank (so_description options))
             (''@DomainEventSubscriber on '' @ eh_class h @ '' (key '' @ quoted (so_key options)
              @ '') must have a non-empty description.'')]
          @ map (\<lambda>t. on t h) (event_type_list (so_eventType options))
          @ [describeSubscriber \<lparr>sd_eventTypes = event_type_list (so_eventType options),
               sd_key = so_key options, sd_description = so_description options\<rparr>])"

definition registerDomainEventSubscribers ::
    "event_handler list \<Rightarrow> 'tx event_registry \<Rightarrow> string option \<times> 'tx event_registry" where
  "registerDomainEventSubscribers handlers reg = run_steps (concat (map subscriber_steps handlers)) reg"

section \<open>Reachable registries\<close>

inductive registers :: "'tx event_registry \<Rightarrow> 'tx event_registry \<Rightarrow> bool" where
  registers_on: "on t h r = Inr r' \<Longrightarrow> registers r r'"
| registers_prefix: "registerPrefix p f r = Inr r' \<Longrightarrow> registers r r'"
| registers_contributor: "registers r (registerHandlerKeyContributor c r)"
| registers_descriptor: "describeSubscriber d r = Inr r' \<Longrightarrow> registers r r'"

inductive_cases registersE: "registers r r'"

definition reachable_registry :: "'tx event_registry \<Rightarrow> bool" where
  "reachable_registry r \<longleftrightarrow> registers\<^sup>*\<^sup>* empty_event_registry r"

definition registry_ok :: "'tx event_registry \<Rightarrow> bool" where
  "registry_ok r \<longleftrightarrow>
     (\<forall>t hs. map_of (rg_exact r) t = Some hs \<longrightarrow>
        distinct (map eh_key hs)
        \<and> (\<forall>h\<in>set hs. \<exists>g. map_of (rg_byKey r) (eh_key h) = Some g \<and> eh_ref g = eh_ref h))
     \<and> (\<forall>k h. map_of (rg_byKey r) k = Some h \<longrightarrow> eh_key h = k \<and> CHR '':'' \<notin> set k)
     \<and> (\<forall>k d. map_of (rg_descriptors r) k = Some d \<longrightarrow> sd_key d = k)"

lemma registry_ok_new: "registry_ok empty_event_registry"
  by (simp add: registry_ok_def empty_event_registry_def)

lemma on_Inr:
  assumes "on t h r = Inr r'"
  obtains "CHR '':'' \<notin> set (eh_key h)"
    "\<And>g. map_of (rg_byKey r) (eh_key h) = Some g \<Longrightarrow> eh_ref g = eh_ref h"
    "eh_key h \<notin> eh_key ` set (coalesce (map_of (rg_exact r) t) [])"
    "r' = r\<lparr>rg_byKey := map_put (eh_key h) h (rg_byKey r),
            rg_exact := map_put t (coalesce (map_of (rg_exact r) t) [] @ [h]) (rg_exact r)\<rparr>"
  using assms
  by (force simp: on_def assertValidHandlerKey_def Let_def list_ex_iff image_iff split: if_splits option.splits)

lemma registry_ok_registers: "registers r r' \<Longrightarrow> registry_ok r \<Longrightarrow> registry_ok r'"
proof (induction rule: registers.induct)
  case (registers_on t h r r')
  show ?case
  proof (rule on_Inr [OF registers_on(1)], goal_cases)
    case 1
    have old: "distinct (map eh_key hs)"
      "\<forall>g\<in>set hs. \<exists>g'. map_of (rg_byKey r) (eh_key g) = Some g' \<and> eh_ref g' = eh_ref g"
      if "hs = coalesce (map_of (rg_exact r) t') []" for hs t'
      using registers_on(2) that by (cases "map_of (rg_exact r) t'"; simp add: registry_ok_def)+
    have known: "\<exists>g'. map_of (map_put (eh_key h) h (rg_byKey r)) (eh_key g) = Some g' \<and> eh_ref g' = eh_ref g"
      if "g \<in> set (coalesce (map_of (rg_exact r) t') [])" for g t'
      using old(2) [OF refl] that 1(2) unfolding map_of_map_put by (metis (full_types))
    have "distinct (map eh_key hs)
        \<and> (\<forall>g\<in>set hs. \<exists>g'. map_of (rg_byKey r') (eh_key g) = Some g' \<and> eh_ref g' = eh_ref g)"
      if "map_of (rg_exact r') t' = Some hs" for t' hs
    proof (cases "t' = t")
      case True
      with that have "hs = coalesce (map_of (rg_exact r) t) [] @ [h]" by (simp add: 1(4) map_of_map_put)
      with known [of _ t] old(1) [OF refl, of t] 1(3) show ?thesis by (auto simp: 1(4) map_of_map_put)
    next
      case False
      with that have "coalesce (map_of (rg_exact r) t') [] = hs" by (simp add: 1(4) map_of_map_put)
      with known [of _ t'] old(1) [OF refl, of t'] show ?thesis by (auto simp: 1(4))
    qed
    then show ?case using registers_on(2) 1(1) by (auto simp: 1(4) registry_ok_def map_of_map_put split: if_splits)
  qed
next
  case (registers_descriptor d r r')
  then show ?case by (auto simp: describeSubscriber_def registry_ok_def map_of_map_put split: if_splits)
qed (auto simp: registerPrefix_def registerHandlerKeyContributor_def registry_ok_def split: if_splits)

lemma registry_ok_later: "registers\<^sup>*\<^sup>* r r' \<Longrightarrow> registry_ok r \<Longrightarrow> registry_ok r'"
  by (induction rule: rtranclp_induct) (auto intro: registry_ok_registers)

lemma registers_keeps_keys:
  "registers r r' \<Longrightarrow> \<exists>ks. matchingHandlerKeys r' t = matchingHandlerKeys r t @ ks"
  by (erule registersE)
    (auto simp: matchingHandlerKeys_def map_of_map_put registerPrefix_def describeSubscriber_def
      registerHandlerKeyContributor_def elim!: on_Inr split: if_splits)

lemma registers_keeps_handler:
  "registers r r' \<Longrightarrow> map_of (rg_byKey r) k = Some h \<Longrightarrow>
     \<exists>h'. map_of (rg_byKey r') k = Some h' \<and> eh_ref h' = eh_ref h"
  by (erule registersE)
    (auto simp: map_of_map_put registerPrefix_def describeSubscriber_def registerHandlerKeyContributor_def
      elim!: on_Inr split: if_splits)

lemma matching_key_known:
  assumes "registry_ok r" and "k \<in> set (matchingHandlerKeys r t)"
  obtains h where "map_of (rg_byKey r) k = Some h" "eh_key h = k"
  using assms by (cases "map_of (rg_exact r) t") (fastforce simp: matchingHandlerKeys_def registry_ok_def)+

section \<open>The contract the outbox relies on\<close>

text \<open>
  An event is fanned out to the keys of its type, and a delivery finds its handler by its key, maybe
  after more registrations.
\<close>

locale delivery_routing =
  fixes valid :: "'r \<Rightarrow> bool"
    and keys :: "'r \<Rightarrow> 't \<Rightarrow> 'k list"
    and route :: "'r \<Rightarrow> 'k \<Rightarrow> 'h option"
    and later :: "'r \<Rightarrow> 'r \<Rightarrow> bool"
  assumes keys_distinct: "valid r \<Longrightarrow> distinct (keys r t)"
    and keys_routed: "valid r \<Longrightarrow> k \<in> set (keys r t) \<Longrightarrow> route r k \<noteq> None"
    and later_valid: "valid r \<Longrightarrow> later r r' \<Longrightarrow> valid r'"
    and later_keys: "valid r \<Longrightarrow> later r r' \<Longrightarrow> set (keys r t) \<subseteq> set (keys r' t)"
    and later_route: "valid r \<Longrightarrow> later r r' \<Longrightarrow> k \<in> set (keys r t) \<Longrightarrow> route r' k = route r k"
begin

lemma keys_stay_routed:
  "later\<^sup>*\<^sup>* r r' \<Longrightarrow> valid r \<Longrightarrow> k \<in> set (keys r t) \<Longrightarrow> valid r' \<and> k \<in> set (keys r' t) \<and> route r' k = route r k"
  by (induction rule: rtranclp_induct) (auto dest: later_valid later_keys later_route)

lemma fan_out_is_routed:
  "later\<^sup>*\<^sup>* r r' \<Longrightarrow> valid r \<Longrightarrow> k \<in> set (keys r t) \<Longrightarrow> \<exists>h. route r k = Some h \<and> route r' k = Some h"
  using keys_stay_routed keys_routed by fastforce

end

interpretation registry_routing: delivery_routing registry_ok matchingHandlerKeys
  "\<lambda>r k. map_option eh_ref (resolve_handler r k)" registers
proof (unfold_locales, goal_cases)
  case (1 r t)
  then show ?case by (cases "map_of (rg_exact r) t") (auto simp: matchingHandlerKeys_def registry_ok_def)
next
  case (2 r k t)
  then show ?case by (auto simp: resolve_handler_def elim: matching_key_known)
next
  case (3 r r')
  then show ?case by (simp add: registry_ok_registers)
next
  case (4 r r' t)
  then show ?case using registers_keeps_keys [of r r' t] by auto
next
  case (5 r r' k t)
  then obtain h where h: "map_of (rg_byKey r) k = Some h" by (auto elim: matching_key_known)
  with registers_keeps_handler [OF 5(2) h] show ?case by (auto simp: resolve_handler_def)
qed

lemma resolved_by_key:
  "registry_ok r \<Longrightarrow> map_of (rg_byKey r) k = Some h \<Longrightarrow> resolve_handler r k = Some h \<and> eh_key h = k"
  by (simp add: resolve_handler_def registry_ok_def)

text \<open>
  C16. Routing of an event. In every registry that registrations can produce, the keys an event
  fans out to are distinct, and each of them resolves to a handler with this key. Whatever is
  registered later, the key stays among the keys of the event type and resolves to the same handler
  object, so a delivery for a registered subscriber never misses its handler.
\<close>

theorem routing_survives_registration:
  assumes "reachable_registry r" and "registers\<^sup>*\<^sup>* r r'" and "k \<in> set (matchingHandlerKeys r t)"
  shows "distinct (matchingHandlerKeys r t) \<and> k \<in> set (matchingHandlerKeys r' t)
     \<and> (\<exists>h h'. resolve_handler r k = Some h \<and> resolve_handler r' k = Some h'
          \<and> eh_ref h' = eh_ref h \<and> eh_key h = k \<and> eh_key h' = k)"
proof -
  have ok: "registry_ok r" using assms(1) registry_ok_later registry_ok_new by (auto simp: reachable_registry_def)
  with assms(2) have ok': "registry_ok r'" by (rule registry_ok_later)
  have k': "k \<in> set (matchingHandlerKeys r' t)"
    using registry_routing.keys_stay_routed [OF assms(2) ok assms(3)] by blast
  obtain h where h: "map_of (rg_byKey r) k = Some h" using ok assms(3) by (rule matching_key_known)
  obtain h' where h': "map_of (rg_byKey r') k = Some h'" using ok' k' by (rule matching_key_known)
  have "eh_ref h' = eh_ref h"
    using registry_routing.fan_out_is_routed [OF assms(2) ok assms(3)]
      resolved_by_key [OF ok h] resolved_by_key [OF ok' h'] by auto
  then show ?thesis
    using registry_routing.keys_distinct [OF ok] k' resolved_by_key [OF ok h] resolved_by_key [OF ok' h'] by auto
qed

section \<open>What registering the decorated subscribers amounts to\<close>

definition event_types_of :: "event_handler \<Rightarrow> string list" where
  "event_types_of h = (case eh_options h of None \<Rightarrow> [] | Some options \<Rightarrow> event_type_list (so_eventType options))"

definition descriptor_of :: "event_handler \<Rightarrow> subscriber_descriptor" where
  "descriptor_of h = \<lparr>sd_eventTypes = event_types_of h, sd_key = eh_key h,
     sd_description = (case eh_options h of None \<Rightarrow> [] | Some options \<Rightarrow> so_description options)\<rparr>"

definition well_decorated :: "event_handler \<Rightarrow> bool" where
  "well_decorated h \<longleftrightarrow>
     (\<exists>options. eh_options h = Some options \<and> so_key options = eh_key h \<and> \<not> is_blank (so_description options))
     \<and> distinct (event_types_of h) \<and> (event_types_of h \<noteq> [] \<longrightarrow> CHR '':'' \<notin> set (eh_key h))"

lemma run_steps_append:
  "run_steps (fs @ gs) s = (case run_steps fs s of (None, s') \<Rightarrow> run_steps gs s' | (Some e, s') \<Rightarrow> (Some e, s'))"
  by (induction fs arbitrary: s) (auto split: sum.splits)

lemma run_steps_None_append:
  "run_steps (fs @ gs) s = (None, u) \<longleftrightarrow> (\<exists>s'. run_steps fs s = (None, s') \<and> run_steps gs s' = (None, u))"
  by (auto simp: run_steps_append split: prod.splits option.splits)

text \<open>A registry that holds exactly the subscribers \<open>ps\<close>.\<close>

definition holds :: "event_handler list \<Rightarrow> 'tx event_registry \<Rightarrow> bool" where
  "holds ps r \<longleftrightarrow>
     (\<forall>t. coalesce (map_of (rg_exact r) t) [] = filter (\<lambda>h. t \<in> set (event_types_of h)) ps)
     \<and> rg_descriptors r = map (\<lambda>h. (eh_key h, descriptor_of h)) ps
     \<and> (\<forall>k h. map_of (rg_byKey r) k = Some h \<longrightarrow> h \<in> set ps \<and> eh_key h = k)"

definition added_to :: "event_handler \<Rightarrow> string list \<Rightarrow> 'tx event_registry \<Rightarrow> 'tx event_registry \<Rightarrow> bool" where
  "added_to h ts r r' \<longleftrightarrow>
     (\<forall>t. coalesce (map_of (rg_exact r') t) []
          = coalesce (map_of (rg_exact r) t) [] @ (if t \<in> set ts then [h] else []))
     \<and> rg_descriptors r' = rg_descriptors r
     \<and> (\<forall>k. map_of (rg_byKey r') k = (if ts \<noteq> [] \<and> k = eh_key h then Some h else map_of (rg_byKey r) k))"

text \<open>The key is known to the registry, at most as this very object.\<close>

definition may_add :: "event_handler \<Rightarrow> 'tx event_registry \<Rightarrow> bool" where
  "may_add h r \<longleftrightarrow> CHR '':'' \<notin> set (eh_key h)
     \<and> (\<forall>g. map_of (rg_byKey r) (eh_key h) = Some g \<longrightarrow> eh_ref g = eh_ref h)"

lemma on_ok_iff:
  "on t h r = Inr r' \<longleftrightarrow> may_add h r \<and> eh_key h \<notin> eh_key ` set (coalesce (map_of (rg_exact r) t) [])
     \<and> r' = r\<lparr>rg_byKey := map_put (eh_key h) h (rg_byKey r),
               rg_exact := map_put t (coalesce (map_of (rg_exact r) t) [] @ [h]) (rg_exact r)\<rparr>"
proof -
  have "list_ex (\<lambda>candidate. eh_key candidate = eh_key h) hs \<longleftrightarrow> eh_key h \<in> eh_key ` set hs" for hs
    by (induction hs) auto
  then show ?thesis
    by (cases "map_of (rg_byKey r) (eh_key h)")
      (auto simp: on_def assertValidHandlerKey_def may_add_def Let_def)
qed

lemma on_all_ok_iff:
  "(\<exists>r'. run_steps (map (\<lambda>t. on t h) ts) r = (None, r')) \<longleftrightarrow>
     ts = [] \<or> may_add h r \<and> distinct ts
       \<and> (\<forall>t\<in>set ts. eh_key h \<notin> eh_key ` set (coalesce (map_of (rg_exact r) t) []))"
proof (induction ts arbitrary: r)
  case (Cons t ts)
  let ?r = "r\<lparr>rg_byKey := map_put (eh_key h) h (rg_byKey r),
    rg_exact := map_put t (coalesce (map_of (rg_exact r) t) [] @ [h]) (rg_exact r)\<rparr>"
  have "(\<exists>r'. run_steps (map (\<lambda>t. on t h) (t # ts)) r = (None, r'))
      \<longleftrightarrow> on t h r = Inr ?r \<and> (\<exists>r'. run_steps (map (\<lambda>t. on t h) ts) ?r = (None, r'))"
  proof (cases "on t h r")
    case (Inl e)
    then show ?thesis by simp
  next
    case (Inr s)
    then have "s = ?r" by (simp add: on_ok_iff)
    with Inr show ?thesis by simp
  qed
  also have "\<dots> \<longleftrightarrow> may_add h r \<and> eh_key h \<notin> eh_key ` set (coalesce (map_of (rg_exact r) t) [])
      \<and> (ts = [] \<or> t \<notin> set ts \<and> distinct ts
           \<and> (\<forall>u\<in>set ts. eh_key h \<notin> eh_key ` set (coalesce (map_of (rg_exact r) u) [])))"
    unfolding on_ok_iff Cons.IH by (auto simp: may_add_def map_of_map_put)
  finally show ?case by auto
qed simp

lemma on_all_added: "run_steps (map (\<lambda>t. on t h) ts) r = (None, r') \<Longrightarrow> distinct ts \<Longrightarrow> added_to h ts r r'"
proof (induction ts arbitrary: r)
  case (Cons t ts)
  then obtain s where s: "on t h r = Inr s" "run_steps (map (\<lambda>t. on t h) ts) s = (None, r')"
    by (auto split: sum.splits)
  from Cons.IH [OF s(2)] Cons.prems(2) have "added_to h ts s r'" by simp
  with s(1) Cons.prems(2) show ?case by (auto simp: on_ok_iff added_to_def map_of_map_put)
qed (simp add: added_to_def)

lemma run_steps_throw: "run_steps (throw_unless c m # fs) s = (if c then run_steps fs s else (Some m, s))"
  by (simp add: throw_unless_def)

lemma subscriber_steps_ok_iff:
  "run_steps (subscriber_steps h) r = (None, r') \<longleftrightarrow>
     (\<exists>options s. eh_options h = Some options \<and> so_key options = eh_key h \<and> \<not> is_blank (so_description options)
        \<and> run_steps (map (\<lambda>t. on t h) (event_types_of h)) r = (None, s)
        \<and> describeSubscriber (descriptor_of h) s = Inr r')"
proof (cases "eh_options h")
  case None
  then show ?thesis by (simp add: subscriber_steps_def run_steps_throw del: run_steps.simps(2))
next
  case (Some options)
  have d: "run_steps [describeSubscriber d] s = (None, u) \<longleftrightarrow> describeSubscriber d s = Inr u" for d s u
    by (simp split: sum.splits)
  have "\<lparr>sd_eventTypes = event_type_list (so_eventType options), sd_key = so_key options,
      sd_description = so_description options\<rparr> = descriptor_of h" if "so_key options = eh_key h"
    using that Some by (simp add: descriptor_of_def event_types_of_def)
  moreover have "event_type_list (so_eventType options) = event_types_of h" using Some by (simp add: event_types_of_def)
  ultimately show ?thesis
    using Some by (auto simp: subscriber_steps_def run_steps_throw run_steps_None_append d simp del: run_steps.simps(2))
qed

lemma holds_lookup: "holds ps r \<Longrightarrow> eh_key h \<notin> eh_key ` set ps \<Longrightarrow> map_of (rg_byKey r) (eh_key h) = None"
proof (rule ccontr)
  assume h: "holds ps r" "eh_key h \<notin> eh_key ` set ps" "map_of (rg_byKey r) (eh_key h) \<noteq> None"
  then obtain g where "map_of (rg_byKey r) (eh_key h) = Some g" by blast
  with h(1) have "g \<in> set ps" "eh_key g = eh_key h" by (simp_all add: holds_def)
  then have "eh_key h \<in> eh_key ` set ps" by (metis image_eqI)
  with h(2) show False by simp
qed

lemma holds_descriptor: "holds ps r \<Longrightarrow> map_of (rg_descriptors r) k = None \<longleftrightarrow> k \<notin> eh_key ` set ps"
  by (simp add: holds_def map_of_eq_None_iff image_image)

lemma subscriber_added:
  assumes "holds ps r"
  shows "(\<exists>r'. run_steps (subscriber_steps h) r = (None, r')) \<longleftrightarrow> well_decorated h \<and> eh_key h \<notin> eh_key ` set ps"
    and "run_steps (subscriber_steps h) r = (None, r') \<Longrightarrow> holds (ps @ [h]) r'"
proof -
  have described: "(\<exists>r'. describeSubscriber (descriptor_of h) s = Inr r') \<longleftrightarrow> eh_key h \<notin> eh_key ` set ps"
    if "added_to h (event_types_of h) r s" for s
    using that holds_descriptor [OF assms]
    by (auto simp: describeSubscriber_def added_to_def descriptor_of_def)
  have ons: "(\<exists>s. run_steps (map (\<lambda>t. on t h) (event_types_of h)) r = (None, s))
      \<longleftrightarrow> event_types_of h = [] \<or> CHR '':'' \<notin> set (eh_key h) \<and> distinct (event_types_of h)"
    if "eh_key h \<notin> eh_key ` set ps"
  proof -
    have "eh_key h \<notin> eh_key ` set (coalesce (map_of (rg_exact r) t) [])" for t
      using that assms by (auto simp: holds_def)
    with holds_lookup [OF assms that] show ?thesis by (simp add: on_all_ok_iff may_add_def)
  qed
  have dist: "distinct (event_types_of h)"
    if "run_steps (map (\<lambda>t. on t h) (event_types_of h)) r = (None, s)" for s
    using that on_all_ok_iff [of h "event_types_of h" r] by auto
  show "(\<exists>r'. run_steps (subscriber_steps h) r = (None, r')) \<longleftrightarrow> well_decorated h \<and> eh_key h \<notin> eh_key ` set ps"
  proof
    assume "\<exists>r'. run_steps (subscriber_steps h) r = (None, r')"
    then obtain options s r' where o: "eh_options h = Some options" "so_key options = eh_key h"
      "\<not> is_blank (so_description options)" "run_steps (map (\<lambda>t. on t h) (event_types_of h)) r = (None, s)"
      "describeSubscriber (descriptor_of h) s = Inr r'"
      unfolding subscriber_steps_ok_iff by blast
    have d: "distinct (event_types_of h)" by (rule dist [OF o(4)])
    have k: "eh_key h \<notin> eh_key ` set ps" using described [OF on_all_added [OF o(4) d]] o(5) by blast
    with ons [OF k] o d show "well_decorated h \<and> eh_key h \<notin> eh_key ` set ps" by (auto simp: well_decorated_def)
  next
    assume w: "well_decorated h \<and> eh_key h \<notin> eh_key ` set ps"
    then obtain options where o: "eh_options h = Some options" "so_key options = eh_key h"
      "\<not> is_blank (so_description options)" by (auto simp: well_decorated_def)
    from w ons obtain s where s: "run_steps (map (\<lambda>t. on t h) (event_types_of h)) r = (None, s)"
      by (auto simp: well_decorated_def)
    from w described [OF on_all_added [OF s dist [OF s]]] obtain r' where
      "describeSubscriber (descriptor_of h) s = Inr r'" by blast
    with o s show "\<exists>r'. run_steps (subscriber_steps h) r = (None, r')" unfolding subscriber_steps_ok_iff by blast
  qed
  show "holds (ps @ [h]) r'" if step: "run_steps (subscriber_steps h) r = (None, r')"
  proof -
    from step obtain s where s: "run_steps (map (\<lambda>t. on t h) (event_types_of h)) r = (None, s)"
      "describeSubscriber (descriptor_of h) s = Inr r'"
      unfolding subscriber_steps_ok_iff by blast
    have a: "added_to h (event_types_of h) r s" by (rule on_all_added [OF s(1) dist [OF s(1)]])
    have k: "eh_key h \<notin> eh_key ` set ps" using described [OF a] s(2) by blast
    have r': "r' = s\<lparr>rg_descriptors := rg_descriptors s @ [(eh_key h, descriptor_of h)]\<rparr>"
      using s(2) a k assms
      by (auto simp: describeSubscriber_def descriptor_of_def added_to_def holds_def map_put_new image_image
          split: if_splits)
    show ?thesis using a assms by (auto simp: r' holds_def added_to_def)
  qed
qed

lemma subscribers_added:
  assumes "holds ps r" and "distinct (map eh_key ps)"
  shows "(\<exists>r'. registerDomainEventSubscribers hs r = (None, r'))
      \<longleftrightarrow> (\<forall>h\<in>set hs. well_decorated h) \<and> distinct (map eh_key (ps @ hs))"
    and "registerDomainEventSubscribers hs r = (None, r') \<Longrightarrow> holds (ps @ hs) r'"
  using assms
proof (induction hs arbitrary: ps r)
  case Nil
  { case 1 then show ?case by (simp add: registerDomainEventSubscribers_def) }
  { case 2 then show ?case by (simp add: registerDomainEventSubscribers_def) }
next
  case (Cons h hs)
  have step: "registerDomainEventSubscribers (h # hs) r = (None, u) \<longleftrightarrow>
      (\<exists>s. run_steps (subscriber_steps h) r = (None, s) \<and> registerDomainEventSubscribers hs s = (None, u))" for r u
    by (simp add: registerDomainEventSubscribers_def run_steps_None_append)
  { case 1
    show ?case
    proof (cases "well_decorated h \<and> eh_key h \<notin> eh_key ` set ps")
      case True
      then obtain s where s: "run_steps (subscriber_steps h) r = (None, s)" using subscriber_added(1) [OF 1(1)] by blast
      have "distinct (map eh_key (ps @ [h]))" using 1(2) True by simp
      from Cons.IH(1) [OF subscriber_added(2) [OF 1(1) s] this] s True show ?thesis by (simp add: step)
    next
      case False
      then have "\<not> (\<exists>r'. run_steps (subscriber_steps h) r = (None, r'))" using subscriber_added(1) [OF 1(1)] by blast
      with False show ?thesis by (auto simp: step)
    qed }
  { case 2
    then obtain s where s: "run_steps (subscriber_steps h) r = (None, s)" "registerDomainEventSubscribers hs s = (None, r')"
      by (auto simp: step)
    have "\<exists>r'. run_steps (subscriber_steps h) r = (None, r')" using s(1) by blast
    then have "distinct (map eh_key (ps @ [h]))" using subscriber_added(1) [OF 2(2)] 2(3) by simp
    from Cons.IH(2) [OF s(2) subscriber_added(2) [OF 2(2) s(1)] this] show ?case by simp }
qed

text \<open>
  Registering the decorated subscribers at boot. It succeeds exactly when every handler
  is decorated with its own key and a description that is not blank, subscribes to pairwise
  different event types, has a key without a colon, and no two handlers share a key. Afterwards an
  event fans out to exactly the subscribers of its type, in the order they were registered, each key
  resolves to its handler, and the catalog lists one entry per handler.
\<close>

theorem subscribers_are_registered:
  "((\<exists>r. registerDomainEventSubscribers hs empty_event_registry = (None, r))
      \<longleftrightarrow> (\<forall>h\<in>set hs. well_decorated h) \<and> distinct (map eh_key hs))
   \<and> (\<forall>r. registerDomainEventSubscribers hs empty_event_registry = (None, r) \<longrightarrow>
        (\<forall>t. matchingHandlerKeys r t = map eh_key (filter (\<lambda>h. t \<in> set (event_types_of h)) hs))
        \<and> rd_subscribers (describe_registry r) = map descriptor_of hs
        \<and> (\<forall>k h. map_of (rg_byKey r) k = Some h \<longrightarrow> resolve_handler r k = Some h \<and> h \<in> set hs \<and> eh_key h = k))"
proof -
  have h: "holds [] empty_event_registry" by (simp add: holds_def empty_event_registry_def)
  have "(\<forall>t. matchingHandlerKeys r t = map eh_key (filter (\<lambda>h. t \<in> set (event_types_of h)) hs))
      \<and> rd_subscribers (describe_registry r) = map descriptor_of hs
      \<and> (\<forall>k h. map_of (rg_byKey r) k = Some h \<longrightarrow> resolve_handler r k = Some h \<and> h \<in> set hs \<and> eh_key h = k)"
    if "registerDomainEventSubscribers hs empty_event_registry = (None, r)" for r
    using subscribers_added(2) [OF h _ that]
    by (auto simp: holds_def matchingHandlerKeys_def describe_registry_def resolve_handler_def)
  with subscribers_added(1) [OF h] show ?thesis by auto
qed

section \<open>An example\<close>

definition ex_handler :: "nat \<Rightarrow> string \<Rightarrow> string list \<Rightarrow> event_handler" where
  "ex_handler ref k types = \<lparr>eh_ref = ref, eh_key = k, eh_class = ''Handler'',
     eh_options = Some \<lparr>so_eventType = TypeList types, so_key = k, so_description = ''why''\<rparr>\<rparr>"

abbreviation ex_handlers :: "event_handler list" where
  "ex_handlers \<equiv> [ex_handler 1 ''audit'' [''order.created'', ''order.paid''], ex_handler 2 ''mail'' [''order.paid'']]"

lemma why_not_blank: "\<not> is_blank ''why''"
  by code_simp

theorem subscribers_are_registered_witness:
  "\<exists>r. registerDomainEventSubscribers ex_handlers (empty_event_registry :: unit event_registry) = (None, r)
     \<and> matchingHandlerKeys r ''order.paid'' = [''audit'', ''mail'']"
proof -
  have "(\<forall>h\<in>set ex_handlers. well_decorated h) \<and> distinct (map eh_key ex_handlers)"
    using why_not_blank by (simp add: well_decorated_def ex_handler_def event_types_of_def event_type_list_def)
  with subscribers_are_registered [of ex_handlers] obtain r where
    r: "registerDomainEventSubscribers ex_handlers (empty_event_registry :: unit event_registry) = (None, r)" by blast
  with subscribers_are_registered [of ex_handlers] have
    "matchingHandlerKeys r ''order.paid'' = map eh_key (filter (\<lambda>h. ''order.paid'' \<in> set (event_types_of h)) ex_handlers)"
    by blast
  with r show ?thesis by (simp add: ex_handler_def event_types_of_def event_type_list_def)
qed

definition ex_registry :: "unit event_registry" where
  "ex_registry = \<lparr>rg_exact = [(''order.paid'', [ex_handler 2 ''mail'' []])], rg_prefixes = [],
     rg_byKey = [(''mail'', ex_handler 2 ''mail'' [])], rg_contributors = [], rg_descriptors = []\<rparr>"

theorem routing_survives_registration_witness:
  "\<exists>h. resolve_handler (registerHandlerKeyContributor (\<lambda>_ _. Inr []) ex_registry) ''mail'' = Some h \<and> eh_key h = ''mail''"
proof -
  have "on ''order.paid'' (ex_handler 2 ''mail'' []) (empty_event_registry :: unit event_registry) = Inr ex_registry"
    by (simp add: on_def assertValidHandlerKey_def ex_handler_def empty_event_registry_def ex_registry_def)
  then have "registers (empty_event_registry :: unit event_registry) ex_registry" by (rule registers_on)
  then have "reachable_registry ex_registry" unfolding reachable_registry_def by (rule r_into_rtranclp)
  moreover have "registers\<^sup>*\<^sup>* ex_registry (registerHandlerKeyContributor (\<lambda>_ _. Inr []) ex_registry)"
    by (intro r_into_rtranclp registers_contributor)
  moreover have "''mail'' \<in> set (matchingHandlerKeys ex_registry ''order.paid'')"
    by (simp add: matchingHandlerKeys_def ex_registry_def ex_handler_def)
  ultimately show ?thesis using routing_survives_registration by blast
qed

end
