(* ===== verification/Outbox.thy ===== *)
theory Outbox
  imports EventRegistry
begin

text \<open>
  The outbox of domain events: the rows of \<open>domain-events/src/types.ts\<close>, the dispatcher of
  \<open>domain-event-dispatcher.service.ts\<close>, and the two administrative updates of
  \<open>admin/domain-events-admin.service.ts\<close>. A database is the list of its rows, a transaction is
  one state change; the clock, the lease ids, the handlers and the binding switch are parameters.
\<close>

section \<open>Events and deliveries\<close>

datatype event_operation = OpCreate | OpUpdate | OpDelete

datatype delivery_status = PENDING | PROCESSING | PROCESSED | DEAD_LETTER | IGNORED

record domain_event =
  de_id :: string
  de_seq :: int
  de_aggregateType :: string
  de_aggregateId :: string
  de_eventType :: string
  de_operation :: event_operation
  de_schemaVersion :: int
  de_actorUserId :: "string option"
  de_correlationId :: "string option"
  de_workflowId :: "string option"
  de_before :: jv
  de_after :: jv
  de_changedFields :: "string list"
  de_metadata :: jv
  de_capabilityId :: "string option"
  de_capabilityVersion :: "string option"
  de_capabilityDigest :: "string option"
  de_bindingId :: "string option"
  de_bindingVersion :: "string option"
  de_envelopeVersion :: "string option"
  de_sourceApp :: "string option"
  de_payload :: jv
  de_payloadDigest :: "string option"
  de_createdAt :: int

record delivery =
  dd_id :: string
  dd_eventId :: string
  dd_handlerKey :: string
  dd_status :: delivery_status
  dd_attempts :: nat
  dd_nextAttemptAt :: "int option"
  dd_lockedAt :: "int option"
  dd_lockedBy :: "string option"
  dd_lastError :: "string option"
  dd_processedAt :: "int option"
  dd_createdAt :: int

record outbox =
  ob_events :: "domain_event list"
  ob_deliveries :: "delivery list"

text \<open>\<open>updateMany\<close>: every row that satisfies the condition is updated.\<close>

definition updateMany :: "(delivery \<Rightarrow> bool) \<Rightarrow> (delivery \<Rightarrow> delivery) \<Rightarrow> outbox \<Rightarrow> outbox" where
  "updateMany cond upd db = db\<lparr>ob_deliveries := map (\<lambda>d. if cond d then upd d else d) (ob_deliveries db)\<rparr>"

section \<open>Errors a handler may throw\<close>

datatype handler_error =
    IgnoredError string
  | TerminalError string
  | RetryableError string "int option"
  | OtherError string

datatype handler_result = Returns | Throws handler_error

fun errorMessage :: "handler_error \<Rightarrow> string" where
  "errorMessage (IgnoredError m) = m"
| "errorMessage (TerminalError m) = m"
| "errorMessage (RetryableError m _) = m"
| "errorMessage (OtherError m) = m"

section \<open>Options\<close>

text \<open>The lookup of a binding may reject with an error.\<close>

record dispatcher_options =
  op_intervalMs :: int
  op_batchSize :: nat
  op_maxAttempts :: nat
  op_staleLockMs :: int
  op_baseBackoffMs :: int
  op_maxBackoffMs :: int
  op_bindingEnabled :: "string \<Rightarrow> handler_error + bool"
  op_autoStart :: bool

definition DEFAULT_DISPATCHER_OPTIONS :: dispatcher_options where
  "DEFAULT_DISPATCHER_OPTIONS =
     \<lparr>op_intervalMs = 5000, op_batchSize = 20, op_maxAttempts = 8, op_staleLockMs = 300000,
      op_baseBackoffMs = 30000, op_maxBackoffMs = 3600000, op_bindingEnabled = (\<lambda>_. Inr False),
      op_autoStart = True\<rparr>"

section \<open>Retries\<close>

text \<open>The ellipsis is one character of the program and three bytes here.\<close>

definition boundedError :: "string \<Rightarrow> string" where
  "boundedError v = (if length v > 1000 then take 1000 v @ [CHR 0xE2, CHR 0x80, CHR 0xA6] else v)"

definition retryDelayMs :: "dispatcher_options \<Rightarrow> nat \<Rightarrow> handler_error \<Rightarrow> int" where
  "retryDelayMs opts attempts error =
     (case error of
        RetryableError _ (Some ms) \<Rightarrow> min (max ms 0) (op_maxBackoffMs opts)
      | _ \<Rightarrow> min (op_baseBackoffMs opts * 2 ^ attempts) (op_maxBackoffMs opts))"

section \<open>Reclaiming and claiming\<close>

definition STALE_LOCK_RECLAIMED_ERROR :: string where
  "STALE_LOCK_RECLAIMED_ERROR = ''Reclaimed after stale lock timeout''"

definition STALE_LOCK_RECLAIMED_TERMINAL_ERROR :: string where
  "STALE_LOCK_RECLAIMED_TERMINAL_ERROR = ''Reclaimed after stale lock timeout: max attempts exceeded''"

definition unlock :: "delivery \<Rightarrow> delivery" where
  "unlock d = d\<lparr>dd_lockedAt := None, dd_lockedBy := None\<rparr>"

definition stale_lock :: "dispatcher_options \<Rightarrow> int \<Rightarrow> delivery \<Rightarrow> bool" where
  "stale_lock opts now d \<longleftrightarrow> dd_status d = PROCESSING
     \<and> (case dd_lockedAt d of None \<Rightarrow> False | Some t \<Rightarrow> t < now - op_staleLockMs opts)"

definition terminalAttempt :: "dispatcher_options \<Rightarrow> int" where
  "terminalAttempt opts = int (op_maxAttempts opts) - 1"

text \<open>The two updates run concurrently; their conditions exclude each other.\<close>

definition reclaim_terminal :: "dispatcher_options \<Rightarrow> int \<Rightarrow> outbox \<Rightarrow> outbox" where
  "reclaim_terminal opts now =
     updateMany (\<lambda>d. stale_lock opts now d \<and> int (dd_attempts d) \<ge> terminalAttempt opts)
       (\<lambda>d. unlock (d\<lparr>dd_status := DEAD_LETTER, dd_attempts := dd_attempts d + 1,
                       dd_lastError := Some STALE_LOCK_RECLAIMED_TERMINAL_ERROR\<rparr>))"

definition reclaim_pending :: "dispatcher_options \<Rightarrow> int \<Rightarrow> outbox \<Rightarrow> outbox" where
  "reclaim_pending opts now =
     updateMany (\<lambda>d. stale_lock opts now d \<and> int (dd_attempts d) < terminalAttempt opts)
       (\<lambda>d. unlock (d\<lparr>dd_status := PENDING, dd_attempts := dd_attempts d + 1,
                       dd_lastError := Some STALE_LOCK_RECLAIMED_ERROR\<rparr>))"

definition reclaimStaleLocks :: "dispatcher_options \<Rightarrow> int \<Rightarrow> outbox \<Rightarrow> outbox" where
  "reclaimStaleLocks opts now db = reclaim_pending opts now (reclaim_terminal opts now db)"

definition delivery_event :: "outbox \<Rightarrow> delivery \<Rightarrow> domain_event option" where
  "delivery_event db d = find (\<lambda>e. de_id e = dd_eventId d) (ob_events db)"

definition is_due :: "int \<Rightarrow> delivery \<Rightarrow> bool" where
  "is_due now d \<longleftrightarrow> dd_status d = PENDING
     \<and> (case dd_nextAttemptAt d of None \<Rightarrow> True | Some t \<Rightarrow> t \<le> now)"

definition seq_of :: "outbox \<Rightarrow> delivery \<Rightarrow> int" where
  "seq_of db d = (case delivery_event db d of None \<Rightarrow> 0 | Some e \<Rightarrow> de_seq e)"

text \<open>
  The rows of the claiming query: due, joined with their event, not locked by another
  transaction, the first \<open>batchSize\<close> in the order of the events; rows of one event keep the
  order of the table.
\<close>

definition due_rows :: "nat \<Rightarrow> int \<Rightarrow> string set \<Rightarrow> outbox \<Rightarrow> delivery list" where
  "due_rows batchSize now locked db =
     take batchSize (sort_key (seq_of db)
       (filter (\<lambda>d. is_due now d \<and> delivery_event db d \<noteq> None \<and> dd_id d \<notin> locked) (ob_deliveries db)))"

definition claimed_as :: "int \<Rightarrow> string \<Rightarrow> delivery \<Rightarrow> delivery" where
  "claimed_as now leaseId d =
     d\<lparr>dd_status := PROCESSING, dd_lockedAt := Some now, dd_lockedBy := Some leaseId\<rparr>"

text \<open>The claimed rows with their events, in the order of the events, and the database after the claim.\<close>

definition claimDueDeliveries ::
    "dispatcher_options \<Rightarrow> int \<Rightarrow> string \<Rightarrow> string set \<Rightarrow> outbox \<Rightarrow> (delivery \<times> domain_event) list \<times> outbox" where
  "claimDueDeliveries opts now leaseId locked db =
     (let ids = map dd_id (due_rows (op_batchSize opts) now locked db);
          db' = updateMany (\<lambda>d. dd_id d \<in> set ids) (claimed_as now leaseId) db;
          claimed = sort_key (seq_of db') (filter (\<lambda>d. dd_id d \<in> set ids) (ob_deliveries db'))
      in (map (\<lambda>d. (d, the (delivery_event db' d))) claimed, db'))"

section \<open>Processing a claimed delivery\<close>

record dispatcher =
  dp_options :: dispatcher_options
  dp_registry :: "unit event_registry"
  dp_handle :: "event_handler \<Rightarrow> domain_event \<Rightarrow> delivery \<Rightarrow> handler_result"

definition binding_check :: "dispatcher_options \<Rightarrow> domain_event \<Rightarrow> handler_error + bool" where
  "binding_check opts event =
     (if truthy (de_bindingId event) then op_bindingEnabled opts (the (de_bindingId event)) else Inr True)"

definition markFailed :: "dispatcher_options \<Rightarrow> int \<Rightarrow> delivery \<Rightarrow> handler_error \<Rightarrow> delivery \<Rightarrow> delivery" where
  "markFailed opts now claimed error d =
     (let nextAttempts = dd_attempts claimed + 1; terminal = nextAttempts \<ge> op_maxAttempts opts
      in unlock (d\<lparr>dd_status := (if terminal then DEAD_LETTER else PENDING), dd_attempts := nextAttempts,
                   dd_nextAttemptAt := (if terminal then None else Some (now + retryDelayMs opts (dd_attempts claimed) error)),
                   dd_lastError := Some (boundedError (errorMessage error))\<rparr>))"

definition finished :: "delivery_status \<Rightarrow> int \<Rightarrow> string option \<Rightarrow> delivery \<Rightarrow> delivery" where
  "finished status now error d =
     unlock (d\<lparr>dd_status := status, dd_processedAt := Some now, dd_lastError := error\<rparr>)"

definition put_back :: "delivery \<Rightarrow> string \<Rightarrow> delivery \<Rightarrow> delivery" where
  "put_back claimed bindingId d =
     unlock (d\<lparr>dd_status := PENDING, dd_attempts := dd_attempts claimed, dd_nextAttemptAt := None,
               dd_lastError := Some (''Integration binding disabled: '' @ bindingId)\<rparr>)"

definition after_error :: "dispatcher_options \<Rightarrow> int \<Rightarrow> delivery \<Rightarrow> handler_error \<Rightarrow> delivery \<Rightarrow> delivery" where
  "after_error opts now claimed error =
     (case error of
        IgnoredError m \<Rightarrow> finished IGNORED now (Some m)
      | TerminalError m \<Rightarrow> finished DEAD_LETTER now (Some (boundedError m))
      | _ \<Rightarrow> markFailed opts now claimed error)"

text \<open>The update a claimed delivery ends with.\<close>

definition completion :: "dispatcher \<Rightarrow> int \<Rightarrow> delivery \<Rightarrow> domain_event \<Rightarrow> delivery \<Rightarrow> delivery" where
  "completion disp now claimed event =
     (case resolve_handler (dp_registry disp) (dd_handlerKey claimed) of
        None \<Rightarrow> finished IGNORED now (Some (''No handler registered for '' @ dd_handlerKey claimed))
      | Some handler \<Rightarrow>
          (case binding_check (dp_options disp) event of
             Inl error \<Rightarrow> after_error (dp_options disp) now claimed error
           | Inr False \<Rightarrow> put_back claimed (the (de_bindingId event))
           | Inr True \<Rightarrow>
               (case dp_handle disp handler event claimed of
                  Returns \<Rightarrow> finished PROCESSED now None
                | Throws error \<Rightarrow> after_error (dp_options disp) now claimed error)))"

text \<open>The update is guarded by the lease of the claim.\<close>

definition completeDelivery :: "delivery \<Rightarrow> (delivery \<Rightarrow> delivery) \<Rightarrow> outbox \<Rightarrow> outbox" where
  "completeDelivery claimed upd =
     updateMany (\<lambda>d. dd_id d = dd_id claimed \<and> dd_status d = PROCESSING
       \<and> dd_lockedBy d = Some (coalesce (dd_lockedBy claimed) ''__missing_lease__'')) upd"

definition processDelivery :: "dispatcher \<Rightarrow> int \<Rightarrow> delivery \<times> domain_event \<Rightarrow> outbox \<Rightarrow> outbox" where
  "processDelivery disp now claim = completeDelivery (fst claim) (completion disp now (fst claim) (snd claim))"

text \<open>The readings of the clock during a tick.\<close>

record tick_clock =
  tc_reclaim :: int
  tc_claim :: int
  tc_done :: "string \<Rightarrow> int"

definition tick_work :: "dispatcher \<Rightarrow> tick_clock \<Rightarrow> string \<Rightarrow> string set \<Rightarrow> outbox \<Rightarrow> outbox" where
  "tick_work disp clock leaseId locked db =
     (let db1 = reclaimStaleLocks (dp_options disp) (tc_reclaim clock) db;
          (claims, db2) = claimDueDeliveries (dp_options disp) (tc_claim clock) leaseId locked db1
      in fold (\<lambda>c. processDelivery disp (tc_done clock (dd_id (fst c))) c) claims db2)"

section \<open>Starting, stopping and overlapping ticks\<close>

text \<open>Whether the timer is set, and whether a tick is running.\<close>

record dispatcher_state =
  ds_timer :: bool
  ds_running :: bool

text \<open>A tick that begins while another one is running returns at once: None.\<close>

definition begin_tick :: "dispatcher_state \<Rightarrow> dispatcher_state option" where
  "begin_tick st = (if ds_running st then None else Some (st\<lparr>ds_running := True\<rparr>))"

definition end_tick :: "dispatcher_state \<Rightarrow> dispatcher_state" where
  "end_tick st = st\<lparr>ds_running := False\<rparr>"

text \<open>Starting sets the timer and begins a tick, unless the timer is set.\<close>

definition start :: "dispatcher_state \<Rightarrow> dispatcher_state" where
  "start st =
     (if ds_timer st then st
      else let st' = st\<lparr>ds_timer := True\<rparr> in coalesce (begin_tick st') st')"

definition stop :: "dispatcher_state \<Rightarrow> dispatcher_state" where
  "stop st = st\<lparr>ds_timer := False\<rparr>"

definition onModuleInit :: "dispatcher_options \<Rightarrow> dispatcher_state \<Rightarrow> dispatcher_state" where
  "onModuleInit opts st = (if op_autoStart opts then start st else st)"

section \<open>Administrative updates\<close>

datatype admin_action = RETRY_DELIVERY | IGNORE_DELIVERY

datatype admin_error = NotFoundException string | ConflictException string | HookError "string option"

record admin_actor =
  aa_sub :: string
  aa_email :: "string option"
  aa_isApiKey :: bool
  aa_actingUserId :: "string option"

record audit_input =
  au_action :: admin_action
  au_actor :: admin_actor
  au_before :: delivery
  au_after :: delivery

text \<open>The audit hook accepts, or rejects with an error that may have a code.\<close>

datatype hook_result = Recorded | Rejected "string option"

definition updateDeadLetterDelivery ::
    "(audit_input \<Rightarrow> hook_result) option \<Rightarrow> string \<Rightarrow> admin_actor \<Rightarrow> admin_action \<Rightarrow> (delivery \<Rightarrow> delivery)
      \<Rightarrow> outbox \<Rightarrow> (admin_error + delivery) \<times> outbox" where
  "updateDeadLetterDelivery hook i actor action upd db =
     (case find (\<lambda>d. dd_id d = i) (ob_deliveries db) of
        None \<Rightarrow> (Inl (NotFoundException ''Domain event delivery not found''), db)
      | Some old \<Rightarrow>
          let conflict = ConflictException ''Only dead-lettered deliveries can be retried or ignored.'' in
          if dd_status old \<noteq> DEAD_LETTER then (Inl conflict, db)
          else let db' = updateMany (\<lambda>d. dd_id d = i \<and> dd_status d = DEAD_LETTER) upd db; new = upd old in
            (case hook of
               None \<Rightarrow> (Inr new, db')
             | Some record_audit \<Rightarrow>
                 (case record_audit \<lparr>au_action = action, au_actor = actor, au_before = old, au_after = new\<rparr> of
                    Recorded \<Rightarrow> (Inr new, db')
                  | Rejected code \<Rightarrow>
                      (Inl (if code = Some ''P2025'' then conflict else HookError code), db'))))"

definition retried :: "int \<Rightarrow> delivery \<Rightarrow> delivery" where
  "retried now d =
     unlock (d\<lparr>dd_status := PENDING, dd_nextAttemptAt := Some now, dd_processedAt := None\<rparr>)"

definition retryDelivery where
  "retryDelivery hook now i actor = updateDeadLetterDelivery hook i actor RETRY_DELIVERY (retried now)"

definition admin_ignored :: "int \<Rightarrow> delivery \<Rightarrow> delivery" where
  "admin_ignored now d = unlock (d\<lparr>dd_status := IGNORED, dd_processedAt := Some now\<rparr>)"

definition ignoreDelivery where
  "ignoreDelivery hook now i actor = updateDeadLetterDelivery hook i actor IGNORE_DELIVERY (admin_ignored now)"

end
