(* ===== verification/OutboxRuns.thy ===== *)
theory OutboxRuns
  imports Outbox
begin

text \<open>
  Runs of the outbox: producers that record events, any number of dispatchers that reclaim, claim
  and complete deliveries in any interleaving, workers that die, and administrators. The invariant
  of the reachable worlds bounds the attempts, shows that a lease protects a claimed row, and that
  nothing but an administrator touches a delivery that has ended.
\<close>

section \<open>Updates of a row\<close>

lemma updateMany_events [simp]: "ob_events (updateMany c u db) = ob_events db"
  by (simp add: updateMany_def)

lemma updateMany_rows: "ob_deliveries (updateMany c u db) = map (\<lambda>d. if c d then u d else d) (ob_deliveries db)"
  by (simp add: updateMany_def)

lemma set_updateMany: "d' \<in> set (ob_deliveries (updateMany c u db)) \<longleftrightarrow>
    (\<exists>d\<in>set (ob_deliveries db). d' = (if c d then u d else d))"
  by (auto simp: updateMany_rows)

lemma updateMany_ids:
  "(\<And>d. dd_id (u d) = dd_id d) \<Longrightarrow> map dd_id (ob_deliveries (updateMany c u db)) = map dd_id (ob_deliveries db)"
  by (simp add: updateMany_rows)

text \<open>Which row every update keeps.\<close>

lemmas row_updates = unlock_def finished_def put_back_def markFailed_def claimed_as_def retried_def admin_ignored_def

lemma update_keeps_row [simp]:
  "dd_id (finished st now e d) = dd_id d" "dd_id (put_back c b d) = dd_id d"
  "dd_id (markFailed opts now c err d) = dd_id d" "dd_id (claimed_as now l d) = dd_id d"
  "dd_id (retried now d) = dd_id d" "dd_id (admin_ignored now d) = dd_id d" "dd_id (unlock d) = dd_id d"
  by (simp_all add: row_updates Let_def)

lemma after_error_id [simp]: "dd_id (after_error opts now c err d) = dd_id d"
  by (simp add: after_error_def split: handler_error.split)

lemma completion_id [simp]: "dd_id (completion disp now c e d) = dd_id d"
  by (simp add: completion_def split: option.split sum.split bool.split handler_result.split)

section \<open>Steps\<close>

text \<open>
  A world is the database, the claims the workers hold, the leases that were drawn, and the number
  of times an administrator has retried each delivery.
\<close>

record world =
  wo_db :: outbox
  wo_claims :: "(delivery \<times> domain_event) list"
  wo_leases :: "string set"
  wo_retries :: "string \<Rightarrow> nat"

definition new_delivery :: "string \<Rightarrow> string \<Rightarrow> string \<Rightarrow> int \<Rightarrow> delivery" where
  "new_delivery i eventId key now =
     \<lparr>dd_id = i, dd_eventId = eventId, dd_handlerKey = key, dd_status = PENDING, dd_attempts = 0,
      dd_nextAttemptAt = None, dd_lockedAt = None, dd_lockedBy = None, dd_lastError = None,
      dd_processedAt = None, dd_createdAt = now\<rparr>"

text \<open>
  The dispatchers share the options; their registries and handlers may differ. The id of a lease is
  a new random one.
\<close>

inductive outbox_step :: "dispatcher_options \<Rightarrow> world \<Rightarrow> world \<Rightarrow> bool" for opts where
  step_record: "de_id e \<notin> de_id ` set (ob_events (wo_db w)) \<Longrightarrow>
     distinct (map dd_id ds) \<Longrightarrow> dd_id ` set ds \<inter> dd_id ` set (ob_deliveries (wo_db w)) = {} \<Longrightarrow>
     \<forall>d\<in>set ds. d = new_delivery (dd_id d) (de_id e) (dd_handlerKey d) now \<and> wo_retries w (dd_id d) = 0 \<Longrightarrow>
     outbox_step opts w (w\<lparr>wo_db := \<lparr>ob_events = ob_events (wo_db w) @ [e],
                                        ob_deliveries = ob_deliveries (wo_db w) @ ds\<rparr>\<rparr>)"
| step_reclaim: "outbox_step opts w (w\<lparr>wo_db := reclaimStaleLocks opts now (wo_db w)\<rparr>)"
| step_claim: "lease \<notin> wo_leases w \<Longrightarrow> claimDueDeliveries opts now lease locked (wo_db w) = (cs, db) \<Longrightarrow>
     outbox_step opts w (w\<lparr>wo_db := db, wo_claims := wo_claims w @ cs, wo_leases := insert lease (wo_leases w)\<rparr>)"
| step_complete: "c \<in> set (wo_claims w) \<Longrightarrow> dp_options disp = opts \<Longrightarrow>
     outbox_step opts w (w\<lparr>wo_db := processDelivery disp now c (wo_db w), wo_claims := remove1 c (wo_claims w)\<rparr>)"
| step_crash: "outbox_step opts w (w\<lparr>wo_claims := remove1 c (wo_claims w)\<rparr>)"
| step_retry: "retryDelivery hook now i actor (wo_db w) = (r, db) \<Longrightarrow>
     outbox_step opts w (w\<lparr>wo_db := db,
       wo_retries := (if db = wo_db w then wo_retries w else (wo_retries w)(i := Suc (wo_retries w i)))\<rparr>)"
| step_ignore: "ignoreDelivery hook now i actor (wo_db w) = (r, db) \<Longrightarrow> outbox_step opts w (w\<lparr>wo_db := db\<rparr>)"

definition empty_world :: world where
  "empty_world = \<lparr>wo_db = \<lparr>ob_events = [], ob_deliveries = []\<rparr>, wo_claims = [], wo_leases = {}, wo_retries = (\<lambda>_. 0)\<rparr>"

definition reachable_world :: "dispatcher_options \<Rightarrow> world \<Rightarrow> bool" where
  "reachable_world opts w \<longleftrightarrow> (outbox_step opts)\<^sup>*\<^sup>* empty_world w"

section \<open>The invariant\<close>

text \<open>A row in terms of the options, the leases drawn and its own retries.\<close>

definition row_ok :: "dispatcher_options \<Rightarrow> string set \<Rightarrow> nat \<Rightarrow> delivery \<Rightarrow> bool" where
  "row_ok opts leases retries d \<longleftrightarrow>
     dd_attempts d \<le> op_maxAttempts opts + retries
     \<and> (dd_status d = PENDING \<or> dd_status d = PROCESSING \<longrightarrow> dd_attempts d < op_maxAttempts opts + retries)
     \<and> (if dd_status d = PROCESSING then dd_lockedAt d \<noteq> None \<and> (\<exists>l\<in>leases. dd_lockedBy d = Some l)
        else dd_lockedAt d = None \<and> dd_lockedBy d = None)"

text \<open>A claim that still has its lease holds the row as it is.\<close>

definition claim_ok :: "outbox \<Rightarrow> string set \<Rightarrow> delivery \<Rightarrow> bool" where
  "claim_ok db leases c \<longleftrightarrow> (\<exists>l\<in>leases. dd_lockedBy c = Some l) \<and> dd_status c = PROCESSING
     \<and> (\<forall>d\<in>set (ob_deliveries db). dd_id d = dd_id c \<longrightarrow> dd_lockedBy d = dd_lockedBy c \<longrightarrow> d = c)"

definition world_ok :: "dispatcher_options \<Rightarrow> world \<Rightarrow> bool" where
  "world_ok opts w \<longleftrightarrow>
     distinct (map dd_id (ob_deliveries (wo_db w)))
     \<and> (\<forall>d\<in>set (ob_deliveries (wo_db w)). row_ok opts (wo_leases w) (wo_retries w (dd_id d)) d)
     \<and> (\<forall>c\<in>set (wo_claims w). claim_ok (wo_db w) (wo_leases w) (fst c) \<and> dd_id (fst c) \<in> dd_id ` set (ob_deliveries (wo_db w)))"

text \<open>A completion ends the delivery, puts it back, or records a failure.\<close>

lemma after_error_cases:
  obtains (finished) st err where "after_error opts now c error d = finished st now err d"
      "st \<in> {PROCESSED, IGNORED, DEAD_LETTER}"
  | (failed) "after_error opts now c error d = markFailed opts now c error d"
  by (cases error) (auto simp: after_error_def)

lemma completion_cases:
  obtains (finished) st err where "completion disp now c e d = finished st now err d"
      "st \<in> {PROCESSED, IGNORED, DEAD_LETTER}"
  | (put_back) "completion disp now c e d = put_back c (the (de_bindingId e)) d"
      "binding_check (dp_options disp) e = Inr False"
  | (failed) error where "completion disp now c e d = markFailed (dp_options disp) now c error d"
proof (cases "resolve_handler (dp_registry disp) (dd_handlerKey c)")
  case None
  then show ?thesis using finished by (simp add: completion_def)
next
  case (Some h)
  show ?thesis
  proof (cases "binding_check (dp_options disp) e")
    case (Inl error)
    with Some show ?thesis using finished failed
      by (cases rule: after_error_cases [of "dp_options disp" now c error d]) (auto simp: completion_def)
  next
    case (Inr enabled)
    show ?thesis
    proof (cases "enabled \<and> dp_handle disp h e c \<noteq> Returns")
      case True
      then obtain error where "dp_handle disp h e c = Throws error" by (cases "dp_handle disp h e c") auto
      with True Inr Some show ?thesis using finished failed
        by (cases rule: after_error_cases [of "dp_options disp" now c error d]) (auto simp: completion_def)
    next
      case False
      with Inr Some show ?thesis using finished put_back by (cases enabled) (auto simp: completion_def)
    qed
  qed
qed

lemma completion_unlocks [simp]:
  "dd_lockedBy (completion disp now c e d) = None" "dd_lockedAt (completion disp now c e d) = None"
  by (cases rule: completion_cases [of disp now c e d]; simp add: row_updates Let_def)+

lemma completion_not_processing [simp]: "dd_status (completion disp now c e d) \<noteq> PROCESSING"
  by (cases rule: completion_cases [of disp now c e d]) (auto simp: row_updates Let_def)

lemma completion_attempts:
  assumes "dd_attempts d = dd_attempts c"
  shows "dd_attempts (completion disp now c e d) \<le> dd_attempts c + 1"
    and "dd_status (completion disp now c e d) = PENDING \<Longrightarrow>
      dd_attempts (completion disp now c e d) = dd_attempts c
      \<or> dd_attempts (completion disp now c e d) = dd_attempts c + 1
        \<and> dd_attempts c + 1 < op_maxAttempts (dp_options disp)"
  using assms
  by (cases rule: completion_cases [of disp now c e d]; auto simp: row_updates Let_def split: if_splits)+

lemma row_ok_mono: "row_ok opts ls r d \<Longrightarrow> ls \<subseteq> ls' \<Longrightarrow> r \<le> r' \<Longrightarrow> row_ok opts ls' r' d"
  by (auto simp: row_ok_def subset_iff)

lemma row_ok_completion:
  "row_ok opts ls r c \<Longrightarrow> dd_status c = PROCESSING \<Longrightarrow> dp_options disp = opts \<Longrightarrow>
     row_ok opts ls r (completion disp now c e c)"
  using completion_attempts [of c c disp now e] by (auto simp: row_ok_def)

lemma row_ok_reclaim:
  assumes "row_ok opts ls r d" and "stale_lock opts now d"
  shows "int (dd_attempts d) \<ge> terminalAttempt opts \<Longrightarrow> row_ok opts ls r
      (unlock (d\<lparr>dd_status := DEAD_LETTER, dd_attempts := dd_attempts d + 1, dd_lastError := e\<rparr>))"
    and "int (dd_attempts d) < terminalAttempt opts \<Longrightarrow> row_ok opts ls r
      (unlock (d\<lparr>dd_status := PENDING, dd_attempts := dd_attempts d + 1, dd_lastError := e\<rparr>))"
  using assms by (auto simp: row_ok_def unlock_def stale_lock_def terminalAttempt_def)

text \<open>What an update does to the invariant.\<close>

lemma claim_ok_update:
  assumes "claim_ok db ls c" and "ls \<subseteq> ls'"
    and "\<And>d. d \<in> set (ob_deliveries db) \<Longrightarrow> cond d \<Longrightarrow> dd_lockedBy (u d) \<noteq> dd_lockedBy c \<and> dd_id (u d) = dd_id d"
  shows "claim_ok (updateMany cond u db) ls' c"
proof -
  have "d' = c" if "d' \<in> set (ob_deliveries (updateMany cond u db))" "dd_id d' = dd_id c" "dd_lockedBy d' = dd_lockedBy c" for d'
  proof -
    from that(1) obtain d where d: "d \<in> set (ob_deliveries db)" "d' = (if cond d then u d else d)"
      by (auto simp: set_updateMany)
    with assms(3) that(3) have "d' = d" by (cases "cond d") auto
    with assms(1) d(1) that(2,3) show ?thesis by (simp add: claim_ok_def)
  qed
  with assms(1,2) show ?thesis unfolding claim_ok_def by blast
qed

lemma world_ok_update:
  assumes "world_ok opts w" and "set cs \<subseteq> set (wo_claims w)" and "wo_leases w \<subseteq> ls" and "\<And>i. wo_retries w i \<le> rs i"
    and "\<And>d. dd_id (u d) = dd_id d"
    and "\<And>d. d \<in> set (ob_deliveries (wo_db w)) \<Longrightarrow> cond d \<Longrightarrow> row_ok opts ls (rs (dd_id d)) (u d)"
    and "\<And>d c. d \<in> set (ob_deliveries (wo_db w)) \<Longrightarrow> cond d \<Longrightarrow> c \<in> set cs \<Longrightarrow> dd_lockedBy (u d) \<noteq> dd_lockedBy (fst c)"
  shows "world_ok opts (w\<lparr>wo_db := updateMany cond u (wo_db w), wo_claims := cs, wo_leases := ls, wo_retries := rs\<rparr>)"
proof -
  have ids: "map dd_id (ob_deliveries (updateMany cond u (wo_db w))) = map dd_id (ob_deliveries (wo_db w))"
    using assms(5) by (rule updateMany_ids)
  have rows: "row_ok opts ls (rs (dd_id d')) d'" if d': "d' \<in> set (ob_deliveries (updateMany cond u (wo_db w)))" for d'
  proof -
    from d' obtain d where d: "d \<in> set (ob_deliveries (wo_db w))" "d' = (if cond d then u d else d)"
      by (auto simp: set_updateMany)
    have "row_ok opts ls (rs (dd_id d)) d"
      using assms(1) d(1) row_ok_mono [OF _ assms(3) assms(4)] by (auto simp: world_ok_def)
    with d assms(5,6) show ?thesis by auto
  qed
  have claims: "claim_ok (updateMany cond u (wo_db w)) ls (fst c)
      \<and> dd_id (fst c) \<in> dd_id ` set (ob_deliveries (updateMany cond u (wo_db w)))" if c: "c \<in> set cs" for c
  proof -
    have "claim_ok (wo_db w) (wo_leases w) (fst c)" "dd_id (fst c) \<in> dd_id ` set (ob_deliveries (wo_db w))"
      using assms(1,2) c by (auto simp: world_ok_def)
    moreover have "claim_ok (updateMany cond u (wo_db w)) ls (fst c)"
      by (rule claim_ok_update [OF calculation(1) assms(3)]) (use assms(5,7) c in auto)
    ultimately show ?thesis using ids by (metis list.set_map)
  qed
  show ?thesis using assms(1) ids rows claims by (auto simp: world_ok_def)
qed

section \<open>Every step keeps the invariant\<close>

lemma claim_locked: "claim_ok db ls c \<Longrightarrow> dd_lockedBy c \<noteq> None"
  by (auto simp: claim_ok_def)

lemma world_ok_rows:
  assumes "world_ok opts w" and "\<And>d. dd_id (u d) = dd_id d"
    and "\<And>d. d \<in> set (ob_deliveries (wo_db w)) \<Longrightarrow> cond d \<Longrightarrow>
      row_ok opts (wo_leases w) (wo_retries w (dd_id d)) (u d) \<and> dd_lockedBy (u d) = None"
  shows "world_ok opts (w\<lparr>wo_db := updateMany cond u (wo_db w)\<rparr>)"
proof -
  have "claim_ok (wo_db w) (wo_leases w) (fst c)" if "c \<in> set (wo_claims w)" for c
    using assms(1) that by (simp add: world_ok_def)
  moreover have "dd_lockedBy (u d) \<noteq> dd_lockedBy (fst c)"
    if "d \<in> set (ob_deliveries (wo_db w))" "cond d" "c \<in> set (wo_claims w)" for d c
    using assms(3) [OF that(1,2)] claim_locked [OF calculation(1) [OF that(3)]] by (metis)
  ultimately have "world_ok opts (w\<lparr>wo_db := updateMany cond u (wo_db w), wo_claims := wo_claims w,
      wo_leases := wo_leases w, wo_retries := wo_retries w\<rparr>)"
    using assms by (intro world_ok_update) auto
  then show ?thesis by simp
qed

lemma world_ok_reclaim: "world_ok opts w \<Longrightarrow> world_ok opts (w\<lparr>wo_db := reclaimStaleLocks opts now (wo_db w)\<rparr>)"
proof -
  have row: "d \<in> set (ob_deliveries (wo_db w)) \<Longrightarrow> row_ok opts (wo_leases w) (wo_retries w (dd_id d)) d"
    if "world_ok opts w" for w d using that by (simp add: world_ok_def)
  have dead: "world_ok opts (w\<lparr>wo_db := reclaim_terminal opts now (wo_db w)\<rparr>)" if "world_ok opts w" for w
    unfolding reclaim_terminal_def
  proof (rule world_ok_rows [OF that], goal_cases)
    case (2 d)
    then show ?case
      by (intro conjI row_ok_reclaim(1) [where now = now, OF row [OF that 2(1)]]) (simp_all add: unlock_def)
  qed simp
  have pend: "world_ok opts (w\<lparr>wo_db := reclaim_pending opts now (wo_db w)\<rparr>)" if "world_ok opts w" for w
    unfolding reclaim_pending_def
  proof (rule world_ok_rows [OF that], goal_cases)
    case (2 d)
    then show ?case
      by (intro conjI row_ok_reclaim(2) [where now = now, OF row [OF that 2(1)]]) (simp_all add: unlock_def)
  qed simp
  assume "world_ok opts w"
  from pend [OF dead [OF this]] show ?thesis by (simp add: reclaimStaleLocks_def)
qed

lemma claimDueDeliveries_result:
  assumes "claimDueDeliveries opts now lease locked db = (cs, db')"
  shows "db' = updateMany (\<lambda>d. dd_id d \<in> dd_id ` set (due_rows (op_batchSize opts) now locked db)) (claimed_as now lease) db"
    and "set (map fst cs) = {d \<in> set (ob_deliveries db'). dd_id d \<in> dd_id ` set (due_rows (op_batchSize opts) now locked db)}"
  using assms by (auto simp: claimDueDeliveries_def Let_def image_image)

lemma due_rows_due: "d \<in> set (due_rows n now locked db) \<Longrightarrow> d \<in> set (ob_deliveries db) \<and> is_due now d \<and> delivery_event db d \<noteq> None"
  unfolding due_rows_def by (drule in_set_takeD) simp

lemma same_id: "distinct (map dd_id ds) \<Longrightarrow> d \<in> set ds \<Longrightarrow> e \<in> set ds \<Longrightarrow> dd_id d = dd_id e \<Longrightarrow> d = e"
  by (simp add: distinct_map inj_on_def)

lemma world_ok_claim:
  assumes "world_ok opts w" and "lease \<notin> wo_leases w"
    and c: "claimDueDeliveries opts now lease locked (wo_db w) = (cs, db)"
  shows "world_ok opts (w\<lparr>wo_db := db, wo_claims := wo_claims w @ cs, wo_leases := insert lease (wo_leases w)\<rparr>)"
proof -
  let ?due = "due_rows (op_batchSize opts) now locked (wo_db w)" and ?rows = "ob_deliveries (wo_db w)"
  have dist: "distinct (map dd_id ?rows)" using assms(1) by (simp add: world_ok_def)
  have due: "is_due now d" if "d \<in> set ?rows" "dd_id d \<in> dd_id ` set ?due" for d
  proof -
    from that(2) obtain d' where d': "d' \<in> set ?due" "dd_id d = dd_id d'" by blast
    have "d = d'" using same_id [OF dist that(1) _ d'(2)] due_rows_due [OF d'(1)] by blast
    then show ?thesis using due_rows_due [OF d'(1)] by simp
  qed
  have db: "db = updateMany (\<lambda>d. dd_id d \<in> dd_id ` set ?due) (claimed_as now lease) (wo_db w)"
    by (rule claimDueDeliveries_result(1) [OF c])
  have old: "claim_ok (wo_db w) (wo_leases w) (fst c)" if "c \<in> set (wo_claims w)" for c
    using assms(1) that by (simp add: world_ok_def)
  have "world_ok opts (w\<lparr>wo_db := updateMany (\<lambda>d. dd_id d \<in> dd_id ` set ?due) (claimed_as now lease) (wo_db w),
      wo_claims := wo_claims w, wo_leases := insert lease (wo_leases w), wo_retries := wo_retries w\<rparr>)"
  proof (rule world_ok_update [OF assms(1)])
    fix d assume d: "d \<in> set ?rows" "dd_id d \<in> dd_id ` set ?due"
    then have "dd_status d = PENDING" using due by (simp add: is_due_def)
    then show "row_ok opts (insert lease (wo_leases w)) (wo_retries w (dd_id d)) (claimed_as now lease d)"
      using assms(1) d(1) by (auto simp: world_ok_def row_ok_def claimed_as_def)
    show "dd_lockedBy (claimed_as now lease d) \<noteq> dd_lockedBy (fst c)" if "c \<in> set (wo_claims w)" for c
      using old [OF that] assms(2) by (auto simp: claim_ok_def claimed_as_def)
  qed auto
  then have ok: "world_ok opts (w\<lparr>wo_db := db, wo_leases := insert lease (wo_leases w)\<rparr>)" by (simp add: db)
  have dist': "distinct (map dd_id (ob_deliveries db))" using ok by (simp add: world_ok_def)
  have new: "claim_ok db (insert lease (wo_leases w)) (fst c) \<and> dd_id (fst c) \<in> dd_id ` set (ob_deliveries db)"
    if "c \<in> set cs" for c
  proof -
    have m: "fst c \<in> set (ob_deliveries db)" "dd_id (fst c) \<in> dd_id ` set ?due"
      using claimDueDeliveries_result(2) [OF c] that by auto
    from m(1) obtain d where d: "d \<in> set ?rows" "fst c = (if dd_id d \<in> dd_id ` set ?due then claimed_as now lease d else d)"
      unfolding db set_updateMany by blast
    with m(2) have "fst c = claimed_as now lease d" by (auto split: if_splits)
    then show ?thesis using m(1) imageI [OF m(1), of dd_id] same_id [OF dist']
      by (auto simp: claim_ok_def claimed_as_def)
  qed
  show ?thesis using ok new by (auto simp: world_ok_def)
qed

text \<open>The row a claim still holds is the one it was given.\<close>

definition holds_lease :: "delivery \<Rightarrow> delivery \<Rightarrow> bool" where
  "holds_lease c d \<longleftrightarrow> dd_id d = dd_id c \<and> dd_status d = PROCESSING
     \<and> dd_lockedBy d = Some (coalesce (dd_lockedBy c) ''__missing_lease__'')"

lemma processDelivery_update:
  "processDelivery disp now (c, e) db = updateMany (holds_lease c) (completion disp now c e) db"
  by (simp add: processDelivery_def completeDelivery_def holds_lease_def [abs_def])

lemma holds_lease_same:
  "claim_ok db ls c \<Longrightarrow> d \<in> set (ob_deliveries db) \<Longrightarrow> holds_lease c d \<Longrightarrow> d = c"
  by (auto simp: claim_ok_def holds_lease_def)

lemma world_ok_fewer_claims: "world_ok opts w \<Longrightarrow> set cs \<subseteq> set (wo_claims w) \<Longrightarrow> world_ok opts (w\<lparr>wo_claims := cs\<rparr>)"
  by (auto simp: world_ok_def)

lemma world_ok_complete:
  assumes "world_ok opts w" and "(c, e) \<in> set (wo_claims w)" and "dp_options disp = opts"
  shows "world_ok opts (w\<lparr>wo_db := processDelivery disp now (c, e) (wo_db w)\<rparr>)"
  unfolding processDelivery_update
proof (rule world_ok_rows [OF assms(1)], goal_cases)
  case (2 d)
  have "claim_ok (wo_db w) (wo_leases w) c" using assms(1,2) by (force simp: world_ok_def)
  with 2 have d: "d = c" by (simp add: holds_lease_same)
  have "row_ok opts (wo_leases w) (wo_retries w (dd_id c)) c" using assms(1) 2(1) by (simp add: world_ok_def d)
  with 2(2) assms(3) show ?case by (simp add: d row_ok_completion holds_lease_def)
qed simp

lemma updateDeadLetterDelivery_db:
  assumes "updateDeadLetterDelivery hook i actor action upd db = (r, db')"
  obtains "db' = db" | "db' = updateMany (\<lambda>d. dd_id d = i \<and> dd_status d = DEAD_LETTER) upd db"
  using assms
  by (auto simp: updateDeadLetterDelivery_def Let_def split: option.splits if_splits hook_result.splits)

lemma world_ok_retry:
  assumes "world_ok opts w"
  shows "world_ok opts (w\<lparr>wo_db := updateMany (\<lambda>d. dd_id d = i \<and> dd_status d = DEAD_LETTER) (retried now) (wo_db w),
     wo_retries := (wo_retries w)(i := Suc (wo_retries w i))\<rparr>)"
proof -
  have "world_ok opts (w\<lparr>wo_db := updateMany (\<lambda>d. dd_id d = i \<and> dd_status d = DEAD_LETTER) (retried now) (wo_db w),
     wo_claims := wo_claims w, wo_leases := wo_leases w, wo_retries := (wo_retries w)(i := Suc (wo_retries w i))\<rparr>)"
  proof (rule world_ok_update [OF assms])
    fix d assume d: "d \<in> set (ob_deliveries (wo_db w))" "dd_id d = i \<and> dd_status d = DEAD_LETTER"
    then have "row_ok opts (wo_leases w) (wo_retries w i) d" using assms by (auto simp: world_ok_def)
    with d(2) show "row_ok opts (wo_leases w) (((wo_retries w)(i := Suc (wo_retries w i))) (dd_id d)) (retried now d)"
      by (auto simp: row_ok_def row_updates)
    fix c assume "c \<in> set (wo_claims w)"
    then have "claim_ok (wo_db w) (wo_leases w) (fst c)" using assms by (simp add: world_ok_def)
    from claim_locked [OF this] show "dd_lockedBy (retried now d) \<noteq> dd_lockedBy (fst c)" by (auto simp: row_updates)
  qed auto
  then show ?thesis by simp
qed

lemma world_ok_ignore:
  "world_ok opts w \<Longrightarrow>
     world_ok opts (w\<lparr>wo_db := updateMany (\<lambda>d. dd_id d = i \<and> dd_status d = DEAD_LETTER) (admin_ignored now) (wo_db w)\<rparr>)"
proof (rule world_ok_rows, assumption, goal_cases)
  case (2 d)
  then show ?case by (auto simp: world_ok_def row_ok_def row_updates)
qed simp

lemma row_ok_new: "0 < op_maxAttempts opts \<Longrightarrow> row_ok opts ls r (new_delivery i ev k now)"
  by (simp add: row_ok_def new_delivery_def)

lemma world_ok_record:
  assumes "world_ok opts w" and "distinct (map dd_id ds)" and "dd_id ` set ds \<inter> dd_id ` set (ob_deliveries (wo_db w)) = {}"
    and "\<forall>d\<in>set ds. d = new_delivery (dd_id d) (de_id e) (dd_handlerKey d) now \<and> wo_retries w (dd_id d) = 0"
    and "0 < op_maxAttempts opts"
  shows "world_ok opts (w\<lparr>wo_db := \<lparr>ob_events = ob_events (wo_db w) @ [e], ob_deliveries = ob_deliveries (wo_db w) @ ds\<rparr>\<rparr>)"
proof -
  have "claim_ok \<lparr>ob_events = ob_events (wo_db w) @ [e], ob_deliveries = ob_deliveries (wo_db w) @ ds\<rparr> (wo_leases w) (fst c)"
    if "c \<in> set (wo_claims w)" for c
  proof -
    have "claim_ok (wo_db w) (wo_leases w) (fst c)" "dd_id (fst c) \<in> dd_id ` set (ob_deliveries (wo_db w))"
      using assms(1) that by (auto simp: world_ok_def)
    then show ?thesis using assms(3) by (auto simp: claim_ok_def)
  qed
  moreover have "row_ok opts (wo_leases w) (wo_retries w (dd_id d)) d" if "d \<in> set ds" for d
    using assms(4,5) that row_ok_new by metis
  ultimately show ?thesis using assms(1-3) by (auto simp: world_ok_def)
qed

lemma world_ok_step: "outbox_step opts w w' \<Longrightarrow> 0 < op_maxAttempts opts \<Longrightarrow> world_ok opts w \<Longrightarrow> world_ok opts w'"
proof (induction rule: outbox_step.induct)
  case (step_record e w ds now)
  from step_record(6) step_record(2-5) show ?case by (rule world_ok_record)
next
  case (step_complete c w disp now)
  obtain d e where c: "c = (d, e)" by (cases c)
  have "world_ok opts (w\<lparr>wo_db := processDelivery disp now c (wo_db w)\<rparr>)"
    unfolding c by (rule world_ok_complete) (use step_complete c in auto)
  from world_ok_fewer_claims [OF this, of "remove1 c (wo_claims w)"] show ?case
    by (simp add: set_remove1_subset)
next
  case (step_crash w c)
  then show ?case by (intro world_ok_fewer_claims) (simp_all add: set_remove1_subset)
next
  case (step_retry hook now i actor w r db)
  from step_retry(1) show ?case unfolding retryDelivery_def
    by (rule updateDeadLetterDelivery_db) (use step_retry(3) world_ok_retry world_ok_update in auto)
next
  case (step_ignore hook now i actor w r db)
  from step_ignore(1) show ?case unfolding ignoreDelivery_def
    by (rule updateDeadLetterDelivery_db) (use step_ignore(3) world_ok_ignore in auto)
qed (simp_all add: world_ok_reclaim world_ok_claim)

lemma world_ok_empty: "world_ok opts empty_world"
  by (simp add: world_ok_def empty_world_def)

lemma world_ok_steps:
  "(outbox_step opts)\<^sup>*\<^sup>* w w' \<Longrightarrow> 0 < op_maxAttempts opts \<Longrightarrow> world_ok opts w \<Longrightarrow> world_ok opts w'"
  by (induction rule: rtranclp_induct) (auto intro: world_ok_step)

lemma world_ok_reachable: "reachable_world opts w \<Longrightarrow> 0 < op_maxAttempts opts \<Longrightarrow> world_ok opts w"
  unfolding reachable_world_def using world_ok_steps world_ok_empty by blast

section \<open>What the invariant gives\<close>

text \<open>
  C9. The attempts of a delivery are bounded. Whatever the interleaving of producers,
  dispatchers, dying workers and administrators, a delivery never has more attempts than the
  configured maximum plus the retries an administrator has ordered, and one that can still be
  delivered has fewer: without a retry by an administrator, a delivery that used all its attempts has
  ended.
\<close>

theorem attempts_are_bounded:
  assumes "reachable_world opts w" and "0 < op_maxAttempts opts" and "d \<in> set (ob_deliveries (wo_db w))"
  shows "dd_attempts d \<le> op_maxAttempts opts + wo_retries w (dd_id d)
     \<and> (dd_status d \<in> {PENDING, PROCESSING} \<longrightarrow> dd_attempts d < op_maxAttempts opts + wo_retries w (dd_id d))"
  using world_ok_reachable [OF assms(1,2)] assms(3) by (auto simp: world_ok_def row_ok_def)

text \<open>
  C8. A lease protects the row. When a worker completes a claim, the update applies exactly if the
  row is still the one that was claimed, and then it changes this row only; when the claim was
  reclaimed, handed to another worker or overruled by an administrator in the meantime, the
  completion leaves the database as it is.
\<close>

theorem completion_needs_the_lease:
  assumes "reachable_world opts w" and "0 < op_maxAttempts opts" and "(c, e) \<in> set (wo_claims w)"
  shows "processDelivery disp now (c, e) (wo_db w) =
     (if c \<in> set (ob_deliveries (wo_db w))
      then updateMany (\<lambda>d. d = c) (completion disp now c e) (wo_db w) else wo_db w)"
proof -
  have ok: "claim_ok (wo_db w) (wo_leases w) c"
    using world_ok_reachable [OF assms(1,2)] assms(3) by (force simp: world_ok_def)
  then have c: "holds_lease c c" by (auto simp: claim_ok_def holds_lease_def)
  have same: "d = c" if "d \<in> set (ob_deliveries (wo_db w))" "holds_lease c d" for d
    by (rule holds_lease_same [OF ok that])
  show ?thesis
  proof (cases "c \<in> set (ob_deliveries (wo_db w))")
    case True
    have "ob_deliveries (updateMany (holds_lease c) u (wo_db w)) = ob_deliveries (updateMany (\<lambda>d. d = c) u (wo_db w))" for u
      unfolding updateMany_rows by (rule map_cong [OF refl]) (use same c in auto)
    with True show ?thesis by (simp add: processDelivery_update outbox.equality)
  next
    case False
    have "ob_deliveries (updateMany (holds_lease c) u (wo_db w)) = ob_deliveries (wo_db w)" for u
      unfolding updateMany_rows by (rule map_idI) (use same False in auto)
    with False show ?thesis by (simp add: processDelivery_update outbox.equality)
  qed
qed

lemma updateMany_keeps: "d \<in> set (ob_deliveries db) \<Longrightarrow> \<not> cond d \<Longrightarrow> d \<in> set (ob_deliveries (updateMany cond u db))"
  by (force simp: set_updateMany)

lemma ended_row_stays_step:
  assumes "outbox_step opts w w'" and "world_ok opts w" and d: "d \<in> set (ob_deliveries (wo_db w))"
    and "dd_status d \<in> {PROCESSED, IGNORED}"
  shows "d \<in> set (ob_deliveries (wo_db w'))"
  using assms
proof (induction rule: outbox_step.induct)
  case (step_reclaim w now)
  then have "d \<in> set (ob_deliveries (reclaim_terminal opts now (wo_db w)))"
    unfolding reclaim_terminal_def by (intro updateMany_keeps) (auto simp: stale_lock_def)
  then show ?case using step_reclaim
    by (auto simp: reclaimStaleLocks_def reclaim_pending_def stale_lock_def intro!: updateMany_keeps)
next
  case (step_claim lease w now locked cs db)
  have "dd_id d \<notin> dd_id ` set (due_rows (op_batchSize opts) now locked (wo_db w))"
  proof
    assume "dd_id d \<in> dd_id ` set (due_rows (op_batchSize opts) now locked (wo_db w))"
    then obtain d' where d': "d' \<in> set (due_rows (op_batchSize opts) now locked (wo_db w))" "dd_id d = dd_id d'" by blast
    have "d = d'" using same_id [of "ob_deliveries (wo_db w)" d d'] step_claim d' due_rows_due [OF d'(1)]
      by (simp add: world_ok_def)
    then show False using due_rows_due [OF d'(1)] step_claim by (auto simp: is_due_def)
  qed
  then show ?case using step_claim claimDueDeliveries_result(1) [OF step_claim(2)] by (simp add: updateMany_keeps)
next
  case (step_complete c w disp now)
  obtain a b where c: "c = (a, b)" by (cases c)
  have "\<not> holds_lease a d" using step_complete by (auto simp: holds_lease_def)
  then show ?case using step_complete(4) by (simp add: c processDelivery_update updateMany_keeps)
next
  case (step_retry hook now i actor w r db)
  from step_retry(1) show ?case unfolding retryDelivery_def
    by (rule updateDeadLetterDelivery_db) (use step_retry in \<open>auto intro!: updateMany_keeps\<close>)
next
  case (step_ignore hook now i actor w r db)
  from step_ignore(1) show ?case unfolding ignoreDelivery_def
    by (rule updateDeadLetterDelivery_db) (use step_ignore in \<open>auto intro!: updateMany_keeps\<close>)
qed auto

text \<open>
  C10. A delivery that has been processed or ignored never changes again: in every run that goes on
  from a reachable world its row stays exactly as it is, so it is not claimed again and no late
  completion overwrites the result.
\<close>

theorem ended_deliveries_never_change:
  assumes "reachable_world opts w" and "0 < op_maxAttempts opts" and "(outbox_step opts)\<^sup>*\<^sup>* w w'"
    and "d \<in> set (ob_deliveries (wo_db w))" and "dd_status d \<in> {PROCESSED, IGNORED}"
  shows "d \<in> set (ob_deliveries (wo_db w'))
     \<and> (\<forall>d'\<in>set (ob_deliveries (wo_db w')). dd_id d' = dd_id d \<longrightarrow> d' = d)"
proof -
  have ok: "world_ok opts w" using assms(1,2) by (rule world_ok_reachable)
  from assms(3) have "d \<in> set (ob_deliveries (wo_db w'))"
  proof (induction rule: rtranclp_induct)
    case base
    show ?case by (rule assms(4))
  next
    case (step u v)
    have "world_ok opts u" using step(1) assms(2) ok by (rule world_ok_steps)
    with step show ?case using assms(5) by (blast intro: ended_row_stays_step)
  qed
  moreover have "distinct (map dd_id (ob_deliveries (wo_db w')))"
    using world_ok_steps [OF assms(3,2) ok] by (simp add: world_ok_def)
  ultimately show ?thesis using same_id by blast
qed

section \<open>An example\<close>

definition ex_event :: "string \<Rightarrow> int \<Rightarrow> string option \<Rightarrow> domain_event" where
  "ex_event i seq binding =
     \<lparr>de_id = i, de_seq = seq, de_aggregateType = ''order'', de_aggregateId = ''1'', de_eventType = ''order.paid'',
      de_operation = OpUpdate, de_schemaVersion = 1, de_actorUserId = None, de_correlationId = None,
      de_workflowId = None, de_before = JNull, de_after = JNull, de_changedFields = [], de_metadata = JNull,
      de_capabilityId = None, de_capabilityVersion = None, de_capabilityDigest = None, de_bindingId = binding,
      de_bindingVersion = None, de_envelopeVersion = None, de_sourceApp = None, de_payload = JNull,
      de_payloadDigest = None, de_createdAt = 0\<rparr>"

definition ex_world :: world where
  "ex_world = empty_world\<lparr>wo_db := \<lparr>ob_events = [ex_event ''e'' 1 None],
     ob_deliveries = [new_delivery ''d'' ''e'' ''mail'' 0]\<rparr>\<rparr>"

lemma ex_world_reachable: "reachable_world opts ex_world"
proof -
  have "outbox_step opts empty_world (empty_world\<lparr>wo_db :=
      \<lparr>ob_events = ob_events (wo_db empty_world) @ [ex_event ''e'' 1 None],
       ob_deliveries = ob_deliveries (wo_db empty_world) @ [new_delivery ''d'' ''e'' ''mail'' 0]\<rparr>\<rparr>)"
    by (rule step_record [where now = 0]) (simp_all add: empty_world_def new_delivery_def ex_event_def)
  then show ?thesis by (simp add: reachable_world_def ex_world_def empty_world_def r_into_rtranclp)
qed

definition ex_claimed :: delivery where
  "ex_claimed = claimed_as 5 ''w'' (new_delivery ''d'' ''e'' ''mail'' 0)"

definition ex_claimed_world :: world where
  "ex_claimed_world = ex_world\<lparr>wo_db := \<lparr>ob_events = [ex_event ''e'' 1 None], ob_deliveries = [ex_claimed]\<rparr>,
     wo_claims := [(ex_claimed, ex_event ''e'' 1 None)], wo_leases := {''w''}\<rparr>"

lemma ex_claim:
  "claimDueDeliveries DEFAULT_DISPATCHER_OPTIONS 5 ''w'' {} (wo_db ex_world)
     = ([(ex_claimed, ex_event ''e'' 1 None)], \<lparr>ob_events = [ex_event ''e'' 1 None], ob_deliveries = [ex_claimed]\<rparr>)"
  by (simp add: claimDueDeliveries_def due_rows_def DEFAULT_DISPATCHER_OPTIONS_def ex_world_def is_due_def
      new_delivery_def delivery_event_def ex_event_def updateMany_def Let_def ex_claimed_def claimed_as_def)

lemma ex_claimed_world_reachable: "reachable_world DEFAULT_DISPATCHER_OPTIONS ex_claimed_world"
proof -
  have "outbox_step DEFAULT_DISPATCHER_OPTIONS ex_world ex_claimed_world"
    using step_claim [OF _ ex_claim] by (simp add: ex_claimed_world_def ex_world_def empty_world_def)
  with ex_world_reachable show ?thesis unfolding reachable_world_def by (rule rtranclp.rtrancl_into_rtrancl)
qed

lemma default_max_attempts: "0 < op_maxAttempts DEFAULT_DISPATCHER_OPTIONS"
  by (simp add: DEFAULT_DISPATCHER_OPTIONS_def)

theorem attempts_are_bounded_witness:
  "\<exists>d\<in>set (ob_deliveries (wo_db ex_claimed_world)). dd_status d = PROCESSING
     \<and> dd_attempts d < op_maxAttempts DEFAULT_DISPATCHER_OPTIONS"
  using attempts_are_bounded [OF ex_claimed_world_reachable default_max_attempts, of ex_claimed]
  by (simp add: ex_claimed_world_def ex_claimed_def claimed_as_def new_delivery_def ex_world_def empty_world_def)

definition ex_dispatcher :: "dispatcher_options \<Rightarrow> dispatcher" where
  "ex_dispatcher opts = \<lparr>dp_options = opts,
     dp_registry = empty_event_registry\<lparr>rg_byKey := [(''mail'', ex_handler 1 ''mail'' [])]\<rparr>, dp_handle = (\<lambda>_ _ _. Returns)\<rparr>"

theorem completion_needs_the_lease_witness:
  "map dd_status (ob_deliveries (processDelivery (ex_dispatcher DEFAULT_DISPATCHER_OPTIONS) 6
     (ex_claimed, ex_event ''e'' 1 None) (wo_db ex_claimed_world))) = [PROCESSED]"
proof -
  have "(ex_claimed, ex_event ''e'' 1 None) \<in> set (wo_claims ex_claimed_world)" by (simp add: ex_claimed_world_def)
  from completion_needs_the_lease [OF ex_claimed_world_reachable default_max_attempts this]
  show ?thesis
    by (simp add: ex_claimed_world_def updateMany_rows completion_def resolve_handler_def ex_dispatcher_def
        ex_claimed_def claimed_as_def new_delivery_def binding_check_def ex_event_def finished_def unlock_def)
qed

theorem ended_deliveries_never_change_witness:
  "\<exists>w. reachable_world DEFAULT_DISPATCHER_OPTIONS w \<and> (\<exists>d\<in>set (ob_deliveries (wo_db w)). dd_status d = PROCESSED
     \<and> d \<in> set (ob_deliveries (reclaimStaleLocks DEFAULT_DISPATCHER_OPTIONS 1000000 (wo_db w))))"
proof -
  let ?disp = "ex_dispatcher DEFAULT_DISPATCHER_OPTIONS" and ?c = "(ex_claimed, ex_event ''e'' 1 None)"
  let ?w = "ex_claimed_world\<lparr>wo_db := processDelivery ?disp 6 ?c (wo_db ex_claimed_world),
    wo_claims := remove1 ?c (wo_claims ex_claimed_world)\<rparr>"
  have "outbox_step DEFAULT_DISPATCHER_OPTIONS ex_claimed_world ?w"
    by (rule step_complete) (simp_all add: ex_claimed_world_def ex_dispatcher_def)
  with ex_claimed_world_reachable have w: "reachable_world DEFAULT_DISPATCHER_OPTIONS ?w"
    unfolding reachable_world_def by (rule rtranclp.rtrancl_into_rtrancl)
  let ?d = "finished PROCESSED 6 None ex_claimed"
  have d: "?d \<in> set (ob_deliveries (wo_db ?w))"
    by (simp add: processDelivery_update holds_lease_def ex_claimed_world_def updateMany_rows completion_def
        resolve_handler_def ex_dispatcher_def ex_claimed_def claimed_as_def new_delivery_def binding_check_def
        ex_event_def)
  have s: "dd_status ?d = PROCESSED" by (simp add: finished_def unlock_def)
  have "(outbox_step DEFAULT_DISPATCHER_OPTIONS)\<^sup>*\<^sup>* ?w
      (?w\<lparr>wo_db := reclaimStaleLocks DEFAULT_DISPATCHER_OPTIONS 1000000 (wo_db ?w)\<rparr>)"
    by (intro r_into_rtranclp step_reclaim)
  from ended_deliveries_never_change [OF w default_max_attempts this d] s
  have k: "?d \<in> set (ob_deliveries (reclaimStaleLocks DEFAULT_DISPATCHER_OPTIONS 1000000 (wo_db ?w)))" by simp
  show ?thesis by (intro exI [of _ ?w] conjI bexI [of _ ?d] w s k d)
qed

end
