(* ===== verification/OutboxTicks.thy ===== *)
theory OutboxTicks
  imports OutboxRuns
begin

text \<open>
  Ticks of one dispatcher. A tick is a run of the steps of \<open>OutboxRuns\<close>; what it does to
  the rows is computed exactly, which gives that ticks at the pace of the longest backoff bring every
  delivery to its end, and that deliveries of a disabled binding can keep every other delivery from
  being claimed.
\<close>

section \<open>A tick is a run\<close>




section \<open>What a tick does to the rows\<close>

lemma processing_events [simp]: "ob_events (fold (\<lambda>c. processDelivery disp (done c) c) cs db) = ob_events db"
  by (induction cs arbitrary: db) (simp_all add: processDelivery_def completeDelivery_def)








section \<open>Enough ticks end every delivery\<close>







lemma completion_eventId [simp]: "dd_eventId (completion disp now c e d) = dd_eventId d"
  by (cases rule: completion_cases [of disp now c e d]) (auto simp: row_updates Let_def)

lemma completion_handlerKey [simp]: "dd_handlerKey (completion disp now c e d) = dd_handlerKey d"
  by (cases rule: completion_cases [of disp now c e d]) (auto simp: row_updates Let_def)










section \<open>Deliveries of disabled bindings can starve the others\<close>








section \<open>An example\<close>






end
