(* ===== verification/Access.thy ===== *)
theory Access
  imports Lifecycle
begin

text \<open>
  Authentication and authorization of requests: the strategy registry and the guards of
  \<open>plugin-host-nest/src/auth\<close>, the role flattening and the permission guard of \<open>rbac\<close>
  (\<open>user-context.util.ts\<close>, \<open>guards/permission.guard.ts\<close>) and the scope guard of
  \<open>m2m-api-key\<close> (\<open>guards/scope.guard.ts\<close>).
  The lemmas show that authentication fails closed and does not depend on the order of
  registration, and reduce the guards to decisions about single roles and single scopes.
\<close>

section \<open>Failures of a request\<close>

text \<open>
  The exceptions that become HTTP statuses, with their messages; \<open>HttpThrottled\<close> carries
  the \<open>Retry-After\<close> header, \<open>OtherError\<close> is any other exception.
\<close>

datatype http_failure =
    Unauthorized string
  | Forbidden string
  | BadRequest string
  | NotFound string
  | Conflict string
  | Unavailable string
  | HttpThrottled int
  | OtherError string

definition UNAUTHORIZED :: http_failure where
  "UNAUTHORIZED = Unauthorized ''Unauthorized''"

definition FORBIDDEN :: http_failure where
  "FORBIDDEN = Forbidden ''Forbidden''"

section \<open>Principals\<close>

fun role_names :: "principal \<Rightarrow> string list" where
  "role_names (Interactive i) = pa_roleNames i"
| "role_names (Machine m) = pa_roleNames m"

fun permission_policy :: "principal \<Rightarrow> string" where
  "permission_policy (Interactive i) = pa_permissionPolicy i"
| "permission_policy (Machine m) = pa_permissionPolicy m"

fun permissions_of :: "principal \<Rightarrow> string list" where
  "permissions_of (Interactive i) = pa_permissions i"
| "permissions_of (Machine m) = pa_permissions m"

definition resolveActingUserId :: "principal \<Rightarrow> http_failure + string" where
  "resolveActingUserId p =
     (case actingUserIdOf p of
        None \<Rightarrow> Inl (Forbidden ''This API key has no acting user bound; cannot perform this write.'')
      | Some u \<Rightarrow> Inr u)"

definition hasRole :: "principal option \<Rightarrow> string \<Rightarrow> bool" where
  "hasRole p r = (case p of None \<Rightarrow> False | Some p \<Rightarrow> r \<in> set (role_names p))"

section \<open>The strategy registry\<close>

datatype strategy_kind = InteractiveKind | MachineKind

text \<open>
  A strategy maps the request and the state of the application to a principal, to None when the
  request carries no credential of its type, or to an exception.
\<close>

record ('q, 'w) strategy =
  st_id :: string
  st_kind :: strategy_kind
  st_authenticate :: "'q \<Rightarrow> 'w \<Rightarrow> (http_failure + principal option) \<times> 'w"

type_synonym ('q, 'w) strategy_registry = "('q, 'w) strategy list"

definition list_strategies :: "strategy_kind option \<Rightarrow> ('q, 'w) strategy_registry \<Rightarrow> ('q, 'w) strategy list" where
  "list_strategies kind reg = sort_key st_id (filter (\<lambda>s. kind = None \<or> kind = Some (st_kind s)) reg)"

definition get_strategy :: "string \<Rightarrow> ('q, 'w) strategy_registry \<Rightarrow> ('q, 'w) strategy option" where
  "get_strategy i reg = find (\<lambda>s. st_id s = i) reg"

definition has_strategy :: "string \<Rightarrow> ('q, 'w) strategy_registry \<Rightarrow> bool" where
  "has_strategy i reg = (\<exists>s\<in>set reg. st_id s = i)"

text \<open>The message of the second exception is cut before its explanation.\<close>

definition register_strategy ::
    "('q, 'w) strategy \<Rightarrow> ('q, 'w) strategy_registry \<Rightarrow> string + ('q, 'w) strategy_registry" where
  "register_strategy s reg =
     (if has_strategy (st_id s) reg
      then Inl (''Authentication strategy \"'' @ st_id s @ ''\" is already registered'')
      else case (if st_kind s = InteractiveKind then list_strategies (Some InteractiveKind) reg else []) of
        existing # _ \<Rightarrow> Inl (''Interactive authentication provider \"'' @ st_id existing
          @ ''\" is already registered; \"'' @ st_id s @ ''\" cannot also be enabled. '')
      | [] \<Rightarrow> Inr (reg @ [s]))"

definition describe_strategies :: "('q, 'w) strategy_registry \<Rightarrow> (string \<times> strategy_kind) list" where
  "describe_strategies reg = map (\<lambda>s. (st_id s, st_kind s)) (list_strategies None reg)"

section \<open>Authentication guards\<close>

text \<open>
  The identity of a request: \<open>request.user\<close>, and the principal of the asynchronous store,
  None outside of a store.
\<close>

record request_identity =
  ri_user :: "principal option"
  ri_store :: "principal option option"

definition set_principal :: "principal option \<Rightarrow> request_identity \<Rightarrow> request_identity" where
  "set_principal p ri = ri\<lparr>ri_store := map_option (\<lambda>_. p) (ri_store ri)\<rparr>"

definition current_principal :: "request_identity \<Rightarrow> principal option" where
  "current_principal ri = (case ri_store ri of None \<Rightarrow> None | Some p \<Rightarrow> p)"

definition require_principal :: "request_identity \<Rightarrow> http_failure + principal" where
  "require_principal ri =
     (case current_principal ri of
        None \<Rightarrow> Inl (Unauthorized ''No authenticated principal on this request'')
      | Some p \<Rightarrow> Inr p)"

text \<open>The interceptor runs the handler in a store that holds the user of the request.\<close>

definition enter_request :: "request_identity \<Rightarrow> request_identity" where
  "enter_request ri = ri\<lparr>ri_store := Some (ri_user ri)\<rparr>"

definition attach_principal :: "principal \<Rightarrow> request_identity \<Rightarrow> request_identity" where
  "attach_principal p ri = set_principal (Some p) (ri\<lparr>ri_user := Some p\<rparr>)"

fun try_strategies :: "('q, 'w) strategy list \<Rightarrow> 'q \<Rightarrow> 'w \<Rightarrow> (http_failure + principal) \<times> 'w" where
  "try_strategies [] q w = (Inl UNAUTHORIZED, w)"
| "try_strategies (s # ss) q w =
     (case st_authenticate s q w of
        (Inl e, w') \<Rightarrow> (Inl e, w')
      | (Inr (Some p), w') \<Rightarrow> (Inr p, w')
      | (Inr None, w') \<Rightarrow> try_strategies ss q w')"

fun kind_name :: "strategy_kind \<Rightarrow> string" where
  "kind_name InteractiveKind = ''interactive''"
| "kind_name MachineKind = ''machine''"

definition guard_strategies :: "strategy_kind list \<Rightarrow> ('q, 'w) strategy_registry \<Rightarrow> ('q, 'w) strategy list" where
  "guard_strategies kinds reg = concat (map (\<lambda>k. list_strategies (Some k) reg) kinds)"

definition authenticate_request ::
    "strategy_kind list \<Rightarrow> ('q, 'w) strategy_registry \<Rightarrow> 'q \<Rightarrow> request_identity \<Rightarrow> 'w
      \<Rightarrow> (http_failure + request_identity) \<times> 'w" where
  "authenticate_request kinds reg q ri w =
     (case guard_strategies kinds reg of
        [] \<Rightarrow> (Inl (Unauthorized (''No '' @ join ''/'' (map kind_name kinds)
            @ '' authentication strategy is registered on this App'')), w)
      | strategies \<Rightarrow>
          (case try_strategies strategies q w of
             (Inl e, w') \<Rightarrow> (Inl e, w')
           | (Inr p, w') \<Rightarrow> (Inr (attach_principal p ri), w')))"

definition AppspineAuthGuard :: "strategy_kind list" where
  "AppspineAuthGuard = [InteractiveKind, MachineKind]"

definition InteractiveAuthGuard :: "strategy_kind list" where
  "InteractiveAuthGuard = [InteractiveKind]"

definition MachineAuthGuard :: "strategy_kind list" where
  "MachineAuthGuard = [MachineKind]"

section \<open>Authorization guards\<close>

definition SystemAdminGuard :: "principal option \<Rightarrow> http_failure + unit" where
  "SystemAdminGuard user = (if hasRole user SYSTEM_ADMIN_ROLE then Inr () else Inl FORBIDDEN)"

text \<open>A role as it is granted, and the flattening of roles to one authorization.\<close>

record role_grant =
  rg_name :: string
  rg_permissionPolicy :: string
  rg_permissions :: "string list"

text \<open>A policy that the table does not list is \<open>undefined\<close>, which no comparison exceeds.\<close>

definition POLICY_ORDER :: "string \<Rightarrow> nat option" where
  "POLICY_ORDER p = map_of [(''ALLOW_ALL'', 2), (''READ_ALL'', 1), (''DENY_ALL'', 0)] p"

definition exceeds :: "nat option \<Rightarrow> nat option \<Rightarrow> bool" where
  "exceeds a b = (case (a, b) of (Some m, Some n) \<Rightarrow> n < m | _ \<Rightarrow> False)"

definition better_policy :: "role_grant \<Rightarrow> string \<Rightarrow> string" where
  "better_policy r best =
     (if exceeds (POLICY_ORDER (rg_permissionPolicy r)) (POLICY_ORDER best) then rg_permissionPolicy r else best)"

definition buildUserContext :: "role_grant list \<Rightarrow> principal_authorization" where
  "buildUserContext roles =
     \<lparr>pa_roleNames = map rg_name roles,
      pa_permissionPolicy = fold better_policy roles ''DENY_ALL'',
      pa_permissions = set_of (concat (map rg_permissions roles))\<rparr>"

text \<open>
  Route metadata: on the handler or, when that has none, on the class. A principal without an
  attribute has an empty one.
\<close>

definition route_metadata :: "string list option \<Rightarrow> string list option \<Rightarrow> string list" where
  "route_metadata handler class = coalesce (or_else handler class) []"

definition ends_with :: "string \<Rightarrow> string \<Rightarrow> bool" where
  "ends_with s e = starts_with (rev s) (rev e)"

definition permission_granted :: "string list \<Rightarrow> principal_authorization \<Rightarrow> bool" where
  "permission_granted required user \<longleftrightarrow>
     SYSTEM_ADMIN_ROLE \<in> set (pa_roleNames user)
     \<or> pa_permissionPolicy user = ''ALLOW_ALL''
     \<or> pa_permissionPolicy user = ''READ_ALL'' \<and> list_ex (\<lambda>p. ends_with p ''_READ'') required
     \<or> list_ex (\<lambda>p. p \<in> set (pa_permissions user)) required"

definition authorization_of :: "principal \<Rightarrow> principal_authorization" where
  "authorization_of p =
     \<lparr>pa_roleNames = role_names p, pa_permissionPolicy = permission_policy p, pa_permissions = permissions_of p\<rparr>"

definition PermissionGuard :: "string list \<Rightarrow> principal option \<Rightarrow> http_failure + unit" where
  "PermissionGuard required user =
     (if required = [] then Inr ()
      else case user of
        None \<Rightarrow> Inl FORBIDDEN
      | Some p \<Rightarrow> if permission_granted required (authorization_of p) then Inr () else Inl FORBIDDEN)"

text \<open>Scopes: a module and an action, split at the colon; later parts are ignored.\<close>

definition scope_module :: "string \<Rightarrow> string" where
  "scope_module s = hd (split_on (CHR '':'') s)"

definition scope_action :: "string \<Rightarrow> string option" where
  "scope_action s = (case split_on (CHR '':'') s of _ # a # _ \<Rightarrow> Some a | _ \<Rightarrow> None)"

definition grants_scope :: "string \<Rightarrow> string \<Rightarrow> bool" where
  "grants_scope required g \<longleftrightarrow>
     g = ''*'' \<or> scope_module g = scope_module required
       \<and> (scope_action g = Some ''*'' \<or> scope_action g = scope_action required)"

definition matchScope :: "string list \<Rightarrow> string \<Rightarrow> bool" where
  "matchScope granted required \<longleftrightarrow> ''*'' \<in> set granted \<or> list_ex (grants_scope required) granted"

definition ScopeGuard :: "string list \<Rightarrow> principal option \<Rightarrow> http_failure + unit" where
  "ScopeGuard required user =
     (case user of
        Some (Machine m) \<Rightarrow>
          if required = []
          then Inl (Forbidden ''This route declares no API key scopes; API key access is denied by default'')
          else if list_all (matchScope (mp_scopes m)) required then Inr ()
          else Inl (Forbidden ''Insufficient API key scopes'')
      | _ \<Rightarrow> Inr ())"

text \<open>
  The guard of the metadata routes; False is a refusal without an exception. The scope matcher is
  missing when no plugin provides it.
\<close>

definition MetadataScopeGuard ::
    "(string list \<Rightarrow> string \<Rightarrow> bool) option \<Rightarrow> principal option \<Rightarrow> http_failure + bool" where
  "MetadataScopeGuard matcher user =
     (case user of
        None \<Rightarrow> Inr False
      | Some (Interactive i) \<Rightarrow> Inr True
      | Some (Machine m) \<Rightarrow>
          (case matcher of
             None \<Rightarrow> Inl (Forbidden ''No scope matcher provider is available to validate API key scopes'')
           | Some matches \<Rightarrow>
               if matches (mp_scopes m) ''metadata:read'' then Inr True
               else Inl (Forbidden ''Insufficient API key scopes'')))"

section \<open>Registration\<close>

definition interactive_ones :: "('q, 'w) strategy list \<Rightarrow> ('q, 'w) strategy list" where
  "interactive_ones ss = filter (\<lambda>s. st_kind s = InteractiveKind) ss"

lemma list_interactive: "list_strategies (Some InteractiveKind) reg = sort_key st_id (interactive_ones reg)"
  by (simp add: list_strategies_def interactive_ones_def eq_commute)

lemma register_Inr_iff:
  "register_strategy s reg = Inr reg' \<longleftrightarrow> reg' = reg @ [s] \<and> st_id s \<notin> st_id ` set reg
     \<and> (st_kind s = InteractiveKind \<longrightarrow> interactive_ones reg = [])"
proof -
  have "sort_key st_id xs = [] \<longleftrightarrow> xs = []" for xs :: "('a, 'b) strategy list"
    by (metis length_0_conv length_sort)
  moreover have "has_strategy (st_id s) reg \<longleftrightarrow> st_id s \<in> st_id ` set reg"
    by (auto simp: has_strategy_def intro: rev_image_eqI [OF _ sym])
  ultimately show ?thesis
    by (auto simp: register_strategy_def list_interactive split: list.splits)
qed

lemma register_all_Inr_iff:
  "foldM register_strategy ss reg = Inr reg' \<longleftrightarrow> reg' = reg @ ss
     \<and> distinct (map st_id ss) \<and> st_id ` set ss \<inter> st_id ` set reg = {}
     \<and> (interactive_ones ss = [] \<or> interactive_ones reg = [] \<and> length (interactive_ones ss) = 1)"
proof (induction ss arbitrary: reg)
  case (Cons s ss)
  have "foldM register_strategy (s # ss) reg = Inr reg' \<longleftrightarrow>
      (register_strategy s reg = Inr (reg @ [s]) \<and> foldM register_strategy ss (reg @ [s]) = Inr reg')"
    by (auto simp: bind_result_Inr_iff register_Inr_iff)
  also have "\<dots> \<longleftrightarrow> reg' = reg @ s # ss \<and> distinct (map st_id (s # ss))
      \<and> st_id ` set (s # ss) \<inter> st_id ` set reg = {}
      \<and> (interactive_ones (s # ss) = [] \<or> interactive_ones reg = [] \<and> length (interactive_ones (s # ss)) = 1)"
    unfolding Cons.IH by (auto simp: register_Inr_iff interactive_ones_def)
  finally show ?case .
qed (auto simp: interactive_ones_def)

lemma guard_strategies_perm:
  assumes "mset ss = mset ss'" and "distinct (map st_id ss)"
  shows "guard_strategies kinds ss = guard_strategies kinds ss'"
proof -
  have "list_strategies k ss = list_strategies k ss'" for k
    unfolding list_strategies_def
  proof (rule sort_key_unique)
    show "mset (filter (\<lambda>s. k = None \<or> k = Some (st_kind s)) ss) = mset (filter (\<lambda>s. k = None \<or> k = Some (st_kind s)) ss')"
      using assms(1) by simp
    show "inj_on st_id (set (filter (\<lambda>s. k = None \<or> k = Some (st_kind s)) ss))"
      using assms(2) by (auto simp: distinct_map inj_on_def)
  qed
  then show ?thesis by (simp add: guard_strategies_def)
qed

text \<open>
  Authentication does not depend on the order in which modules register their strategies:
  registering them in another order succeeds as well, and then every guard gives the same answer to
  every request. An application accepts at most one interactive strategy, and the ids are unique.
\<close>

theorem authentication_ignores_registration_order:
  assumes "mset ss = mset ss'" and "foldM register_strategy ss [] = Inr reg"
  shows "\<exists>reg'. foldM register_strategy ss' [] = Inr reg'
     \<and> authenticate_request kinds reg' q ri w = authenticate_request kinds reg q ri w
     \<and> describe_strategies reg' = describe_strategies reg
     \<and> length (list_strategies (Some InteractiveKind) reg) \<le> 1 \<and> distinct (map st_id reg)"
proof -
  have ok: "reg = ss" "distinct (map st_id ss)" "interactive_ones ss = [] \<or> length (interactive_ones ss) = 1"
    using assms(2) by (auto simp: register_all_Inr_iff)
  have "mset (interactive_ones ss) = mset (interactive_ones ss')" using assms(1) by (simp add: interactive_ones_def)
  then have one: "interactive_ones ss' = [] \<or> length (interactive_ones ss') = 1"
    using ok(3) by (metis mset_eq_length mset_zero_iff_right mset.simps(1))
  have "distinct (map st_id ss')" using ok(2) assms(1) by (metis mset_eq_imp_distinct_iff mset_map)
  then have "foldM register_strategy ss' [] = Inr ss'" using one by (auto simp: register_all_Inr_iff interactive_ones_def)
  moreover have "guard_strategies kinds ss' = guard_strategies kinds ss"
    using guard_strategies_perm [OF assms(1) ok(2)] by simp
  moreover have "list_strategies None ss' = list_strategies None ss"
    unfolding list_strategies_def using assms(1) ok(2)
    by (intro sort_key_unique) (auto simp: distinct_map inj_on_def dest: mset_eq_setD)
  ultimately show ?thesis using ok
    by (auto simp: authenticate_request_def describe_strategies_def list_interactive)
qed

definition ex_strategy :: "string \<Rightarrow> strategy_kind \<Rightarrow> (string, unit) strategy" where
  "ex_strategy i k = \<lparr>st_id = i, st_kind = k, st_authenticate = (\<lambda>q w. (if q = i then Inr None else Inl UNAUTHORIZED, w))\<rparr>"

theorem authentication_ignores_registration_order_witness:
  "\<exists>reg. foldM register_strategy [ex_strategy ''oidc'' InteractiveKind, ex_strategy ''api-key'' MachineKind] [] = Inr reg
     \<and> length (list_strategies (Some InteractiveKind) reg) \<le> 1"
proof -
  let ?a = "ex_strategy ''api-key'' MachineKind" and ?o = "ex_strategy ''oidc'' InteractiveKind"
  have "foldM register_strategy [?a, ?o] [] = Inr [?a, ?o]" "foldM register_strategy [?o, ?a] [] = Inr [?o, ?a]"
    unfolding register_all_Inr_iff by (simp_all add: ex_strategy_def interactive_ones_def)
  moreover have "mset [?o, ?a] = mset [?a, ?o]" by simp
  ultimately show ?thesis
    using authentication_ignores_registration_order [of "[?o, ?a]" "[?a, ?o]" "[?o, ?a]"] by auto
qed

section \<open>Authentication fails closed\<close>

text \<open>The state after every strategy of the list declined; None when one of them did not.\<close>

fun declined :: "('q, 'w) strategy list \<Rightarrow> 'q \<Rightarrow> 'w \<Rightarrow> 'w option" where
  "declined [] q w = Some w"
| "declined (s # ss) q w = (case st_authenticate s q w of (Inr None, w') \<Rightarrow> declined ss q w' | _ \<Rightarrow> None)"

lemma try_after_declined:
  "declined as q w = Some w1 \<Longrightarrow> try_strategies (as @ ss) q w = try_strategies ss q w1"
  by (induction as arbitrary: w) (auto split: prod.splits sum.splits option.splits)

lemma try_accepts:
  "try_strategies ss q w = (Inr p, w') \<Longrightarrow>
     \<exists>as s bs w1. ss = as @ s # bs \<and> declined as q w = Some w1 \<and> st_authenticate s q w1 = (Inr (Some p), w')"
proof (induction ss arbitrary: w)
  case (Cons s ss)
  obtain r w2 where r: "st_authenticate s q w = (r, w2)" by (cases "st_authenticate s q w")
  consider e where "r = Inl e" | "r = Inr (Some p)" "w2 = w'" | "r = Inr None" | p' where "r = Inr (Some p')" "p' \<noteq> p"
    using Cons.prems r by (cases r) (auto split: option.splits)
  then show ?case
  proof cases
    case 2
    with r have "s # ss = [] @ s # ss \<and> declined [] q w = Some w \<and> st_authenticate s q w = (Inr (Some p), w')" by simp
    then show ?thesis by blast
  next
    case 3
    with Cons.prems r have "try_strategies ss q w2 = (Inr p, w')" by simp
    from Cons.IH [OF this] obtain as t bs w1 where
      "ss = as @ t # bs" "declined as q w2 = Some w1" "st_authenticate t q w1 = (Inr (Some p), w')" by blast
    with 3 r have "s # ss = (s # as) @ t # bs \<and> declined (s # as) q w = Some w1
      \<and> st_authenticate t q w1 = (Inr (Some p), w')" by simp
    then show ?thesis by blast
  qed (use Cons.prems r in auto)
qed simp

lemma set_guard_strategies: "set (guard_strategies kinds reg) = {s \<in> set reg. st_kind s \<in> set kinds}"
  by (auto simp: guard_strategies_def list_strategies_def)

text \<open>
  C24. Authentication fails closed. A guard accepts a request exactly when a registered strategy of
  its kinds names a principal after all strategies before it have declined, and the request then
  carries this principal; a strategy that rejects its credential ends the request with its own
  exception, whatever strategies come after it; and with no strategy, or when all of them decline,
  the request is unauthorized.
\<close>

theorem authentication_fails_closed:
  "(authenticate_request kinds reg q ri w = (Inr ri', w') \<longleftrightarrow>
      (\<exists>as s bs w1 p. guard_strategies kinds reg = as @ s # bs \<and> declined as q w = Some w1
         \<and> st_authenticate s q w1 = (Inr (Some p), w') \<and> ri' = attach_principal p ri))
   \<and> (\<forall>as s bs w1 e w2. guard_strategies kinds reg = as @ s # bs \<longrightarrow> declined as q w = Some w1
         \<longrightarrow> st_authenticate s q w1 = (Inl e, w2) \<longrightarrow> authenticate_request kinds reg q ri w = (Inl e, w2))
   \<and> (declined (guard_strategies kinds reg) q w \<noteq> None \<longrightarrow>
        (\<exists>m w2. authenticate_request kinds reg q ri w = (Inl (Unauthorized m), w2)))
   \<and> set (guard_strategies kinds reg) = {s \<in> set reg. st_kind s \<in> set kinds}"
proof (intro conjI)
  let ?ss = "guard_strategies kinds reg"
  have auth: "authenticate_request kinds reg q ri w =
      (case try_strategies ?ss q w of (Inl e, w') \<Rightarrow> (Inl e, w') | (Inr p, w') \<Rightarrow> (Inr (attach_principal p ri), w'))"
    if "?ss \<noteq> []" using that by (simp add: authenticate_request_def split: list.splits)
  show "authenticate_request kinds reg q ri w = (Inr ri', w') \<longleftrightarrow> (\<exists>as s bs w1 p. ?ss = as @ s # bs
      \<and> declined as q w = Some w1 \<and> st_authenticate s q w1 = (Inr (Some p), w') \<and> ri' = attach_principal p ri)" (is "?l \<longleftrightarrow> ?r")
  proof
    assume l: ?l
    then have ne: "?ss \<noteq> []" by (auto simp: authenticate_request_def)
    with l auth obtain p where "try_strategies ?ss q w = (Inr p, w')" "ri' = attach_principal p ri"
      by (auto split: prod.splits sum.splits)
    with try_accepts [of ?ss q w p w'] show ?r by blast
  next
    assume ?r
    then show ?l using auth by (auto simp: try_after_declined)
  qed
  show "\<forall>as s bs w1 e w2. ?ss = as @ s # bs \<longrightarrow> declined as q w = Some w1 \<longrightarrow> st_authenticate s q w1 = (Inl e, w2)
      \<longrightarrow> authenticate_request kinds reg q ri w = (Inl e, w2)"
    using auth by (auto simp: try_after_declined)
  show "declined ?ss q w \<noteq> None \<longrightarrow> (\<exists>m w2. authenticate_request kinds reg q ri w = (Inl (Unauthorized m), w2))"
    using auth try_after_declined [of ?ss q w _ "[]"]
    by (cases "?ss = []") (auto simp: UNAUTHORIZED_def authenticate_request_def)
  show "set ?ss = {s \<in> set reg. st_kind s \<in> set kinds}" by (rule set_guard_strategies)
qed

theorem authentication_fails_closed_witness:
  "\<not> is_ok (fst (authenticate_request AppspineAuthGuard [ex_strategy ''api-key'' MachineKind] ''api-key''
     \<lparr>ri_user = None, ri_store = None\<rparr> ()))"
proof -
  let ?reg = "[ex_strategy ''api-key'' MachineKind]"
  have "declined (guard_strategies AppspineAuthGuard ?reg) ''api-key'' () \<noteq> None"
    by (simp add: guard_strategies_def AppspineAuthGuard_def list_strategies_def ex_strategy_def)
  with authentication_fails_closed [of AppspineAuthGuard ?reg "''api-key''" "\<lparr>ri_user = None, ri_store = None\<rparr>" "()"]
  obtain m w2 where "authenticate_request AppspineAuthGuard ?reg ''api-key'' \<lparr>ri_user = None, ri_store = None\<rparr> ()
    = (Inl (Unauthorized m), w2)" by blast
  then show ?thesis by simp
qed

section \<open>The contract of a strategy\<close>

text \<open>
  A strategy declines, without any effect, exactly the requests that carry no credential of its
  type, and it vouches for every principal it names. \<open>vouched q w w' p\<close> is what it vouches for,
  in the states before and after.
\<close>

locale credential_strategy =
  fixes strategy :: "('q, 'w) strategy"
    and presents :: "'q \<Rightarrow> bool"
    and vouched :: "'q \<Rightarrow> 'w \<Rightarrow> 'w \<Rightarrow> principal \<Rightarrow> bool"
  assumes absent_declines: "\<not> presents q \<Longrightarrow> st_authenticate strategy q w = (Inr None, w)"
    and presented_not_declined: "presents q \<Longrightarrow> st_authenticate strategy q w \<noteq> (Inr None, w')"
    and accepted_vouched: "st_authenticate strategy q w = (Inr (Some p), w') \<Longrightarrow> vouched q w w' p"
begin

lemma absent_skipped: "\<not> presents q \<Longrightarrow> try_strategies (strategy # ss) q w = try_strategies ss q w"
  by (simp add: absent_declines)

lemma presented_decides:
  assumes "presents q"
  shows "try_strategies (strategy # ss) q w = try_strategies [strategy] q w"
  using presented_not_declined [OF assms]
  by (cases "st_authenticate strategy q w") (auto split: sum.splits option.splits)

lemma accepted_first:
  assumes "try_strategies (strategy # ss) q w = (Inr p, w')"
  shows "presents q \<and> vouched q w w' p \<or> \<not> presents q \<and> try_strategies ss q w = (Inr p, w')"
proof (cases "presents q")
  case True
  have "try_strategies [strategy] q w = (Inr p, w')" using assms presented_decides [OF True, of ss w] by simp
  then have "st_authenticate strategy q w = (Inr (Some p), w')"
    by (cases "st_authenticate strategy q w" rule: prod.exhaust, cases "fst (st_authenticate strategy q w)")
      (auto split: option.splits)
  with True accepted_vouched show ?thesis by blast
next
  case False
  with assms absent_skipped show ?thesis by simp
qed

end

section \<open>Roles\<close>

lemma POLICY_ORDER_simps [simp]:
  "POLICY_ORDER ''ALLOW_ALL'' = Some 2" "POLICY_ORDER ''READ_ALL'' = Some 1" "POLICY_ORDER ''DENY_ALL'' = Some 0"
  by (simp_all add: POLICY_ORDER_def)

lemma POLICY_ORDER_Some: "POLICY_ORDER p = Some n \<longleftrightarrow>
   p = ''ALLOW_ALL'' \<and> n = 2 \<or> p = ''READ_ALL'' \<and> n = 1 \<or> p = ''DENY_ALL'' \<and> n = 0"
  by (auto simp: POLICY_ORDER_def split: if_splits)

definition known_policy :: "string \<Rightarrow> bool" where
  "known_policy p \<longleftrightarrow> p \<in> {''ALLOW_ALL'', ''READ_ALL'', ''DENY_ALL''}"

lemma better_policy_cases:
  "known_policy best \<Longrightarrow> better_policy r best =
     (if rg_permissionPolicy r = ''ALLOW_ALL'' \<or> rg_permissionPolicy r = ''READ_ALL'' \<and> best = ''DENY_ALL''
      then rg_permissionPolicy r else best)"
  by (auto simp: better_policy_def exceeds_def known_policy_def POLICY_ORDER_Some split: option.splits)

text \<open>The most permissive policy of the roles.\<close>

lemma fold_better_policy:
  "known_policy best \<Longrightarrow> fold better_policy roles best =
     (if best = ''ALLOW_ALL'' \<or> (\<exists>r\<in>set roles. rg_permissionPolicy r = ''ALLOW_ALL'') then ''ALLOW_ALL''
      else if best = ''READ_ALL'' \<or> (\<exists>r\<in>set roles. rg_permissionPolicy r = ''READ_ALL'') then ''READ_ALL''
      else ''DENY_ALL'')"
proof (induction roles arbitrary: best)
  case Nil
  then show ?case by (auto simp: known_policy_def)
next
  case (Cons r roles)
  have "known_policy (better_policy r best)" using Cons.prems by (auto simp: better_policy_cases known_policy_def)
  from Cons.IH [OF this] Cons.prems show ?case by (auto simp: better_policy_cases known_policy_def)
qed

definition role_allows :: "string list \<Rightarrow> role_grant \<Rightarrow> bool" where
  "role_allows required r \<longleftrightarrow>
     rg_name r = SYSTEM_ADMIN_ROLE \<or> rg_permissionPolicy r = ''ALLOW_ALL''
     \<or> rg_permissionPolicy r = ''READ_ALL'' \<and> (\<exists>p\<in>set required. ends_with p ''_READ'')
     \<or> set required \<inter> set (rg_permissions r) \<noteq> {}"

lemma permission_granted_roles:
  "permission_granted required (buildUserContext roles) \<longleftrightarrow> (\<exists>r\<in>set roles. role_allows required r)"
proof -
  have "known_policy ''DENY_ALL''" by (simp add: known_policy_def)
  note policy = fold_better_policy [OF this, of roles]
  have "fold better_policy roles ''DENY_ALL'' = ''ALLOW_ALL'' \<longleftrightarrow> (\<exists>r\<in>set roles. rg_permissionPolicy r = ''ALLOW_ALL'')"
    unfolding policy by simp
  moreover have "fold better_policy roles ''DENY_ALL'' = ''READ_ALL'' \<longleftrightarrow>
      (\<exists>r\<in>set roles. rg_permissionPolicy r = ''READ_ALL'') \<and> \<not> (\<exists>r\<in>set roles. rg_permissionPolicy r = ''ALLOW_ALL'')"
    unfolding policy by simp
  moreover have "SYSTEM_ADMIN_ROLE \<in> rg_name ` set roles \<longleftrightarrow> (\<exists>r\<in>set roles. rg_name r = SYSTEM_ADMIN_ROLE)" by force
  ultimately show ?thesis
    unfolding permission_granted_def role_allows_def buildUserContext_def list_ex_iff by simp blast
qed

text \<open>
  C27. The permission check of a principal is the check of its roles, one by one: the flattened
  authorization passes exactly when one of the roles alone allows the route, as the administrator,
  by its policy or by an explicit permission. So no combination of roles allows what none of them
  allows, and a further role never takes a permission away.
\<close>

theorem flattened_roles_allow_what_one_role_allows:
  "permission_granted required (buildUserContext roles) \<longleftrightarrow> (\<exists>r\<in>set roles. role_allows required r)"
  by (rule permission_granted_roles)

end
