(* ===== verification/Accounts.thy ===== *)
theory Accounts
  imports Access
begin

text \<open>
  Users, roles and their administration: \<open>rbac/src/rbac-policy.service.ts\<close>,
  \<open>rbac/src/roles/roles.service.ts\<close>, \<open>identity-core/src/users/users.service.ts\<close> and
  \<open>identity-core/src/identity-store.service.ts\<close>, over the tables of their Prisma fragments.
  The database is the list of the rows of its tables, and its constraints (unique columns, foreign
  keys, cascades) are written out in the primitive operations. An operation returns the error it
  throws, in which case the database is as before, or its answer with the new database.
  Time stamps of rows are left out, and messages are cut before a dash.
\<close>

section \<open>Tables\<close>

record user_row =
  us_id :: string
  us_email :: string
  us_name :: "string option"
  us_isActive :: bool
  us_isServiceAccount :: bool

text \<open>The rows of the permission table are the list of the role, in the order of insertion.\<close>

record role_row =
  ro_id :: string
  ro_name :: string
  ro_displayName :: string
  ro_isSystem :: bool
  ro_permissionPolicy :: string
  ro_permissions :: "string list"

record api_key =
  ak_id :: string
  ak_name :: string
  ak_prefix :: string
  ak_hashedKey :: string
  ak_roleId :: string
  ak_actingUserId :: "string option"
  ak_scopes :: "string list"
  ak_rateLimit :: "int option"
  ak_isActive :: bool
  ak_expiresAt :: "int option"
  ak_createdBy :: "string option"
  ak_lastUsedAt :: "int option"

record oidc_identity =
  oi_issuer :: string
  oi_subject :: string
  oi_userId :: string
  oi_linkedFromLegacyEmail :: bool

datatype audit_action = AuditCreate | AuditUpdate | AuditDelete | AuditRestore | AuditMove

record audit_entry =
  ae_entityType :: string
  ae_entityId :: string
  ae_action :: audit_action
  ae_actorId :: string
  ae_actorEmail :: string
  ae_appName :: string

record account_db =
  ac_users :: "user_row list"
  ac_roles :: "role_row list"
  ac_userRoles :: "(string \<times> string) list"
  ac_apiKeys :: "api_key list"
  ac_identities :: "oidc_identity list"
  ac_audit :: "audit_entry list"

definition user_by_id :: "account_db \<Rightarrow> string \<Rightarrow> user_row option" where
  "user_by_id db i = find (\<lambda>u. us_id u = i) (ac_users db)"

definition user_by_email :: "account_db \<Rightarrow> string \<Rightarrow> user_row option" where
  "user_by_email db e = find (\<lambda>u. us_email u = e) (ac_users db)"

definition role_by_id :: "account_db \<Rightarrow> string \<Rightarrow> role_row option" where
  "role_by_id db i = find (\<lambda>r. ro_id r = i) (ac_roles db)"

definition role_by_name :: "account_db \<Rightarrow> string \<Rightarrow> role_row option" where
  "role_by_name db n = find (\<lambda>r. ro_name r = n) (ac_roles db)"

section \<open>Constraints of the database\<close>

text \<open>Codes of the database client: a unique column, a foreign key, a missing row.\<close>

definition UNIQUE_VIOLATION :: http_failure where "UNIQUE_VIOLATION = OtherError ''P2002''"
definition FOREIGN_KEY_VIOLATION :: http_failure where "FOREIGN_KEY_VIOLATION = OtherError ''P2003''"
definition ROW_MISSING :: http_failure where "ROW_MISSING = OtherError ''P2025''"
definition INVALID_VALUE :: http_failure where "INVALID_VALUE = OtherError ''invalid value''"

definition insert_user :: "user_row \<Rightarrow> account_db \<Rightarrow> http_failure + account_db" where
  "insert_user u db =
     (if user_by_id db (us_id u) \<noteq> None \<or> user_by_email db (us_email u) \<noteq> None then Inl UNIQUE_VIOLATION
      else Inr (db\<lparr>ac_users := ac_users db @ [u]\<rparr>))"

text \<open>Deleting a user deletes its role assignments; an API key that acts as the user restricts it.\<close>

definition delete_user :: "string \<Rightarrow> account_db \<Rightarrow> http_failure + account_db" where
  "delete_user i db =
     (if user_by_id db i = None then Inl ROW_MISSING
      else if list_ex (\<lambda>k. ak_actingUserId k = Some i) (ac_apiKeys db) then Inl FOREIGN_KEY_VIOLATION
      else Inr (db\<lparr>ac_users := filter (\<lambda>u. us_id u \<noteq> i) (ac_users db),
                   ac_userRoles := filter (\<lambda>a. fst a \<noteq> i) (ac_userRoles db)\<rparr>))"

definition update_user :: "string \<Rightarrow> (user_row \<Rightarrow> user_row) \<Rightarrow> account_db \<Rightarrow> account_db" where
  "update_user i f db = db\<lparr>ac_users := map (\<lambda>u. if us_id u = i then f u else u) (ac_users db)\<rparr>"

text \<open>The values of a permission are the enumeration of the App, a parameter.\<close>

definition writable_permissions :: "(string \<Rightarrow> bool) \<Rightarrow> string list \<Rightarrow> http_failure + unit" where
  "writable_permissions permission ps =
     (if \<not> list_all permission ps then Inl INVALID_VALUE
      else if \<not> distinct ps then Inl UNIQUE_VIOLATION else Inr ())"

definition insert_role :: "(string \<Rightarrow> bool) \<Rightarrow> role_row \<Rightarrow> account_db \<Rightarrow> http_failure + account_db" where
  "insert_role permission r db =
     bind_result (writable_permissions permission (ro_permissions r)) (\<lambda>_.
       if role_by_id db (ro_id r) \<noteq> None \<or> role_by_name db (ro_name r) \<noteq> None then Inl UNIQUE_VIOLATION
       else Inr (db\<lparr>ac_roles := ac_roles db @ [r]\<rparr>))"

definition update_role :: "string \<Rightarrow> (role_row \<Rightarrow> role_row) \<Rightarrow> account_db \<Rightarrow> account_db" where
  "update_role i f db = db\<lparr>ac_roles := map (\<lambda>r. if ro_id r = i then f r else r) (ac_roles db)\<rparr>"

text \<open>Deleting a role deletes its assignments; an API key with the role restricts it.\<close>

definition delete_role :: "string \<Rightarrow> account_db \<Rightarrow> http_failure + account_db" where
  "delete_role i db =
     (if role_by_id db i = None then Inl ROW_MISSING
      else if list_ex (\<lambda>k. ak_roleId k = i) (ac_apiKeys db) then Inl FOREIGN_KEY_VIOLATION
      else Inr (db\<lparr>ac_roles := filter (\<lambda>r. ro_id r \<noteq> i) (ac_roles db),
                   ac_userRoles := filter (\<lambda>a. snd a \<noteq> i) (ac_userRoles db)\<rparr>))"

section \<open>The policy of \<open>rbac\<close>\<close>

definition grant_of :: "role_row \<Rightarrow> role_grant" where
  "grant_of r = \<lparr>rg_name = ro_name r, rg_permissionPolicy = ro_permissionPolicy r, rg_permissions = ro_permissions r\<rparr>"

definition assigned_roles :: "account_db \<Rightarrow> string \<Rightarrow> role_row list" where
  "assigned_roles db u = List.map_filter (\<lambda>a. if fst a = u then role_by_id db (snd a) else None) (ac_userRoles db)"

definition rolesForUser :: "account_db \<Rightarrow> string \<Rightarrow> role_grant list" where
  "rolesForUser db u = map grant_of (assigned_roles db u)"

definition defaultRoleIds :: "account_db \<Rightarrow> http_failure + string list" where
  "defaultRoleIds db =
     (case role_by_name db SYSTEM_USER_ROLE of
        None \<Rightarrow> Inl (NotFound (SYSTEM_USER_ROLE @ '' system role not found''))
      | Some r \<Rightarrow> Inr [ro_id r])"

text \<open>One transaction: the assignments are deleted and written again.\<close>

definition replaceUserRoles :: "string \<Rightarrow> string list \<Rightarrow> account_db \<Rightarrow> http_failure + account_db" where
  "replaceUserRoles u rs db =
     (let others = filter (\<lambda>a. fst a \<noteq> u) (ac_userRoles db) in
      if rs = [] then Inr (db\<lparr>ac_userRoles := others\<rparr>)
      else if \<not> distinct rs then Inl UNIQUE_VIOLATION
      else if user_by_id db u = None \<or> list_ex (\<lambda>r. role_by_id db r = None) rs then Inl FOREIGN_KEY_VIOLATION
      else Inr (db\<lparr>ac_userRoles := others @ map (\<lambda>r. (u, r)) rs\<rparr>))"

section \<open>Roles\<close>

record role_view =
  rv_id :: string
  rv_name :: string
  rv_displayName :: string
  rv_isSystem :: bool
  rv_permissionPolicy :: string
  rv_permissions :: "string list"
  rv_userCount :: nat
  rv_apiKeyCount :: nat

definition mapRole :: "account_db \<Rightarrow> role_row \<Rightarrow> role_view" where
  "mapRole db r = \<lparr>rv_id = ro_id r, rv_name = ro_name r, rv_displayName = ro_displayName r, rv_isSystem = ro_isSystem r,
     rv_permissionPolicy = ro_permissionPolicy r, rv_permissions = ro_permissions r,
     rv_userCount = length (filter (\<lambda>a. snd a = ro_id r) (ac_userRoles db)),
     rv_apiKeyCount = length (filter (\<lambda>k. ak_roleId k = ro_id r) (ac_apiKeys db))\<rparr>"

definition ROLE_NOT_FOUND :: http_failure where "ROLE_NOT_FOUND = NotFound ''Role not found''"

definition findOneRole :: "account_db \<Rightarrow> string \<Rightarrow> http_failure + role_view" where
  "findOneRole db i = (case role_by_id db i of None \<Rightarrow> Inl ROLE_NOT_FOUND | Some r \<Rightarrow> Inr (mapRole db r))"

record create_role =
  cr_name :: string
  cr_displayName :: string
  cr_permissionPolicy :: string
  cr_permissions :: "string list"

record update_role_dto =
  ur_displayName :: "string option"
  ur_permissionPolicy :: "string option"
  ur_permissions :: "string list option"

definition createRole :: "(string \<Rightarrow> bool) \<Rightarrow> string \<Rightarrow> create_role \<Rightarrow> account_db \<Rightarrow> http_failure + role_view \<times> account_db" where
  "createRole permission i dto db =
     (if role_by_name db (cr_name dto) \<noteq> None
      then Inl (Conflict (''Role \"'' @ cr_name dto @ ''\" already exists''))
      else let r = \<lparr>ro_id = i, ro_name = cr_name dto, ro_displayName = cr_displayName dto, ro_isSystem = False,
                    ro_permissionPolicy = cr_permissionPolicy dto, ro_permissions = cr_permissions dto\<rparr> in
        bind_result (insert_role permission r db) (\<lambda>db'. Inr (mapRole db' r, db')))"

definition assertPermissionsEditable :: "role_row \<Rightarrow> http_failure + unit" where
  "assertPermissionsEditable r =
     (if ro_name r = SYSTEM_ADMIN_ROLE
      then Inl (BadRequest ''ADMIN permissions are managed via guard bypass and cannot be set here'')
      else Inr ())"

definition update_metadata :: "update_role_dto \<Rightarrow> role_row \<Rightarrow> role_row" where
  "update_metadata dto r =
     r\<lparr>ro_displayName := coalesce (ur_displayName dto) (ro_displayName r),
       ro_permissionPolicy := coalesce (ur_permissionPolicy dto) (ro_permissionPolicy r)\<rparr>"

definition then_find_role :: "string \<Rightarrow> account_db \<Rightarrow> http_failure + role_view \<times> account_db" where
  "then_find_role i db = bind_result (findOneRole db i) (\<lambda>v. Inr (v, db))"

definition updateRole :: "(string \<Rightarrow> bool) \<Rightarrow> string \<Rightarrow> update_role_dto \<Rightarrow> account_db \<Rightarrow> http_failure + role_view \<times> account_db" where
  "updateRole permission i dto db =
     (case role_by_id db i of
        None \<Rightarrow> Inl ROLE_NOT_FOUND
      | Some role \<Rightarrow>
          (case ur_permissions dto of
             Some ps \<Rightarrow>
               bind_result (assertPermissionsEditable role) (\<lambda>_.
               bind_result (writable_permissions permission ps) (\<lambda>_.
                 then_find_role i (update_role i (\<lambda>r. (update_metadata dto r)\<lparr>ro_permissions := ps\<rparr>) db)))
           | None \<Rightarrow> then_find_role i (update_role i (update_metadata dto) db)))"

definition replacePermissions :: "(string \<Rightarrow> bool) \<Rightarrow> string \<Rightarrow> string list \<Rightarrow> account_db \<Rightarrow> http_failure + role_view \<times> account_db" where
  "replacePermissions permission i ps db =
     (case role_by_id db i of
        None \<Rightarrow> Inl ROLE_NOT_FOUND
      | Some role \<Rightarrow>
          bind_result (assertPermissionsEditable role) (\<lambda>_.
          bind_result (writable_permissions permission ps) (\<lambda>_.
            then_find_role i (update_role i (\<lambda>r. r\<lparr>ro_permissions := ps\<rparr>) db))))"

text \<open>Removing a role checks that it is unused, and then deletes it: two accesses to the database.\<close>

definition check_remove_role :: "string \<Rightarrow> account_db \<Rightarrow> http_failure + unit" where
  "check_remove_role i db =
     (case role_by_id db i of
        None \<Rightarrow> Inl ROLE_NOT_FOUND
      | Some r \<Rightarrow>
          if ro_isSystem r then Inl (BadRequest ''System roles cannot be deleted'')
          else if rv_userCount (mapRole db r) > 0 \<or> rv_apiKeyCount (mapRole db r) > 0
          then Inl (BadRequest ''Cannot delete a role that is assigned to users or API keys'')
          else Inr ())"

definition removeRole :: "string \<Rightarrow> account_db \<Rightarrow> http_failure + account_db" where
  "removeRole i db = bind_result (check_remove_role i db) (\<lambda>_. delete_role i db)"

section \<open>Users\<close>

record public_role =
  pr_id :: string
  pr_name :: string
  pr_displayName :: string
  pr_permissionPolicy :: string

definition publicRole :: "role_row \<Rightarrow> public_role" where
  "publicRole r = \<lparr>pr_id = ro_id r, pr_name = ro_name r, pr_displayName = ro_displayName r,
     pr_permissionPolicy = ro_permissionPolicy r\<rparr>"

record user_view =
  uv_user :: user_row
  uv_roles :: "public_role list"

text \<open>Whether the capability of \<open>rbac\<close> is installed is the argument \<open>rbac\<close>.\<close>

definition requireRbac :: "bool \<Rightarrow> string \<Rightarrow> http_failure + unit" where
  "requireRbac rbac operation =
     (if rbac then Inr ()
      else Inl (Unavailable (operation @ '' needs the appspine.rbac-policy capability, which no installed plugin provides.'')))"

definition user_with_roles :: "bool \<Rightarrow> account_db \<Rightarrow> user_row \<Rightarrow> user_view" where
  "user_with_roles rbac db u =
     \<lparr>uv_user = u, uv_roles = (if rbac then map publicRole (assigned_roles db (us_id u)) else [])\<rparr>"

record new_user =
  nu_email :: string
  nu_name :: "string option"
  nu_isServiceAccount :: "bool option"
  nu_roleIds :: "string list option"

definition EMAIL_TAKEN :: http_failure where "EMAIL_TAKEN = Conflict ''Email already registered''"

text \<open>A violated unique column counts as the race for the email.\<close>

definition email_race :: "http_failure + 'a \<Rightarrow> http_failure + 'a" where
  "email_race r = (if r = Inl UNIQUE_VIOLATION then Inl EMAIL_TAKEN else r)"

definition roles_of_new_user :: "bool \<Rightarrow> new_user \<Rightarrow> account_db \<Rightarrow> http_failure + string list" where
  "roles_of_new_user rbac dto db =
     (case nu_roleIds dto of
        Some (r # rs) \<Rightarrow> Inr (r # rs)
      | _ \<Rightarrow> if rbac then defaultRoleIds db else Inr [])"

text \<open>In the transaction of a caller (\<open>tx\<close>) the roles are not read back.\<close>

definition createUser :: "bool \<Rightarrow> bool \<Rightarrow> string \<Rightarrow> new_user \<Rightarrow> account_db \<Rightarrow> http_failure + user_view \<times> account_db" where
  "createUser rbac tx i dto db =
     (if user_by_email db (nu_email dto) \<noteq> None then Inl EMAIL_TAKEN
      else bind_result (roles_of_new_user rbac dto db) (\<lambda>roleIds.
        let u = \<lparr>us_id = i, us_email = nu_email dto, us_name = nu_name dto, us_isActive = True,
                 us_isServiceAccount = coalesce (nu_isServiceAccount dto) False\<rparr> in
        bind_result
          (email_race
            (if roleIds = [] then insert_user u db
             else bind_result (requireRbac rbac ''Assigning default roles'') (\<lambda>_.
                  bind_result (insert_user u db) (replaceUserRoles i roleIds))))
          (\<lambda>db'. Inr (if tx then \<lparr>uv_user = u, uv_roles = []\<rparr> else user_with_roles rbac db' u, db'))))"

definition USER_NOT_FOUND :: http_failure where "USER_NOT_FOUND = NotFound ''User not found''"

definition findUser :: "bool \<Rightarrow> account_db \<Rightarrow> string \<Rightarrow> http_failure + user_view" where
  "findUser rbac db i =
     (case user_by_id db i of None \<Rightarrow> Inl USER_NOT_FOUND | Some u \<Rightarrow> Inr (user_with_roles rbac db u))"

record update_user_dto =
  uu_name :: "string option"
  uu_isActive :: "bool option"
  uu_isServiceAccount :: "bool option"

definition update_profile :: "update_user_dto \<Rightarrow> user_row \<Rightarrow> user_row" where
  "update_profile dto u =
     u\<lparr>us_name := or_else (uu_name dto) (us_name u), us_isActive := coalesce (uu_isActive dto) (us_isActive u),
       us_isServiceAccount := coalesce (uu_isServiceAccount dto) (us_isServiceAccount u)\<rparr>"

definition updateUser :: "bool \<Rightarrow> string \<Rightarrow> update_user_dto \<Rightarrow> account_db \<Rightarrow> http_failure + user_view \<times> account_db" where
  "updateUser rbac i dto db =
     bind_result (findUser rbac db i) (\<lambda>_.
       let db' = update_user i (update_profile dto) db in
       bind_result (findUser rbac db' i) (\<lambda>v. Inr (v, db')))"

definition updateRoles :: "bool \<Rightarrow> string \<Rightarrow> string list \<Rightarrow> account_db \<Rightarrow> http_failure + user_view \<times> account_db" where
  "updateRoles rbac i rs db =
     bind_result (findUser rbac db i) (\<lambda>_.
     bind_result (requireRbac rbac ''Assigning roles'') (\<lambda>_.
     bind_result (replaceUserRoles i rs db) (\<lambda>db'.
     bind_result (findUser rbac db' i) (\<lambda>v. Inr (v, db')))))"

definition removeUser :: "bool \<Rightarrow> string \<Rightarrow> account_db \<Rightarrow> http_failure + account_db" where
  "removeUser rbac i db =
     bind_result (findUser rbac db i) (\<lambda>_.
       case delete_user i db of
         Inl e \<Rightarrow>
           if e = FOREIGN_KEY_VIOLATION
           then Inl (Conflict (''This user still has records referencing them elsewhere in the system and cannot be ''
             @ ''permanently deleted. Deactivate the account instead.''))
           else Inl e
       | Inr db' \<Rightarrow> Inr db')"

section \<open>Duplicate roles\<close>

text \<open>Giving a new user the same role twice violates the key of the assignments, not that of the emails.\<close>

lemma duplicate_roles_read_as_taken_email:
  assumes "user_by_email db (nu_email dto) = None" and "user_by_id db i = None"
    and "nu_roleIds dto = Some rs" and "\<not> distinct rs"
  shows "createUser True tx i dto db = Inl EMAIL_TAKEN"
proof -
  have "roles_of_new_user True dto db = Inr rs" "rs \<noteq> []"
    using assms(3,4) by (cases rs; simp add: roles_of_new_user_def)+
  then show ?thesis using assms
    by (simp add: createUser_def Let_def requireRbac_def insert_user_def replaceUserRoles_def email_race_def
        user_by_email_def user_by_id_def)
qed

end
