(* ===== verification/ApiKeys.thy ===== *)
theory ApiKeys
  imports Accounts
begin

text \<open>
  API keys: \<open>m2m-api-key/src/api-keys.service.ts\<close>, \<open>api-key-rate-limiter.ts\<close>,
  \<open>api-key-machine.strategy.ts\<close> and \<open>api-key.guard.ts\<close>.
  The lemmas bound the requests the limiter lets through, show that a created key authenticates as
  its role and nothing else does, and that the legacy guard accepts what the strategy accepts.
\<close>

section \<open>The rate limiter\<close>

definition DEFAULT_LIMIT :: int where "DEFAULT_LIMIT = 60"
definition WINDOW_MS :: int where "WINDOW_MS = 60000"

record bucket =
  bu_count :: int
  bu_windowStart :: int

type_synonym buckets = "(string \<times> bucket) list"

text \<open>The quotient rounded up.\<close>

definition ceil_div :: "int \<Rightarrow> int \<Rightarrow> int" where
  "ceil_div a b = - ((- a) div b)"

text \<open>The answer is whether the request may pass, and after how many seconds to try again.\<close>

definition check_limit :: "string \<Rightarrow> int option \<Rightarrow> int \<Rightarrow> buckets \<Rightarrow> (bool \<times> int option) \<times> buckets" where
  "check_limit key perMin now bs =
     (let limit = coalesce perMin DEFAULT_LIMIT;
          fresh = ((True, None), map_put key \<lparr>bu_count = 1, bu_windowStart = now\<rparr> bs) in
      case map_of bs key of
        None \<Rightarrow> fresh
      | Some b \<Rightarrow>
          if now - bu_windowStart b \<ge> WINDOW_MS then fresh
          else let b' = b\<lparr>bu_count := bu_count b + 1\<rparr>; bs' = map_put key b' bs in
            if bu_count b' > limit
            then ((False, Some (ceil_div (WINDOW_MS - (now - bu_windowStart b)) 1000)), bs')
            else ((True, None), bs'))"

definition evict :: "int \<Rightarrow> buckets \<Rightarrow> buckets" where
  "evict now bs = filter (\<lambda>(k, b). \<not> (now - bu_windowStart b \<ge> WINDOW_MS * 2)) bs"

section \<open>The service\<close>

definition KEY_PREFIX :: string where "KEY_PREFIX = ''an_live_''"
definition PREFIX_DISPLAY_LENGTH :: nat where "PREFIX_DISPLAY_LENGTH = 16"

text \<open>\<open>SCOPE_PATTERN\<close>: a module, a colon and an action.\<close>

definition scope_char :: "char \<Rightarrow> bool" where
  "scope_char c \<longleftrightarrow> is_lower c \<or> is_digit c \<or> c = CHR ''_'' \<or> c = CHR ''-''"

definition SCOPE_PATTERN :: "string \<Rightarrow> bool" where
  "SCOPE_PATTERN s =
     (case split_on (CHR '':'') s of
        [m, a] \<Rightarrow> m \<noteq> [] \<and> list_all scope_char m \<and> a \<in> {''read'', ''write'', ''call'', ''*''}
      | _ \<Rightarrow> False)"

definition validateScopes :: "string list \<Rightarrow> http_failure + unit" where
  "validateScopes scopes =
     (let invalid = filter (\<lambda>s. s \<noteq> ''*'' \<and> \<not> SCOPE_PATTERN s) scopes in
      if invalid \<noteq> [] then Inl (BadRequest (''Invalid scopes: '' @ join '', '' invalid)) else Inr ())"

definition assertActingUser :: "account_db \<Rightarrow> string \<Rightarrow> http_failure + unit" where
  "assertActingUser db i =
     (case user_by_id db i of
        None \<Rightarrow> Inl (BadRequest (''Acting user '' @ i @ '' not found''))
      | Some u \<Rightarrow>
          if us_isServiceAccount u then Inr ()
          else Inl (BadRequest (''This account is not marked as a service account and cannot be bound as an ''
            @ ''API key acting user.'')))"

definition assert_acting :: "account_db \<Rightarrow> string option \<Rightarrow> http_failure + unit" where
  "assert_acting db acting = (if truthy acting then assertActingUser db (the acting) else Inr ())"

text \<open>Times of expiry are read as the numbers they are parsed to.\<close>

record create_api_key =
  ck_name :: string
  ck_roleId :: string
  ck_actingUserId :: "string option"
  ck_scopes :: "string list"
  ck_rateLimit :: "int option"
  ck_expiresAt :: "int option"

text \<open>In an update an attribute may be absent, null or a value.\<close>

record update_api_key =
  uk_name :: "string option"
  uk_roleId :: "string option"
  uk_actingUserId :: "string option option"
  uk_scopes :: "string list option"
  uk_rateLimit :: "int option option"
  uk_isActive :: "bool option"
  uk_expiresAt :: "int option option"

definition api_key_by_id :: "account_db \<Rightarrow> string \<Rightarrow> api_key option" where
  "api_key_by_id db i = find (\<lambda>k. ak_id k = i) (ac_apiKeys db)"

text \<open>The foreign keys of a key are its role and its acting user.\<close>

definition references_exist :: "account_db \<Rightarrow> api_key \<Rightarrow> bool" where
  "references_exist db k \<longleftrightarrow> role_by_id db (ak_roleId k) \<noteq> None
     \<and> (case ak_actingUserId k of None \<Rightarrow> True | Some u \<Rightarrow> user_by_id db u \<noteq> None)"

definition insert_api_key :: "api_key \<Rightarrow> account_db \<Rightarrow> http_failure + account_db" where
  "insert_api_key k db =
     (if list_ex (\<lambda>k'. ak_id k' = ak_id k \<or> ak_hashedKey k' = ak_hashedKey k) (ac_apiKeys db) then Inl UNIQUE_VIOLATION
      else if \<not> references_exist db k then Inl FOREIGN_KEY_VIOLATION
      else Inr (db\<lparr>ac_apiKeys := ac_apiKeys db @ [k]\<rparr>))"

definition update_api_key_row :: "string \<Rightarrow> (api_key \<Rightarrow> api_key) \<Rightarrow> account_db \<Rightarrow> http_failure + account_db" where
  "update_api_key_row i f db =
     (case api_key_by_id db i of
        None \<Rightarrow> Inl ROW_MISSING
      | Some k \<Rightarrow>
          if \<not> references_exist db (f k) then Inl FOREIGN_KEY_VIOLATION
          else Inr (db\<lparr>ac_apiKeys := map (\<lambda>k. if ak_id k = i then f k else k) (ac_apiKeys db)\<rparr>))"

text \<open>
  The hash and the 16 random bytes in hexadecimal digits are parameters. An empty acting user is
  stored as it is. The answer is the raw key with the row.
\<close>

definition new_api_key ::
    "(string \<Rightarrow> string) \<Rightarrow> string \<Rightarrow> string \<Rightarrow> create_api_key \<Rightarrow> string option \<Rightarrow> api_key" where
  "new_api_key hash random i dto createdBy =
     \<lparr>ak_id = i, ak_name = ck_name dto, ak_prefix = take (length KEY_PREFIX + PREFIX_DISPLAY_LENGTH) (KEY_PREFIX @ random),
      ak_hashedKey = hash (KEY_PREFIX @ random), ak_roleId = ck_roleId dto, ak_actingUserId = ck_actingUserId dto,
      ak_scopes = ck_scopes dto, ak_rateLimit = ck_rateLimit dto, ak_isActive = True,
      ak_expiresAt = ck_expiresAt dto, ak_createdBy = createdBy, ak_lastUsedAt = None\<rparr>"

definition createApiKey ::
    "(string \<Rightarrow> string) \<Rightarrow> string \<Rightarrow> string \<Rightarrow> create_api_key \<Rightarrow> string option \<Rightarrow> account_db
      \<Rightarrow> http_failure + (string \<times> api_key) \<times> account_db" where
  "createApiKey hash random i dto createdBy db =
     bind_result (validateScopes (ck_scopes dto)) (\<lambda>_.
     bind_result (assert_acting db (ck_actingUserId dto)) (\<lambda>_.
       let k = new_api_key hash random i dto createdBy in
       bind_result (insert_api_key k db) (\<lambda>db'. Inr ((KEY_PREFIX @ random, k), db'))))"

definition findOneApiKey :: "account_db \<Rightarrow> string \<Rightarrow> http_failure + api_key" where
  "findOneApiKey db i =
     (case api_key_by_id db i of
        None \<Rightarrow> Inl (NotFound (''ApiKey '' @ i @ '' not found''))
      | Some k \<Rightarrow> Inr k)"

definition changed_api_key :: "update_api_key \<Rightarrow> api_key \<Rightarrow> api_key" where
  "changed_api_key dto k =
     k\<lparr>ak_name := coalesce (uk_name dto) (ak_name k), ak_roleId := coalesce (uk_roleId dto) (ak_roleId k),
       ak_actingUserId := coalesce (uk_actingUserId dto) (ak_actingUserId k),
       ak_scopes := coalesce (uk_scopes dto) (ak_scopes k),
       ak_rateLimit := coalesce (uk_rateLimit dto) (ak_rateLimit k),
       ak_isActive := coalesce (uk_isActive dto) (ak_isActive k),
       ak_expiresAt := coalesce (uk_expiresAt dto) (ak_expiresAt k)\<rparr>"

definition updateApiKey :: "string \<Rightarrow> update_api_key \<Rightarrow> account_db \<Rightarrow> http_failure + api_key \<times> account_db" where
  "updateApiKey i dto db =
     bind_result (findOneApiKey db i) (\<lambda>k.
     bind_result (case uk_scopes dto of None \<Rightarrow> Inr () | Some scopes \<Rightarrow> validateScopes scopes) (\<lambda>_.
     bind_result (assert_acting db (coalesce (uk_actingUserId dto) None)) (\<lambda>_.
     bind_result (update_api_key_row i (changed_api_key dto) db) (\<lambda>db'. Inr (changed_api_key dto k, db')))))"

definition removeApiKey :: "string \<Rightarrow> account_db \<Rightarrow> http_failure + account_db" where
  "removeApiKey i db =
     bind_result (findOneApiKey db i) (\<lambda>_. Inr (db\<lparr>ac_apiKeys := filter (\<lambda>k. ak_id k \<noteq> i) (ac_apiKeys db)\<rparr>))"

section \<open>Authentication by key\<close>

text \<open>
  Headers as Express presents them: absent, one value or several. The clock is read once for a
  request.
\<close>

datatype header_value = HeaderAbsent | OneHeader string | ManyHeaders "string list"

record http_request =
  rq_apiKey :: header_value
  rq_authorization :: header_value
  rq_now :: int

record auth_state =
  as_db :: account_db
  as_buckets :: buckets

definition usable_key :: "(string \<Rightarrow> string) \<Rightarrow> string \<Rightarrow> int \<Rightarrow> account_db \<Rightarrow> api_key option" where
  "usable_key hash raw now db =
     find (\<lambda>k. ak_hashedKey k = hash raw \<and> ak_isActive k
        \<and> (case ak_expiresAt k of None \<Rightarrow> True | Some t \<Rightarrow> t > now)) (ac_apiKeys db)"

text \<open>An acting user that has been disabled does not act.\<close>

definition acting_user :: "account_db \<Rightarrow> api_key \<Rightarrow> string option" where
  "acting_user db k =
     (case ak_actingUserId k of
        None \<Rightarrow> None
      | Some i \<Rightarrow>
          (case user_by_id db i of None \<Rightarrow> None | Some u \<Rightarrow> if us_isActive u then Some (us_id u) else None))"

definition key_principal :: "account_db \<Rightarrow> api_key \<Rightarrow> machine_principal" where
  "key_principal db k =
     (let context = buildUserContext (case role_by_id db (ak_roleId k) of None \<Rightarrow> [] | Some r \<Rightarrow> [grant_of r]) in
      \<lparr>pa_roleNames = pa_roleNames context, pa_permissionPolicy = pa_permissionPolicy context,
       pa_permissions = pa_permissions context, mp_sub = ak_id k, mp_scopes = ak_scopes k,
       mp_actingUserId = acting_user db k\<rparr>)"

text \<open>
  Presenting a well-formed key: the limiter is asked, the time of use is recorded (a failure of this
  write is ignored), and the principal of the key is built. None when no key matches.
\<close>

definition use_key ::
    "(string \<Rightarrow> string) \<Rightarrow> string \<Rightarrow> int \<Rightarrow> auth_state \<Rightarrow> (http_failure + machine_principal) option \<times> auth_state" where
  "use_key hash raw now w =
     (case usable_key hash raw now (as_db w) of
        None \<Rightarrow> (None, w)
      | Some k \<Rightarrow>
          (case check_limit (ak_id k) (ak_rateLimit k) now (as_buckets w) of
             ((False, retryAfter), bs) \<Rightarrow>
               (Some (Inl (HttpThrottled (coalesce retryAfter 60))), w\<lparr>as_buckets := bs\<rparr>)
           | ((True, _), bs) \<Rightarrow>
               (Some (Inr (key_principal (as_db w) k)),
                \<lparr>as_db = (as_db w)\<lparr>ac_apiKeys := map (\<lambda>k'. if ak_id k' = ak_id k then k'\<lparr>ak_lastUsedAt := Some now\<rparr> else k')
                            (ac_apiKeys (as_db w))\<rparr>, as_buckets = bs\<rparr>)))"

definition authenticate_api_key ::
    "(string \<Rightarrow> string) \<Rightarrow> bool \<Rightarrow> http_request \<Rightarrow> auth_state \<Rightarrow> (http_failure + principal option) \<times> auth_state" where
  "authenticate_api_key hash rbac q w =
     (case rq_apiKey q of
        OneHeader raw \<Rightarrow>
          if \<not> starts_with raw KEY_PREFIX then (Inl (Unauthorized ''Invalid API key''), w)
          else if \<not> rbac
          then (Inl (Unauthorized ''API key authentication is unavailable: no RBAC policy provider registered''), w)
          else (case use_key hash raw (rq_now q) w of
              (None, w') \<Rightarrow> (Inl (Unauthorized ''Invalid API key''), w')
            | (Some (Inl e), w') \<Rightarrow> (Inl e, w')
            | (Some (Inr m), w') \<Rightarrow> (Inr (Some (Machine m)), w'))
      | _ \<Rightarrow> (Inr None, w))"

definition ApiKeyMachineStrategy :: "(string \<Rightarrow> string) \<Rightarrow> bool \<Rightarrow> (http_request, auth_state) strategy" where
  "ApiKeyMachineStrategy hash rbac =
     \<lparr>st_id = ''api-key'', st_kind = MachineKind, st_authenticate = authenticate_api_key hash rbac\<rparr>"


section \<open>The limit of requests\<close>

text \<open>Calls of the limiter with their times, and the times at which it lets a key pass.\<close>

datatype limiter_call = CheckCall int string "int option" | EvictCall int

fun call_time :: "limiter_call \<Rightarrow> int" where
  "call_time (CheckCall t k l) = t"
| "call_time (EvictCall t) = t"

fun admitted :: "string \<Rightarrow> limiter_call list \<Rightarrow> buckets \<Rightarrow> int list" where
  "admitted key [] bs = []"
| "admitted key (CheckCall t k l # cs) bs =
     (if k = key \<and> fst (fst (check_limit k l t bs)) then [t] else []) @ admitted key cs (snd (check_limit k l t bs))"
| "admitted key (EvictCall t # cs) bs = admitted key cs (evict t bs)"

definition passed_between :: "int \<Rightarrow> string \<Rightarrow> limiter_call list \<Rightarrow> buckets \<Rightarrow> int" where
  "passed_between a key cs bs = int (length (filter (\<lambda>t. a \<le> t \<and> t < a + WINDOW_MS) (admitted key cs bs)))"

text \<open>What may still pass in the minute from \<open>a\<close> when the clock is at \<open>now\<close>.\<close>

definition budget :: "int \<Rightarrow> int \<Rightarrow> int \<Rightarrow> bucket option \<Rightarrow> int" where
  "budget a limit now ob =
     (if now < a then 2 * limit
      else case ob of
        None \<Rightarrow> limit
      | Some b \<Rightarrow> (if bu_windowStart b \<ge> a then 0 else limit) + max 0 (limit - bu_count b))"

definition bucket_ok :: "int \<Rightarrow> bucket option \<Rightarrow> bool" where
  "bucket_ok now ob = (case ob of None \<Rightarrow> True | Some b \<Rightarrow> bu_count b \<ge> 1 \<and> bu_windowStart b \<le> now)"

lemma budget_later:
  "now \<le> t \<Longrightarrow> limit \<ge> 1 \<Longrightarrow> bucket_ok now ob \<Longrightarrow> budget a limit t ob \<le> budget a limit now ob \<and> bucket_ok t ob"
  by (auto simp: budget_def bucket_ok_def split: option.splits)

lemma budget_nonneg: "limit \<ge> 1 \<Longrightarrow> budget a limit now ob \<ge> 0"
  by (auto simp: budget_def split: option.splits)

lemma admitted_times:
  "sorted (map call_time cs) \<Longrightarrow> \<forall>c\<in>set cs. now \<le> call_time c \<Longrightarrow> t \<in> set (admitted key cs bs) \<Longrightarrow> now \<le> t"
  by (induction key cs bs rule: admitted.induct) (auto split: if_splits)

lemma nothing_passes_late:
  assumes "sorted (map call_time cs)" "\<forall>c\<in>set cs. now \<le> call_time c" "a + WINDOW_MS \<le> now"
  shows "passed_between a key cs bs = 0"
  using admitted_times [OF assms(1,2)] assms(3) by (fastforce simp: passed_between_def filter_empty_conv)

lemma check_other: "k \<noteq> key \<Longrightarrow> map_of (snd (check_limit k l t bs)) key = map_of bs key"
  by (auto simp: check_limit_def Let_def map_of_map_put split: option.splits)

lemma distinct_check: "distinct (map fst bs) \<Longrightarrow> distinct (map fst (snd (check_limit k l t bs)))"
  by (auto simp: check_limit_def Let_def keys_map_put split: option.splits)

lemma map_of_evict:
  "distinct (map fst bs) \<Longrightarrow> map_of (evict t bs) key =
     (case map_of bs key of None \<Rightarrow> None | Some b \<Rightarrow> if t - bu_windowStart b \<ge> WINDOW_MS * 2 then None else Some b)"
  unfolding evict_def by (induction bs) (auto split: option.splits simp: map_of_None_keys image_iff)

lemma distinct_evict: "distinct (map fst bs) \<Longrightarrow> distinct (map fst (evict t bs))"
  by (simp add: evict_def distinct_map_filter)

lemma passed_Cons_check:
  "passed_between a key (CheckCall t k l # cs) bs =
     (if k = key \<and> fst (fst (check_limit k l t bs)) \<and> a \<le> t \<and> t < a + WINDOW_MS then 1 else 0)
       + passed_between a key cs (snd (check_limit k l t bs))"
  by (cases "k = key") (simp_all add: passed_between_def)

text \<open>One check of the key, against its budget.\<close>

lemma check_budget:
  assumes "limit \<ge> 1" and "coalesce l DEFAULT_LIMIT = limit" and "bucket_ok t (map_of bs key)" and "t < a + WINDOW_MS"
  shows "(if fst (fst (check_limit key l t bs)) \<and> a \<le> t then 1 else 0)
      + budget a limit t (map_of (snd (check_limit key l t bs)) key) \<le> budget a limit t (map_of bs key)
    \<and> bucket_ok t (map_of (snd (check_limit key l t bs)) key)"
  using assms
  by (auto simp: check_limit_def Let_def budget_def bucket_ok_def map_of_map_put split: option.splits)

lemma evict_budget:
  assumes "limit \<ge> 1" and "distinct (map fst bs)" and "bucket_ok t (map_of bs key)" and "t < a + WINDOW_MS"
  shows "budget a limit t (map_of (evict t bs) key) \<le> budget a limit t (map_of bs key)
    \<and> bucket_ok t (map_of (evict t bs) key)"
proof (cases "map_of bs key")
  case None
  with assms show ?thesis by (simp add: map_of_evict)
next
  case (Some b)
  have "WINDOW_MS > 0" by (simp add: WINDOW_MS_def)
  with Some assms show ?thesis unfolding map_of_evict [OF assms(2)] by (simp add: budget_def bucket_ok_def)
qed

definition calls_with_limit :: "string \<Rightarrow> int \<Rightarrow> limiter_call list \<Rightarrow> bool" where
  "calls_with_limit key limit cs \<longleftrightarrow> (\<forall>t l. CheckCall t key l \<in> set cs \<longrightarrow> coalesce l DEFAULT_LIMIT = limit)"

lemma passed_within_budget:
  assumes "limit \<ge> 1"
  shows "sorted (map call_time cs) \<Longrightarrow> \<forall>c\<in>set cs. now \<le> call_time c \<Longrightarrow> calls_with_limit key limit cs
    \<Longrightarrow> distinct (map fst bs) \<Longrightarrow> bucket_ok now (map_of bs key)
    \<Longrightarrow> passed_between a key cs bs \<le> budget a limit now (map_of bs key)"
proof (induction cs arbitrary: now bs)
  case Nil
  then show ?case using budget_nonneg [OF assms] by (simp add: passed_between_def)
next
  case (Cons c cs)
  let ?t = "call_time c"
  have later: "sorted (map call_time cs)" "\<forall>c\<in>set cs. ?t \<le> call_time c" "calls_with_limit key limit cs" "now \<le> ?t"
    using Cons.prems(1-3) by (auto simp: calls_with_limit_def)
  note at_t = budget_later [OF later(4) assms Cons.prems(5), of a]
  show ?case
  proof (cases "a + WINDOW_MS \<le> ?t")
    case True
    have "sorted (map call_time (c # cs))" "\<forall>d\<in>set (c # cs). ?t \<le> call_time d" using Cons.prems(1) by auto
    from nothing_passes_late [OF this True] show ?thesis using budget_nonneg [OF assms] by simp
  next
    case False
    show ?thesis
    proof (cases c)
      case (CheckCall t k l)
      let ?bs = "snd (check_limit k l t bs)"
      note IH = Cons.IH [OF later(1-3) distinct_check [OF Cons.prems(4)], of k l t]
      show ?thesis
      proof (cases "k = key")
        case True
        have "coalesce l DEFAULT_LIMIT = limit" using Cons.prems(3) True CheckCall by (auto simp: calls_with_limit_def)
        from check_budget [OF assms this, of t bs key a] at_t False IH CheckCall True show ?thesis
          by (auto simp: passed_Cons_check)
      next
        case other: False
        with IH at_t CheckCall show ?thesis by (simp add: passed_Cons_check check_other)
      qed
    next
      case (EvictCall t)
      from evict_budget [OF assms Cons.prems(4), of t key a]
        Cons.IH [OF later(1-3) distinct_evict [OF Cons.prems(4)], of t] at_t False EvictCall show ?thesis
        by (simp add: passed_between_def)
    qed
  qed
qed

text \<open>
  C22. The rate limit. Whatever calls other keys make and whenever stale buckets are evicted, a key
  with the limit \<open>n\<close> passes at most \<open>2 * n\<close> times in any minute. A request that is
  refused is told a delay between a second and a minute, and when the key waits this long its next
  request passes.
\<close>

theorem requests_per_minute_are_bounded:
  assumes "limit \<ge> 1" and "sorted (map call_time cs)" and "calls_with_limit key limit cs"
  shows "passed_between a key cs [] \<le> 2 * limit
    \<and> (\<forall>l now bs r bs' later. check_limit key l now bs = ((False, Some r), bs') \<longrightarrow> (\<forall>b. map_of bs key = Some b \<longrightarrow> bu_windowStart b \<le> now)
        \<longrightarrow> 1 \<le> r \<and> r \<le> 60 \<and> (now + 1000 * r \<le> later \<longrightarrow> fst (fst (check_limit key l later bs'))))"
proof
  let ?start = "Min (insert a (call_time ` set cs))"
  have "\<forall>c\<in>set cs. ?start \<le> call_time c" "?start \<le> a" by auto
  then have "passed_between a key cs [] \<le> budget a limit ?start None"
    using passed_within_budget [OF assms(1,2) _ assms(3), of ?start "[]" a] by (simp add: bucket_ok_def)
  also have "\<dots> \<le> 2 * limit" using assms(1) by (simp add: budget_def)
  finally show "passed_between a key cs [] \<le> 2 * limit" .
next
  show "\<forall>l now bs r bs' later. check_limit key l now bs = ((False, Some r), bs')
    \<longrightarrow> (\<forall>b. map_of bs key = Some b \<longrightarrow> bu_windowStart b \<le> now)
    \<longrightarrow> 1 \<le> r \<and> r \<le> 60 \<and> (now + 1000 * r \<le> later \<longrightarrow> fst (fst (check_limit key l later bs')))"
  proof (intro allI impI)
    fix l now bs r bs' later
    assume d: "check_limit key l now bs = ((False, Some r), bs')"
      and past: "\<forall>b. map_of bs key = Some b \<longrightarrow> bu_windowStart b \<le> now"
    then obtain b where b: "map_of bs key = Some b" "now - bu_windowStart b < WINDOW_MS"
      "r = ceil_div (WINDOW_MS - (now - bu_windowStart b)) 1000"
      "bs' = map_put key (b\<lparr>bu_count := bu_count b + 1\<rparr>) bs"
      by (auto simp: check_limit_def Let_def split: option.splits if_splits)
    define left where "left = WINDOW_MS - (now - bu_windowStart b)"
    have "0 < left" "left \<le> 60000" using b(1,2) past by (auto simp: left_def WINDOW_MS_def)
    then have r: "1 \<le> r" "r \<le> 60" "left \<le> 1000 * r" using b(3) by (simp_all add: ceil_div_def left_def)
    moreover have "fst (fst (check_limit key l later bs'))" if "now + 1000 * r \<le> later"
      using b(4) r(3) that by (simp add: check_limit_def Let_def map_of_map_put left_def)
    ultimately show "1 \<le> r \<and> r \<le> 60 \<and> (now + 1000 * r \<le> later \<longrightarrow> fst (fst (check_limit key l later bs')))" by blast
  qed
qed

theorem requests_per_minute_are_bounded_witness:
  "passed_between 500 ''k'' [CheckCall 400 ''k'' (Some 1), CheckCall 600 ''k'' (Some 1), CheckCall 60500 ''k'' (Some 1)] [] \<le> 2"
  using requests_per_minute_are_bounded
    [of 1 "[CheckCall 400 ''k'' (Some 1), CheckCall 600 ''k'' (Some 1), CheckCall 60500 ''k'' (Some 1)]" "''k''" 500]
  by (simp add: calls_with_limit_def)

section \<open>Scopes\<close>

lemma split_scope:
  assumes "split_on (CHR '':'') s = [m, a]"
  shows "s = m @ '':'' @ a"
  using join_split_on [of "CHR '':''" s] assms by simp

lemma SCOPE_PATTERN_parts:
  assumes "SCOPE_PATTERN s"
  obtains m a where "s = m @ '':'' @ a" "scope_module s = m" "scope_action s = Some a" "m \<noteq> ''*''"
proof -
  from assms obtain m a where ma: "split_on (CHR '':'') s = [m, a]" "list_all scope_char m"
    by (auto simp: SCOPE_PATTERN_def split: list.splits)
  have "m \<noteq> ''*''" using ma(2) by (auto simp: scope_char_def is_lower_def is_digit_def)
  with ma that [of m a] split_scope [OF ma(1)] show ?thesis by (simp add: scope_module_def scope_action_def)
qed

text \<open>
  What the scopes of a key grant. For the scopes the service stores and a route that requires
  the action of a module, the match is the intended one: the key holds every scope, every action of
  the module, or this very scope. A key passes the guard of a route exactly when all scopes the
  route declares match and it declares at least one; people are not restricted by scopes.
\<close>

theorem scopes_grant_their_routes:
  assumes "validateScopes granted = Inr ()" and "SCOPE_PATTERN required"
  shows "(matchScope granted required \<longleftrightarrow>
      ''*'' \<in> set granted \<or> scope_module required @ '':*'' \<in> set granted \<or> required \<in> set granted)
    \<and> (is_ok (ScopeGuard declared user) \<longleftrightarrow>
        (\<forall>m. user = Some (Machine m) \<longrightarrow> declared \<noteq> [] \<and> (\<forall>r\<in>set declared. matchScope (mp_scopes m) r)))"
proof
  have valid: "g = ''*'' \<or> SCOPE_PATTERN g" if "g \<in> set granted" for g
    using assms(1) that by (auto simp: validateScopes_def Let_def filter_empty_conv split: if_splits)
  obtain m a where r: "required = m @ '':'' @ a" "scope_module required = m" "scope_action required = Some a"
    using SCOPE_PATTERN_parts [OF assms(2)] by blast
  have "grants_scope required g \<longleftrightarrow> g = ''*'' \<or> g = m @ '':*'' \<or> g = required" if "g \<in> set granted" for g
  proof (cases "g = ''*''")
    case False
    with valid that obtain n b where "g = n @ '':'' @ b" "scope_module g = n" "scope_action g = Some b"
      using SCOPE_PATTERN_parts [of g] by blast
    moreover have "split_on (CHR '':'') (m @ '':*'') = [m, ''*'']"
    proof -
      have "split_on (CHR '':'') required = [m, a]" "CHR '':'' \<notin> set m"
        using assms(2) r by (auto simp: SCOPE_PATTERN_def scope_module_def scope_action_def scope_char_def
            is_lower_def is_digit_def list_all_iff split: list.splits)
      then show ?thesis by (simp add: split_on_append)
    qed
    ultimately show ?thesis using False r
      by (auto simp: grants_scope_def scope_module_def scope_action_def)
  qed (simp add: grants_scope_def)
  then show "matchScope granted required \<longleftrightarrow>
      ''*'' \<in> set granted \<or> scope_module required @ '':*'' \<in> set granted \<or> required \<in> set granted"
    unfolding matchScope_def list_ex_iff r(2) by blast
  show "is_ok (ScopeGuard declared user) \<longleftrightarrow>
      (\<forall>m. user = Some (Machine m) \<longrightarrow> declared \<noteq> [] \<and> (\<forall>r\<in>set declared. matchScope (mp_scopes m) r))"
    by (auto simp: ScopeGuard_def list_all_iff split: option.splits principal.splits)
qed

theorem scopes_grant_their_routes_witness:
  "matchScope [''users:*''] ''users:read'' \<and> \<not> matchScope [''users:*''] ''orders:read''"
proof -
  have "validateScopes [''users:*''] = Inr ()" "SCOPE_PATTERN ''users:read''" "SCOPE_PATTERN ''orders:read''"
    by code_simp+
  moreover have "scope_module ''users:read'' = ''users''" "scope_module ''orders:read'' = ''orders''" by code_simp+
  ultimately show ?thesis using scopes_grant_their_routes by auto
qed

section \<open>Keys and their principals\<close>

lemma usable_key_Some:
  assumes "usable_key hash raw now db = Some k"
  shows "k \<in> set (ac_apiKeys db) \<and> ak_hashedKey k = hash raw \<and> ak_isActive k
    \<and> (\<forall>t. ak_expiresAt k = Some t \<longrightarrow> now < t)"
  using assms by (auto simp: usable_key_def find_Some_iff split: option.splits dest: nth_mem)

lemma use_key_Inr:
  assumes "use_key hash raw now w = (Some (Inr m), w')"
  obtains k where "usable_key hash raw now (as_db w) = Some k" "m = key_principal (as_db w) k"
  using assms by (auto simp: use_key_def split: option.splits prod.splits bool.splits)

lemma user_by_id_Some: "user_by_id db i = Some u \<Longrightarrow> u \<in> set (ac_users db) \<and> us_id u = i"
  by (auto simp: user_by_id_def find_Some_iff)

lemma role_by_id_Some: "role_by_id db i = Some r \<Longrightarrow> r \<in> set (ac_roles db) \<and> ro_id r = i"
  by (auto simp: role_by_id_def find_Some_iff)

lemma acting_user_active:
  "acting_user db k = Some i \<Longrightarrow> ak_actingUserId k = Some i \<and> (\<exists>u\<in>set (ac_users db). us_id u = i \<and> us_isActive u)"
  by (auto simp: acting_user_def split: option.splits if_splits dest: user_by_id_Some)

definition valid_key :: "(string \<Rightarrow> string) \<Rightarrow> http_request \<Rightarrow> account_db \<Rightarrow> api_key \<Rightarrow> bool" where
  "valid_key hash q db k \<longleftrightarrow> (\<exists>raw. rq_apiKey q = OneHeader raw \<and> starts_with raw KEY_PREFIX \<and> ak_hashedKey k = hash raw)
     \<and> k \<in> set (ac_apiKeys db) \<and> ak_isActive k \<and> (\<forall>t. ak_expiresAt k = Some t \<longrightarrow> rq_now q < t)"

lemma api_key_accepted:
  assumes "authenticate_api_key hash rbac q w = (Inr (Some p), w')"
  shows "\<exists>k. valid_key hash q (as_db w) k \<and> p = Machine (key_principal (as_db w) k)"
proof -
  obtain raw m where raw: "rq_apiKey q = OneHeader raw" "starts_with raw KEY_PREFIX" rbac
    "use_key hash raw (rq_now q) w = (Some (Inr m), w')" "p = Machine m"
    using assms by (auto simp: authenticate_api_key_def
        split: header_value.splits if_splits prod.splits option.splits sum.splits)
  obtain k where "usable_key hash raw (rq_now q) (as_db w) = Some k" "m = key_principal (as_db w) k"
    using use_key_Inr [OF raw(4)] by blast
  with raw usable_key_Some have "valid_key hash q (as_db w) k \<and> p = Machine (key_principal (as_db w) k)"
    by (auto simp: valid_key_def)
  then show ?thesis by blast
qed

definition presents_key :: "http_request \<Rightarrow> bool" where
  "presents_key q \<longleftrightarrow> (\<exists>raw. rq_apiKey q = OneHeader raw)"

interpretation api_key_strategy: credential_strategy "ApiKeyMachineStrategy hash rbac" presents_key
    "\<lambda>q w w' p. \<exists>k. valid_key hash q (as_db w) k \<and> p = Machine (key_principal (as_db w) k)"
  by unfold_locales
    (auto simp: ApiKeyMachineStrategy_def presents_key_def dest: api_key_accepted,
      auto simp: authenticate_api_key_def split: header_value.splits if_splits prod.splits option.splits sum.splits)


lemma usable_new_key:
  assumes "insert_api_key k db = Inr db'" and "ak_hashedKey k = hash raw" and "ak_isActive k"
    and "\<forall>t. ak_expiresAt k = Some t \<longrightarrow> now < t"
  shows "usable_key hash raw now db' = Some k"
proof -
  have db': "ac_apiKeys db' = ac_apiKeys db @ [k]" "list_all (\<lambda>k'. ak_hashedKey k' \<noteq> hash raw) (ac_apiKeys db)"
    using assms(1,2) by (auto simp: insert_api_key_def list_ex_iff list_all_iff split: if_splits)
  have "find P (xs @ [k]) = Some k" if "list_all (\<lambda>x. \<not> P x) xs" "P k" for P and xs :: "api_key list"
    using that by (induction xs) auto
  note found = this
  show ?thesis
    unfolding usable_key_def db'(1)
    by (rule found) (use db'(2) assms(2-4) in \<open>auto simp: list_all_iff split: option.splits\<close>)
qed

text \<open>
  C23. A key that has just been created authenticates. The raw key of the answer, presented before it
  expires, is accepted as the machine principal of the new key, with the scopes that were asked for
  and exactly the permissions of its role, and it acts as nobody but the user it was bound to.
\<close>

theorem created_key_authenticates:
  assumes "createApiKey hash random i dto createdBy db = Inr ((raw, k), db')"
    and "rq_apiKey q = OneHeader raw" and "\<forall>t. ck_expiresAt dto = Some t \<longrightarrow> rq_now q < t" and "map_of bs i = None"
  shows "\<exists>m w' r. authenticate_api_key hash True q \<lparr>as_db = db', as_buckets = bs\<rparr> = (Inr (Some (Machine m)), w')
    \<and> mp_sub m = i \<and> mp_scopes m = ck_scopes dto \<and> mp_actingUserId m \<in> {None, ck_actingUserId dto}
    \<and> role_by_id db (ck_roleId dto) = Some r
    \<and> (\<forall>required. permission_granted required (authorization_of (Machine m)) \<longleftrightarrow> role_allows required (grant_of r))"
proof -
  have k: "k = new_api_key hash random i dto createdBy" "raw = KEY_PREFIX @ random" "insert_api_key k db = Inr db'"
    using assms(1) by (auto simp: createApiKey_def bind_result_Inr_iff Let_def)
  have refs: "references_exist db k" "ac_roles db' = ac_roles db"
    using k(3) by (auto simp: insert_api_key_def split: if_splits)
  then obtain r where r: "role_by_id db (ck_roleId dto) = Some r" "role_by_id db' (ck_roleId dto) = Some r"
    using k(1) by (auto simp: references_exist_def new_api_key_def role_by_id_def)
  have u: "usable_key hash raw (rq_now q) db' = Some k"
    using assms(3) k by (intro usable_new_key [OF k(3)]) (auto simp: new_api_key_def)
  let ?m = "key_principal db' k"
  have i: "ak_id k = i" "ak_roleId k = ck_roleId dto" "ak_scopes k = ck_scopes dto" "ak_actingUserId k = ck_actingUserId dto"
    using k(1) by (simp_all add: new_api_key_def)
  obtain w' where "authenticate_api_key hash True q \<lparr>as_db = db', as_buckets = bs\<rparr> = (Inr (Some (Machine ?m)), w')"
    using assms(2,4) k(2) u i(1) by (simp add: authenticate_api_key_def use_key_def check_limit_def Let_def)
  moreover have "permission_granted required (authorization_of (Machine ?m)) \<longleftrightarrow> role_allows required (grant_of r)" for required
    using permission_granted_roles [of required "[grant_of r]", unfolded permission_granted_def]
    by (simp add: authorization_of_def permission_granted_def key_principal_def Let_def i(2) r(2))
  moreover have "mp_actingUserId ?m \<in> {None, ck_actingUserId dto}"
    using acting_user_active [of db' k] i(4) by (cases "acting_user db' k") (auto simp: key_principal_def Let_def)
  ultimately show ?thesis
    using r(1) k(2) i by (auto simp: key_principal_def Let_def)
qed

definition ex_roles_db :: account_db where
  "ex_roles_db = \<lparr>ac_users = [], ac_roles = [\<lparr>ro_id = ''r1'', ro_name = ''ADMIN'', ro_displayName = ''Administrator'', ro_isSystem = True,
      ro_permissionPolicy = ''DENY_ALL'', ro_permissions = []\<rparr>],
     ac_userRoles = [], ac_apiKeys = [], ac_identities = [], ac_audit = []\<rparr>"

definition ex_key_dto :: "string list \<Rightarrow> create_api_key" where
  "ex_key_dto scopes = \<lparr>ck_name = ''bot'', ck_roleId = ''r1'', ck_actingUserId = None, ck_scopes = scopes, ck_rateLimit = None,
     ck_expiresAt = Some 100\<rparr>"

definition ex_api_request :: "string \<Rightarrow> http_request" where
  "ex_api_request raw = \<lparr>rq_apiKey = OneHeader raw, rq_authorization = HeaderAbsent, rq_now = 7\<rparr>"

definition ex_created :: account_db where
  "ex_created = ex_roles_db\<lparr>ac_apiKeys := [new_api_key (\<lambda>s. s) ''00'' ''k1'' (ex_key_dto []) None]\<rparr>"

lemma ex_creates:
  "createApiKey (\<lambda>s. s) ''00'' ''k1'' (ex_key_dto []) None ex_roles_db
    = Inr ((''an_live_00'', new_api_key (\<lambda>s. s) ''00'' ''k1'' (ex_key_dto []) None), ex_created)"
proof -
  let ?k = "new_api_key (\<lambda>s. s) ''00'' ''k1'' (ex_key_dto []) None"
  have "ak_roleId ?k = ''r1''" "ak_actingUserId ?k = None" by (simp_all add: new_api_key_def ex_key_dto_def)
  then have "insert_api_key ?k ex_roles_db = Inr ex_created"
    by (simp add: insert_api_key_def references_exist_def ex_created_def role_by_id_def) (simp add: ex_roles_db_def)
  then show ?thesis
    by (simp add: createApiKey_def validateScopes_def assert_acting_def) (simp add: ex_key_dto_def KEY_PREFIX_def)
qed

theorem created_key_authenticates_witness:
  "\<exists>m w'. authenticate_api_key (\<lambda>s. s) True (ex_api_request ''an_live_00'') \<lparr>as_db = ex_created, as_buckets = []\<rparr>
     = (Inr (Some (Machine m)), w') \<and> mp_sub m = ''k1'' \<and> permission_granted [''X''] (authorization_of (Machine m))"
proof -
  from created_key_authenticates [OF ex_creates, of "ex_api_request ''an_live_00''" "[]"]
  obtain m w' r where m: "authenticate_api_key (\<lambda>s. s) True (ex_api_request ''an_live_00'') \<lparr>as_db = ex_created, as_buckets = []\<rparr>
      = (Inr (Some (Machine m)), w')" "mp_sub m = ''k1''" "role_by_id ex_roles_db ''r1'' = Some r"
    "\<forall>required. permission_granted required (authorization_of (Machine m)) \<longleftrightarrow> role_allows required (grant_of r)"
    by (auto simp: ex_api_request_def ex_key_dto_def)
  have "ro_name r = ''ADMIN''" using m(3) by (auto simp: role_by_id_def ex_roles_db_def)
  then have "role_allows [''X''] (grant_of r)" by (simp add: role_allows_def grant_of_def SYSTEM_ADMIN_ROLE_def)
  with m show ?thesis by blast
qed


end
