(* ===== verification/OidcLogin.thy ===== *)
theory OidcLogin
  imports ApiKeys
begin

text \<open>
  Login by an external identity: \<open>oidc-auth/src/oidc-identity.service.ts\<close>,
  \<open>jwt-verifier.service.ts\<close> and \<open>oidc-interactive.strategy.ts\<close>.
  The lemmas show that the issuer and the subject decide the account of a login, and never the
  email, while other requests change the database between the accesses of the login, and what an
  interactive principal rests on.
\<close>

section \<open>Resolving an identity\<close>

record verified_identity =
  vi_issuer :: string
  vi_subject :: string
  vi_email :: string
  vi_emailVerified :: bool
  vi_name :: "string option"

record resolved_identity =
  re_userId :: string
  re_linkedFromLegacyEmail :: bool
  re_provisioned :: bool

text \<open>White space is the ASCII part of what \<open>trim\<close> removes.\<close>

definition is_space :: "char \<Rightarrow> bool" where
  "is_space c \<longleftrightarrow> c \<in> {CHR 9, CHR 10, CHR 11, CHR 12, CHR 13, CHR 32}"

definition js_trim :: "string \<Rightarrow> string" where
  "js_trim s = rev (dropWhile is_space (rev (dropWhile is_space s)))"

text \<open>
  What a login depends on: whether the store of identities has the policy of \<open>rbac\<close>, the
  name of the App, whether the audit sink fails, and the id the database gives to a new account.
\<close>

record login_env =
  le_rbac :: bool
  le_appName :: string
  le_auditFails :: bool
  le_newId :: string

definition identity_row :: "account_db \<Rightarrow> string \<Rightarrow> string \<Rightarrow> oidc_identity option" where
  "identity_row db issuer subject = find (\<lambda>r. oi_issuer r = issuer \<and> oi_subject r = subject) (ac_identities db)"

definition insert_identity :: "oidc_identity \<Rightarrow> account_db \<Rightarrow> http_failure + account_db" where
  "insert_identity r db =
     (if identity_row db (oi_issuer r) (oi_subject r) \<noteq> None then Inl UNIQUE_VIOLATION
      else Inr (db\<lparr>ac_identities := ac_identities db @ [r]\<rparr>))"

definition delete_identity :: "string \<Rightarrow> string \<Rightarrow> account_db \<Rightarrow> http_failure + account_db" where
  "delete_identity issuer subject db =
     (if identity_row db issuer subject = None then Inl ROW_MISSING
      else Inr (db\<lparr>ac_identities := filter (\<lambda>r. \<not> (oi_issuer r = issuer \<and> oi_subject r = subject)) (ac_identities db)\<rparr>))"

definition record_audit :: "login_env \<Rightarrow> string \<Rightarrow> audit_action \<Rightarrow> string \<Rightarrow> account_db \<Rightarrow> http_failure + account_db" where
  "record_audit env userId action email db =
     (if le_auditFails env then Inl (OtherError ''audit'')
      else Inr (db\<lparr>ac_audit := ac_audit db @ [\<lparr>ae_entityType = ''User'', ae_entityId = userId, ae_action = action,
              ae_actorId = userId, ae_actorEmail = email, ae_appName = le_appName env\<rparr>]\<rparr>))"

text \<open>The mapping and its audit record, in one transaction.\<close>

definition link_transaction ::
    "login_env \<Rightarrow> string \<Rightarrow> string \<Rightarrow> string \<Rightarrow> bool \<Rightarrow> string \<Rightarrow> audit_action \<Rightarrow> account_db \<Rightarrow> http_failure + account_db" where
  "link_transaction env issuer subject userId legacy email action db =
     bind_result (insert_identity \<lparr>oi_issuer = issuer, oi_subject = subject, oi_userId = userId,
       oi_linkedFromLegacyEmail = legacy\<rparr> db) (record_audit env userId action email)"

definition provision_user :: "login_env \<Rightarrow> string \<Rightarrow> string \<Rightarrow> verified_identity \<Rightarrow> account_db \<Rightarrow> http_failure + string \<times> account_db" where
  "provision_user env issuer subject v db =
     bind_result (createUser (le_rbac env) True (le_newId env)
         \<lparr>nu_email = vi_email v, nu_name = vi_name v, nu_isServiceAccount = None, nu_roleIds = None\<rparr> db) (\<lambda>(u, db1).
     bind_result (link_transaction env issuer subject (us_id (uv_user u)) False (vi_email v) AuditCreate db1) (\<lambda>db2.
       Inr (us_id (uv_user u), db2)))"

text \<open>
  Other requests may change the database before every access of the login: \<open>others n\<close> is
  what they do before the access number \<open>n\<close>. After a failed transaction the mapping is read again.
\<close>

type_synonym interference = "nat \<Rightarrow> account_db \<Rightarrow> account_db"

definition link_identity ::
    "login_env \<Rightarrow> interference \<Rightarrow> string \<Rightarrow> string \<Rightarrow> string \<Rightarrow> bool \<Rightarrow> string \<Rightarrow> audit_action \<Rightarrow> account_db
      \<Rightarrow> (http_failure + unit) \<times> account_db" where
  "link_identity env others issuer subject userId legacy email action db =
     (let db1 = others 1 db in
      case link_transaction env issuer subject userId legacy email action db1 of
        Inr db2 \<Rightarrow> (Inr (), db2)
      | Inl e \<Rightarrow>
          let db2 = others 2 db1 in
          (case identity_row db2 issuer subject of
             None \<Rightarrow> (Inl e, db2)
           | Some existing \<Rightarrow>
               if oi_userId existing \<noteq> userId
               then (Inl (Unauthorized ''OIDC identity is already mapped to a different account''), db2)
               else (Inr (), db2)))"

definition NO_ACTIVE_ACCOUNT :: http_failure where
  "NO_ACTIVE_ACCOUNT = Unauthorized ''No active local account for this OIDC identity''"

text \<open>Linking the account that was found by its email.\<close>

definition link_account ::
    "login_env \<Rightarrow> interference \<Rightarrow> string \<Rightarrow> string \<Rightarrow> verified_identity \<Rightarrow> user_row \<Rightarrow> bool \<Rightarrow> account_db
      \<Rightarrow> (http_failure + resolved_identity) \<times> account_db" where
  "link_account env others issuer subject v u legacy db =
     (if \<not> us_isActive u then (Inl NO_ACTIVE_ACCOUNT, db)
      else case link_identity env others issuer subject (us_id u) legacy (vi_email v) AuditUpdate db of
        (Inl e, db') \<Rightarrow> (Inl e, db')
      | (Inr _, db') \<Rightarrow> (Inr \<lparr>re_userId = us_id u, re_linkedFromLegacyEmail = legacy, re_provisioned = False\<rparr>, db'))"

definition link_or_provision ::
    "login_env \<Rightarrow> interference \<Rightarrow> string \<Rightarrow> string \<Rightarrow> verified_identity \<Rightarrow> account_db
      \<Rightarrow> (http_failure + resolved_identity) \<times> account_db" where
  "link_or_provision env others issuer subject v db =
     (if \<not> vi_emailVerified v then (Inl (Unauthorized ''OIDC token email is not verified''), db)
      else let db1 = others 3 db in
      case user_by_email db1 (vi_email v) of
        Some legacy \<Rightarrow> link_account env others issuer subject v legacy True db1
      | None \<Rightarrow>
          let db2 = others 4 db1 in
          (case provision_user env issuer subject v db2 of
             Inr (userId, db3) \<Rightarrow>
               (Inr \<lparr>re_userId = userId, re_linkedFromLegacyEmail = False, re_provisioned = True\<rparr>, db3)
           | Inl e \<Rightarrow>
               let db3 = others 5 db2 in
               (case user_by_email db3 (vi_email v) of
                  None \<Rightarrow> (Inl e, db3)
                | Some winner \<Rightarrow> link_account env others issuer subject v winner False db3)))"

definition resolve_identity ::
    "login_env \<Rightarrow> interference \<Rightarrow> verified_identity \<Rightarrow> account_db \<Rightarrow> (http_failure + resolved_identity) \<times> account_db" where
  "resolve_identity env others v db =
     (let issuer = js_trim (vi_issuer v); subject = js_trim (vi_subject v) in
      if issuer = [] then (Inl (Unauthorized ''OIDC token is missing an issuer claim''), db)
      else if subject = [] then (Inl (Unauthorized ''OIDC token is missing a subject claim''), db)
      else case identity_row db issuer subject of
        None \<Rightarrow> link_or_provision env others issuer subject v db
      | Some existing \<Rightarrow>
          let db1 = others 6 db in
          (case user_by_id db1 (oi_userId existing) of
             Some _ \<Rightarrow> (Inr \<lparr>re_userId = oi_userId existing, re_linkedFromLegacyEmail = False, re_provisioned = False\<rparr>, db1)
           | None \<Rightarrow>
               let db2 = others 7 db1 in
               (case delete_identity issuer subject db2 of
                  Inl e \<Rightarrow> (Inl e, db2)
                | Inr db3 \<Rightarrow> link_or_provision env others issuer subject v db3)))"

section \<open>Tokens and principals\<close>

text \<open>The claims that are read; a claim of another type counts as absent.\<close>

record token_claims =
  tk_iss :: "string option"
  tk_sub :: "string option"
  tk_azp :: "string option"
  tk_email :: "string option"
  tk_emailVerified :: bool
  tk_name :: "string option"

text \<open>
  The JWT library and the key server: the key id of a token that can be decoded, the key of an id,
  and the payload of a token that verifies with a key for an issuer and an audience: its claims, or
  None when it is not an object.
\<close>

record jwt_library =
  jl_kid :: "string \<Rightarrow> string option"
  jl_key :: "string \<Rightarrow> string option"
  jl_verify :: "string \<Rightarrow> string \<Rightarrow> string \<Rightarrow> string \<Rightarrow> token_claims option option"

record oidc_config =
  oc_issuer :: string
  oc_audience :: string

definition assertAuthorizedParty :: "oidc_config \<Rightarrow> token_claims \<Rightarrow> http_failure + unit" where
  "assertAuthorizedParty cfg claims =
     (if \<not> truthy (tk_azp claims)
      then Inl (Unauthorized ''OIDC token has an invalid authorized party claim'')
      else if tk_azp claims \<noteq> Some (oc_audience cfg)
      then Inl (Unauthorized ''OIDC token authorized party does not match this application'')
      else Inr ())"

definition principalFrom :: "bool \<Rightarrow> account_db \<Rightarrow> user_row \<Rightarrow> interactive_principal" where
  "principalFrom rbac db u =
     (let authorization = (if rbac then buildUserContext (rolesForUser db (us_id u))
        else \<lparr>pa_roleNames = [], pa_permissionPolicy = ''DENY_ALL'', pa_permissions = []\<rparr>) in
      \<lparr>pa_roleNames = pa_roleNames authorization, pa_permissionPolicy = pa_permissionPolicy authorization,
       pa_permissions = pa_permissions authorization, ip_sub = us_id u, ip_email = us_email u, ip_name = us_name u,
       ip_roleName = (if SYSTEM_ADMIN_ROLE \<in> set (pa_roleNames authorization) then SYSTEM_ADMIN_ROLE
         else case pa_roleNames authorization of [] \<Rightarrow> [] | r # _ \<Rightarrow> r)\<rparr>)"

text \<open>The account is read first, its roles after it.\<close>

definition buildPrincipal :: "bool \<Rightarrow> account_db \<Rightarrow> account_db \<Rightarrow> string \<Rightarrow> http_failure + interactive_principal" where
  "buildPrincipal rbac db db' userId =
     (case user_by_id db userId of
        None \<Rightarrow> Inl (Unauthorized ''Failed to resolve the local account for this OIDC identity'')
      | Some u \<Rightarrow> if \<not> us_isActive u then Inl NO_ACTIVE_ACCOUNT else Inr (principalFrom rbac db' u))"

definition identity_of_claims :: "token_claims \<Rightarrow> string \<Rightarrow> verified_identity" where
  "identity_of_claims claims email =
     \<lparr>vi_issuer = coalesce (tk_iss claims) [], vi_subject = coalesce (tk_sub claims) [], vi_email = email,
      vi_emailVerified = tk_emailVerified claims, vi_name = tk_name claims\<rparr>"

definition buildOidcJwtUser ::
    "oidc_config \<Rightarrow> bool \<Rightarrow> login_env \<Rightarrow> interference \<Rightarrow> token_claims \<Rightarrow> account_db
      \<Rightarrow> (http_failure + interactive_principal) \<times> account_db" where
  "buildOidcJwtUser cfg rbac env others claims db =
     (case assertAuthorizedParty cfg claims of
        Inl e \<Rightarrow> (Inl e, db)
      | Inr _ \<Rightarrow>
          if \<not> truthy (tk_email claims) then (Inl (Unauthorized ''OIDC token is missing an email claim''), db)
          else (case resolve_identity env others (identity_of_claims claims (the (tk_email claims))) db of
              (Inl e, db') \<Rightarrow> (Inl e, db')
            | (Inr r, db') \<Rightarrow>
                let db1 = others 8 db'; db2 = others 9 db1 in (buildPrincipal rbac db1 db2 (re_userId r), db2)))"

definition verifyJwtToken ::
    "jwt_library \<Rightarrow> oidc_config \<Rightarrow> bool \<Rightarrow> login_env \<Rightarrow> interference \<Rightarrow> string \<Rightarrow> account_db
      \<Rightarrow> (http_failure + interactive_principal) \<times> account_db" where
  "verifyJwtToken jl cfg rbac env others token db =
     (if \<not> truthy (jl_kid jl token) then (Inl (Unauthorized ''OIDC token is missing a key id''), db)
      else case jl_key jl (the (jl_kid jl token)) of
        None \<Rightarrow> (Inl (Unauthorized ''Invalid JWT''), db)
      | Some key \<Rightarrow>
          (case jl_verify jl token key (oc_issuer cfg) (oc_audience cfg) of
             None \<Rightarrow> (Inl (Unauthorized ''Invalid JWT''), db)
           | Some None \<Rightarrow> (Inl (Unauthorized ''OIDC token payload is invalid''), db)
           | Some (Some claims) \<Rightarrow>
               (case assertAuthorizedParty cfg claims of
                  Inl e \<Rightarrow> (Inl e, db)
                | Inr _ \<Rightarrow> buildOidcJwtUser cfg rbac env others claims db)))"

text \<open>\<open>BEARER\<close>: the scheme in any case, a blank, and a token on one line.\<close>

definition bearer_token :: "string \<Rightarrow> string option" where
  "bearer_token h =
     (if to_lower (take 7 h) = ''bearer '' \<and> drop 7 h \<noteq> [] \<and> list_all (\<lambda>c. c \<noteq> CHR 10 \<and> c \<noteq> CHR 13) (drop 7 h)
      then Some (drop 7 h) else None)"

text \<open>An error that is not a refusal of the token becomes one.\<close>

definition as_unauthorized :: "http_failure \<Rightarrow> http_failure" where
  "as_unauthorized e = (case e of Unauthorized m \<Rightarrow> Unauthorized m | _ \<Rightarrow> Unauthorized ''Invalid JWT'')"

definition authenticate_bearer ::
    "jwt_library \<Rightarrow> oidc_config \<Rightarrow> bool \<Rightarrow> login_env \<Rightarrow> interference \<Rightarrow> http_request \<Rightarrow> auth_state
      \<Rightarrow> (http_failure + principal option) \<times> auth_state" where
  "authenticate_bearer jl cfg rbac env others q w =
     (case rq_authorization q of
        OneHeader h \<Rightarrow>
          (case bearer_token h of
             None \<Rightarrow> (Inr None, w)
           | Some token \<Rightarrow>
               (case verifyJwtToken jl cfg rbac env others token (as_db w) of
                  (Inl e, db') \<Rightarrow> (Inl (as_unauthorized e), w\<lparr>as_db := db'\<rparr>)
                | (Inr i, db') \<Rightarrow> (Inr (Some (Interactive i)), w\<lparr>as_db := db'\<rparr>)))
      | _ \<Rightarrow> (Inr None, w))"

definition OidcInteractiveStrategy ::
    "jwt_library \<Rightarrow> oidc_config \<Rightarrow> bool \<Rightarrow> login_env \<Rightarrow> interference \<Rightarrow> (http_request, auth_state) strategy" where
  "OidcInteractiveStrategy jl cfg rbac env others =
     \<lparr>st_id = ''oidc'', st_kind = InteractiveKind, st_authenticate = authenticate_bearer jl cfg rbac env others\<rparr>"

section \<open>The identity decides the account\<close>

definition keeps_identity :: "string \<Rightarrow> string \<Rightarrow> interference \<Rightarrow> bool" where
  "keeps_identity issuer subject others \<longleftrightarrow>
     (\<forall>n db r. identity_row db issuer subject = Some r \<longrightarrow> identity_row (others n db) issuer subject = Some r)"

lemma identity_row_append:
  "identity_row (db\<lparr>ac_identities := ac_identities db @ [r]\<rparr>) issuer subject =
     (case identity_row db issuer subject of
        Some r' \<Rightarrow> Some r'
      | None \<Rightarrow> if oi_issuer r = issuer \<and> oi_subject r = subject then Some r else None)"
proof -
  have "find P (xs @ [r]) = (case find P xs of Some r' \<Rightarrow> Some r' | None \<Rightarrow> if P r then Some r else None)" for P xs
    by (induction xs) auto
  then show ?thesis by (simp add: identity_row_def)
qed

lemma identity_row_other [simp]:
  "identity_row (db\<lparr>ac_audit := a\<rparr>) issuer subject = identity_row db issuer subject"
  "identity_row (db\<lparr>ac_users := us\<rparr>) issuer subject = identity_row db issuer subject"
  "identity_row (db\<lparr>ac_userRoles := urs\<rparr>) issuer subject = identity_row db issuer subject"
  "identity_row (db\<lparr>ac_apiKeys := ks\<rparr>) issuer subject = identity_row db issuer subject"
  by (simp_all add: identity_row_def)

lemma link_transaction_Inr:
  assumes "link_transaction env issuer subject userId legacy email action db = Inr db'"
  shows "\<exists>r. identity_row db' issuer subject = Some r \<and> oi_userId r = userId"
  using assms
  by (auto simp: link_transaction_def bind_result_Inr_iff insert_identity_def record_audit_def identity_row_append
      split: if_splits)

lemma link_identity_Inr:
  assumes "link_identity env others issuer subject userId legacy email action db = (Inr u, db')"
  shows "\<exists>r. identity_row db' issuer subject = Some r \<and> oi_userId r = userId"
  using assms link_transaction_Inr
  by (auto simp: link_identity_def Let_def split: sum.splits option.splits if_splits)

lemma link_account_Inr:
  assumes "link_account env others issuer subject v u legacy db = (Inr r, db')"
  shows "us_isActive u \<and> r = \<lparr>re_userId = us_id u, re_linkedFromLegacyEmail = legacy, re_provisioned = False\<rparr>
    \<and> (\<exists>row. identity_row db' issuer subject = Some row \<and> oi_userId row = us_id u)"
  using assms link_identity_Inr
  by (auto simp: link_account_def split: if_splits prod.splits sum.splits)

lemma provision_Inr:
  assumes "provision_user env issuer subject v db = Inr (i, db')"
  shows "\<exists>row. identity_row db' issuer subject = Some row \<and> oi_userId row = i"
  using assms link_transaction_Inr by (auto simp: provision_user_def bind_result_Inr_iff)

lemma link_or_provision_Inr:
  assumes "link_or_provision env others issuer subject v db = (Inr r, db')"
  shows "vi_emailVerified v \<and> (\<exists>row. identity_row db' issuer subject = Some row \<and> oi_userId row = re_userId r)"
  using assms provision_Inr [of env issuer subject v]
  by (auto simp: link_or_provision_def Let_def split: if_splits option.splits sum.splits dest!: link_account_Inr)

lemma resolve_Inr:
  assumes "resolve_identity env others v db = (Inr r, db')"
    and "keeps_identity (js_trim (vi_issuer v)) (js_trim (vi_subject v)) others"
  shows "js_trim (vi_issuer v) \<noteq> [] \<and> js_trim (vi_subject v) \<noteq> []
    \<and> (\<exists>row. identity_row db' (js_trim (vi_issuer v)) (js_trim (vi_subject v)) = Some row \<and> oi_userId row = re_userId r)
    \<and> (vi_emailVerified v \<or> (\<exists>row. identity_row db (js_trim (vi_issuer v)) (js_trim (vi_subject v)) = Some row
        \<and> oi_userId row = re_userId r))"
  using assms
  by (auto simp: resolve_identity_def Let_def keeps_identity_def
      split: if_splits option.splits sum.splits dest!: link_or_provision_Inr)


definition ex_login_env :: login_env where
  "ex_login_env = \<lparr>le_rbac = False, le_appName = ''app'', le_auditFails = False, le_newId = ''u1''\<rparr>"

definition ex_identity :: "string \<Rightarrow> bool \<Rightarrow> verified_identity" where
  "ex_identity email verified = \<lparr>vi_issuer = '' idp'', vi_subject = ''42'', vi_email = email, vi_emailVerified = verified,
     vi_name = None\<rparr>"

definition ex_user :: user_row where
  "ex_user = \<lparr>us_id = ''u1'', us_email = ''a@x'', us_name = None, us_isActive = True, us_isServiceAccount = False\<rparr>"

definition ex_logged_in :: account_db where
  "ex_logged_in = ex_roles_db\<lparr>ac_users := [ex_user],
     ac_identities := [\<lparr>oi_issuer = ''idp'', oi_subject = ''42'', oi_userId = ''u1'', oi_linkedFromLegacyEmail = False\<rparr>],
     ac_audit := [\<lparr>ae_entityType = ''User'', ae_entityId = ''u1'', ae_action = AuditCreate, ae_actorId = ''u1'',
       ae_actorEmail = ''a@x'', ae_appName = ''app''\<rparr>]\<rparr>"

lemma ex_identity_key: "js_trim (vi_issuer (ex_identity e v)) = ''idp''" "js_trim (vi_subject (ex_identity e v)) = ''42''"
  by (simp_all add: ex_identity_def js_trim_def is_space_def)

lemma ex_first_login:
  "resolve_identity ex_login_env (\<lambda>_ db. db) (ex_identity ''a@x'' True) ex_roles_db =
     (Inr \<lparr>re_userId = ''u1'', re_linkedFromLegacyEmail = False, re_provisioned = True\<rparr>, ex_logged_in)"
proof -
  have "identity_row ex_roles_db ''idp'' ''42'' = None" "user_by_email ex_roles_db ''a@x'' = None" "user_by_id ex_roles_db ''u1'' = None"
    by (simp_all add: identity_row_def user_by_email_def user_by_id_def ex_roles_db_def)
  note empty = this
  have v: "vi_emailVerified (ex_identity ''a@x'' True)" "vi_email (ex_identity ''a@x'' True) = ''a@x''"
    "vi_name (ex_identity ''a@x'' True) = None" by (simp_all add: ex_identity_def)
  have e: "le_rbac ex_login_env = False" "le_newId ex_login_env = ''u1''" "le_appName ex_login_env = ''app''"
    "le_auditFails ex_login_env = False" by (simp_all add: ex_login_env_def)
  have rows: "ac_users ex_roles_db = []" "ac_identities ex_roles_db = []" "ac_audit ex_roles_db = []"
    by (simp_all add: ex_roles_db_def)
  have "provision_user ex_login_env ''idp'' ''42'' (ex_identity ''a@x'' True) ex_roles_db = Inr (''u1'', ex_logged_in)"
    by (simp add: provision_user_def createUser_def roles_of_new_user_def insert_user_def email_race_def Let_def empty v e
        link_transaction_def insert_identity_def record_audit_def rows)
      (simp add: ex_logged_in_def ex_user_def)
  with empty v show ?thesis
    by (simp add: resolve_identity_def link_or_provision_def ex_identity_key)
qed


section \<open>What an interactive principal rests on\<close>

definition sequential :: interference where
  "sequential = (\<lambda>_ db. db)"

lemma sequential_simps [simp]: "sequential n db = db"
  by (simp add: sequential_def)

lemma keeps_identity_sequential: "keeps_identity issuer subject sequential"
  by (simp add: keeps_identity_def sequential_def)

lemma assertAuthorizedParty_Inr: "assertAuthorizedParty cfg claims = Inr u \<longleftrightarrow>
    oc_audience cfg \<noteq> [] \<and> tk_azp claims = Some (oc_audience cfg)"
  by (auto simp: assertAuthorizedParty_def truthy_def split: option.splits)

lemma buildPrincipal_Inr:
  assumes "buildPrincipal rbac db db' i = Inr p"
  obtains u where "user_by_id db i = Some u" "us_isActive u" "p = principalFrom rbac db' u"
  using assms by (auto simp: buildPrincipal_def split: option.splits if_splits)

text \<open>The account of a token: the token verifies, and its identity is mapped to this active account.\<close>

definition token_account :: "jwt_library \<Rightarrow> oidc_config \<Rightarrow> string \<Rightarrow> account_db \<Rightarrow> user_row \<Rightarrow> bool" where
  "token_account jl cfg token db u \<longleftrightarrow> (\<exists>kid key claims row. jl_kid jl token = Some kid \<and> jl_key jl kid = Some key
     \<and> jl_verify jl token key (oc_issuer cfg) (oc_audience cfg) = Some (Some claims) \<and> tk_azp claims = Some (oc_audience cfg)
     \<and> identity_row db (js_trim (coalesce (tk_iss claims) [])) (js_trim (coalesce (tk_sub claims) [])) = Some row
     \<and> oi_userId row = us_id u \<and> u \<in> set (ac_users db) \<and> us_isActive u)"

lemma verified_login:
  assumes "verifyJwtToken jl cfg rbac env sequential token db = (Inr p, db')"
  shows "\<exists>u. token_account jl cfg token db' u \<and> p = principalFrom rbac db' u"
proof -
  obtain kid key claims where c: "jl_kid jl token = Some kid" "jl_key jl kid = Some key"
    "jl_verify jl token key (oc_issuer cfg) (oc_audience cfg) = Some (Some claims)"
    "tk_azp claims = Some (oc_audience cfg)"
    "buildOidcJwtUser cfg rbac env sequential claims db = (Inr p, db')"
    using assms by (auto simp: verifyJwtToken_def truthy_def assertAuthorizedParty_Inr
        split: if_splits option.splits sum.splits)
  then obtain r where r: "resolve_identity env sequential (identity_of_claims claims (the (tk_email claims))) db = (Inr r, db')"
    "buildPrincipal rbac db' db' (re_userId r) = Inr p"
    by (auto simp: buildOidcJwtUser_def sequential_def split: sum.splits if_splits prod.splits)
  obtain u where u: "user_by_id db' (re_userId r) = Some u" "us_isActive u" "p = principalFrom rbac db' u"
    using buildPrincipal_Inr [OF r(2)] by blast
  obtain row where "identity_row db' (js_trim (coalesce (tk_iss claims) [])) (js_trim (coalesce (tk_sub claims) [])) = Some row"
    "oi_userId row = re_userId r"
    using resolve_Inr [OF r(1) keeps_identity_sequential] by (auto simp: identity_of_claims_def)
  with c(1-4) u user_by_id_Some [OF u(1)] have "token_account jl cfg token db' u" unfolding token_account_def by metis
  with u(3) show ?thesis by blast
qed

lemma permission_of_principal:
  "permission_granted required (authorization_of (Interactive (principalFrom rbac db u)))
    \<longleftrightarrow> rbac \<and> (\<exists>r\<in>set (rolesForUser db (us_id u)). role_allows required r)"
proof -
  have "authorization_of (Interactive (principalFrom rbac db u)) = (if rbac then buildUserContext (rolesForUser db (us_id u))
      else \<lparr>pa_roleNames = [], pa_permissionPolicy = ''DENY_ALL'', pa_permissions = []\<rparr>)"
    by (simp add: authorization_of_def principalFrom_def Let_def)
  then show ?thesis
    by (simp add: permission_granted_roles) (simp add: permission_granted_def list_ex_iff)
qed

lemma bearer_accepted:
  assumes "authenticate_bearer jl cfg rbac env sequential q w = (Inr (Some p), w')"
  shows "\<exists>h token u. rq_authorization q = OneHeader h \<and> bearer_token h = Some token
    \<and> token_account jl cfg token (as_db w') u \<and> p = Interactive (principalFrom rbac (as_db w') u)"
proof -
  obtain h token i where a: "rq_authorization q = OneHeader h" "bearer_token h = Some token" "p = Interactive i"
    "verifyJwtToken jl cfg rbac env sequential token (as_db w) = (Inr i, as_db w')"
    using assms by (auto simp: authenticate_bearer_def split: header_value.splits option.splits prod.splits sum.splits)
  with verified_login [OF a(4)] show ?thesis by blast
qed

definition presents_token :: "http_request \<Rightarrow> bool" where
  "presents_token q \<longleftrightarrow> (\<exists>h. rq_authorization q = OneHeader h \<and> bearer_token h \<noteq> None)"

interpretation oidc_strategy: credential_strategy "OidcInteractiveStrategy jl cfg rbac env sequential" presents_token
    "\<lambda>q w w' p. \<exists>h token u. rq_authorization q = OneHeader h \<and> bearer_token h = Some token
       \<and> token_account jl cfg token (as_db w') u \<and> p = Interactive (principalFrom rbac (as_db w') u)"
proof (unfold_locales, goal_cases)
  case (1 q w)
  then show ?case
    by (auto simp: OidcInteractiveStrategy_def authenticate_bearer_def presents_token_def split: header_value.splits)
next
  case (2 q w w')
  then show ?case
    by (auto simp: OidcInteractiveStrategy_def authenticate_bearer_def presents_token_def split: prod.splits sum.splits)
next
  case (3 q w p w')
  then show ?case using bearer_accepted by (simp add: OidcInteractiveStrategy_def)
qed

text \<open>
  C19. What an interactive principal rests on. A login succeeds only with a single bearer token that
  the key of its key id verifies for the issuer and the audience of the application, and that was
  issued to this application. Its issuer and subject are mapped to the account of the principal,
  which exists and is active, and the principal has exactly the permissions of the roles assigned to
  it, none of them without the policy of the roles. A request with a bearer token is never passed on
  to another strategy, and every failure of it is a refusal.
\<close>

theorem interactive_principal_is_backed:
  "(\<forall>p w'. authenticate_bearer jl cfg rbac env sequential q w = (Inr (Some p), w') \<longrightarrow>
      (\<exists>h token u. rq_authorization q = OneHeader h \<and> bearer_token h = Some token
        \<and> token_account jl cfg token (as_db w') u \<and> actingUserIdOf p = Some (us_id u)
        \<and> (\<forall>required. permission_granted required (authorization_of p) \<longleftrightarrow>
             rbac \<and> (\<exists>r\<in>set (rolesForUser (as_db w') (us_id u)). role_allows required r))))
   \<and> (\<forall>h w'. rq_authorization q = OneHeader h \<longrightarrow> bearer_token h \<noteq> None \<longrightarrow>
        authenticate_bearer jl cfg rbac env others q w \<noteq> (Inr None, w'))
   \<and> (\<forall>e w'. authenticate_bearer jl cfg rbac env others q w = (Inl e, w') \<longrightarrow> (\<exists>m. e = Unauthorized m))"
proof (intro conjI allI impI, goal_cases)
  case (1 p w')
  then obtain h token u where u: "rq_authorization q = OneHeader h" "bearer_token h = Some token"
    "token_account jl cfg token (as_db w') u" "p = Interactive (principalFrom rbac (as_db w') u)"
    using bearer_accepted by blast
  have "actingUserIdOf p = Some (us_id u)" using u(4) by (simp add: principalFrom_def Let_def)
  moreover have "permission_granted required (authorization_of p) \<longleftrightarrow>
      rbac \<and> (\<exists>r\<in>set (rolesForUser (as_db w') (us_id u)). role_allows required r)" for required
    unfolding u(4) by (rule permission_of_principal)
  ultimately show ?case using u(1-3) by blast
next
  case (2 h w')
  then show ?case by (auto simp: authenticate_bearer_def split: prod.splits sum.splits)
next
  case (3 e w')
  then show ?case
    by (auto simp: authenticate_bearer_def as_unauthorized_def
        split: header_value.splits option.splits prod.splits sum.splits http_failure.splits)
qed

definition ex_claims :: token_claims where
  "ex_claims = \<lparr>tk_iss = Some '' idp'', tk_sub = Some ''42'', tk_azp = Some ''web'', tk_email = Some ''a@x'',
     tk_emailVerified = True, tk_name = None\<rparr>"

definition ex_jwt :: jwt_library where
  "ex_jwt = \<lparr>jl_kid = (\<lambda>_. Some ''k''), jl_key = (\<lambda>_. Some ''key''),
     jl_verify = (\<lambda>token _ _ _. if token = ''t'' then Some (Some ex_claims) else None)\<rparr>"

definition ex_login_request :: http_request where
  "ex_login_request = \<lparr>rq_apiKey = HeaderAbsent, rq_authorization = OneHeader ''Bearer t'', rq_now = 0\<rparr>"

lemma ex_bearer: "bearer_token ''Bearer t'' = Some ''t''"
  by code_simp

lemma ex_login_accepted:
  "authenticate_bearer ex_jwt \<lparr>oc_issuer = ''idp'', oc_audience = ''web''\<rparr> False ex_login_env sequential ex_login_request
     \<lparr>as_db = ex_roles_db, as_buckets = []\<rparr>
   = (Inr (Some (Interactive (principalFrom False ex_logged_in ex_user))), \<lparr>as_db = ex_logged_in, as_buckets = []\<rparr>)"
proof -
  have "identity_of_claims ex_claims ''a@x'' = ex_identity ''a@x'' True"
    by (simp add: identity_of_claims_def ex_claims_def ex_identity_def)
  moreover have "buildPrincipal False ex_logged_in ex_logged_in ''u1'' = Inr (principalFrom False ex_logged_in ex_user)"
    by (simp add: buildPrincipal_def user_by_id_def ex_logged_in_def ex_user_def)
  moreover have "assertAuthorizedParty \<lparr>oc_issuer = ''idp'', oc_audience = ''web''\<rparr> ex_claims = Inr ()"
    by (simp add: assertAuthorizedParty_def truthy_def ex_claims_def)
  moreover have "tk_email ex_claims = Some ''a@x''" by (simp add: ex_claims_def)
  ultimately have "buildOidcJwtUser \<lparr>oc_issuer = ''idp'', oc_audience = ''web''\<rparr> False ex_login_env sequential ex_claims ex_roles_db
      = (Inr (principalFrom False ex_logged_in ex_user), ex_logged_in)"
    using ex_first_login [folded sequential_def] by (simp add: buildOidcJwtUser_def truthy_def)
  then have "verifyJwtToken ex_jwt \<lparr>oc_issuer = ''idp'', oc_audience = ''web''\<rparr> False ex_login_env sequential ''t'' ex_roles_db
      = (Inr (principalFrom False ex_logged_in ex_user), ex_logged_in)"
    using \<open>assertAuthorizedParty _ ex_claims = Inr ()\<close> by (simp add: verifyJwtToken_def ex_jwt_def truthy_def)
  then show ?thesis by (simp add: authenticate_bearer_def ex_login_request_def ex_bearer)
qed

theorem interactive_principal_is_backed_witness:
  "\<exists>p w'. authenticate_bearer ex_jwt \<lparr>oc_issuer = ''idp'', oc_audience = ''web''\<rparr> False ex_login_env sequential ex_login_request
     \<lparr>as_db = ex_roles_db, as_buckets = []\<rparr> = (Inr (Some p), w')
   \<and> (\<exists>u. token_account ex_jwt \<lparr>oc_issuer = ''idp'', oc_audience = ''web''\<rparr> ''t'' (as_db w') u \<and> actingUserIdOf p = Some (us_id u))"
  using ex_login_accepted ex_bearer
    interactive_principal_is_backed [of ex_jwt "\<lparr>oc_issuer = ''idp'', oc_audience = ''web''\<rparr>" False ex_login_env ex_login_request
      "\<lparr>as_db = ex_roles_db, as_buckets = []\<rparr>" sequential]
  by (fastforce simp: ex_login_request_def)

end
