(* ===== verification/Requests.thy ===== *)
theory Requests
  imports OidcLogin
begin

text \<open>
  Requests of an application that has installed both \<open>oidc-auth\<close> and \<open>m2m-api-key\<close>: the
  chains of guards its controllers declare, over the two strategies. The lemmas show what the
  identity of an accepted request rests on, and that the administration of API keys does not look at
  the scopes of the key that calls it.
\<close>

section \<open>Guarded routes\<close>

definition app_strategies ::
    "jwt_library \<Rightarrow> oidc_config \<Rightarrow> (string \<Rightarrow> string) \<Rightarrow> bool \<Rightarrow> login_env \<Rightarrow> (http_request, auth_state) strategy list" where
  "app_strategies jl cfg hash rbac env =
     [ApiKeyMachineStrategy hash rbac, OidcInteractiveStrategy jl cfg rbac env sequential]"

text \<open>A controller whose guards are an authentication guard and the guard of administrators.\<close>

definition guarded_admin_route ::
    "strategy_kind list \<Rightarrow> ('q, 'w) strategy_registry \<Rightarrow> 'q \<Rightarrow> request_identity \<Rightarrow> 'w
      \<Rightarrow> (http_failure + request_identity) \<times> 'w" where
  "guarded_admin_route kinds reg q ri w =
     (case authenticate_request kinds reg q ri w of
        (Inl e, w') \<Rightarrow> (Inl e, w')
      | (Inr ri', w') \<Rightarrow> (bind_result (SystemAdminGuard (ri_user ri')) (\<lambda>_. Inr ri'), w'))"

text \<open>The creator that is recorded: the email of a person, or the id of the key.\<close>

fun creator_of :: "principal \<Rightarrow> string" where
  "creator_of (Interactive i) = ip_email i"
| "creator_of (Machine m) = ''api-key:'' @ mp_sub m"

text \<open>\<open>POST /api-keys\<close>: people and keys may call it, administrators only; no scope is required.\<close>

definition post_api_key ::
    "(http_request, auth_state) strategy_registry \<Rightarrow> (string \<Rightarrow> string) \<Rightarrow> string \<Rightarrow> string \<Rightarrow> create_api_key
      \<Rightarrow> http_request \<Rightarrow> request_identity \<Rightarrow> auth_state \<Rightarrow> (http_failure + string \<times> api_key) \<times> auth_state" where
  "post_api_key reg hash random i dto q ri w =
     (case guarded_admin_route AppspineAuthGuard reg q ri w of
        (Inl e, w') \<Rightarrow> (Inl e, w')
      | (Inr ri', w') \<Rightarrow>
          (case createApiKey hash random i dto (map_option creator_of (ri_user ri')) (as_db w') of
             Inl e \<Rightarrow> (Inl e, w')
           | Inr (answer, db) \<Rightarrow> (Inr answer, w'\<lparr>as_db := db\<rparr>)))"

section \<open>The identity of an accepted request\<close>

lemma app_guard_strategies:
  assumes "foldM register_strategy ss [] = Inr reg" and "mset ss = mset (app_strategies jl cfg hash rbac env)"
  shows "guard_strategies AppspineAuthGuard reg =
     [OidcInteractiveStrategy jl cfg rbac env sequential, ApiKeyMachineStrategy hash rbac]"
proof -
  let ?o = "OidcInteractiveStrategy jl cfg rbac env sequential" and ?a = "ApiKeyMachineStrategy hash rbac"
  have reg: "reg = ss" "distinct (map st_id ss)" using assms(1) by (auto simp: register_all_Inr_iff)
  have "guard_strategies AppspineAuthGuard ss = guard_strategies AppspineAuthGuard [?a, ?o]"
    using assms(2) reg(2) by (intro guard_strategies_perm) (simp_all add: app_strategies_def)
  also have "\<dots> = [?o, ?a]"
    by (simp add: guard_strategies_def AppspineAuthGuard_def list_strategies_def OidcInteractiveStrategy_def
        ApiKeyMachineStrategy_def)
  finally show ?thesis using reg(1) by simp
qed

lemma accepted_by_app:
  assumes "foldM register_strategy ss [] = Inr reg" and "mset ss = mset (app_strategies jl cfg hash rbac env)"
    and "authenticate_request AppspineAuthGuard reg q ri w = (Inr ri', w')"
  shows "\<exists>p. ri' = attach_principal p ri
    \<and> ((\<exists>h token u. rq_authorization q = OneHeader h \<and> bearer_token h = Some token
           \<and> token_account jl cfg token (as_db w') u \<and> p = Interactive (principalFrom rbac (as_db w') u))
       \<or> \<not> presents_token q \<and> (\<exists>k. valid_key hash q (as_db w) k \<and> p = Machine (key_principal (as_db w) k)))"
proof -
  let ?o = "OidcInteractiveStrategy jl cfg rbac env sequential" and ?a = "ApiKeyMachineStrategy hash rbac"
  obtain p where p: "try_strategies [?o, ?a] q w = (Inr p, w')" "ri' = attach_principal p ri"
    using assms(3) app_guard_strategies [OF assms(1,2)]
    by (auto simp: authenticate_request_def split: prod.splits sum.splits simp del: try_strategies.simps)
  from oidc_strategy.accepted_first [OF p(1)] show ?thesis
  proof
    assume "\<not> presents_token q \<and> try_strategies [?a] q w = (Inr p, w')"
    then show ?thesis using api_key_strategy.accepted_first [of hash rbac "[]" q w p w'] p(2)
      by (auto simp: UNAUTHORIZED_def)
  qed (use p(2) in blast)
qed

text \<open>
  C17. The identity of an accepted request. In an application with both strategies, registered in any
  order, a request is accepted either as the person whose active account the bearer token is mapped
  to, or, only when it carries no bearer token, as the API key that it presents and that is active
  and has not expired. What the guard of administrators lets through has the role \<open>ADMIN\<close>
  assigned to this account or to this key.
\<close>

theorem accepted_request_is_backed:
  assumes "foldM register_strategy ss [] = Inr reg" and "mset ss = mset (app_strategies jl cfg hash rbac env)"
    and "guarded_admin_route AppspineAuthGuard reg q ri w = (Inr ri', w')"
  shows "(\<exists>h token u. rq_authorization q = OneHeader h \<and> bearer_token h = Some token
        \<and> token_account jl cfg token (as_db w') u \<and> ri_user ri' = Some (Interactive (principalFrom rbac (as_db w') u))
        \<and> rbac \<and> (\<exists>r\<in>set (assigned_roles (as_db w') (us_id u)). ro_name r = SYSTEM_ADMIN_ROLE))
    \<or> \<not> presents_token q \<and> (\<exists>k r. valid_key hash q (as_db w) k \<and> ri_user ri' = Some (Machine (key_principal (as_db w) k))
        \<and> role_by_id (as_db w) (ak_roleId k) = Some r \<and> ro_name r = SYSTEM_ADMIN_ROLE)"
proof -
  have auth: "authenticate_request AppspineAuthGuard reg q ri w = (Inr ri', w')"
    and admin: "hasRole (ri_user ri') SYSTEM_ADMIN_ROLE"
    using assms(3) by (auto simp: guarded_admin_route_def SystemAdminGuard_def split: prod.splits sum.splits if_splits)
  obtain p where p: "ri' = attach_principal p ri"
    "(\<exists>h token u. rq_authorization q = OneHeader h \<and> bearer_token h = Some token
           \<and> token_account jl cfg token (as_db w') u \<and> p = Interactive (principalFrom rbac (as_db w') u))
       \<or> \<not> presents_token q \<and> (\<exists>k. valid_key hash q (as_db w) k \<and> p = Machine (key_principal (as_db w) k))"
    using accepted_by_app [OF assms(1,2) auth] by blast
  have user: "ri_user ri' = Some p" "SYSTEM_ADMIN_ROLE \<in> set (role_names p)"
    using p(1) admin by (simp_all add: attach_principal_def set_principal_def hasRole_def)
  have person: "rbac \<and> (\<exists>r\<in>set (assigned_roles db (us_id u)). ro_name r = SYSTEM_ADMIN_ROLE)"
    if "p = Interactive (principalFrom rbac db u)" for db u
  proof -
    have "role_names p = (if rbac then map ro_name (assigned_roles db (us_id u)) else [])"
      using that by (simp add: principalFrom_def Let_def buildUserContext_def rolesForUser_def grant_of_def)
    with user(2) show ?thesis by (cases rbac) force+
  qed
  have key: "\<exists>r. role_by_id db (ak_roleId k) = Some r \<and> ro_name r = SYSTEM_ADMIN_ROLE"
    if "p = Machine (key_principal db k)" for db k
    using user(2) that by (auto simp: key_principal_def Let_def buildUserContext_def grant_of_def split: option.splits)
  from p(2) show ?thesis using user(1) person key by blast
qed

section \<open>Administering keys with a key\<close>

text \<open>
  C25. The administration of API keys does not look at scopes. A key of an administrator without any
  scope, which the scope guard refuses on every route, is accepted by \<open>POST /api-keys\<close> and
  may create a key of any role that holds every scope: the new key passes the scope guard of every
  route that admits keys at all.
\<close>

theorem scopeless_key_creates_key_for_every_route:
  assumes "authenticate_request AppspineAuthGuard reg q ri w = (Inr ri', w')"
    and "ri_user ri' = Some (Machine m)" and "mp_scopes m = []" and "SYSTEM_ADMIN_ROLE \<in> set (pa_roleNames m)"
    and "ck_scopes dto = [''*'']" and "ck_actingUserId dto = None" and "role_by_id (as_db w') (ck_roleId dto) \<noteq> None"
    and "list_all (\<lambda>k. ak_id k \<noteq> i \<and> ak_hashedKey k \<noteq> hash (KEY_PREFIX @ random)) (ac_apiKeys (as_db w'))"
  shows "\<not> is_ok (ScopeGuard declared (Some (Machine m)))
    \<and> (\<exists>k w2. post_api_key reg hash random i dto q ri w = (Inr (KEY_PREFIX @ random, k), w2)
        \<and> k \<in> set (ac_apiKeys (as_db w2)) \<and> ak_roleId k = ck_roleId dto
        \<and> (\<forall>declared. declared \<noteq> [] \<longrightarrow> is_ok (ScopeGuard declared (Some (Machine (key_principal (as_db w2) k))))))"
proof
  show "\<not> is_ok (ScopeGuard declared (Some (Machine m)))"
    using assms(3) by (cases declared) (simp_all add: ScopeGuard_def matchScope_def)
next
  let ?k = "new_api_key hash random i dto (Some (creator_of (Machine m)))"
  let ?db = "(as_db w')\<lparr>ac_apiKeys := ac_apiKeys (as_db w') @ [?k]\<rparr>"
  have k: "ak_roleId ?k = ck_roleId dto" "ak_scopes ?k = [''*'']" "ak_actingUserId ?k = None" "ak_id ?k = i"
    "ak_hashedKey ?k = hash (KEY_PREFIX @ random)"
    using assms(5,6) by (simp_all add: new_api_key_def)
  have "insert_api_key ?k (as_db w') = Inr ?db"
    using assms(7,8) k by (simp add: insert_api_key_def references_exist_def list_ex_iff list_all_iff)
  then have "createApiKey hash random i dto (Some (creator_of (Machine m))) (as_db w') = Inr ((KEY_PREFIX @ random, ?k), ?db)"
    using assms(5,6) by (simp add: createApiKey_def validateScopes_def assert_acting_def Let_def)
  moreover have "guarded_admin_route AppspineAuthGuard reg q ri w = (Inr ri', w')"
    using assms(1,2,4) by (simp add: guarded_admin_route_def SystemAdminGuard_def hasRole_def)
  ultimately have "post_api_key reg hash random i dto q ri w = (Inr (KEY_PREFIX @ random, ?k), w'\<lparr>as_db := ?db\<rparr>)"
    using assms(2) by (simp add: post_api_key_def)
  moreover have "is_ok (ScopeGuard declared (Some (Machine (key_principal ?db ?k))))" if "declared \<noteq> []" for declared
    using that k(2) by (simp add: ScopeGuard_def matchScope_def key_principal_def Let_def list_all_iff)
  ultimately show "\<exists>k w2. post_api_key reg hash random i dto q ri w = (Inr (KEY_PREFIX @ random, k), w2)
        \<and> k \<in> set (ac_apiKeys (as_db w2)) \<and> ak_roleId k = ck_roleId dto
        \<and> (\<forall>declared. declared \<noteq> [] \<longrightarrow> is_ok (ScopeGuard declared (Some (Machine (key_principal (as_db w2) k)))))"
    using k(1) by (intro exI [of _ ?k] exI [of _ "w'\<lparr>as_db := ?db\<rparr>"]) simp
qed

section \<open>An application with one key\<close>

definition ex_registry :: "(http_request, auth_state) strategy list" where
  "ex_registry = app_strategies ex_jwt \<lparr>oc_issuer = ''i'', oc_audience = ''a''\<rparr> (\<lambda>s. s) True ex_login_env"

definition ex_key :: api_key where
  "ex_key = new_api_key (\<lambda>s. s) ''00'' ''k1'' (ex_key_dto []) None"

definition ex_used :: auth_state where
  "ex_used = \<lparr>as_db = ex_created\<lparr>ac_apiKeys := [ex_key\<lparr>ak_lastUsedAt := Some 7\<rparr>]\<rparr>,
     as_buckets = [(''k1'', \<lparr>bu_count = 1, bu_windowStart = 7\<rparr>)]\<rparr>"

definition ex_nobody :: request_identity where
  "ex_nobody = \<lparr>ri_user = None, ri_store = None\<rparr>"

lemma ex_registered: "foldM register_strategy ex_registry [] = Inr ex_registry"
  unfolding register_all_Inr_iff
  by (simp add: ex_registry_def app_strategies_def ApiKeyMachineStrategy_def OidcInteractiveStrategy_def interactive_ones_def)

lemma ex_key_used:
  "use_key (\<lambda>s. s) ''an_live_00'' 7 \<lparr>as_db = ex_created, as_buckets = []\<rparr> = (Some (Inr (key_principal ex_created ex_key)), ex_used)"
proof -
  have k: "ak_hashedKey ex_key = ''an_live_00''" "ak_isActive ex_key" "ak_expiresAt ex_key = Some 100" "ak_id ex_key = ''k1''"
    "ak_rateLimit ex_key = None"
    by (simp_all add: ex_key_def new_api_key_def ex_key_dto_def KEY_PREFIX_def)
  have "ac_apiKeys ex_created = [ex_key]" by (simp add: ex_created_def ex_key_def)
  with k show ?thesis
    by (simp add: use_key_def usable_key_def check_limit_def Let_def ex_used_def map_put_new)
qed

lemma ex_accepted:
  "authenticate_request AppspineAuthGuard ex_registry (ex_api_request ''an_live_00'') ex_nobody \<lparr>as_db = ex_created, as_buckets = []\<rparr>
     = (Inr (attach_principal (Machine (key_principal ex_created ex_key)) ex_nobody), ex_used)"
proof -
  let ?o = "OidcInteractiveStrategy ex_jwt \<lparr>oc_issuer = ''i'', oc_audience = ''a''\<rparr> True ex_login_env sequential"
  let ?a = "ApiKeyMachineStrategy (\<lambda>s. s) True"
  have g: "guard_strategies AppspineAuthGuard ex_registry = [?o, ?a]"
    by (rule app_guard_strategies [OF ex_registered, of ex_jwt _ "\<lambda>s. s" True ex_login_env]) (simp add: ex_registry_def)
  have "authenticate_bearer ex_jwt cfg True ex_login_env sequential (ex_api_request raw) w = (Inr None, w)" for cfg raw w
    by (simp add: authenticate_bearer_def ex_api_request_def)
  moreover have "authenticate_api_key (\<lambda>s. s) True (ex_api_request ''an_live_00'') \<lparr>as_db = ex_created, as_buckets = []\<rparr>
      = (Inr (Some (Machine (key_principal ex_created ex_key))), ex_used)"
    using ex_key_used by (simp add: authenticate_api_key_def ex_api_request_def KEY_PREFIX_def starts_with_def)
  ultimately show ?thesis
    by (simp add: authenticate_request_def g OidcInteractiveStrategy_def ApiKeyMachineStrategy_def)
qed

lemma ex_key_admin:
  "SYSTEM_ADMIN_ROLE \<in> set (pa_roleNames (key_principal ex_created ex_key))" "mp_scopes (key_principal ex_created ex_key) = []"
proof -
  have "ak_roleId ex_key = ''r1''" "ak_scopes ex_key = []" by (simp_all add: ex_key_def new_api_key_def ex_key_dto_def)
  moreover have "role_by_id ex_created ''r1'' = role_by_id ex_roles_db ''r1''" by (simp add: role_by_id_def ex_created_def)
  moreover have "\<exists>r. role_by_id ex_roles_db ''r1'' = Some r \<and> ro_name r = SYSTEM_ADMIN_ROLE"
    by (simp add: role_by_id_def ex_roles_db_def SYSTEM_ADMIN_ROLE_def)
  ultimately show "SYSTEM_ADMIN_ROLE \<in> set (pa_roleNames (key_principal ex_created ex_key))"
    "mp_scopes (key_principal ex_created ex_key) = []"
    by (auto simp: key_principal_def Let_def buildUserContext_def grant_of_def)
qed

theorem accepted_request_is_backed_witness:
  "\<exists>k r. valid_key (\<lambda>s. s) (ex_api_request ''an_live_00'') ex_created k \<and> role_by_id ex_created (ak_roleId k) = Some r
     \<and> ro_name r = SYSTEM_ADMIN_ROLE"
proof -
  let ?ri = "attach_principal (Machine (key_principal ex_created ex_key)) ex_nobody"
  have "guarded_admin_route AppspineAuthGuard ex_registry (ex_api_request ''an_live_00'') ex_nobody \<lparr>as_db = ex_created, as_buckets = []\<rparr>
      = (Inr ?ri, ex_used)"
    using ex_key_admin(1) by (simp add: guarded_admin_route_def ex_accepted SystemAdminGuard_def hasRole_def attach_principal_def set_principal_def)
  moreover have "mset ex_registry = mset (app_strategies ex_jwt \<lparr>oc_issuer = ''i'', oc_audience = ''a''\<rparr> (\<lambda>s. s) True ex_login_env)"
    by (simp add: ex_registry_def)
  ultimately show ?thesis
    using accepted_request_is_backed [OF ex_registered] by (fastforce simp: attach_principal_def set_principal_def)
qed

theorem scopeless_key_creates_key_for_every_route_witness:
  "\<exists>k w. post_api_key ex_registry (\<lambda>s. s) ''01'' ''k2'' (ex_key_dto [''*'']) (ex_api_request ''an_live_00'') ex_nobody
       \<lparr>as_db = ex_created, as_buckets = []\<rparr> = (Inr (''an_live_01'', k), w) \<and> ak_roleId k = ''r1''"
proof -
  let ?ri = "attach_principal (Machine (key_principal ex_created ex_key)) ex_nobody"
  have dto: "ck_scopes (ex_key_dto [''*'']) = [''*'']" "ck_actingUserId (ex_key_dto [''*'']) = None" "ck_roleId (ex_key_dto [''*'']) = ''r1''"
    by (simp_all add: ex_key_dto_def)
  have user: "ri_user ?ri = Some (Machine (key_principal ex_created ex_key))"
    by (simp add: attach_principal_def set_principal_def)
  have role: "role_by_id (as_db ex_used) (ck_roleId (ex_key_dto [''*''])) \<noteq> None"
    by (simp add: role_by_id_def ex_used_def ex_created_def ex_roles_db_def dto)
  have fresh: "list_all (\<lambda>k. ak_id k \<noteq> ''k2'' \<and> ak_hashedKey k \<noteq> (\<lambda>s. s) (KEY_PREFIX @ ''01'')) (ac_apiKeys (as_db ex_used))"
    by (simp add: ex_used_def ex_key_def new_api_key_def KEY_PREFIX_def)
  from scopeless_key_creates_key_for_every_route [where declared = "[]" and hash = "\<lambda>s. s" and random = "''01''" and i = "''k2''", OF ex_accepted user ex_key_admin(2,1) dto(1,2) role fresh]
  obtain k w where "post_api_key ex_registry (\<lambda>s. s) ''01'' ''k2'' (ex_key_dto [''*'']) (ex_api_request ''an_live_00'') ex_nobody
      \<lparr>as_db = ex_created, as_buckets = []\<rparr> = (Inr (KEY_PREFIX @ ''01'', k), w)" "ak_roleId k = ''r1''"
    by (auto simp: dto)
  then show ?thesis by (auto simp: KEY_PREFIX_def)
qed

end
