(* ===== verification/AccountRuns.thy ===== *)
theory AccountRuns
  imports OidcLogin
begin

text \<open>
  Runs of the administration and of the logins: any sequence of the operations on users, roles, API
  keys and identities, in which the two accesses of removing a role may lie apart. The invariant
  keeps the tables consistent and the system roles in place; the last lemma shows what the gap in
  the removal of a role allows.
\<close>

section \<open>Runs\<close>

text \<open>The second component lists the roles whose removal has passed its check.\<close>

record account_run =
  ar_db :: account_db
  ar_removing :: "string list"

inductive account_change :: "(string \<Rightarrow> bool) \<Rightarrow> (string \<Rightarrow> string) \<Rightarrow> account_db \<Rightarrow> account_db \<Rightarrow> bool"
  for permission hash where
  change_create_role: "createRole permission i dto db = Inr (v, db') \<Longrightarrow> account_change permission hash db db'"
| change_update_role: "updateRole permission i udto db = Inr (v, db') \<Longrightarrow> account_change permission hash db db'"
| change_permissions: "replacePermissions permission i ps db = Inr (v, db') \<Longrightarrow> account_change permission hash db db'"
| change_create_user: "createUser rbac tx i nu db = Inr (uv, db') \<Longrightarrow> account_change permission hash db db'"
| change_update_user: "updateUser rbac i uu db = Inr (uv, db') \<Longrightarrow> account_change permission hash db db'"
| change_user_roles: "updateRoles rbac i rs db = Inr (uv, db') \<Longrightarrow> account_change permission hash db db'"
| change_remove_user: "removeUser rbac i db = Inr db' \<Longrightarrow> account_change permission hash db db'"
| change_create_key: "createApiKey hash random i ck by db = Inr (kv, db') \<Longrightarrow> account_change permission hash db db'"
| change_update_key: "updateApiKey i uk db = Inr (k, db') \<Longrightarrow> account_change permission hash db db'"
| change_remove_key: "removeApiKey i db = Inr db' \<Longrightarrow> account_change permission hash db db'"
| change_use_key: "use_key hash raw now \<lparr>as_db = db, as_buckets = bs\<rparr> = (answer, w) \<Longrightarrow> account_change permission hash db (as_db w)"

inductive account_step :: "(string \<Rightarrow> bool) \<Rightarrow> (string \<Rightarrow> string) \<Rightarrow> account_run \<Rightarrow> account_run \<Rightarrow> bool"
  for permission hash where
  step_change: "account_change permission hash (ar_db s) db' \<Longrightarrow> account_step permission hash s (s\<lparr>ar_db := db'\<rparr>)"
| step_login: "resolve_identity env sequential v (ar_db s) = (r, db') \<Longrightarrow> account_step permission hash s (s\<lparr>ar_db := db'\<rparr>)"
| step_check: "check_remove_role i (ar_db s) = Inr () \<Longrightarrow>
     account_step permission hash s (s\<lparr>ar_removing := i # ar_removing s\<rparr>)"
| step_delete: "i \<in> set (ar_removing s) \<Longrightarrow> delete_role i (ar_db s) = Inr db' \<Longrightarrow>
     account_step permission hash s (s\<lparr>ar_db := db', ar_removing := remove1 i (ar_removing s)\<rparr>)"

section \<open>Consistent tables\<close>

definition users_ok :: "account_db \<Rightarrow> bool" where
  "users_ok db \<longleftrightarrow> distinct (map us_id (ac_users db)) \<and> distinct (map us_email (ac_users db))"

definition roles_ok :: "account_db \<Rightarrow> bool" where
  "roles_ok db \<longleftrightarrow> distinct (map ro_id (ac_roles db)) \<and> distinct (map ro_name (ac_roles db))"

definition assignments_ok :: "account_db \<Rightarrow> bool" where
  "assignments_ok db \<longleftrightarrow> distinct (ac_userRoles db)
     \<and> (\<forall>a\<in>set (ac_userRoles db). fst a \<in> us_id ` set (ac_users db) \<and> snd a \<in> ro_id ` set (ac_roles db))"

definition key_ok :: "account_db \<Rightarrow> api_key \<Rightarrow> bool" where
  "key_ok db k \<longleftrightarrow> ak_roleId k \<in> ro_id ` set (ac_roles db) \<and> set_option (ak_actingUserId k) \<subseteq> us_id ` set (ac_users db)
     \<and> list_all (\<lambda>s. s = ''*'' \<or> SCOPE_PATTERN s) (ak_scopes k)"

definition keys_ok :: "account_db \<Rightarrow> bool" where
  "keys_ok db \<longleftrightarrow> distinct (map ak_id (ac_apiKeys db)) \<and> distinct (map ak_hashedKey (ac_apiKeys db))
     \<and> (\<forall>k\<in>set (ac_apiKeys db). key_ok db k)"

definition identities_ok :: "account_db \<Rightarrow> bool" where
  "identities_ok db \<longleftrightarrow> distinct (map (\<lambda>r. (oi_issuer r, oi_subject r)) (ac_identities db))"

definition db_ok :: "account_db \<Rightarrow> bool" where
  "db_ok db \<longleftrightarrow> users_ok db \<and> roles_ok db \<and> assignments_ok db \<and> keys_ok db \<and> identities_ok db"


text \<open>
  System roles stay, under their name, the administrator with its explicit permissions, and no role
  becomes one.
\<close>

definition system_kept :: "account_db \<Rightarrow> account_db \<Rightarrow> bool" where
  "system_kept db db' \<longleftrightarrow>
     (\<forall>r\<in>set (ac_roles db). ro_isSystem r \<longrightarrow>
        (\<exists>r'\<in>set (ac_roles db'). ro_id r' = ro_id r \<and> ro_name r' = ro_name r \<and> ro_isSystem r'
           \<and> (ro_name r = SYSTEM_ADMIN_ROLE \<longrightarrow> ro_permissions r' = ro_permissions r)))
     \<and> (\<forall>r'\<in>set (ac_roles db'). ro_isSystem r' \<longrightarrow> (\<exists>r\<in>set (ac_roles db). ro_id r = ro_id r' \<and> ro_isSystem r))"

definition good_change :: "account_db \<Rightarrow> account_db \<Rightarrow> bool" where
  "good_change db db' \<longleftrightarrow> (db_ok db \<longrightarrow> db_ok db') \<and> (db_ok db \<longrightarrow> system_kept db db')"

lemma system_kept_same: "ac_roles db' = ac_roles db \<Longrightarrow> system_kept db db'"
  by (auto simp: system_kept_def)


lemma good_refl [simp]: "good_change db db"
  by (simp add: good_change_def system_kept_same)


lemma by_id_None:
  "user_by_id db i = None \<longleftrightarrow> i \<notin> us_id ` set (ac_users db)" "user_by_email db e = None \<longleftrightarrow> e \<notin> us_email ` set (ac_users db)"
  "role_by_id db i = None \<longleftrightarrow> i \<notin> ro_id ` set (ac_roles db)" "role_by_name db n = None \<longleftrightarrow> n \<notin> ro_name ` set (ac_roles db)"
  "api_key_by_id db i = None \<longleftrightarrow> i \<notin> ak_id ` set (ac_apiKeys db)"
  by (auto simp: user_by_id_def user_by_email_def role_by_id_def role_by_name_def api_key_by_id_def find_None_iff image_iff)

section \<open>The primitive operations\<close>






definition same_role :: "role_row \<Rightarrow> role_row \<Rightarrow> bool" where
  "same_role r r' \<longleftrightarrow> ro_id r' = ro_id r \<and> ro_name r' = ro_name r \<and> ro_isSystem r' = ro_isSystem r"











section \<open>The operations\<close>







lemma same_role_updates [simp]:
  "same_role r (update_metadata dto r)" "same_role r ((update_metadata dto r)\<lparr>ro_permissions := ps\<rparr>)"
  "same_role r (r\<lparr>ro_permissions := ps\<rparr>)"
  by (simp_all add: same_role_def update_metadata_def)













section \<open>Logins\<close>









section \<open>The invariant of the runs\<close>










section \<open>The gap in the removal of a role\<close>

text \<open>
  C26. The check of a removal does not protect an assignment. When a role is given to a user between
  the check and the deletion, the check would refuse it now, but the deletion goes through and
  takes the assignment with it: the user is left without the role it was just answered to have.
\<close>

theorem assigned_role_can_vanish:
  assumes "check_remove_role i db = Inr ()" and "updateRoles True u [i] db = Inr (v, db1)"
  shows "\<exists>db2. (account_step permission hash)\<^sup>*\<^sup>* \<lparr>ar_db = db, ar_removing = []\<rparr> \<lparr>ar_db = db2, ar_removing = []\<rparr>
    \<and> map pr_id (uv_roles v) = [i] \<and> \<not> is_ok (check_remove_role i db1)
    \<and> role_by_id db2 i = None \<and> assigned_roles db2 u = [] \<and> user_by_id db2 u \<noteq> None"
proof -
  obtain role where role: "role_by_id db i = Some role" "ro_id role = i" "\<forall>k\<in>set (ac_apiKeys db). ak_roleId k \<noteq> i"
    using assms(1) by (auto simp: check_remove_role_def mapRole_def filter_empty_conv split: option.splits if_splits
        dest: role_by_id_Some)
  obtain row where row: "user_by_id db u = Some row" "us_id row = u"
    using assms(2) by (cases "user_by_id db u") (auto simp: updateRoles_def findUser_def dest: user_by_id_Some)
  have db1: "db1 = db\<lparr>ac_userRoles := filter (\<lambda>a. fst a \<noteq> u) (ac_userRoles db) @ [(u, i)]\<rparr>"
    using assms(2) by (auto simp: updateRoles_def bind_result_Inr_iff replaceUserRoles_def split: if_splits)
  then have "user_by_id db1 u = Some row" using row(1) by (simp add: user_by_id_def)
  then have v: "v = user_with_roles True db1 row"
    using assms(2) by (auto simp: updateRoles_def bind_result_Inr_iff findUser_def)
  have none: "List.map_filter (\<lambda>a. if fst a = u then g a else None) (filter (\<lambda>a. fst a \<noteq> u) xs) = []" for g :: "string \<times> string \<Rightarrow> role_row option" and xs
    by (induction xs) auto
  have app: "List.map_filter g (xs @ ys) = List.map_filter g xs @ List.map_filter g ys" for g :: "string \<times> string \<Rightarrow> role_row option" and xs ys
    by (induction xs) (auto split: option.splits)
  have "map pr_id (uv_roles v) = [i]"
    using role(1,2) db1 v row(2)
    by (simp add: user_with_roles_def assigned_roles_def app none publicRole_def role_by_id_def)
  moreover have "\<not> is_ok (check_remove_role i db1)"
    using role(1,2) db1 by (simp add: check_remove_role_def mapRole_def role_by_id_def split: if_splits)
  moreover
  define db2 where "db2 = db1\<lparr>ac_roles := filter (\<lambda>r. ro_id r \<noteq> i) (ac_roles db1), ac_userRoles := filter (\<lambda>a. snd a \<noteq> i) (ac_userRoles db1)\<rparr>"
  have "delete_role i db1 = Inr db2"
    using role db1 by (auto simp: delete_role_def db2_def role_by_id_def list_ex_iff)
  then have "(account_step permission hash)\<^sup>*\<^sup>* \<lparr>ar_db = db, ar_removing = []\<rparr> \<lparr>ar_db = db2, ar_removing = []\<rparr>"
    using step_check [of i "\<lparr>ar_db = db, ar_removing = []\<rparr>" permission hash, OF _] assms(1)
      step_change [of permission hash "\<lparr>ar_db = db, ar_removing = [i]\<rparr>" db1] change_user_roles [OF assms(2)]
      step_delete [of i "\<lparr>ar_db = db1, ar_removing = [i]\<rparr>" db2 permission hash]
    by (auto intro: converse_rtranclp_into_rtranclp)
  moreover have "assigned_roles db2 u = []"
  proof -
    have "filter (\<lambda>a. snd a \<noteq> i) (ac_userRoles db1) = filter (\<lambda>a. fst a \<noteq> u) (filter (\<lambda>a. snd a \<noteq> i) (ac_userRoles db))"
      using db1 by (simp add: conj_commute)
    then show ?thesis by (simp add: assigned_roles_def db2_def none del: filter_filter)
  qed
  moreover have "role_by_id db2 i = None" by (auto simp: db2_def by_id_None)
  moreover
  have "user_by_id db2 u = user_by_id db1 u" by (simp add: db2_def user_by_id_def)
  then have "user_by_id db2 u \<noteq> None" using \<open>user_by_id db1 u = Some row\<close> by simp
  ultimately show ?thesis by (intro exI [of _ db2] conjI)
qed

definition ex_spare_role :: role_row where
  "ex_spare_role = \<lparr>ro_id = ''r9'', ro_name = ''AUDITOR'', ro_displayName = ''Auditor'', ro_isSystem = False,
     ro_permissionPolicy = ''CUSTOM'', ro_permissions = []\<rparr>"

definition ex_spare_db :: account_db where
  "ex_spare_db = \<lparr>ac_users = [\<lparr>us_id = ''u1'', us_email = ''a@x'', us_name = None, us_isActive = True, us_isServiceAccount = False\<rparr>],
     ac_roles = [ex_spare_role], ac_userRoles = [], ac_apiKeys = [], ac_identities = [], ac_audit = []\<rparr>"

theorem assigned_role_can_vanish_witness:
  "\<exists>db2. (account_step (\<lambda>_. True) (\<lambda>s. s))\<^sup>*\<^sup>* \<lparr>ar_db = ex_spare_db, ar_removing = []\<rparr> \<lparr>ar_db = db2, ar_removing = []\<rparr>
    \<and> role_by_id db2 ''r9'' = None \<and> assigned_roles db2 ''u1'' = [] \<and> user_by_id db2 ''u1'' \<noteq> None"
proof -
  have "check_remove_role ''r9'' ex_spare_db = Inr ()" by code_simp
  moreover obtain v db1 where "updateRoles True ''u1'' [''r9''] ex_spare_db = Inr (v, db1)"
    by (cases "updateRoles True ''u1'' [''r9''] ex_spare_db")
      (auto simp: updateRoles_def findUser_def user_by_id_def requireRbac_def replaceUserRoles_def role_by_id_def ex_spare_db_def ex_spare_role_def)
  ultimately show ?thesis
    using assigned_role_can_vanish [of "''r9''" ex_spare_db "''u1''" v db1 "\<lambda>_. True" "\<lambda>s. s"] by blast
qed

end
