(* ===== verification/Spec2Isabelle.thy ===== *)
theory Spec2Isabelle
  imports Booting Resolution ConfigBoundary ManifestSource Presets ChangePlan Artifacts Composition Lockfile CommandEffects
    Webhook Receipts OutboxTicks Requests AccountRuns
begin

text \<open>
  A verification development for the Appspine plugin platform: the packages \<open>plugin-api\<close>,
  \<open>plugin-cli\<close>, \<open>integration-contracts\<close> and \<open>domain-events\<close>, and the
  authentication and authorization of \<open>plugin-host-nest\<close>, \<open>rbac\<close>,
  \<open>identity-core\<close>, \<open>m2m-api-key\<close> and \<open>oidc-auth\<close>, under
  \<open>src/packages\<close>.

  \<^bold>\<open>The program.\<close>
  An application lists its plugins in the inventory file \<open>appspine.plugins.json\<close>.
  \<open>plugin-api\<close> loads the manifests of the packages, resolves inventory and manifests to a
  graph with a registration order, and at run time boots the plugins of the graph in this order and
  shuts them down in reverse. \<open>plugin-cli\<close> is the command line tool that edits the
  inventory and writes what follows from it: the lockfile, the generated composition of the backend,
  the frontend artefacts and the Prisma schema.
  The running applications exchange domain events: a producer writes an event with its deliveries in
  one transaction (the outbox of \<open>domain-events\<close>), dispatchers claim the deliveries and hand
  them to the registered handlers, one of which may post a webhook that is signed as
  \<open>integration-contracts\<close> prescribes; the receiving application verifies the signature and
  processes the event once, under a receipt.
  A request to an application is authenticated by the strategies its plugins register, as a person
  (a bearer token whose issuer and subject are mapped to an account) or as an API key, and then
  authorized by the roles of the account or key, and the scopes of the key.

  \<^bold>\<open>Values and files.\<close>
  \<^descr> \<open>Prelude\<close>: strings, stable sorting, insertion-ordered maps and sets, fallible
    results (\<open>bind_result\<close>, \<open>collect\<close>); the shared automation.
  \<^descr> \<open>Json\<close>: JavaScript values (\<open>jv\<close>), \<open>JSON.stringify\<close> on them, and
    the injectivity of the text.
  \<^descr> \<open>Files\<close>: the paths and the synchronous file operations the tool uses, over a map
    from paths to nodes.

  \<^bold>\<open>plugin-api.\<close>
  \<^descr> \<open>Manifest\<close> (\<open>manifest.ts\<close>, \<open>inventory.ts\<close>): the types of manifests
    and inventories.
  \<^descr> \<open>Diagnostics\<close> (\<open>diagnostics.ts\<close>, \<open>errors.ts\<close>): diagnostics and the
    redaction of secrets. No value below a secret key survives redaction.
  \<^descr> \<open>Canonicalize\<close> (\<open>loader/canonicalize.ts\<close>): canonical JSON and the digests.
    Canonical texts agree exactly for documents that are equal up to the order of keys.
  \<^descr> \<open>Loader\<close> (\<open>loader/*.ts\<close>): engine checks, the structural validation (a
    parameter) and the semantic rules. The lemmas characterise the accepted candidates and show that
    a loaded manifest satisfies every rule and carries its digests.
  \<^descr> \<open>Topology\<close>, \<open>Resolver\<close>, \<open>Resolution\<close> (\<open>resolver/index.ts\<close>):
    the deterministic ordering loop, the diagnostics and the graph; and what the resolver
    guarantees: a declarative description of the inputs that resolve, the order, and that the order
    of the inputs does not matter. The ordering loop removes an instance in every round, so it is a
    total function without fuel.
  \<^descr> \<open>Lifecycle\<close>, \<open>Booting\<close> (\<open>lifecycle.ts\<close>, \<open>capabilities.ts\<close>,
    \<open>runtime/index.ts\<close>): the capability registry and the runner. A hook is an
    outcome (finished, failed, later than the timeout); the lemmas give the status of every instance
    and the order of the stages and of the shutdown.

  \<^bold>\<open>plugin-cli.\<close>
  \<^descr> \<open>InventoryFile\<close>, \<open>ConfigBoundary\<close>, \<open>ManifestSource\<close>, \<open>Presets\<close>:
    reading and writing the inventory, the rule that keeps secrets out of it, finding the manifests,
    and expanding presets.
  \<^descr> \<open>ChangePlan\<close>: plans of file changes, the line diff (a longest common subsequence) and
    applying a plan; a dry run shows what is written.
  \<^descr> \<open>Artifacts\<close>, \<open>Lockfile\<close>, \<open>Composition\<close>, \<open>Permissions\<close>,
    \<open>PrismaComposer\<close>, \<open>FrontendOrder\<close>, \<open>Frontend\<close>: the generators with their
    drift detection. A generator's contribution to the text of a file is modelled where the source
    decides something; the lemmas give when a generator succeeds, uniqueness and order of what it
    emits, and that writing removes every drift.
  \<^descr> \<open>CliShell\<close>, \<open>Commands\<close>, \<open>CommandEffects\<close> (\<open>cli.ts\<close>,
    \<open>commands/*.ts\<close>, \<open>generators.ts\<close>): the argument parser, the exit codes and the
    commands as functions from files to files; which files a command may write, what an accepted
    edit leaves on disk, and that a build is current right after it ran.

  \<^bold>\<open>Events between applications.\<close>
  \<^descr> \<open>Contracts\<close> (\<open>integration-contracts/src/canonical.ts\<close>, \<open>envelope.ts\<close>,
    \<open>delivery.ts\<close>, \<open>manifest.ts\<close>): canonical text, frozen metadata and envelopes,
    contract manifests, delivery outcomes with their bounds.
  \<^descr> \<open>Webhook\<close> (\<open>integration-contracts/src/webhook.ts\<close>): signing and verifying.
    A signed request verifies; a verified one has the signed fields, unless the HMAC collides.
  \<^descr> \<open>EventRegistry\<close> (\<open>domain-event-registry.ts\<close>,
    \<open>domain-event-subscriber.decorator.ts\<close>): registration and routing. The locale
    \<open>delivery_routing\<close> states what a dispatcher needs from the registry; it is interpreted on
    the model of the registry.
  \<^descr> \<open>Outbox\<close>, \<open>OutboxRuns\<close>, \<open>OutboxTicks\<close>
    (\<open>domain-event-dispatcher.service.ts\<close>, \<open>types.ts\<close>,
    \<open>admin/domain-events-admin.service.ts\<close>): the rows and the operations on them; a step
    relation in which producers, any number of dispatchers, lost workers and administrators
    interleave, with its invariants; and the ticks of one dispatcher, which are runs of this
    relation and end every delivery in a number of ticks that the attempts left bound.
  \<^descr> \<open>Receipts\<close> (\<open>receipt.ts\<close>): the transaction of the receiver and the races
    between calls; a callback takes effect once.

  \<^bold>\<open>Accounts and access.\<close>
  \<^descr> \<open>Access\<close> (\<open>plugin-host-nest/src/auth\<close>, the guards of \<open>rbac\<close>,
    \<open>m2m-api-key\<close> and \<open>metadata-schema\<close>): strategies, guards, the flattening of roles
    and the matching of scopes. The locale \<open>credential_strategy\<close> states what a guard relies
    on in a strategy; it is interpreted on both strategies below.
  \<^descr> \<open>Accounts\<close> (\<open>rbac-policy.service.ts\<close>, \<open>roles.service.ts\<close>,
    \<open>users.service.ts\<close>, \<open>identity-store.service.ts\<close>): the tables with the
    constraints of the Prisma fragments, and the administration of roles and users.
  \<^descr> \<open>ApiKeys\<close> (\<open>api-keys.service.ts\<close>, \<open>api-key-rate-limiter.ts\<close>,
    \<open>api-key-machine.strategy.ts\<close>, \<open>api-key.guard.ts\<close>): keys and their limiter; when
    a key authenticates, and how many requests pass in a minute.
  \<^descr> \<open>OidcLogin\<close> (\<open>oidc-identity.service.ts\<close>, \<open>jwt-verifier.service.ts\<close>,
    \<open>oidc-interactive.strategy.ts\<close>): resolving an identity while other requests change the
    database, and what an interactive principal rests on.
  \<^descr> \<open>Requests\<close> (\<open>api-keys.controller.ts\<close>): the guards in a row, over both
    strategies.
  \<^descr> \<open>AccountRuns\<close>: a step relation of all administration and logins, its invariant
    and the gap in the removal of a role.

  \<^bold>\<open>Parameters.\<close>
  Code outside the repository is an argument of the definitions: the ranges and comparison of
  \<open>semver\<close>, the Ajv validator of the manifest schema, SHA-256 and HMAC, \<open>JSON.parse\<close>,
  the locale's collation, \<open>Number\<close> and \<open>Date.parse\<close>, the clock, the lease ids, random
  bytes, the verification of a JWT and its key server, the enumeration of permissions, the hooks of plugins,
  the handlers of events and the callbacks of receipts. What a theorem needs of
  them is a premise of the theorem, for instance that the hash or the HMAC does not collide on the
  two texts at hand, and its witness instantiates them.

  \<^bold>\<open>Bounds.\<close>
  No definition uses fuel. Loops are recursions with a measure (the ordering loops, the diff), and
  JavaScript numbers are integers or rationals where the source only compares, adds and rounds them.

  \<^bold>\<open>Not modelled.\<close>
  Promise scheduling below the granularity of a database transaction or of a hook; logging; failures
  of the database and of the file system other than the ones named in the theories. Of
  \<open>plugin-cli\<close> the process entry point. Of \<open>integration-contracts\<close> the JSON Schema
  checker, the compatibility report and the destination policy; of \<open>domain-events\<close> the Nest
  module, the HTTP client of the webhook and the schema drift check. Of the packages around accounts
  the Nest modules, the listings (a page of a query to the database), the controllers but one, which
  call the modelled operations and record an audit entry, the validation of request bodies, and the
  delegated login of \<open>oidc-auth\<close>. The remaining packages are not modelled:
  \<open>oidc-delegation\<close>, \<open>mcp-server\<close>, \<open>notification\<close>,
  \<open>audit-log\<close>, \<open>common\<close>, \<open>master-data-client\<close>, \<open>health-check\<close> and
  the dictionary of \<open>metadata-schema\<close> are adapters of a framework, a table or another service;
  \<open>frontend-shell\<close> renders; \<open>scripts\<close> are checks of the repository.
\<close>

end
